(* ===== verification/Prelude.thy ===== *)
theory Prelude
  imports
    Main
    "HOL-Library.Char_ord"
    "HOL-Library.List_Lexorder"
    "HOL-Library.Product_Lexorder"
    "HOL-Library.Option_ord"
begin

text \<open>
  Shared vocabulary of the development: the Rust types the crate uses everywhere
  (\<open>Result\<close>, \<open>str\<close>, \<open>BTreeMap\<close>, \<open>BTreeSet\<close>, \<open>Path\<close>) with the operations of the
  standard library the modelled code calls on them, and the lemma collections that the
  component theories use.

  A Rust \<open>str\<close> is a \<open>string\<close>: the list of its UTF-8 bytes, so that \<open>length\<close> is Rust's
  \<open>len()\<close> and the lexicographic order of \<open>HOL-Library.List_Lexorder\<close> is Rust's byte
  order. \<open>chars\<close> decodes the code points.
\<close>

section \<open>Results\<close>

type_synonym error = string

text \<open>\<open>Result<T, String>\<close>: \<open>Inl\<close> carries the error message, \<open>Inr\<close> the value.\<close>

type_synonym 'a result = "error + 'a"

named_theorems result_simps "evaluation and inversion of the error monad"

text \<open>The \<open>?\<close> operator: continue with the value, or return the error early.\<close>

fun and_then :: "'e + 'a \<Rightarrow> ('a \<Rightarrow> 'e + 'b) \<Rightarrow> 'e + 'b" where
  "and_then (Inl e) f = Inl e"
| "and_then (Inr x) f = f x"

text \<open>\<open>if bad { return Err(msg) }\<close>.\<close>

definition reject_if :: "bool \<Rightarrow> 'e \<Rightarrow> 'e + unit" where
  "reject_if bad e = (if bad then Inl e else Inr ())"

fun is_ok :: "'e + 'a \<Rightarrow> bool" where
  "is_ok (Inl _) = False"
| "is_ok (Inr _) = True"

text \<open>\<open>for x in xs { f(x)?; }\<close>.\<close>

fun check_all :: "('a \<Rightarrow> 'e + unit) \<Rightarrow> 'a list \<Rightarrow> 'e + unit" where
  "check_all f [] = Inr ()"
| "check_all f (x # xs) = and_then (f x) (\<lambda>_. check_all f xs)"

text \<open>\<open>xs.iter().map(f).collect::<Result<Vec<_>, _>>()\<close>.\<close>

fun map_result :: "('a \<Rightarrow> 'e + 'b) \<Rightarrow> 'a list \<Rightarrow> 'e + 'b list" where
  "map_result f [] = Inr []"
| "map_result f (x # xs) =
     and_then (f x) (\<lambda>y. and_then (map_result f xs) (\<lambda>ys. Inr (y # ys)))"

text \<open>\<open>for x in xs { state = step(x, state)?; }\<close>.\<close>

fun fold_result :: "('a \<Rightarrow> 's \<Rightarrow> 'e + 's) \<Rightarrow> 'a list \<Rightarrow> 's \<Rightarrow> 'e + 's" where
  "fold_result f [] s = Inr s"
| "fold_result f (x # xs) s = and_then (f x s) (fold_result f xs)"

lemma and_then_Inr [result_simps]:
  "and_then x f = Inr y \<longleftrightarrow> (\<exists>a. x = Inr a \<and> f a = Inr y)"
  by (cases x) auto

lemma and_then_Inl:
  "and_then x f = Inl e \<longleftrightarrow> x = Inl e \<or> (\<exists>a. x = Inr a \<and> f a = Inl e)"
  by (cases x) auto

lemma reject_if_Inr [result_simps]: "reject_if b e = Inr u \<longleftrightarrow> \<not> b"
  by (simp add: reject_if_def)

lemma reject_if_Inl [result_simps]: "reject_if b e = Inl e' \<longleftrightarrow> b \<and> e' = e"
  by (auto simp: reject_if_def)

lemma reject_if_simps [simp]: "reject_if True e = Inl e" "reject_if False e = Inr ()"
  by (simp_all add: reject_if_def)

lemma is_ok_iff: "is_ok r \<longleftrightarrow> (\<exists>x. r = Inr x)"
  by (cases r) auto

lemma check_all_Inr [result_simps]:
  "check_all f xs = Inr u \<longleftrightarrow> (\<forall>x \<in> set xs. f x = Inr ())"
  by (induction xs) (auto simp: and_then_Inr)

lemma map_result_Inr_length: "map_result f xs = Inr ys \<Longrightarrow> length ys = length xs"
  by (induction xs arbitrary: ys) (auto simp: and_then_Inr)

lemma map_result_Inr_nth:
  "map_result f xs = Inr ys \<Longrightarrow> i < length xs \<Longrightarrow> f (xs ! i) = Inr (ys ! i)"
  by (induction xs arbitrary: ys i) (auto simp: and_then_Inr nth_Cons split: nat.splits)

lemma fold_result_append:
  "fold_result f (xs @ ys) s = and_then (fold_result f xs s) (fold_result f ys)"
proof (induction xs arbitrary: s)
  case (Cons x xs)
  then show ?case by (cases "f x s") auto
qed simp

lemma fold_result_invariant:
  assumes "fold_result f xs s = Inr t" and "I s"
    and "\<And>x s t. x \<in> set xs \<Longrightarrow> f x s = Inr t \<Longrightarrow> I s \<Longrightarrow> I t"
  shows "I t"
  using assms
proof (induction xs arbitrary: s)
  case (Cons x xs)
  then obtain u where "f x s = Inr u" and "fold_result f xs u = Inr t"
    by (auto simp: and_then_Inr)
  moreover from this Cons.prems have "I u" by auto
  ultimately show ?case using Cons.IH Cons.prems(3) by (metis list.set_intros(2))
qed simp

section \<open>Characters and strings\<close>

text \<open>
  \<open>char\<close> is one byte of a \<open>str\<close>; \<open>byte c\<close> is its value. \<open>str::chars\<close> decodes UTF-8:
  a \<open>str\<close> is always well formed, so a lead byte is followed by the continuation bytes it
  announces.
\<close>

abbreviation byte :: "char \<Rightarrow> nat" where
  "byte c \<equiv> of_char c"

definition NUL :: string where "NUL = [CHR 0x00]"

definition continuation_bytes :: "nat \<Rightarrow> nat" where
  "continuation_bytes b = (if b < 192 then 0 else if b < 224 then 1 else if b < 240 then 2 else 3)"

definition lead_bits :: "nat \<Rightarrow> nat" where
  "lead_bits b =
     (if b < 128 then b else if b < 224 then b mod 32 else if b < 240 then b mod 16 else b mod 8)"

text \<open>The characters of a string, each as the list of its bytes, and their code points.\<close>

function char_chunks :: "string \<Rightarrow> string list" where
  "char_chunks [] = []"
| "char_chunks (c # cs) =
     (let k = continuation_bytes (byte c) in (c # take k cs) # char_chunks (drop k cs))"
  by pat_completeness auto
termination
  by (relation "measure length") (auto simp: less_Suc_eq_le)

fun code_point :: "string \<Rightarrow> nat" where
  "code_point [] = 0"
| "code_point (b # ds) = foldl (\<lambda>acc d. acc * 64 + byte d mod 64) (lead_bits (byte b)) ds"

definition chars :: "string \<Rightarrow> nat list" where
  "chars s = map code_point (char_chunks s)"

lemma concat_char_chunks [simp]: "concat (char_chunks s) = s"
  by (induction s rule: char_chunks.induct) (simp_all add: Let_def)

text \<open>\<open>str::from_utf8\<close>: the byte sequences that are well-formed UTF-8.\<close>

definition in_range :: "nat \<Rightarrow> nat \<Rightarrow> char \<Rightarrow> bool" where
  "in_range lo hi c \<longleftrightarrow> lo \<le> byte c \<and> byte c \<le> hi"

definition second_byte_ok :: "nat \<Rightarrow> char \<Rightarrow> bool" where
  "second_byte_ok b d =
     (if b = 224 then in_range 160 191 d else if b = 237 then in_range 128 159 d
      else if b = 240 then in_range 144 191 d else if b = 244 then in_range 128 143 d
      else in_range 128 191 d)"

fun valid_utf8 :: "string \<Rightarrow> bool" where
  "valid_utf8 [] = True"
| "valid_utf8 (c # cs) =
     (if byte c < 128 then valid_utf8 cs
      else if byte c < 194 \<or> 244 < byte c then False
      else (case cs of
          [] \<Rightarrow> False
        | d # ds \<Rightarrow> second_byte_ok (byte c) d \<and>
            (if byte c < 224 then valid_utf8 ds
             else (case ds of
                 [] \<Rightarrow> False
               | e # es \<Rightarrow> in_range 128 191 e \<and>
                   (if byte c < 240 then valid_utf8 es
                    else (case es of
                        [] \<Rightarrow> False
                      | f # fs \<Rightarrow> in_range 128 191 f \<and> valid_utf8 fs))))))"

text \<open>\<open>char::is_control\<close> (general category Cc) and \<open>char::is_whitespace\<close> (White\_Space).\<close>

definition is_control :: "nat \<Rightarrow> bool" where
  "is_control u \<longleftrightarrow> u < 32 \<or> (127 \<le> u \<and> u < 160)"

definition is_whitespace :: "nat \<Rightarrow> bool" where
  "is_whitespace u \<longleftrightarrow>
     (9 \<le> u \<and> u \<le> 13) \<or> (8192 \<le> u \<and> u \<le> 8202) \<or>
     u \<in> set [32, 133, 160, 5760, 8232, 8233, 8239, 8287, 12288]"

text \<open>The ASCII classes of \<open>u8\<close>.\<close>

definition is_ascii_digit :: "char \<Rightarrow> bool" where
  "is_ascii_digit c \<longleftrightarrow> 48 \<le> byte c \<and> byte c \<le> 57"

definition is_ascii_lowercase :: "char \<Rightarrow> bool" where
  "is_ascii_lowercase c \<longleftrightarrow> 97 \<le> byte c \<and> byte c \<le> 122"

definition is_ascii_uppercase :: "char \<Rightarrow> bool" where
  "is_ascii_uppercase c \<longleftrightarrow> 65 \<le> byte c \<and> byte c \<le> 90"

definition is_ascii_alphanumeric :: "char \<Rightarrow> bool" where
  "is_ascii_alphanumeric c \<longleftrightarrow>
     is_ascii_digit c \<or> is_ascii_lowercase c \<or> is_ascii_uppercase c"

definition is_ascii_hexdigit :: "char \<Rightarrow> bool" where
  "is_ascii_hexdigit c \<longleftrightarrow>
     is_ascii_digit c \<or> (97 \<le> byte c \<and> byte c \<le> 102) \<or> (65 \<le> byte c \<and> byte c \<le> 70)"

definition is_ascii_control :: "char \<Rightarrow> bool" where
  "is_ascii_control c \<longleftrightarrow> byte c < 32 \<or> byte c = 127"

text \<open>\<open>u8::is_ascii_whitespace\<close>: space, tab, line feed, form feed, carriage return.\<close>

definition is_ascii_whitespace :: "char \<Rightarrow> bool" where
  "is_ascii_whitespace c \<longleftrightarrow> byte c \<in> set [32, 9, 10, 12, 13]"

definition to_ascii_lower :: "char \<Rightarrow> char" where
  "to_ascii_lower c = (if is_ascii_uppercase c then char_of (byte c + 32) else c)"

text \<open>A lowercase hexadecimal digit, as the crate's hash checks spell it in two ways.\<close>

definition lower_hex_digit :: "char \<Rightarrow> bool" where
  "lower_hex_digit c \<longleftrightarrow> is_ascii_hexdigit c \<and> \<not> is_ascii_uppercase c"

lemma lower_hex_digit_alt:
  "lower_hex_digit c \<longleftrightarrow> is_ascii_digit c \<or> (97 \<le> byte c \<and> byte c \<le> 102)"
  by (auto simp: lower_hex_digit_def is_ascii_hexdigit_def is_ascii_uppercase_def
      is_ascii_digit_def)

text \<open>\<open>s.trim().is_empty()\<close>: nothing but white space.\<close>

definition is_blank :: "string \<Rightarrow> bool" where
  "is_blank s \<longleftrightarrow> list_all is_whitespace (chars s)"

lemma is_blank_Nil [simp]: "is_blank []"
  by (simp add: is_blank_def chars_def)

text \<open>\<open>str::starts_with\<close>, \<open>str::contains\<close> on a substring, \<open>str::split\<close> on one ASCII byte.\<close>

fun starts_with :: "string \<Rightarrow> string \<Rightarrow> bool" where
  "starts_with s [] = True"
| "starts_with [] (p # ps) = False"
| "starts_with (c # cs) (p # ps) = (c = p \<and> starts_with cs ps)"

fun contains_str :: "string \<Rightarrow> string \<Rightarrow> bool" where
  "contains_str [] p = (p = [])"
| "contains_str (c # cs) p = (starts_with (c # cs) p \<or> contains_str cs p)"

fun split_on :: "('a \<Rightarrow> bool) \<Rightarrow> 'a list \<Rightarrow> 'a list list" where
  "split_on p [] = [[]]"
| "split_on p (c # cs) =
     (if p c then [] # split_on p cs
      else (case split_on p cs of [] \<Rightarrow> [[c]] | w # ws \<Rightarrow> (c # w) # ws))"

text \<open>Splitting on a class of characters, and the pieces without the empty ones.\<close>

definition split_chars :: "(nat \<Rightarrow> bool) \<Rightarrow> string \<Rightarrow> string list" where
  "split_chars p s = map concat (split_on (\<lambda>w. p (code_point w)) (char_chunks s))"

definition split_whitespace :: "string \<Rightarrow> string list" where
  "split_whitespace s = filter (\<lambda>w. w \<noteq> []) (split_chars is_whitespace s)"

text \<open>\<open>trim_start\<close>, \<open>trim_end\<close> and \<open>trim\<close> for white space; \<open>trim_matches\<close> for ASCII bytes.\<close>

definition trim_start :: "string \<Rightarrow> string" where
  "trim_start s = concat (dropWhile (\<lambda>w. is_whitespace (code_point w)) (char_chunks s))"

definition trim_end :: "string \<Rightarrow> string" where
  "trim_end s =
     concat (rev (dropWhile (\<lambda>w. is_whitespace (code_point w)) (rev (char_chunks s))))"

definition trim :: "string \<Rightarrow> string" where
  "trim s = trim_end (trim_start s)"

definition trim_matches :: "(char \<Rightarrow> bool) \<Rightarrow> string \<Rightarrow> string" where
  "trim_matches p s = rev (dropWhile p (rev (dropWhile p s)))"

text \<open>\<open>str::find\<close> on a substring: the byte index of the first occurrence.\<close>

fun find_str :: "string \<Rightarrow> string \<Rightarrow> nat option" where
  "find_str p [] = (if p = [] then Some 0 else None)"
| "find_str p (c # cs) =
     (if starts_with (c # cs) p then Some 0 else map_option Suc (find_str p cs))"

definition ends_with :: "string \<Rightarrow> string \<Rightarrow> bool" where
  "ends_with s p = starts_with (rev s) (rev p)"

lemma starts_with_iff: "starts_with s p \<longleftrightarrow> (\<exists>t. s = p @ t)"
  by (induction s p rule: starts_with.induct) auto

lemma split_on_not_Nil [simp]: "split_on p s \<noteq> []"
  by (induction s) (auto split: list.splits)

lemma split_on_none: "list_all (\<lambda>c. \<not> p c) s \<Longrightarrow> split_on p s = [s]"
  by (induction s) auto

lemma split_on_append:
  "list_all (\<lambda>c. \<not> p c) s \<Longrightarrow> p d \<Longrightarrow> split_on p (s @ d # t) = s # split_on p t"
  by (induction s) auto

text \<open>Pieces of a string that were cut at characters keep their characters.\<close>

lemma char_chunks_drop: "char_chunks (concat (drop n (char_chunks s))) = drop n (char_chunks s)"
proof (induction n arbitrary: s)
  case (Suc n)
  show ?case
  proof (cases s)
    case (Cons c cs)
    from Suc [of "drop (continuation_bytes (byte c)) cs"] show ?thesis by (simp add: Cons Let_def)
  qed simp
qed simp

lemma char_chunks_take: "char_chunks (concat (take n (char_chunks s))) = take n (char_chunks s)"
proof (induction s arbitrary: n rule: char_chunks.induct)
  case (2 c cs)
  let ?k = "continuation_bytes (byte c)"
  show ?case
  proof (cases n)
    case (Suc m)
    show ?thesis
    proof (cases "?k \<le> length cs")
      case True
      with 2 [OF refl, of m] show ?thesis by (simp add: Suc Let_def)
    qed (simp add: Suc Let_def)
  qed simp
qed simp

lemma dropWhile_is_drop: "dropWhile p xs = drop (length (takeWhile p xs)) xs"
  by (induction xs) auto

definition white :: "string \<Rightarrow> bool" where
  "white w \<longleftrightarrow> is_whitespace (code_point w)"

lemma char_chunks_trim_start: "char_chunks (trim_start s) = dropWhile white (char_chunks s)"
  unfolding trim_start_def white_def [symmetric, abs_def] dropWhile_is_drop by (rule char_chunks_drop)

lemma rev_dropWhile_is_take:
  "rev (dropWhile p (rev xs)) = take (length xs - length (takeWhile p (rev xs))) xs"
  by (simp add: dropWhile_is_drop drop_rev)

lemma char_chunks_trim_end: "char_chunks (trim_end s) = rev (dropWhile white (rev (char_chunks s)))"
  unfolding trim_end_def white_def [symmetric, abs_def] rev_dropWhile_is_take by (rule char_chunks_take)

lemma char_chunks_trim:
  "char_chunks (trim s) = rev (dropWhile white (rev (dropWhile white (char_chunks s))))"
  by (simp add: trim_def char_chunks_trim_end char_chunks_trim_start)

lemma char_chunks_inject: "char_chunks s = char_chunks t \<longleftrightarrow> s = t"
  by (metis concat_char_chunks)

lemma char_chunks_Nil_iff [simp]: "char_chunks s = [] \<longleftrightarrow> s = []"
  by (cases s) (simp_all add: Let_def)

lemma trimmed_ends:
  assumes "trim s \<noteq> []"
  shows "\<not> white (hd (char_chunks (trim s)))" and "\<not> white (last (char_chunks (trim s)))"
proof -
  let ?d = "dropWhile white (char_chunks s)"
  have ne: "dropWhile white (rev ?d) \<noteq> []"
    using assms char_chunks_trim [of s] by (metis char_chunks_Nil_iff rev.simps(1))
  then show "\<not> white (last (char_chunks (trim s)))"
    by (simp add: char_chunks_trim last_rev hd_dropWhile)
  have "?d \<noteq> []" using ne by (metis dropWhile.simps(1) rev.simps(1))
  then have "\<not> white (hd ?d)" by (rule hd_dropWhile)
  moreover have "hd (rev (dropWhile white (rev ?d))) = hd ?d"
    using ne unfolding rev_dropWhile_is_take by (metis hd_take length_greater_0_conv rev_is_Nil_conv rev_dropWhile_is_take take_eq_Nil bot_nat_0.not_eq_extremum)
  ultimately show "\<not> white (hd (char_chunks (trim s)))" by (simp add: char_chunks_trim)
qed

lemma trim_id:
  assumes "s \<noteq> []" and "\<not> white (hd (char_chunks s))" and "\<not> white (last (char_chunks s))"
  shows "trim s = s"
proof -
  from assms(1,2) have "dropWhile white (char_chunks s) = char_chunks s"
    by (cases "char_chunks s") simp_all
  moreover from assms(3) have "dropWhile white (rev (char_chunks s)) = rev (char_chunks s)"
    by (cases "char_chunks s" rule: rev_cases) simp_all
  ultimately have "char_chunks (trim s) = char_chunks s" by (simp add: char_chunks_trim)
  then show ?thesis by (simp add: char_chunks_inject)
qed

lemma trim_nonempty: "s \<noteq> [] \<Longrightarrow> \<not> white (hd (char_chunks s)) \<Longrightarrow> trim s \<noteq> []"
proof
  assume s: "s \<noteq> []" "\<not> white (hd (char_chunks s))" and "trim s = []"
  then have "rev (dropWhile white (rev (dropWhile white (char_chunks s)))) = []"
    using char_chunks_trim [of s] by simp
  moreover from s have "dropWhile white (char_chunks s) = char_chunks s"
    by (cases "char_chunks s") simp_all
  moreover from s have "hd (char_chunks s) \<in> set (rev (char_chunks s))" by simp
  ultimately show False using s(2) by (auto simp: dropWhile_eq_Nil_conv)
qed

lemma char_chunks_trim_le: "length (char_chunks (trim s)) \<le> length (char_chunks s)"
  using length_dropWhile_le [of white "rev (dropWhile white (char_chunks s))"]
    length_dropWhile_le [of white "char_chunks s"]
  by (simp add: char_chunks_trim)

lemma trim_Nil [simp]: "trim [] = []"
  by (simp add: trim_def trim_start_def trim_end_def)

lemma trim_trim [simp]: "trim (trim s) = trim s"
proof (cases "trim s = []")
  case True
  show ?thesis unfolding True by simp
next
  case False
  then show ?thesis using trim_id trimmed_ends by blast
qed

text \<open>Decimal rendering of an unsigned integer, as \<open>{}\<close> prints it.\<close>

fun show_nat :: "nat \<Rightarrow> string" where
  "show_nat n =
     (if n < 10 then [char_of (48 + n)] else show_nat (n div 10) @ [char_of (48 + n mod 10)])"

declare show_nat.simps [simp del]

definition show_int :: "int \<Rightarrow> string" where
  "show_int i = (if i < 0 then ''-'' @ show_nat (nat (- i)) else show_nat (nat i))"

text \<open>\<open>xs.join(sep)\<close>.\<close>

fun join :: "string \<Rightarrow> string list \<Rightarrow> string" where
  "join sep [] = []"
| "join sep [x] = x"
| "join sep (x # y # ys) = x @ sep @ join sep (y # ys)"

text \<open>\<open>Iterator::max_by_key\<close>: of several maxima the last one.\<close>

fun max_by_key :: "('a \<Rightarrow> 'k::linorder) \<Rightarrow> 'a list \<Rightarrow> 'a option" where
  "max_by_key f [] = None"
| "max_by_key f (x # xs) =
     (case max_by_key f xs of
        None \<Rightarrow> Some x
      | Some y \<Rightarrow> if f y < f x then Some x else Some y)"

lemma max_by_key_None [simp]: "max_by_key f xs = None \<longleftrightarrow> xs = []"
  by (cases xs) (auto split: option.splits)

lemma max_by_key_Some:
  "max_by_key f xs = Some m \<Longrightarrow> m \<in> set xs \<and> (\<forall>x \<in> set xs. f x \<le> f m)"
  by (induction xs arbitrary: m) (fastforce split: option.splits if_splits)+

lemma set_map_filter_Some: "set (List.map_filter g xs) = {y. \<exists>x \<in> set xs. g x = Some y}"
  by (induction xs) (auto simp: List.map_filter_simps split: option.splits)

section \<open>Paths\<close>

text \<open>
  \<open>std::path::Path\<close> on the Unix targets of the crate: \<open>components()\<close> drops repeated and
  trailing separators and every \<open>.\<close> but a leading one.
\<close>

datatype path_component = RootDir | CurDir | ParentDir | Normal string

definition is_slash :: "char \<Rightarrow> bool" where
  "is_slash c \<longleftrightarrow> c = CHR ''/''"

fun body_components :: "string list \<Rightarrow> path_component list" where
  "body_components [] = []"
| "body_components (w # ws) =
     (if w = [] \<or> w = ''.'' then body_components ws
      else if w = ''..'' then ParentDir # body_components ws
      else Normal w # body_components ws)"

definition is_absolute :: "string \<Rightarrow> bool" where
  "is_absolute p \<longleftrightarrow> p \<noteq> [] \<and> is_slash (hd p)"

definition components :: "string \<Rightarrow> path_component list" where
  "components p =
     (let ws = split_on is_slash p
      in if is_absolute p then RootDir # body_components ws
         else if hd ws = ''.'' then CurDir # body_components (tl ws)
         else body_components ws)"

fun is_normal :: "path_component \<Rightarrow> bool" where
  "is_normal (Normal _) = True"
| "is_normal _ = False"

text \<open>\<open>Path::extension\<close>: what follows the last dot of the file name, if a stem precedes it.\<close>

definition file_extension :: "string \<Rightarrow> string option" where
  "file_extension p =
     (if components p = [] then None
      else case last (components p) of
        Normal w \<Rightarrow>
          (let ws = split_on (\<lambda>c. c = CHR ''.'') w
           in if butlast ws = [] \<or> butlast ws = [[]] then None else Some (last ws))
      | _ \<Rightarrow> None)"

section \<open>Ordered containers\<close>

text \<open>
  \<open>BTreeSet\<close> is a strictly ascending list and \<open>BTreeMap\<close> an association list with
  strictly ascending keys; iteration is list order. Both satisfy the interfaces below, and
  the components use only the laws.
\<close>

type_synonym 'a bset = "'a list"
type_synonym ('k, 'v) bmap = "('k \<times> 'v) list"

abbreviation bset_insert :: "'a::linorder \<Rightarrow> 'a bset \<Rightarrow> 'a bset" where
  "bset_insert \<equiv> insort_insert"

definition bset_of :: "'a::linorder list \<Rightarrow> 'a bset" where
  "bset_of xs = foldl (\<lambda>s x. bset_insert x s) [] xs"

definition bset_ok :: "'a::linorder bset \<Rightarrow> bool" where
  "bset_ok s \<longleftrightarrow> sorted_wrt (<) s"

fun bmap_insert :: "'k::linorder \<Rightarrow> 'v \<Rightarrow> ('k, 'v) bmap \<Rightarrow> ('k, 'v) bmap" where
  "bmap_insert k v [] = [(k, v)]"
| "bmap_insert k v ((k', v') # m) =
     (if k < k' then (k, v) # (k', v') # m
      else if k = k' then (k, v) # m
      else (k', v') # bmap_insert k v m)"

definition bmap_ok :: "('k::linorder, 'v) bmap \<Rightarrow> bool" where
  "bmap_ok m \<longleftrightarrow> sorted_wrt (<) (map fst m)"

lemma bset_ok_Nil [simp]: "bset_ok []"
  by (simp add: bset_ok_def)

lemma bset_ok_iff: "bset_ok s \<longleftrightarrow> sorted s \<and> distinct s"
  by (auto simp: bset_ok_def strict_sorted_iff)

lemma bset_insert_ok [intro]: "bset_ok s \<Longrightarrow> bset_ok (bset_insert x s)"
  by (simp add: bset_ok_iff sorted_insort_insert distinct_insort_insert)

lemma set_bset_fold:
  "set (foldl (\<lambda>s x. bset_insert x s) s xs) = set s \<union> set xs"
  by (induction xs arbitrary: s) (auto simp: set_insort_insert)

lemma bset_fold_ok: "bset_ok s \<Longrightarrow> bset_ok (foldl (\<lambda>s x. bset_insert x s) s xs)"
  by (induction xs arbitrary: s) auto

lemma set_bset_of [simp]: "set (bset_of xs) = set xs"
  by (simp add: bset_of_def set_bset_fold)

lemma bset_of_ok [simp]: "bset_ok (bset_of xs)"
  by (simp add: bset_of_def bset_fold_ok)

lemma bset_eqI: "bset_ok s \<Longrightarrow> bset_ok t \<Longrightarrow> set s = set t \<Longrightarrow> s = t"
  by (simp add: bset_ok_iff sorted_distinct_set_unique)

lemma bset_of_eq_iff: "bset_of xs = bset_of ys \<longleftrightarrow> set xs = set ys"
  by (metis bset_of_ok bset_eqI set_bset_of)

lemma bset_of_single: "bset_of [x] = [x]"
  by (simp add: bset_of_def insort_insert_key_def)

lemma bset_of_is_single: "bset_of xs = [x] \<longleftrightarrow> set xs = {x}"
  using bset_of_eq_iff [of xs "[x]"] by (simp add: bset_of_single)

lemma fst_set_bmap_insert [simp]:
  "fst ` set (bmap_insert k v m) = insert k (fst ` set m)"
  by (induction k v m rule: bmap_insert.induct) auto

lemma bmap_insert_ok [intro]: "bmap_ok m \<Longrightarrow> bmap_ok (bmap_insert k v m)"
  unfolding bmap_ok_def
proof (induction k v m rule: bmap_insert.induct)
  case (2 k v k' v' m)
  have "set (map fst (bmap_insert k v m)) = insert k (set (map fst m))" by simp
  with 2 show ?case by (auto simp: not_less_iff_gr_or_eq)
qed simp

lemma map_of_bmap_insert [simp]: "map_of (bmap_insert k v m) = (map_of m)(k \<mapsto> v)"
  by (induction k v m rule: bmap_insert.induct) (auto simp: fun_eq_iff)

lemma bmap_ok_Nil [simp]: "bmap_ok []"
  by (simp add: bmap_ok_def)

lemma bmap_ok_distinct: "bmap_ok m \<Longrightarrow> distinct (map fst m)"
  by (simp add: bmap_ok_def strict_sorted_iff)

lemma bmap_entry_iff: "bmap_ok m \<Longrightarrow> (k, v) \<in> set m \<longleftrightarrow> map_of m k = Some v"
  by (simp add: bmap_ok_distinct)

lemma bmap_eqI:
  assumes "bmap_ok m" and "bmap_ok n" and "map_of m = map_of n"
  shows "m = n"
proof (rule map_sorted_distinct_set_unique [of fst])
  show eq: "set m = set n"
    using assms by (auto simp: bmap_entry_iff)
  show "inj_on fst (set m \<union> set n)"
    using bmap_ok_distinct [OF assms(1)] by (simp add: eq [symmetric] distinct_map)
qed (use assms(1,2) in \<open>auto simp: bmap_ok_def strict_sorted_iff\<close>)

text \<open>The interface of an ordered map, and the standard-library model as its instance.\<close>

locale ordered_map =
  fixes empty_map :: "'m"
    and insert_map :: "'k::linorder \<Rightarrow> 'v \<Rightarrow> 'm \<Rightarrow> 'm"
    and get :: "'m \<Rightarrow> 'k \<Rightarrow> 'v option"
    and entries :: "'m \<Rightarrow> ('k \<times> 'v) list"
    and valid_map :: "'m \<Rightarrow> bool"
  assumes valid_empty: "valid_map empty_map"
    and valid_insert: "valid_map m \<Longrightarrow> valid_map (insert_map k v m)"
    and get_empty: "get empty_map k = None"
    and get_insert: "valid_map m \<Longrightarrow> get (insert_map k v m) = (get m)(k \<mapsto> v)"
    and entries_get: "valid_map m \<Longrightarrow> (k, v) \<in> set (entries m) \<longleftrightarrow> get m k = Some v"
    and entries_sorted: "valid_map m \<Longrightarrow> sorted_wrt (<) (map fst (entries m))"
begin

definition collect :: "('k \<times> 'v) list \<Rightarrow> 'm" where
  "collect kvs = foldl (\<lambda>m (k, v). insert_map k v m) empty_map kvs"

lemma collect_fold_valid:
  "valid_map m \<Longrightarrow> valid_map (foldl (\<lambda>m (k, v). insert_map k v m) m kvs)"
  by (induction kvs arbitrary: m) (auto intro: valid_insert)

lemma collect_valid: "valid_map (collect kvs)"
  by (simp add: collect_def collect_fold_valid valid_empty)

lemma get_fold:
  "valid_map m \<Longrightarrow>
     get (foldl (\<lambda>m (k, v). insert_map k v m) m kvs) = get m ++ map_of (rev kvs)"
proof (induction kvs arbitrary: m)
  case (Cons kv kvs)
  then show ?case
    by (cases kv) (simp add: valid_insert get_insert map_add_def fun_eq_iff split: option.splits)
qed simp

lemma get_collect: "get (collect kvs) = map_of (rev kvs)"
  by (simp add: collect_def get_fold valid_empty fun_eq_iff map_add_def get_empty
      split: option.splits)

lemma entries_collect: "(k, v) \<in> set (entries (collect kvs)) \<longleftrightarrow> map_of (rev kvs) k = Some v"
  by (simp add: entries_get collect_valid get_collect)

end

interpretation btree: ordered_map "[]" bmap_insert map_of "\<lambda>m. m" bmap_ok
  by unfold_locales (auto simp: bmap_entry_iff bmap_ok_def[symmetric] simp del: map_of_bmap_insert
      simp add: map_of_bmap_insert)

text \<open>The evaluation of a literal's entries.\<close>

definition bmap_of :: "('k::linorder \<times> 'v) list \<Rightarrow> ('k, 'v) bmap" where
  "bmap_of kvs = foldl (\<lambda>m (k, v). bmap_insert k v m) [] kvs"

lemma collect_bmap_of [code_unfold]: "btree.collect = bmap_of"
  by (simp add: fun_eq_iff btree.collect_def bmap_of_def)

end
