(* ===== verification/SecretPolicy.thy ===== *)
theory SecretPolicy
  imports Prelude
begin

text \<open>
  The redaction policy of \<open>commands/secret_policy.rs\<close>: which paths are sensitive, which
  text looks like a credential, and the redaction both trigger. The MCP sanitizer and the
  spec loader rely on it.
\<close>

definition lower_str :: "string \<Rightarrow> string" where
  "lower_str s = map to_ascii_lower s"

definition to_forward :: "char \<Rightarrow> char" where
  "to_forward c = (if c = CHR 0x5C then CHR ''/'' else c)"

definition is_sensitive_path :: "string \<Rightarrow> bool" where
  "is_sensitive_path path =
     (let lower = lower_str (map to_forward path);
          wrapped = ''/'' @ trim_matches is_slash lower @ ''/'';
          name = last (split_on is_slash lower)
      in name \<in> set [''.env'', ''.npmrc'', ''.pypirc'', ''.netrc'', ''.dockercfg'', ''id_rsa'',
            ''id_ed25519'', ''credentials'', ''credentials.json'', ''secrets.yml'',
            ''secrets.yaml'', ''secrets.json'']
         \<or> starts_with name ''.env.''
         \<or> ends_with name ''.pem''
         \<or> ends_with name ''.key''
         \<or> ends_with name ''.p12''
         \<or> ends_with name ''.pfx''
         \<or> ends_with name ''.jks''
         \<or> ends_with name ''.keystore''
         \<or> name = ''terraform.tfstate''
         \<or> starts_with name ''terraform.tfstate.''
         \<or> contains_str name ''service-account''
         \<or> contains_str name ''service_account''
         \<or> list_ex (contains_str wrapped) [''/.ssh/'', ''/.aws/'', ''/.kube/'', ''/secrets/''])"

text \<open>Code points of the separators: backquote, quotes, comma, semicolon, parentheses.\<close>

definition path_separator :: "nat \<Rightarrow> bool" where
  "path_separator u \<longleftrightarrow> is_whitespace u \<or> u \<in> set [96, 39, 34, 44, 59, 40, 41]"

definition path_bracket :: "char \<Rightarrow> bool" where
  "path_bracket c \<longleftrightarrow> c \<in> set '':[]''"

definition contains_sensitive_path :: "string \<Rightarrow> bool" where
  "contains_sensitive_path v \<longleftrightarrow>
     is_sensitive_path v \<or>
     list_ex is_sensitive_path
       (filter (\<lambda>t. t \<noteq> []) (map (trim_matches path_bracket) (split_chars path_separator v)))"

definition secret_markers :: "string list" where
  "secret_markers =
     [''-----begin private key-----'', ''-----begin rsa private key-----'', ''sk-ant-'',
      ''sk-proj-'', ''github_pat_'', ''ghp_'', ''xoxb-'', ''xoxp-'', ''xapp-'', ''AIza'',
      ''postgres://'', ''postgresql://'', ''mongodb://'', ''mongodb+srv://'', ''mysql://'',
      ''redis://'']"

definition is_cloud_access_key :: "string \<Rightarrow> bool" where
  "is_cloud_access_key t \<longleftrightarrow>
     length t = 20 \<and> (starts_with t ''AKIA'' \<or> starts_with t ''ASIA'') \<and>
     list_all (\<lambda>c. is_ascii_uppercase c \<or> is_ascii_digit c) t"

definition basic_auth_token :: "string \<Rightarrow> bool" where
  "basic_auth_token t =
     (case find_str ''://'' t of
        None \<Rightarrow> False
      | Some scheme \<Rightarrow>
          CHR '':'' \<in> set (takeWhile (\<lambda>c. c \<noteq> CHR 0x40) (drop (scheme + 3) t)) \<and>
          CHR 0x40 \<in> set t)"

definition contains_basic_auth_url :: "string \<Rightarrow> bool" where
  "contains_basic_auth_url v = list_ex basic_auth_token (split_whitespace v)"

definition credential_keys :: "string list" where
  "credential_keys =
     [''password'', ''passwd'', ''api_key'', ''apikey'', ''access_token'', ''client_secret'']"

text \<open>The value after an assignment: leading blanks and quotes skipped, up to the next
  separator; only eight bytes or more count.\<close>

definition assigned_value :: "string \<Rightarrow> string" where
  "assigned_value rest =
     concat (takeWhile (\<lambda>w. \<not> (is_whitespace (code_point w) \<or> code_point w \<in> set [39, 34, 44]))
       (char_chunks (dropWhile (\<lambda>c. c \<in> set [CHR 0x20, CHR 0x27, CHR 0x22]) rest)))"

definition credential_assigned :: "string \<Rightarrow> string \<Rightarrow> bool" where
  "credential_assigned lower needle =
     (case find_str needle lower of
        None \<Rightarrow> False
      | Some i \<Rightarrow>
          (let candidate = assigned_value (drop (i + length needle) lower)
           in 8 \<le> length candidate \<and> candidate \<noteq> ''[redacted]''))"

definition contains_credential_assignment :: "string \<Rightarrow> bool" where
  "contains_credential_assignment v =
     (let lower = lower_str v
      in list_ex (\<lambda>key. list_ex (credential_assigned lower) [key @ ''='', key @ '':'', key @ '' =''])
           credential_keys)"

definition key_token_break :: "char \<Rightarrow> bool" where
  "key_token_break c \<longleftrightarrow> \<not> is_ascii_alphanumeric c \<and> c \<noteq> CHR ''_''"

definition looks_like_secret :: "string \<Rightarrow> bool" where
  "looks_like_secret v =
     (let lower = lower_str v
      in if list_ex (\<lambda>marker. contains_str lower (lower_str marker)) secret_markers then True
         else if contains_str lower ''bearer '' \<or> contains_basic_auth_url v then True
         else list_ex is_cloud_access_key (split_on key_token_break v)
              \<or> contains_credential_assignment v)"

definition redacted :: string where
  "redacted = ''[redacted]''"

definition redact_secret_text :: "string \<Rightarrow> string \<times> bool" where
  "redact_secret_text v =
     (if looks_like_secret v \<or> contains_sensitive_path v then (redacted, True) else (v, False))"

text \<open>Detection is insensitive to ASCII case for the markers: the text is lowered first.\<close>

lemma to_ascii_lower_idem [simp]: "to_ascii_lower (to_ascii_lower c) = to_ascii_lower c"
  by (auto simp: to_ascii_lower_def is_ascii_uppercase_def of_char_of)

lemma lower_str_idem [simp]: "lower_str (lower_str s) = lower_str s"
  by (simp add: lower_str_def)

text \<open>Redaction is idempotent: the placeholder itself is never flagged.\<close>

lemmas secret_defs =
  looks_like_secret_def lower_str_def secret_markers_def to_ascii_lower_def
  is_ascii_uppercase_def is_ascii_alphanumeric_def is_ascii_digit_def is_ascii_lowercase_def
  contains_basic_auth_url_def basic_auth_token_def split_whitespace_def split_chars_def
  key_token_break_def is_cloud_access_key_def contains_credential_assignment_def
  credential_keys_def credential_assigned_def assigned_value_def continuation_bytes_def
  lead_bits_def is_whitespace_def

lemmas sensitive_defs =
  contains_sensitive_path_def is_sensitive_path_def to_forward_def trim_matches_def
  is_slash_def ends_with_def path_bracket_def path_separator_def

lemma redacted_is_public: "\<not> looks_like_secret redacted" "\<not> contains_sensitive_path redacted"
  by (simp_all add: redacted_def secret_defs sensitive_defs)

lemma redact_secret_text_safe:
  "\<not> looks_like_secret (fst (redact_secret_text v)) \<and>
   \<not> contains_sensitive_path (fst (redact_secret_text v))"
  by (simp add: redact_secret_text_def redacted_is_public)

end
