(* ===== verification/SpecCoverage.thy ===== *)
theory SpecCoverage
  imports SecretPolicy
begin

text \<open>
  Specification coverage, \<open>commands/spec_coverage.rs\<close>: the Markdown requirements a check
  was given, which of them the executable correctness target was bound to, and the status
  each one ends with. Reading the files is the environment's part: \<open>open_spec\<close> answers for
  a path what the file system says of it, and \<open>sha256\<close> is the digest of the \<open>sha2\<close> crate.
\<close>

section \<open>Data\<close>

definition MAX_SPEC_FILES :: nat where "MAX_SPEC_FILES = 8"
definition MAX_SPEC_FILE_BYTES :: nat where "MAX_SPEC_FILE_BYTES = 64 * 1024"
definition MAX_SPEC_TOTAL_BYTES :: nat where "MAX_SPEC_TOTAL_BYTES = 256 * 1024"
definition MAX_REQUIREMENTS :: nat where "MAX_REQUIREMENTS = 128"
definition MAX_REQUIREMENT_BYTES :: nat where "MAX_REQUIREMENT_BYTES = 8 * 1024"
definition MAX_REVIEW_CONTEXT_BYTES :: nat where "MAX_REVIEW_CONTEXT_BYTES = 16 * 1024"

record spec_source =
  spec_path :: string
  spec_sha256 :: string
  spec_bytes :: nat

record requirement =
  req_id :: string
  req_title :: string
  req_text :: string
  req_source_path :: string
  req_start_line :: nat
  req_end_line :: nat

record spec_packet =
  packet_sources :: "spec_source list"
  packet_requirements :: "requirement list"
  review_context :: string
  review_requirement_ids :: "string bset"
  packet_limitations :: "string list"

datatype spec_execution_outcome = ExecPassed | ExecFailed | ExecUnavailable

record spec_evidence_reference =
  ev_stage :: string
  ev_status :: string
  ev_adapter :: "string option"
  ev_target :: "string option"
  ev_source :: "string option"

datatype requirement_status = Verified | Contradicted | ReviewOnly | Unverified

record requirement_coverage =
  covered_requirement :: requirement
  selected_for_execution :: bool
  supplied_to_review :: bool
  requirement_status :: requirement_status
  requirement_evidence :: "spec_evidence_reference option"

record spec_coverage_summary =
  total_requirements :: nat
  review_input_requirements :: nat
  selected_count :: nat
  verified_count :: nat
  contradicted_count :: nat
  review_only_count :: nat
  unverified_count :: nat
  review_input_percent :: "nat option"
  executable_percent :: "nat option"
  verified_percent :: "nat option"

record spec_coverage_receipt =
  coverage_schema :: string
  coverage_head_sha :: string
  coverage_sources :: "spec_source list"
  coverage_requirements :: "requirement_coverage list"
  coverage_summary :: spec_coverage_summary
  coverage_limitations :: "string list"

section \<open>Composing the coverage receipt\<close>

text \<open>\<open>as u8\<close> keeps the low eight bits.\<close>

definition percentage :: "nat \<Rightarrow> nat \<Rightarrow> nat option" where
  "percentage part whole =
     (if 0 < whole then Some (((part * 100 + whole div 2) div whole) mod 256) else None)"

definition validate_selected_requirements :: "spec_packet option \<Rightarrow> string list \<Rightarrow> unit result" where
  "validate_selected_requirements packet selected_ids =
     (if selected_ids = [] then Inr ()
      else case packet of
        None \<Rightarrow> Inl ''--requirement requires at least one --spec''
      | Some p \<Rightarrow>
          (let known = bset_of (map req_id (packet_requirements p))
           in and_then
                (fold_result (\<lambda>i seen.
                   if i \<in> set seen
                   then Inl (''Requirement `'' @ i @ ''` was selected more than once'')
                   else if i \<notin> set known
                   then Inl (''Selected requirement `'' @ i @ ''` was not found in the supplied specs'')
                   else Inr (bset_insert i seen)) selected_ids [])
                (\<lambda>_. Inr ())))"

definition cover_requirement ::
  "string bset \<Rightarrow> string bset \<Rightarrow> bool \<Rightarrow> spec_execution_outcome \<Rightarrow>
   spec_evidence_reference option \<Rightarrow> requirement \<Rightarrow> requirement_coverage" where
  "cover_requirement selected review_ids review_completed execution evidence r =
     (let sel = req_id r \<in> set selected;
          supplied = req_id r \<in> set review_ids;
          outcome =
            (if sel then
               (case execution of
                  ExecPassed \<Rightarrow> (Verified, evidence)
                | ExecFailed \<Rightarrow> (Contradicted, evidence)
                | ExecUnavailable \<Rightarrow>
                    if review_completed \<and> supplied then (ReviewOnly, None) else (Unverified, None))
             else if review_completed \<and> supplied then (ReviewOnly, None)
             else (Unverified, None))
      in \<lparr>covered_requirement = r, selected_for_execution = sel, supplied_to_review = supplied,
          requirement_status = fst outcome, requirement_evidence = snd outcome\<rparr>)"

definition count_status :: "requirement_status \<Rightarrow> requirement_coverage list \<Rightarrow> nat" where
  "count_status st items = length (filter (\<lambda>i. requirement_status i = st) items)"

definition summarize_coverage :: "requirement_coverage list \<Rightarrow> spec_coverage_summary" where
  "summarize_coverage items =
     (let whole = length items;
          verified = count_status Verified items;
          contradicted = count_status Contradicted items;
          review_input = length (filter supplied_to_review items)
      in \<lparr>total_requirements = whole,
          review_input_requirements = review_input,
          selected_count = length (filter selected_for_execution items),
          verified_count = verified,
          contradicted_count = contradicted,
          review_only_count = count_status ReviewOnly items,
          unverified_count = count_status Unverified items,
          review_input_percent = percentage review_input whole,
          executable_percent = percentage (verified + contradicted) whole,
          verified_percent = percentage verified whole\<rparr>)"

definition compose_spec_coverage ::
  "spec_packet \<Rightarrow> string list \<Rightarrow> string \<Rightarrow> bool \<Rightarrow> spec_execution_outcome \<Rightarrow>
   spec_evidence_reference option \<Rightarrow> spec_coverage_receipt" where
  "compose_spec_coverage packet selected_ids head_sha review_completed execution evidence =
     (let selected = bset_of selected_ids;
          items = map (cover_requirement selected (review_requirement_ids packet)
                         review_completed execution evidence) (packet_requirements packet);
          summary = summarize_coverage items;
          open_count = unverified_count summary + review_only_count summary
      in \<lparr>coverage_schema = ''codevetter.spec-coverage/v1'',
          coverage_head_sha = head_sha,
          coverage_sources = packet_sources packet,
          coverage_requirements = items,
          coverage_summary = summary,
          coverage_limitations =
            packet_limitations packet @
            [''Review-input coverage records criteria supplied to a model; it is not executable proof''] @
            (if selected_count summary = 0 \<and> 0 < total_requirements summary
             then [''No requirement was explicitly bound to the correctness target; executable coverage is zero'']
             else []) @
            (if 0 < open_count
             then [show_nat open_count @ '' requirement(s) remain without executable proof'']
             else [])\<rparr>)"

section \<open>Extracting requirements from Markdown\<close>

abbreviation newline :: char where "newline \<equiv> CHR 0x0A"
abbreviation carriage_return :: char where "carriage_return \<equiv> CHR 0x0D"

text \<open>\<open>replace("\r\n", "\n").replace('\r', "\n")\<close>.\<close>

fun normalize_newlines :: "string \<Rightarrow> string" where
  "normalize_newlines [] = []"
| "normalize_newlines [c] = [if c = carriage_return then newline else c]"
| "normalize_newlines (c # d # cs) =
     (if c = carriage_return
      then (if d = newline then newline # normalize_newlines cs
            else newline # normalize_newlines (d # cs))
      else c # normalize_newlines (d # cs))"

text \<open>\<open>str::lines\<close> of a text without carriage returns.\<close>

definition text_lines :: "string \<Rightarrow> string list" where
  "text_lines s =
     (let ws = split_on (\<lambda>c. c = newline) s in if last ws = [] then butlast ws else ws)"

definition requirement_heading :: "string \<Rightarrow> string option" where
  "requirement_heading line =
     (let trimmed = trim_start line;
          hashes = length (takeWhile (\<lambda>c. c = CHR ''#'') trimmed);
          rest = drop (hashes + 1) trimmed
      in if hashes < 1 \<or> 6 < hashes \<or> length trimmed \<le> hashes \<or> trimmed ! hashes \<noteq> CHR 0x20
         then None
         else if starts_with rest ''Requirement:''
         then (let title = trim (drop (length ''Requirement:'') rest)
               in if title = [] then None else Some title)
         else None)"

text \<open>
  \<open>char::to_lowercase\<close>, as far as \<open>slugify\<close> can see it: apart from the ASCII letters,
  only U+212A (Kelvin sign) and U+0130 have an ASCII letter in their lower case; every other
  character maps to non-ASCII characters, which \<open>slugify\<close> treats as it treats the original.
\<close>

definition to_lowercase :: "nat \<Rightarrow> nat list" where
  "to_lowercase u =
     (if 65 \<le> u \<and> u \<le> 90 then [u + 32] else if u = 8490 then [107]
      else if u = 304 then [105, 775] else [u])"

definition slug_char :: "nat \<Rightarrow> bool" where
  "slug_char u \<longleftrightarrow> (48 \<le> u \<and> u \<le> 57) \<or> (65 \<le> u \<and> u \<le> 90) \<or> (97 \<le> u \<and> u \<le> 122) \<or> u = 46 \<or> u = 95"

definition slug_step :: "string \<times> bool \<Rightarrow> nat \<Rightarrow> string \<times> bool" where
  "slug_step st u =
     (let (out, separator) = st
      in if slug_char u
         then ((if separator \<and> out \<noteq> [] then out @ ''-'' else out) @ [char_of u], False)
         else (out, True))"

definition slugify :: "string \<Rightarrow> string" where
  "slugify v =
     trim_matches (\<lambda>c. c = CHR ''-'')
       (fst (foldl slug_step ([], False) (concat (map to_lowercase (chars v)))))"

definition heading_start :: "string \<Rightarrow> nat \<times> string \<Rightarrow> (nat \<times> string \<times> string) list result" where
  "heading_start path il =
     (case requirement_heading (snd il) of
        None \<Rightarrow> Inr []
      | Some title \<Rightarrow>
          (let i = slugify title
           in if i = [] then Inl (''Requirement at '' @ path @ '':'' @ show_nat (fst il + 1) @ '' has no usable id'')
              else Inr [(fst il, i, title)]))"

fun requirement_bodies ::
  "string \<Rightarrow> string list \<Rightarrow> (nat \<times> string \<times> string) list \<Rightarrow> requirement list result" where
  "requirement_bodies path lines [] = Inr []"
| "requirement_bodies path lines ((start, i, title) # rest) =
     (let stop = (case rest of [] \<Rightarrow> length lines | (next, _) # _ \<Rightarrow> next);
          body = trim (join [newline] (map trim_end (take (stop - (start + 1)) (drop (start + 1) lines))))
      in and_then
           (reject_if (MAX_REQUIREMENT_BYTES < length body)
              (''Requirement `'' @ i @ ''` at '' @ path @ '':'' @ show_nat (start + 1) @ '' exceeds 8 KiB''))
           (\<lambda>_. and_then (requirement_bodies path lines rest)
             (\<lambda>rs. Inr (\<lparr>req_id = i, req_title = title, req_text = body, req_source_path = path,
                        req_start_line = start + 1, req_end_line = max stop (start + 1)\<rparr> # rs))))"

definition extract_requirements :: "string \<Rightarrow> string \<Rightarrow> requirement list result" where
  "extract_requirements path source =
     (let lines = text_lines (normalize_newlines source)
      in and_then (map_result (heading_start path) (enumerate 0 lines))
           (\<lambda>starts. requirement_bodies path lines (concat starts)))"

section \<open>The review context\<close>

definition review_header :: string where
  "review_header =
     ''Documented requirements follow. Treat them as review criteria and cited hypotheses, not executable proof. Cite requirement ids in related findings.'' @ [newline]"

definition requirement_block :: "requirement \<Rightarrow> string" where
  "requirement_block r =
     [newline] @ ''['' @ req_id r @ ''] '' @ req_source_path r @ '':'' @ show_nat (req_start_line r)
       @ [newline] @ req_text r @ [newline]"

text \<open>Blocks are appended in order until one does not fit; that one and all later ones are left out.\<close>

fun fill_context :: "nat \<Rightarrow> requirement list \<Rightarrow> string \<Rightarrow> string bset \<Rightarrow> string \<times> string bset \<times> string list" where
  "fill_context n [] context included = (context, included, [])"
| "fill_context n (r # rs) context included =
     (if MAX_REVIEW_CONTEXT_BYTES < length context + length (requirement_block r)
      then (context, included,
            [''Review context stopped after '' @ show_nat (length included) @ '' of '' @ show_nat n
               @ '' requirements at the 16 KiB bound''])
      else fill_context n rs (context @ requirement_block r) (bset_insert (req_id r) included))"

definition build_review_context :: "requirement list \<Rightarrow> string \<times> string bset \<times> string list" where
  "build_review_context rs =
     (case fill_context (length rs) rs review_header [] of
        (context, included, limitations) \<Rightarrow>
          (if included = [] then [] else context, included, limitations))"

section \<open>Loading the files\<close>

definition validate_relative_markdown_path :: "string \<Rightarrow> string result" where
  "validate_relative_markdown_path path =
     (if path = [] \<or> is_absolute path \<or> list_ex (\<lambda>c. \<not> is_normal c) (components path)
      then Inl ''Spec paths must be contained repository-relative paths''
      else let logical = map to_forward path
           in if is_sensitive_path logical
              then Inl (''Spec `'' @ logical @ ''` uses a sensitive path'')
              else if map_option lower_str (file_extension path) \<in> set [Some ''md'', Some ''markdown'']
              then Inr logical
              else Inl (''Spec `'' @ logical @ ''` must be a Markdown file''))"

text \<open>
  What the file system answers for one relative path: the canonical path (or the error), whether
  it is a regular file inside the repository, its length and its bytes.
\<close>

record spec_file =
  canonical_path :: "unit result"
  contained_file :: bool
  metadata_len :: "nat result"
  file_contents :: "string result"

record load_state =
  seen_paths :: "string bset"
  seen_requirements :: "(string, string) bmap"
  loaded_sources :: "spec_source list"
  loaded_requirements :: "requirement list"
  total_bytes :: nat

definition map_err :: "('e \<Rightarrow> 'f) \<Rightarrow> 'e + 'a \<Rightarrow> 'f + 'a" where
  "map_err f r = (case r of Inl e \<Rightarrow> Inl (f e) | Inr x \<Rightarrow> Inr x)"

lemma map_err_Inr [result_simps]: "map_err f r = Inr x \<longleftrightarrow> r = Inr x"
  by (simp add: map_err_def split: sum.splits)

definition note_requirement :: "requirement \<Rightarrow> (string, string) bmap \<Rightarrow> (string, string) bmap result" where
  "note_requirement r seen =
     (let place = req_source_path r @ '':'' @ show_nat (req_start_line r)
      in case map_of seen (req_id r) of
           Some existing \<Rightarrow>
             Inl (''Requirement id `'' @ req_id r @ ''` is duplicated at '' @ existing @ '' and '' @ place)
         | None \<Rightarrow> Inr (bmap_insert (req_id r) place seen))"

definition load_spec_file ::
  "(string \<Rightarrow> string) \<Rightarrow> (string \<Rightarrow> spec_file) \<Rightarrow> string \<Rightarrow> load_state \<Rightarrow> load_state result" where
  "load_spec_file sha256 open_spec relative st =
     and_then (validate_relative_markdown_path relative) (\<lambda>logical.
     and_then (reject_if (logical \<in> set (seen_paths st))
                 (''Spec path `'' @ logical @ ''` was supplied more than once'')) (\<lambda>_.
     let f = open_spec relative in
     and_then (map_err (\<lambda>e. ''Spec `'' @ logical @ ''` is unavailable: '' @ e) (canonical_path f)) (\<lambda>_.
     and_then (reject_if (\<not> contained_file f)
                 (''Spec `'' @ logical @ ''` must be a contained repository file'')) (\<lambda>_.
     and_then (map_err (\<lambda>e. ''Could not inspect spec `'' @ logical @ ''`: '' @ e) (metadata_len f)) (\<lambda>bytes.
     and_then (reject_if (MAX_SPEC_FILE_BYTES < bytes)
                 (''Spec `'' @ logical @ ''` exceeds the 64 KiB file limit'')) (\<lambda>_.
     let so_far = min (total_bytes st + bytes) (2 ^ 64 - 1) in
     and_then (reject_if (MAX_SPEC_TOTAL_BYTES < so_far)
                 ''Combined spec input exceeds the 256 KiB limit'') (\<lambda>_.
     and_then (map_err (\<lambda>e. ''Could not read spec `'' @ logical @ ''`: '' @ e) (file_contents f)) (\<lambda>source.
     and_then (reject_if (\<not> valid_utf8 source)
                 (''Spec `'' @ logical @ ''` must be UTF-8 Markdown'')) (\<lambda>_.
     and_then (reject_if (looks_like_secret source)
                 (''Spec `'' @ logical @ ''` contains secret-like material'')) (\<lambda>_.
     and_then (extract_requirements logical source) (\<lambda>extracted.
     and_then (fold_result note_requirement extracted (seen_requirements st)) (\<lambda>seen.
     let requirements = loaded_requirements st @ extracted in
     and_then (reject_if (MAX_REQUIREMENTS < length requirements)
                 (''Spec input exceeds the '' @ show_nat MAX_REQUIREMENTS @ '' requirement limit'')) (\<lambda>_.
     Inr \<lparr>seen_paths = bset_insert logical (seen_paths st), seen_requirements = seen,
          loaded_sources = loaded_sources st @
            [\<lparr>spec_path = logical, spec_sha256 = ''sha256:'' @ sha256 source, spec_bytes = length source\<rparr>],
          loaded_requirements = requirements, total_bytes = so_far\<rparr>)))))))))))))"

definition load_spec_packet ::
  "(string \<Rightarrow> string) \<Rightarrow> unit result \<Rightarrow> (string \<Rightarrow> spec_file) \<Rightarrow> string list \<Rightarrow> spec_packet option result" where
  "load_spec_packet sha256 repo open_spec paths =
     (if paths = [] then Inr None
      else if MAX_SPEC_FILES < length paths
      then Inl (''At most '' @ show_nat MAX_SPEC_FILES @ '' spec files may be checked at once'')
      else
        and_then (map_err (\<lambda>e. ''Could not resolve repository for spec input: '' @ e) repo) (\<lambda>_.
        and_then (fold_result (load_spec_file sha256 open_spec) paths
                    \<lparr>seen_paths = [], seen_requirements = [], loaded_sources = [],
                     loaded_requirements = [], total_bytes = 0\<rparr>) (\<lambda>st.
          case build_review_context (loaded_requirements st) of
            (context, ids, limitations) \<Rightarrow>
              Inr (Some \<lparr>packet_sources = loaded_sources st,
                packet_requirements = loaded_requirements st,
                review_context = context, review_requirement_ids = ids,
                packet_limitations = limitations @
                  (if loaded_requirements st = []
                   then [''No explicit `Requirement:` sections were found; CodeVetter did not invent requirements'']
                   else [])\<rparr>))))"

section \<open>Properties\<close>

subsection \<open>The receipt\<close>

lemma status_cover_requirement:
  "requirement_status (cover_requirement sel ids done ex ev r) =
     (if req_id r \<in> set sel \<and> ex = ExecPassed then Verified
      else if req_id r \<in> set sel \<and> ex = ExecFailed then Contradicted
      else if done \<and> req_id r \<in> set ids then ReviewOnly else Unverified)"
  by (auto simp: cover_requirement_def Let_def split: spec_execution_outcome.splits)

lemma cover_requirement_simps [simp]:
  "covered_requirement (cover_requirement sel ids done ex ev r) = r"
  "selected_for_execution (cover_requirement sel ids done ex ev r) \<longleftrightarrow> req_id r \<in> set sel"
  "supplied_to_review (cover_requirement sel ids done ex ev r) \<longleftrightarrow> req_id r \<in> set ids"
  by (auto simp: cover_requirement_def Let_def)

lemma count_status_partition:
  "count_status Verified xs + count_status Contradicted xs + count_status ReviewOnly xs
     + count_status Unverified xs = length xs"
proof (induction xs)
  case (Cons x xs)
  then show ?case by (cases "requirement_status x") (auto simp: count_status_def)
qed (simp add: count_status_def)

lemma count_status_le: "count_status st xs \<le> length xs"
  by (simp add: count_status_def)

lemma percentage_bound:
  assumes "part \<le> whole" and "percentage part whole = Some p"
  shows "p \<le> 100"
proof -
  have "(part * 100 + whole div 2) div whole < 101" if "0 < whole"
  proof -
    have "part * 100 + whole div 2 < 101 * whole" using assms(1) that by linarith
    then show ?thesis using that by (simp add: div_less_iff_less_mult)
  qed
  then show ?thesis using assms(2) by (auto simp: percentage_def split: if_splits)
qed

lemma percentage_exact:
  assumes "part \<le> whole" "0 < whole"
  shows "percentage part whole = Some ((part * 100 + whole div 2) div whole)"
proof -
  have "part * 100 + whole div 2 < 101 * whole" using assms by linarith
  then have "(part * 100 + whole div 2) div whole < 101"
    using assms(2) by (simp add: div_less_iff_less_mult)
  then show ?thesis using assms(2) by (simp add: percentage_def)
qed

lemma compose_simps [simp]:
  "coverage_requirements (compose_spec_coverage p ids sha done ex ev) =
     map (cover_requirement (bset_of ids) (review_requirement_ids p) done ex ev)
       (packet_requirements p)"
  "coverage_summary (compose_spec_coverage p ids sha done ex ev) =
     summarize_coverage (map (cover_requirement (bset_of ids) (review_requirement_ids p) done ex ev)
       (packet_requirements p))"
  by (simp_all add: compose_spec_coverage_def Let_def)

subsection \<open>Loading\<close>

lemma fill_context_prefix:
  assumes "fill_context n rs ctx included = (ctx', included', limits)"
  shows "\<exists>k \<le> length rs.
           ctx' = ctx @ concat (map requirement_block (take k rs)) \<and>
           included' = foldl (\<lambda>s r. bset_insert (req_id r) s) included (take k rs) \<and>
           (limits = [] \<longleftrightarrow> k = length rs)"
  using assms
proof (induction rs arbitrary: ctx included)
  case (Cons r rs)
  show ?case
  proof (cases "MAX_REVIEW_CONTEXT_BYTES < length ctx + length (requirement_block r)")
    case True
    with Cons.prems show ?thesis by (intro exI [of _ 0]) auto
  next
    case False
    with Cons.prems have "fill_context n rs (ctx @ requirement_block r)
        (bset_insert (req_id r) included) = (ctx', included', limits)" by simp
    from Cons.IH [OF this] obtain k where "k \<le> length rs"
      and "ctx' = (ctx @ requirement_block r) @ concat (map requirement_block (take k rs))"
      and "included' = foldl (\<lambda>s r. bset_insert (req_id r) s) (bset_insert (req_id r) included) (take k rs)"
      and "limits = [] \<longleftrightarrow> k = length rs" by blast
    then show ?thesis by (intro exI [of _ "Suc k"]) auto
  qed
qed simp

lemma fill_context_bound:
  "length ctx \<le> MAX_REVIEW_CONTEXT_BYTES \<Longrightarrow>
   fill_context n rs ctx included = (ctx', included', limits) \<Longrightarrow>
   length ctx' \<le> MAX_REVIEW_CONTEXT_BYTES"
proof (induction rs arbitrary: ctx included)
  case (Cons r rs)
  show ?case
  proof (cases "MAX_REVIEW_CONTEXT_BYTES < length ctx + length (requirement_block r)")
    case False
    then show ?thesis
      using Cons.IH [of "ctx @ requirement_block r" "bset_insert (req_id r) included"] Cons.prems
      by simp
  qed (use Cons.prems in simp)
qed simp

lemma review_header_bound: "length review_header \<le> MAX_REVIEW_CONTEXT_BYTES"
  by (simp add: review_header_def MAX_REVIEW_CONTEXT_BYTES_def)

definition load_inv :: "load_state \<Rightarrow> bool" where
  "load_inv st \<longleftrightarrow>
     dom (map_of (seen_requirements st)) = req_id ` set (loaded_requirements st) \<and>
     distinct (map req_id (loaded_requirements st)) \<and>
     length (loaded_requirements st) \<le> MAX_REQUIREMENTS \<and>
     total_bytes st \<le> MAX_SPEC_TOTAL_BYTES \<and>
     bset_ok (seen_paths st) \<and>
     distinct (map spec_path (loaded_sources st)) \<and>
     set (map spec_path (loaded_sources st)) = set (seen_paths st)"

lemma note_requirement_Inr:
  "note_requirement r seen = Inr seen' \<longleftrightarrow>
     req_id r \<notin> dom (map_of seen) \<and>
     seen' = bmap_insert (req_id r) (req_source_path r @ '':'' @ show_nat (req_start_line r)) seen"
  by (auto simp: note_requirement_def Let_def split: option.splits)

lemma note_all_distinct:
  "fold_result note_requirement rs seen = Inr seen' \<Longrightarrow>
     dom (map_of seen') = dom (map_of seen) \<union> req_id ` set rs \<and>
     distinct (map req_id rs) \<and> dom (map_of seen) \<inter> req_id ` set rs = {}"
proof (induction rs arbitrary: seen)
  case (Cons r rs)
  then obtain s1 where s1: "note_requirement r seen = Inr s1"
    and "fold_result note_requirement rs s1 = Inr seen'"
    by (auto simp: and_then_Inr)
  with Cons.IH have "dom (map_of seen') = dom (map_of s1) \<union> req_id ` set rs"
    "distinct (map req_id rs)" "dom (map_of s1) \<inter> req_id ` set rs = {}" by blast+
  with s1 show ?case by (auto simp: note_requirement_Inr)
qed simp

lemma load_spec_file_inv:
  assumes "load_spec_file sha256 fs path st = Inr st'" and "load_inv st"
  shows "load_inv st'"
proof -
  from assms(1) obtain logical extracted seen where
    fresh: "logical \<notin> set (seen_paths st)"
    and noted: "fold_result note_requirement extracted (seen_requirements st) = Inr seen"
    and few: "length (loaded_requirements st @ extracted) \<le> MAX_REQUIREMENTS"
    and total: "total_bytes st' \<le> MAX_SPEC_TOTAL_BYTES"
    and st': "seen_paths st' = bset_insert logical (seen_paths st)" "seen_requirements st' = seen"
      "map spec_path (loaded_sources st') = map spec_path (loaded_sources st) @ [logical]"
      "loaded_requirements st' = loaded_requirements st @ extracted"
    by (auto simp: load_spec_file_def Let_def result_simps)
  from note_all_distinct [OF noted] assms(2) st' fresh few total show ?thesis
    by (auto simp: load_inv_def set_insort_insert)
qed

lemma load_inv_start:
  "load_inv \<lparr>seen_paths = [], seen_requirements = [], loaded_sources = [],
             loaded_requirements = [], total_bytes = 0\<rparr>"
  by (simp add: load_inv_def)

lemma set_fold_ids:
  "set (foldl (\<lambda>s r. bset_insert (f r) s) s0 rs) = set s0 \<union> f ` set rs"
  by (induction rs arbitrary: s0) (auto simp: set_insort_insert)

lemma build_review_context_prefix:
  assumes "build_review_context rs = (ctx, ids, limits)"
  obtains k where "k \<le> length rs" and "set ids = req_id ` set (take k rs)"
    and "ctx = (if k = 0 then [] else review_header @ concat (map requirement_block (take k rs)))"
    and "limits = [] \<longleftrightarrow> k = length rs"
proof -
  obtain ctx' where fill: "fill_context (length rs) rs review_header [] = (ctx', ids, limits)"
    and ctx: "ctx = (if ids = [] then [] else ctx')"
    using assms by (auto simp: build_review_context_def split: prod.splits)
  from fill_context_prefix [OF fill] obtain k where k: "k \<le> length rs"
    "ctx' = review_header @ concat (map requirement_block (take k rs))"
    "ids = foldl (\<lambda>s r. bset_insert (req_id r) s) [] (take k rs)"
    "limits = [] \<longleftrightarrow> k = length rs" by blast
  have ids: "set ids = req_id ` set (take k rs)" by (simp add: k(3) set_fold_ids)
  then have "ids = [] \<longleftrightarrow> take k rs = []" by (metis image_is_empty set_empty)
  then have "ids = [] \<longleftrightarrow> k = 0" using k(1) by auto
  with k ctx have "ctx = (if k = 0 then [] else review_header @ concat (map requirement_block (take k rs)))"
    by auto
  with that k ids show ?thesis by blast
qed

lemma build_review_context_bound:
  assumes "build_review_context rs = (ctx, ids, limits)"
  shows "length ctx \<le> MAX_REVIEW_CONTEXT_BYTES"
proof -
  obtain ctx' where "fill_context (length rs) rs review_header [] = (ctx', ids, limits)"
    and "ctx = (if ids = [] then [] else ctx')"
    using assms by (auto simp: build_review_context_def split: prod.splits)
  with fill_context_bound [OF review_header_bound] show ?thesis by auto
qed

subsection \<open>Extraction\<close>

lemma heading_starts_ordered:
  assumes "map_result (heading_start path) (enumerate n ls) = Inr ss"
  shows "sorted_wrt (<) (map fst (concat ss)) \<and>
    (\<forall>x \<in> set (concat ss). n \<le> fst x \<and> fst x < n + length ls \<and> fst (snd x) \<noteq> [])"
  using assms
proof (induction ls arbitrary: n ss)
  case (Cons l ls)
  then obtain h hs where h: "heading_start path (n, l) = Inr h"
    and hs: "map_result (heading_start path) (enumerate (Suc n) ls) = Inr hs" and ss: "ss = h # hs"
    by (auto simp: and_then_Inr)
  have "h = [] \<or> (\<exists>i title. h = [(n, i, title)] \<and> i \<noteq> [])"
    using h by (auto simp: heading_start_def Let_def split: option.splits if_splits)
  with Cons.IH [OF hs] ss show ?case by (fastforce simp: Suc_le_eq)
qed simp

lemma requirement_bodies_shape:
  assumes "requirement_bodies path ls starts = Inr rs"
    and "sorted_wrt (<) (map fst starts)" and "\<forall>x \<in> set starts. fst x < length ls"
  shows "map req_start_line rs = map (\<lambda>x. Suc (fst x)) starts \<and>
    map req_id rs = map (\<lambda>x. fst (snd x)) starts \<and>
    sorted_wrt (\<lambda>r s. req_end_line r < req_start_line s) rs \<and>
    (\<forall>r \<in> set rs. req_start_line r \<le> req_end_line r \<and> req_end_line r \<le> length ls \<and>
        length (req_text r) \<le> MAX_REQUIREMENT_BYTES \<and> req_source_path r = path)"
  using assms
proof (induction path ls starts arbitrary: rs rule: requirement_bodies.induct)
  case (2 path ls start i title rest)
  obtain r rs' where rs: "rs = r # rs'" and rest: "requirement_bodies path ls rest = Inr rs'"
    and r: "req_start_line r = Suc start" "req_id r = i" "req_source_path r = path"
      "req_end_line r = max (case rest of [] \<Rightarrow> length ls | (next, _) # _ \<Rightarrow> next) (Suc start)"
      "length (req_text r) \<le> MAX_REQUIREMENT_BYTES"
    using 2(2) by (auto simp: Let_def result_simps not_less)
  have IH: "map req_start_line rs' = map (\<lambda>x. Suc (fst x)) rest"
    "map req_id rs' = map (\<lambda>x. fst (snd x)) rest"
    "sorted_wrt (\<lambda>r s. req_end_line r < req_start_line s) rs'"
    "\<forall>r \<in> set rs'. req_start_line r \<le> req_end_line r \<and> req_end_line r \<le> length ls \<and>
        length (req_text r) \<le> MAX_REQUIREMENT_BYTES \<and> req_source_path r = path"
    using 2(1) [OF refl _ rest] 2(3,4) by (simp_all add: rest)
  have start: "start < length ls" "\<forall>x \<in> set rest. start < fst x" using 2(3,4) by auto
  have "\<forall>s \<in> set rs'. req_end_line r < req_start_line s"
  proof
    fix s assume "s \<in> set rs'"
    then have "req_start_line s \<in> set (map (\<lambda>x. Suc (fst x)) rest)" using IH(1) by (metis list.set_map imageI)
    then obtain x where x: "x \<in> set rest" "req_start_line s = Suc (fst x)" by auto
    obtain y ys where y: "rest = y # ys" using x by (cases rest) auto
    have "fst y \<le> fst x" using x(1) y 2(3) by auto
    moreover have "req_end_line r = fst y" using r(4) y start(2) by (auto split: prod.splits)
    ultimately show "req_end_line r < req_start_line s" using x(2) by simp
  qed
  moreover have "req_end_line r \<le> length ls"
    using r(4) start 2(4) by (auto split: list.splits)
  ultimately show ?case using rs r IH by simp
qed simp

section \<open>What the coverage receipt promises\<close>

text \<open>
  C38: Only an executed target proves or contradicts a requirement. In the receipt, a requirement
  is \<open>Verified\<close> exactly when it was selected and the correctness target passed, and
  \<open>Contradicted\<close> exactly when it was selected and the target failed; being shown to a review
  model yields at most \<open>ReviewOnly\<close>, and only the executed states carry evidence.
\<close>

theorem coverage_needs_execution:
  assumes "item \<in> set (coverage_requirements
             (compose_spec_coverage packet ids sha review_done outcome evidence))"
  shows "(requirement_status item = Verified \<longleftrightarrow>
            req_id (covered_requirement item) \<in> set ids \<and> outcome = ExecPassed) \<and>
         (requirement_status item = Contradicted \<longleftrightarrow>
            req_id (covered_requirement item) \<in> set ids \<and> outcome = ExecFailed) \<and>
         (requirement_evidence item =
            (if requirement_status item \<in> {Verified, Contradicted} then evidence else None)) \<and>
         (requirement_status item = ReviewOnly \<longrightarrow>
            review_done \<and> req_id (covered_requirement item) \<in> set (review_requirement_ids packet))"
proof -
  obtain r where "item = cover_requirement (bset_of ids) (review_requirement_ids packet)
                           review_done outcome evidence r"
    using assms by auto
  then show ?thesis
    by (cases outcome) (auto simp: cover_requirement_def Let_def)
qed

theorem coverage_needs_execution_witness:
  "requirement_status
     (cover_requirement [''a''] [''a''] True ExecPassed None
        \<lparr>req_id = ''a'', req_title = ''A'', req_text = [], req_source_path = ''s.md'',
         req_start_line = 1, req_end_line = 1\<rparr>) = Verified"
proof -
  let ?r = "\<lparr>req_id = ''a'', req_title = ''A'', req_text = [], req_source_path = ''s.md'',
             req_start_line = 1, req_end_line = 1\<rparr>"
  let ?p = "\<lparr>packet_sources = [], packet_requirements = [?r], review_context = [],
             review_requirement_ids = [''a''], packet_limitations = []\<rparr>"
  let ?item = "cover_requirement (bset_of [''a'']) [''a''] True ExecPassed None ?r"
  have item: "?item \<in> set (coverage_requirements
      (compose_spec_coverage ?p [''a''] ''h'' True ExecPassed None))" by simp
  have "bset_of [''a''] = [''a'']" by (simp add: bset_of_def insort_insert_key_def)
  with coverage_needs_execution [OF item] show ?thesis by simp
qed

text \<open>
  The summary accounts for every requirement exactly once and its percentages are real
  percentages: the four status counts add up to the total, and the three rounded percentages
  never exceed 100, so the cast to \<open>u8\<close> never truncates.
\<close>

theorem coverage_summary_accounts:
  assumes "s = coverage_summary (compose_spec_coverage packet ids sha review_done outcome evidence)"
  shows "verified_count s + contradicted_count s + review_only_count s + unverified_count s
           = total_requirements s \<and>
         total_requirements s = length (packet_requirements packet) \<and>
         verified_percent s =
           (if packet_requirements packet = [] then None
            else Some ((verified_count s * 100 + total_requirements s div 2) div total_requirements s)) \<and>
         (\<forall>p \<in> set_option (review_input_percent s) \<union> set_option (executable_percent s)
                \<union> set_option (verified_percent s). p \<le> 100)"
proof -
  let ?items = "coverage_requirements
    (compose_spec_coverage packet ids sha review_done outcome evidence)"
  have s: "s = summarize_coverage ?items" using assms by simp
  have parts: "verified_count s + contradicted_count s + review_only_count s + unverified_count s
      = total_requirements s" "total_requirements s = length (packet_requirements packet)"
    using count_status_partition [of ?items] by (simp_all add: s summarize_coverage_def Let_def)
  have pct: "review_input_percent s = percentage (review_input_requirements s) (total_requirements s)"
    "executable_percent s = percentage (verified_count s + contradicted_count s) (total_requirements s)"
    "verified_percent s = percentage (verified_count s) (total_requirements s)"
    "review_input_requirements s \<le> total_requirements s"
    by (simp_all add: s summarize_coverage_def Let_def length_filter_le [THEN order_trans])
  have le: "verified_count s + contradicted_count s \<le> total_requirements s"
    "verified_count s \<le> total_requirements s" using parts(1) by simp_all
  have "verified_percent s =
      (if packet_requirements packet = [] then None
       else Some ((verified_count s * 100 + total_requirements s div 2) div total_requirements s))"
    using pct(3) percentage_exact [OF le(2)] parts(2) by (auto simp: percentage_def)
  then show ?thesis
    using parts pct percentage_bound [OF pct(4)] percentage_bound [OF le(1)] percentage_bound [OF le(2)]
    by auto
qed

theorem coverage_summary_accounts_witness:
  "\<exists>s. s = coverage_summary (compose_spec_coverage
         \<lparr>packet_sources = [], packet_requirements =
            [\<lparr>req_id = ''a'', req_title = ''A'', req_text = [], req_source_path = ''s.md'',
              req_start_line = 1, req_end_line = 1\<rparr>], review_context = [],
          review_requirement_ids = [''a''], packet_limitations = []\<rparr> [''a''] ''h'' True ExecPassed None) \<and>
     total_requirements s = 1 \<and> verified_percent s \<noteq> None"
  using coverage_summary_accounts [OF refl, of "\<lparr>packet_sources = [], packet_requirements =
            [\<lparr>req_id = ''a'', req_title = ''A'', req_text = [], req_source_path = ''s.md'',
              req_start_line = 1, req_end_line = 1\<rparr>], review_context = [],
          review_requirement_ids = [''a''], packet_limitations = []\<rparr>"] by simp

text \<open>
  A loaded packet is well formed. When the loader accepts the given files, requirement
  identifiers are unique across all of them, no file was read twice, at most 128 requirements
  remain, and the review context fits its 16 KiB and cites only identifiers of loaded
  requirements.
\<close>

theorem loaded_packet_well_formed:
  assumes "load_spec_packet sha256 repo open_spec paths = Inr (Some packet)"
  shows "distinct (map req_id (packet_requirements packet)) \<and>
         length (packet_requirements packet) \<le> MAX_REQUIREMENTS \<and>
         distinct (map spec_path (packet_sources packet)) \<and>
         length paths \<le> MAX_SPEC_FILES \<and>
         length (review_context packet) \<le> MAX_REVIEW_CONTEXT_BYTES \<and>
         set (review_requirement_ids packet) \<subseteq> req_id ` set (packet_requirements packet)"
proof -
  from assms obtain st where
    st: "fold_result (load_spec_file sha256 open_spec) paths
           \<lparr>seen_paths = [], seen_requirements = [], loaded_sources = [],
            loaded_requirements = [], total_bytes = 0\<rparr> = Inr st"
    and few: "length paths \<le> MAX_SPEC_FILES"
    and reqs: "packet_requirements packet = loaded_requirements st"
      "packet_sources packet = loaded_sources st"
    and ctx: "build_review_context (loaded_requirements st) =
        (review_context packet, review_requirement_ids packet,
         snd (snd (build_review_context (loaded_requirements st))))"
    by (auto simp: load_spec_packet_def result_simps split: if_splits prod.splits)
  have "load_inv st"
    by (rule fold_result_invariant [where I = load_inv, OF st load_inv_start])
      (rule load_spec_file_inv)
  moreover obtain k where "set (review_requirement_ids packet)
      = req_id ` set (take k (loaded_requirements st))"
    using build_review_context_prefix [OF ctx] by metis
  moreover have "length (review_context packet) \<le> MAX_REVIEW_CONTEXT_BYTES"
    by (rule build_review_context_bound [OF ctx])
  ultimately show ?thesis
    using few reqs by (auto simp: load_inv_def dest: in_set_takeD)
qed

definition sample_spec_file :: spec_file where
  "sample_spec_file =
     \<lparr>canonical_path = Inr (), contained_file = True, metadata_len = Inr 16,
      file_contents = Inr ''# Requirement: x''\<rparr>"

lemma loads_one_file:
  obtains p where "load_spec_packet (\<lambda>_. ''00'') (Inr ()) (\<lambda>_. sample_spec_file) [''a.md'']
      = Inr (Some p)" and "map req_id (packet_requirements p) = [''x'']"
proof -
  have path: "validate_relative_markdown_path ''a.md'' = Inr ''a.md''"
    by (simp add: validate_relative_markdown_path_def Let_def is_absolute_def components_def
        file_extension_def lower_str_def sensitive_defs is_ascii_uppercase_def to_ascii_lower_def char_of_def bit_iff_odd to_forward_def)
  have bodies: "extract_requirements ''a.md'' ''# Requirement: x'' =
      Inr [\<lparr>req_id = ''x'', req_title = ''x'', req_text = [], req_source_path = ''a.md'',
            req_start_line = 1, req_end_line = 1\<rparr>]"
    by (simp add: extract_requirements_def Let_def text_lines_def heading_start_def
        requirement_heading_def slugify_def slug_step_def to_lowercase_def slug_char_def
        trim_def trim_start_def trim_end_def trim_matches_def chars_def char_of_def bit_iff_odd
        MAX_REQUIREMENT_BYTES_def reject_if_def continuation_bytes_def lead_bits_def is_whitespace_def)
  have public: "\<not> looks_like_secret ''# Requirement: x''" "valid_utf8 ''# Requirement: x''"
    by (simp_all add: secret_defs char_of_def bit_iff_odd)
  have built: "\<exists>a b c. build_review_context rs = (a, b, c)" for rs by (metis surj_pair)
  obtain ctx ids limits where "build_review_context [\<lparr>req_id = ''x'', req_title = ''x'', req_text = [],
      req_source_path = ''a.md'', req_start_line = Suc 0, req_end_line = Suc 0\<rparr>] = (ctx, ids, limits)"
    using built by blast
  then show ?thesis
    using that
    by (simp add: load_spec_packet_def load_spec_file_def sample_spec_file_def path bodies public Let_def
        result_simps map_err_def note_requirement_def MAX_SPEC_FILES_def MAX_SPEC_FILE_BYTES_def
        MAX_SPEC_TOTAL_BYTES_def MAX_REQUIREMENTS_def)
qed

theorem loaded_packet_well_formed_witness:
  "\<exists>p. load_spec_packet (\<lambda>_. ''00'') (Inr ())
     (\<lambda>_. sample_spec_file) [''a.md''] = Inr (Some p) \<and>
     distinct (map spec_path (packet_sources p))"
proof -
  obtain p where "load_spec_packet (\<lambda>_. ''00'') (Inr ()) (\<lambda>_. sample_spec_file) [''a.md''] = Inr (Some p)"
    using loads_one_file .
  with loaded_packet_well_formed [OF this] show ?thesis by simp
qed

text \<open>
  Extraction reports requirements in document order over disjoint line ranges: each one
  starts after the previous one ends, ends inside the file, keeps at most 8 KiB of text and
  carries a usable identifier.
\<close>

theorem extracted_requirements_ordered:
  assumes "extract_requirements path source = Inr rs"
  shows "sorted_wrt (\<lambda>r s. req_end_line r < req_start_line s) rs \<and>
         (\<forall>r \<in> set rs. 1 \<le> req_start_line r \<and> req_start_line r \<le> req_end_line r \<and>
            req_end_line r \<le> length (text_lines (normalize_newlines source)) \<and>
            length (req_text r) \<le> MAX_REQUIREMENT_BYTES \<and> req_id r \<noteq> [] \<and>
            req_source_path r = path)"
proof -
  let ?ls = "text_lines (normalize_newlines source)"
  obtain ss where ss: "map_result (heading_start path) (enumerate 0 ?ls) = Inr ss"
    and rs: "requirement_bodies path ?ls (concat ss) = Inr rs"
    using assms by (auto simp: extract_requirements_def Let_def result_simps)
  from heading_starts_ordered [OF ss]
  have starts: "sorted_wrt (<) (map fst (concat ss))" "\<forall>x \<in> set (concat ss). fst x < length ?ls"
    and ids: "\<forall>x \<in> set (concat ss). fst (snd x) \<noteq> []" by auto
  note shape = requirement_bodies_shape [OF rs starts]
  have "1 \<le> req_start_line r" "req_id r \<noteq> []" if "r \<in> set rs" for r
  proof -
    from that have "req_start_line r \<in> set (map req_start_line rs)" "req_id r \<in> set (map req_id rs)"
      by simp_all
    then have "req_start_line r \<in> set (map (\<lambda>x. Suc (fst x)) (concat ss))"
      "req_id r \<in> set (map (\<lambda>x. fst (snd x)) (concat ss))" using shape by simp_all
    with ids show "1 \<le> req_start_line r" "req_id r \<noteq> []" by (auto simp del: set_concat)
  qed
  with shape show ?thesis by simp
qed

theorem extracted_requirements_ordered_witness:
  "\<exists>rs. extract_requirements ''a.md'' (''# Requirement: x'' @ [newline] @ ''## Requirement: y'') = Inr rs \<and>
     length rs = 2 \<and> sorted_wrt (\<lambda>r s. req_end_line r < req_start_line s) rs"
proof -
  have "\<exists>rs. extract_requirements ''a.md'' (''# Requirement: x'' @ [newline] @ ''## Requirement: y'') = Inr rs
      \<and> length rs = 2"
    by (simp add: extract_requirements_def Let_def text_lines_def heading_start_def
        requirement_heading_def slugify_def slug_step_def to_lowercase_def slug_char_def
        trim_def trim_start_def trim_end_def trim_matches_def chars_def char_of_def bit_iff_odd
        MAX_REQUIREMENT_BYTES_def reject_if_def continuation_bytes_def lead_bits_def is_whitespace_def)
  then show ?thesis using extracted_requirements_ordered by blast
qed

end
