(* ===== verification/Json.thy ===== *)
theory Json
  imports Prelude Complex_Main
begin

text \<open>
  \<open>serde_json::Value\<close>, the type in which evidence, findings and receipts travel. Objects
  are \<open>serde_json::Map\<close>, an ordered map. A number is a non-negative integer, a negative
  integer or a float; no modelled code computes with the floats, so they are kept by their
  value as a rational.
\<close>

datatype number = PosInt nat | NegInt int | Float rat

datatype json =
    Null
  | Bool bool
  | Number number
  | String string
  | Array "json list"
  | Object "(string, json) bmap"

text \<open>The \<open>as_*\<close> accessors, bounded as the machine types are.\<close>

fun as_str :: "json \<Rightarrow> string option" where
  "as_str (String s) = Some s"
| "as_str _ = None"

fun as_bool :: "json \<Rightarrow> bool option" where
  "as_bool (Bool b) = Some b"
| "as_bool _ = None"

fun as_array :: "json \<Rightarrow> json list option" where
  "as_array (Array xs) = Some xs"
| "as_array _ = None"

fun as_object :: "json \<Rightarrow> (string, json) bmap option" where
  "as_object (Object m) = Some m"
| "as_object _ = None"

fun as_u64 :: "json \<Rightarrow> nat option" where
  "as_u64 (Number (PosInt n)) = Some n"
| "as_u64 _ = None"

text \<open>\<open>as_i64\<close> fails on integers above \<open>i64::MAX\<close>.\<close>

fun as_i64 :: "json \<Rightarrow> int option" where
  "as_i64 (Number (PosInt n)) = (if n < 2 ^ 63 then Some (int n) else None)"
| "as_i64 (Number (NegInt i)) = Some i"
| "as_i64 _ = None"

fun is_null :: "json \<Rightarrow> bool" where
  "is_null Null = True"
| "is_null _ = False"

text \<open>\<open>Value::get\<close> with a string key.\<close>

fun get_key :: "string \<Rightarrow> json \<Rightarrow> json option" where
  "get_key k (Object m) = map_of m k"
| "get_key k _ = None"

definition get_str :: "string \<Rightarrow> json \<Rightarrow> string option" where
  "get_str k v = Option.bind (get_key k v) as_str"

definition get_array :: "string \<Rightarrow> json \<Rightarrow> json list option" where
  "get_array k v = Option.bind (get_key k v) as_array"

text \<open>\<open>Value::pointer\<close> on a path of plain object keys, the only pointers the code writes.\<close>

fun pointer :: "string list \<Rightarrow> json \<Rightarrow> json option" where
  "pointer [] v = Some v"
| "pointer (k # ks) v = Option.bind (get_key k v) (pointer ks)"

text \<open>\<open>filter_map(Value::as_str)\<close> over an array's elements.\<close>

definition strings_of :: "json list \<Rightarrow> string list" where
  "strings_of vs = List.map_filter as_str vs"

text \<open>\<open>json!({..})\<close>: an object from its literal's entries.\<close>

definition object_of :: "(string \<times> json) list \<Rightarrow> json" where
  "object_of kvs = Object (btree.collect kvs)"

definition json_of_option :: "('a \<Rightarrow> json) \<Rightarrow> 'a option \<Rightarrow> json" where
  "json_of_option f x = (case x of None \<Rightarrow> Null | Some y \<Rightarrow> f y)"

text \<open>\<open>as_object_mut\<close> followed by \<open>insert\<close>; \<open>None\<close> when the value is not an object.\<close>

fun insert_key :: "string \<Rightarrow> json \<Rightarrow> json \<Rightarrow> json option" where
  "insert_key k w (Object m) = Some (Object (bmap_insert k w m))"
| "insert_key k w _ = None"

text \<open>\<open>get(k).cloned().unwrap_or(d)\<close>, and the elements of an array member, none if absent.\<close>

definition get_or :: "json \<Rightarrow> string \<Rightarrow> json \<Rightarrow> json" where
  "get_or d k v = (case get_key k v of None \<Rightarrow> d | Some w \<Rightarrow> w)"

definition items_at :: "string \<Rightarrow> json \<Rightarrow> json list" where
  "items_at k v = (case get_array k v of None \<Rightarrow> [] | Some xs \<Rightarrow> xs)"

text \<open>
  \<open>as_f64\<close> as an exact rational. Only an integer beyond \<open>2 ^ 53\<close> would be rounded, and
  every use clamps the value to the unit interval first.
\<close>

fun as_f64 :: "json \<Rightarrow> rat option" where
  "as_f64 (Number (PosInt n)) = Some (of_nat n)"
| "as_f64 (Number (NegInt i)) = Some (of_int i)"
| "as_f64 (Number (Float q)) = Some q"
| "as_f64 _ = None"

text \<open>
  A non-negative product below \<open>2 ^ 53\<close> rounded to a 64-bit float, half to even: doubled until
  its significand has 53 bits, or down to the smallest subnormal.
\<close>

primrec f64_normalise :: "nat \<Rightarrow> rat \<Rightarrow> rat \<times> nat" where
  "f64_normalise 0 x = (x, 0)"
| "f64_normalise (Suc n) x =
     (if 2 ^ 52 \<le> x then (x, 0)
      else case f64_normalise n (2 * x) of (y, k) \<Rightarrow> (y, Suc k))"

definition round_half_even :: "rat \<Rightarrow> int" where
  "round_half_even x =
     (let f = floor x; r = x - of_int f
      in if r < 1 / 2 \<or> (r = 1 / 2 \<and> even f) then f else f + 1)"

definition f64_round :: "rat \<Rightarrow> rat" where
  "f64_round x =
     (case f64_normalise 1074 x of (y, k) \<Rightarrow> of_int (round_half_even y) / 2 ^ k)"

lemma as_str_Some [simp]: "as_str v = Some s \<longleftrightarrow> v = String s"
  by (cases v) auto

lemma as_bool_Some [simp]: "as_bool v = Some b \<longleftrightarrow> v = Bool b"
  by (cases v) auto

lemma as_u64_Some: "as_u64 v = Some n \<longleftrightarrow> v = Number (PosInt n)"
  by (cases v rule: as_u64.cases) auto

lemma get_key_Some: "get_key k v = Some w \<longleftrightarrow> (\<exists>m. v = Object m \<and> map_of m k = Some w)"
  by (cases v) auto

lemma get_key_object_of: "get_key k (object_of kvs) = map_of (rev kvs) k"
  by (simp add: object_of_def btree.get_collect)

lemma insert_key_Some:
  "insert_key k w v = Some v' \<longleftrightarrow> (\<exists>m. v = Object m \<and> v' = Object (bmap_insert k w m))"
  by (cases v) auto

lemma get_key_insert_key:
  "insert_key k w v = Some v' \<Longrightarrow> get_key k' v' = (if k' = k then Some w else get_key k' v)"
  by (auto simp: insert_key_Some)

lemma insert_key_get_key: "get_key j v = Some u \<Longrightarrow> \<exists>v'. insert_key k w v = Some v'"
  by (auto simp: get_key_Some)

lemma get_str_Some: "get_str k v = Some s \<longleftrightarrow> get_key k v = Some (String s)"
  by (cases "get_key k v") (auto simp: get_str_def)

end
