(* ===== verification/CrossReview.thy ===== *)
theory CrossReview
  imports Json
begin

text \<open>
  Reconciliation of the independent Claude and Codex review passes, \<open>commands/cross_review.rs\<close>.
  Two findings are the same only when they name the same path, line and source anchor; no
  model merges them. \<open>to_vec\<close> is \<open>serde_json::to_vec\<close> and \<open>sha256\<close> the hexadecimal SHA-256,
  both third-party; \<open>executor_file\<close> says whether an agent's command line tool is installed.
\<close>

definition CROSS_REVIEW_SCHEMA :: string where
  "CROSS_REVIEW_SCHEMA = ''codevetter.cross-review/v1''"

section \<open>Binding both passes to one target\<close>

definition coordinator_policy_binding ::
  "(json \<Rightarrow> string result) \<Rightarrow> (string \<Rightarrow> string) \<Rightarrow> string \<Rightarrow> string \<Rightarrow> string \<Rightarrow> json list \<Rightarrow>
   string result" where
  "coordinator_policy_binding to_vec sha256 repo_path diff_range task runtime_context =
     (case to_vec (object_of
        [(''schema_version'', String CROSS_REVIEW_SCHEMA), (''repository'', String repo_path),
         (''diff_range'', String diff_range), (''task'', String task),
         (''runtime_context'', Array runtime_context)]) of
        Inl e \<Rightarrow> Inl (''Could not bind the cross-review policy: '' @ e)
      | Inr canonical \<Rightarrow> Inr (sha256 canonical))"

definition attach_coordinator_binding :: "json \<Rightarrow> string \<Rightarrow> json result" where
  "attach_coordinator_binding evidence binding =
     (case insert_key ''cross_review_policy_binding'' (String binding) evidence of
        None \<Rightarrow> Inl ''Review pass evidence is not an object''
      | Some v \<Rightarrow> Inr v)"

definition missing_executors :: "(string \<Rightarrow> bool) \<Rightarrow> string list" where
  "missing_executors executor_file = filter (\<lambda>agent. \<not> executor_file agent) [''claude'', ''codex'']"

definition target_identity :: "json \<Rightarrow> string result" where
  "target_identity evidence =
     (case Option.bind (pointer [''review_manifest'', ''target'', ''identity''] evidence) as_str of
        None \<Rightarrow> Inl ''Review pass omitted its immutable target identity''
      | Some i \<Rightarrow> Inr i)"

definition policy_binding :: "json \<Rightarrow> string result" where
  "policy_binding evidence =
     (case get_str ''cross_review_policy_binding'' evidence of
        None \<Rightarrow> Inl ''Review pass omitted its shared coordinator policy binding''
      | Some v \<Rightarrow>
          if length v = 64 \<and> list_all is_ascii_hexdigit v then Inr v
          else Inl ''Review pass omitted its shared coordinator policy binding'')"

text \<open>A missing member of a unit is \<open>null\<close> in the canonical plan.\<close>

definition canonical_unit :: "json \<Rightarrow> json" where
  "canonical_unit u =
     object_of (map (\<lambda>k. (k, get_or Null k u))
       [''file_path'', ''file_status'', ''diff_bytes'', ''prompt_budget_bytes''])"

definition unit_plan_identity ::
  "(json \<Rightarrow> string result) \<Rightarrow> (string \<Rightarrow> string) \<Rightarrow> json \<Rightarrow> string result" where
  "unit_plan_identity to_vec sha256 evidence =
     (case Option.bind (pointer [''review_manifest'', ''units''] evidence) as_array of
        None \<Rightarrow> Inl ''Review pass omitted its bounded unit plan''
      | Some units \<Rightarrow>
          (case to_vec (Array (map canonical_unit units)) of
             Inl e \<Rightarrow> Inl (''Could not bind the review unit plan: '' @ e)
           | Inr bytes \<Rightarrow> Inr (sha256 bytes)))"

section \<open>Identity and rank of a finding\<close>

text \<open>The identity is the path, the line and the anchor, separated by NUL.\<close>

definition finding_identity :: "json \<Rightarrow> string option" where
  "finding_identity finding =
     (case (get_str ''filePath'' finding, Option.bind (get_key ''line'' finding) as_i64,
            get_str ''sourceAnchor'' finding) of
        (Some path, Some line, Some anchor) \<Rightarrow>
          if trim path \<noteq> [] \<and> 0 < line \<and> trim anchor \<noteq> []
          then Some (trim path @ [CHR 0x00] @ show_int line @ [CHR 0x00] @ trim anchor)
          else None
      | _ \<Rightarrow> None)"

definition severities :: "(string \<times> json) list \<Rightarrow> string bset" where
  "severities candidates = bset_of (List.map_filter (\<lambda>c. get_str ''severity'' (snd c)) candidates)"

definition finding_rank :: "json \<Rightarrow> nat \<times> nat" where
  "finding_rank finding =
     (let sev = get_str ''severity'' finding
      in (if sev = Some ''critical'' then 4 else if sev = Some ''high'' then 3
          else if sev = Some ''medium'' then 2 else if sev = Some ''low'' then 1 else 0,
          case Option.bind (get_key ''confidence'' finding) as_f64 of
            None \<Rightarrow> 0
          | Some c \<Rightarrow> nat (floor (f64_round (min 1 (max 0 c) * 1000000)))))"

definition review_ready :: "json \<Rightarrow> bool" where
  "review_ready evidence \<longleftrightarrow>
     Option.bind (pointer [''review_readiness'', ''status''] evidence) as_str = Some ''ready'' \<and>
     get_str ''review_status'' evidence = Some ''completed''"

definition qualification_total :: "json \<Rightarrow> string \<Rightarrow> nat" where
  "qualification_total evidence state =
     (case Option.bind (pointer [''review_manifest'', ''qualification_counts'', state] evidence) as_u64 of
        None \<Rightarrow> 0 | Some n \<Rightarrow> n)"

definition bounded :: "string \<Rightarrow> nat \<Rightarrow> string" where
  "bounded v n = concat (take n (char_chunks v))"

definition pass_summary :: "string \<Rightarrow> json \<Rightarrow> json" where
  "pass_summary reviewer evidence =
     object_of
       [(''reviewer'', String reviewer),
        (''status'', get_or (String ''incomplete'') ''review_status'' evidence),
        (''review_id'', get_or Null ''review_id'' evidence),
        (''duration_ms'', get_or Null ''duration_ms'' evidence),
        (''findings_count'', get_or (Number (PosInt 0)) ''findings_count'' evidence),
        (''qualified_findings'', get_or (Array []) ''findings'' evidence),
        (''review_readiness'', get_or Null ''review_readiness'' evidence),
        (''review_manifest'', get_or Null ''review_manifest'' evidence),
        (''usage'', get_or Null ''usage'' evidence),
        (''raw_candidate_access'',
          String ''not_exposed_by_review_contract; qualification diagnostics remain in review_manifest'')]"

section \<open>Reconciliation\<close>

type_synonym candidates = "(string \<times> json) list"
type_synonym grouped = "(string, candidates) bmap"

definition add_candidate :: "string \<Rightarrow> grouped \<times> json list \<Rightarrow> json \<Rightarrow> grouped \<times> json list" where
  "add_candidate reviewer st finding =
     (let (groups, unresolved) = st
      in case finding_identity finding of
           Some i \<Rightarrow>
             (bmap_insert i
                ((case map_of groups i of None \<Rightarrow> [] | Some cs \<Rightarrow> cs) @ [(reviewer, finding)]) groups,
              unresolved)
         | None \<Rightarrow>
             (groups, unresolved @
               [object_of [(''reviewer'', String reviewer),
                           (''reason'', String ''missing_source_qualified_identity'')]]))"

definition group_findings :: "json \<Rightarrow> json \<Rightarrow> grouped \<times> json list" where
  "group_findings claude codex =
     foldl (\<lambda>st (reviewer, evidence). foldl (add_candidate reviewer) st (items_at ''findings'' evidence))
       ([], []) [(''claude'', claude), (''codex'', codex)]"

definition classify_candidates :: "candidates \<Rightarrow> string" where
  "classify_candidates candidates =
     (let reviewers = bset_of (map fst candidates)
      in if reviewers = [''claude''] then ''claude_only''
         else if reviewers = [''codex''] then ''codex_only''
         else if 1 < length (severities candidates) then ''conflicting''
         else ''corroborated'')"

text \<open>One group: its classification, and its strongest finding marked with it.\<close>

definition reconcile_group ::
  "candidates \<Rightarrow> (string, nat) bmap \<times> json list \<Rightarrow> ((string, nat) bmap \<times> json list) result" where
  "reconcile_group candidates st =
     (let (counts, findings) = st;
          reviewers = bset_of (map fst candidates);
          classification = classify_candidates candidates;
          counts' = bmap_insert classification
            (Suc (case map_of counts classification of None \<Rightarrow> 0 | Some n \<Rightarrow> n)) counts
      in case max_by_key (\<lambda>c. finding_rank (snd c)) candidates of
           None \<Rightarrow> Inl ''Cross-review reconciliation received an empty finding group''
         | Some (_, finding) \<Rightarrow>
             (case Option.bind
                     (insert_key ''cross_review_class'' (String classification) finding)
                     (insert_key ''reviewers'' (Array (map String reviewers))) of
                None \<Rightarrow> Inl ''Qualified review finding is not an object''
              | Some selected \<Rightarrow> Inr (counts', findings @ [selected])))"

text \<open>
  The counters are natural numbers: they count findings and qualifications of one review, far below
  the width of the machine integers of the code.
\<close>

definition initial_counts :: "json \<Rightarrow> json \<Rightarrow> (string, nat) bmap" where
  "initial_counts claude codex =
     btree.collect
       [(''corroborated'', 0), (''claude_only'', 0), (''codex_only'', 0), (''conflicting'', 0),
        (''rejected'', qualification_total claude ''rejected'' + qualification_total codex ''rejected''),
        (''stale'', qualification_total claude ''stale'' + qualification_total codex ''stale''),
        (''unresolved'',
          qualification_total claude ''unresolved'' + qualification_total codex ''unresolved'')]"

definition add_unresolved :: "nat \<Rightarrow> (string, nat) bmap \<Rightarrow> (string, nat) bmap" where
  "add_unresolved n counts =
     (case map_of counts ''unresolved'' of
        None \<Rightarrow> counts
      | Some c \<Rightarrow> bmap_insert ''unresolved'' (c + n) counts)"

definition reconciliation_limits :: "bool \<Rightarrow> json list" where
  "reconciliation_limits finished =
     (if finished then []
      else [String ''Both independent passes and every source-qualified identity are required''])"

definition same_or :: "string result \<Rightarrow> string result \<Rightarrow> string \<Rightarrow> string result" where
  "same_or a b e =
     and_then a (\<lambda>x. and_then b (\<lambda>y. if x = y then Inr x else Inl e))"

definition reconcile_complete ::
  "(json \<Rightarrow> string result) \<Rightarrow> (string \<Rightarrow> string) \<Rightarrow> json \<Rightarrow> json \<Rightarrow> json result" where
  "reconcile_complete to_vec sha256 claude codex =
     and_then (same_or (target_identity claude) (target_identity codex)
                 ''Cross-review passes do not bind the same immutable target'') (\<lambda>target.
     and_then (same_or (policy_binding claude) (policy_binding codex)
                 ''Cross-review passes do not bind the same coordinator policy'') (\<lambda>policy.
     and_then (same_or (unit_plan_identity to_vec sha256 claude) (unit_plan_identity to_vec sha256 codex)
                 ''Cross-review passes do not cover the same review units'') (\<lambda>units.
     let (groups, unresolved) = group_findings claude codex
     in and_then (fold_result reconcile_group (map snd groups) (initial_counts claude codex, []))
        (\<lambda>(counts, findings).
          let complete = review_ready claude \<and> review_ready codex \<and> unresolved = []
          in Inr (object_of
            [(''schema_version'', String CROSS_REVIEW_SCHEMA),
             (''strategy'', String ''claude_then_codex_independent''),
             (''status'', String (if complete then ''completed'' else ''incomplete'')),
             (''target_identity'', String target),
             (''policy_binding'', String policy),
             (''unit_plan_identity'', String units),
             (''passes'', Array [pass_summary ''claude'' claude, pass_summary ''codex'' codex]),
             (''counts'', Object (map (\<lambda>(k, n). (k, Number (PosInt n)))
                            (add_unresolved (length unresolved) counts))),
             (''findings'', Array (if complete then findings else [])),
             (''unresolved'', Array unresolved),
             (''limitations'', Array (reconciliation_limits complete)),
             (''authority'', String ''deterministic_source_qualified_union''),
             (''proof_boundary'',
               String ''Reviewer agreement is review coverage, never executable proof.'')])))))"

definition incomplete_after_pass :: "(string \<times> json) option \<Rightarrow> string \<Rightarrow> string \<Rightarrow> json" where
  "incomplete_after_pass completed_reviewer failed_reviewer e =
     (let passes = (case completed_reviewer of
                      None \<Rightarrow> [] | Some (reviewer, evidence) \<Rightarrow> [pass_summary reviewer evidence])
      in object_of
        [(''schema_version'', String CROSS_REVIEW_SCHEMA),
         (''strategy'', String ''claude_then_codex_independent''),
         (''status'', String ''incomplete''),
         (''passes'', Array passes),
         (''failed_reviewer'', String failed_reviewer),
         (''findings'', Array []),
         (''limitations'',
           Array [String (failed_reviewer @ '' pass did not complete: '' @ bounded e 320)]),
         (''authority'', String ''deterministic_source_qualified_union''),
         (''proof_boundary'', String ''A partial run cannot produce a composite cross-review claim.'')])"

definition project_stage_evidence :: "json \<Rightarrow> json" where
  "project_stage_evidence cross_review =
     (let findings = get_or (Array []) ''findings'' cross_review;
          complete = (get_str ''status'' cross_review = Some ''completed'');
          limitations = get_or (Array []) ''limitations'' cross_review;
          count = (case as_array findings of None \<Rightarrow> 0 | Some fs \<Rightarrow> length fs)
      in object_of
        [(''agent'', String ''cross''),
         (''review_status'', String (if complete then ''completed'' else ''incomplete'')),
         (''review_readiness'', object_of
           [(''status'', String (if complete then ''ready'' else ''incomplete'')),
            (''complete_coverage'', Bool complete), (''limitations'', limitations)]),
         (''findings_count'', Number (PosInt count)),
         (''findings'', findings),
         (''cross_review'', cross_review),
         (''summary'',
           String ''Independent Claude and Codex passes reconciled by source-qualified identity.'')])"

section \<open>Persisting the composite review\<close>

text \<open>
  The database is reached through three queries; \<open>review_store\<close> says what each answers and
  the calls made are recorded in order.
\<close>

record finding_row =
  row_review_id :: string
  row_severity :: string
  row_title :: string
  row_summary :: string
  row_suggestion :: "string option"
  row_file_path :: "string option"
  row_line :: "int option"
  row_confidence :: "rat option"
  row_fingerprint :: "string option"
  row_discovery_method :: "string option"

datatype review_call =
    CreateReview string string
  | InsertFinding finding_row
  | UpdateReview string nat string

record review_store =
  create_local_review :: "string \<Rightarrow> string \<Rightarrow> string result"
  insert_review_finding :: "finding_row \<Rightarrow> string result"
  update_local_review :: "string \<Rightarrow> nat \<Rightarrow> string \<Rightarrow> unit result"

definition str_or :: "string \<Rightarrow> string \<Rightarrow> json \<Rightarrow> string" where
  "str_or d k v = (case get_str k v of None \<Rightarrow> d | Some s \<Rightarrow> s)"

definition finding_row_of :: "string \<Rightarrow> json \<Rightarrow> finding_row" where
  "finding_row_of review finding =
     \<lparr>row_review_id = review,
      row_severity = str_or ''medium'' ''severity'' finding,
      row_title = str_or ''Untitled'' ''title'' finding,
      row_summary = str_or [] ''summary'' finding,
      row_suggestion = get_str ''suggestion'' finding,
      row_file_path = get_str ''filePath'' finding,
      row_line = Option.bind (get_key ''line'' finding) as_i64,
      row_confidence = Option.bind (get_key ''confidence'' finding) as_f64,
      row_fingerprint = finding_identity finding,
      row_discovery_method = Some ''independent_cross_review''\<rparr>"

fun persist_findings ::
  "review_store \<Rightarrow> string \<Rightarrow> json list \<Rightarrow> json list result \<times> review_call list" where
  "persist_findings store review [] = (Inr [], [])"
| "persist_findings store review (f # fs) =
     (if as_object f = None then (Inl ''Cross-review finding is not an object'', [])
      else let row = finding_row_of review f
        in case insert_review_finding store row of
             Inl e \<Rightarrow> (Inl e, [InsertFinding row])
           | Inr finding_id \<Rightarrow>
               (case persist_findings store review fs of
                  (r, calls) \<Rightarrow>
                    (and_then r (\<lambda>fs'. case insert_key ''id'' (String finding_id) f of
                        None \<Rightarrow> Inl ''Cross-review finding is not an object''
                      | Some f' \<Rightarrow> Inr (f' # fs')),
                     InsertFinding row # calls)))"

definition persist_composite_review ::
  "review_store \<Rightarrow> string \<Rightarrow> json \<Rightarrow> json result \<times> review_call list" where
  "persist_composite_review store diff_range evidence =
     (let status = str_or ''incomplete'' ''review_status'' evidence;
          label = ''cli:cross:'' @ diff_range
      in case create_local_review store label status of
           Inl e \<Rightarrow> (Inl e, [CreateReview label status])
         | Inr review \<Rightarrow>
             (case get_array ''findings'' evidence of
                None \<Rightarrow> (Inl ''Cross-review evidence omitted its finding union'',
                         [CreateReview label status])
              | Some findings \<Rightarrow>
                  (case persist_findings store review findings of
                     (Inl e, calls) \<Rightarrow> (Inl e, CreateReview label status # calls)
                   | (Inr fs, calls) \<Rightarrow>
                       (let calls' = CreateReview label status # calls
                                       @ [UpdateReview review (length fs) status]
                        in case update_local_review store review (length fs) status of
                             Inl e \<Rightarrow> (Inl e, calls')
                           | Inr () \<Rightarrow>
                               (case Option.bind (insert_key ''findings'' (Array fs) evidence)
                                       (insert_key ''review_id'' (String review)) of
                                  None \<Rightarrow> (Inl ''Cross-review stage evidence is not an object'', calls')
                                | Some v \<Rightarrow> (Inr v, calls'))))))"

section \<open>Grouping\<close>

lemma finding_identity_cong:
  assumes "\<And>k. k \<in> {''filePath'', ''line'', ''sourceAnchor''} \<Longrightarrow> get_key k v = get_key k w"
  shows "finding_identity v = finding_identity w"
  using assms by (simp add: finding_identity_def get_str_def)

lemma finding_identity_object: "finding_identity v = Some i \<Longrightarrow> \<exists>m. v = Object m"
  by (cases v) (auto simp: finding_identity_def get_str_def)

definition tagged_findings :: "json \<Rightarrow> json \<Rightarrow> candidates" where
  "tagged_findings claude codex =
     map (Pair ''claude'') (items_at ''findings'' claude) @
     map (Pair ''codex'') (items_at ''findings'' codex)"

definition with_identity :: "string \<Rightarrow> candidates \<Rightarrow> candidates" where
  "with_identity i cs = filter (\<lambda>c. finding_identity (snd c) = Some i) cs"

lemma group_findings_fold:
  "group_findings claude codex =
     foldl (\<lambda>st c. add_candidate (fst c) st (snd c)) ([], []) (tagged_findings claude codex)"
  by (simp add: group_findings_def tagged_findings_def foldl_map)

lemma group_fold_char:
  fixes cs :: candidates
  defines "st \<equiv> foldl (\<lambda>st c. add_candidate (fst c) st (snd c)) ([], []) cs"
  shows "bmap_ok (fst st) \<and>
    (\<forall>i. map_of (fst st) i =
        (if with_identity i cs = [] then None else Some (with_identity i cs))) \<and>
    length (snd st) = length (filter (\<lambda>c. finding_identity (snd c) = None) cs)"
  unfolding st_def
proof (induction cs rule: rev_induct)
  case (snoc c cs)
  let ?st = "foldl (\<lambda>st c. add_candidate (fst c) st (snd c)) ([], []) cs"
  obtain gs us where st: "?st = (gs, us)" by (cases ?st)
  with snoc have ok: "bmap_ok gs"
    and gs: "\<And>i. map_of gs i = (if with_identity i cs = [] then None else Some (with_identity i cs))"
    and us: "length us = length (filter (\<lambda>c. finding_identity (snd c) = None) cs)" by auto
  have next_st: "foldl (\<lambda>st c. add_candidate (fst c) st (snd c)) ([], []) (cs @ [c])
      = add_candidate (fst c) (gs, us) (snd c)" by (simp add: st)
  show ?case
  proof (cases "finding_identity (snd c)")
    case None
    with ok gs us show ?thesis unfolding next_st
      by (simp add: add_candidate_def with_identity_def)
  next
    case (Some j)
    then show ?thesis unfolding next_st
      using ok us gs by (auto simp: add_candidate_def with_identity_def)
  qed
qed (simp add: with_identity_def)

lemma group_findings_char:
  assumes "group_findings claude codex = (gs, us)"
  shows "bmap_ok gs"
    and "map_of gs i = (let m = with_identity i (tagged_findings claude codex)
                        in if m = [] then None else Some m)"
    and "us = [] \<longleftrightarrow> (\<forall>c \<in> set (tagged_findings claude codex). finding_identity (snd c) \<noteq> None)"
proof -
  note char = group_fold_char [of "tagged_findings claude codex", folded group_findings_fold]
  from char assms show "bmap_ok gs"
    and "map_of gs i = (let m = with_identity i (tagged_findings claude codex)
                        in if m = [] then None else Some m)" by (auto simp: Let_def)
  from char assms have "us = [] \<longleftrightarrow>
      filter (\<lambda>c. finding_identity (snd c) = None) (tagged_findings claude codex) = []" by auto
  then show "us = [] \<longleftrightarrow> (\<forall>c \<in> set (tagged_findings claude codex). finding_identity (snd c) \<noteq> None)"
    by (auto simp: filter_empty_conv)
qed

lemma group_findings_entry:
  assumes "group_findings claude codex = (gs, us)" and "(i, cs) \<in> set gs"
  shows "cs = with_identity i (tagged_findings claude codex) \<and> cs \<noteq> []"
  using group_findings_char(1) [OF assms(1)] group_findings_char(2) [OF assms(1), of i] assms(2)
  by (auto simp: bmap_entry_iff Let_def split: if_splits)

text \<open>A group of candidates with one identity yields exactly one finding with that identity.\<close>

lemma reconcile_group_total:
  assumes "cs \<noteq> []" and "\<forall>c \<in> set cs. finding_identity (snd c) = Some i"
  obtains counts' f reviewer finding where
    "\<And>fs. reconcile_group cs (counts, fs) = Inr (counts', fs @ [f])"
    and "finding_identity f = Some i"
    and "get_str ''cross_review_class'' f = Some (classify_candidates cs)"
    and "get_array ''reviewers'' f = Some (map String (bset_of (map fst cs)))"
    and "(reviewer, finding) \<in> set cs"
    and "\<forall>c \<in> set cs. finding_rank (snd c) \<le> finding_rank finding"
    and "\<forall>k. k \<notin> {''cross_review_class'', ''reviewers''} \<longrightarrow> get_key k f = get_key k finding"
proof -
  let ?kind = "String (classify_candidates cs)"
  let ?revs = "Array (map String (bset_of (map fst cs)))"
  obtain r v where max: "max_by_key (\<lambda>c. finding_rank (snd c)) cs = Some (r, v)"
    using assms(1) by (cases "max_by_key (\<lambda>c. finding_rank (snd c)) cs") auto
  from max_by_key_Some [OF max] have rv: "(r, v) \<in> set cs"
    "\<forall>c \<in> set cs. finding_rank (snd c) \<le> finding_rank v" by auto
  with assms(2) have iv: "finding_identity v = Some i" by auto
  from finding_identity_object [OF this] obtain m where v: "v = Object m" ..
  let ?f = "Object (bmap_insert ''reviewers'' ?revs (bmap_insert ''cross_review_class'' ?kind m))"
  let ?counts = "bmap_insert (classify_candidates cs)
    (Suc (case map_of counts (classify_candidates cs) of None \<Rightarrow> 0 | Some n \<Rightarrow> n)) counts"
  have "reconcile_group cs (counts, fs) = Inr (?counts, fs @ [?f])" for fs
    by (simp add: reconcile_group_def Let_def max v)
  moreover have "finding_identity ?f = finding_identity v"
    by (rule finding_identity_cong) (auto simp: v)
  ultimately show thesis
    using that [of ?counts ?f r v] rv v iv by (simp add: get_str_def get_array_def)
qed

lemma reconcile_groups_total:
  assumes "\<And>i cs. (i, cs) \<in> set gs \<Longrightarrow>
      cs \<noteq> [] \<and> (\<forall>c \<in> set cs. finding_identity (snd c) = Some i)"
  shows "\<exists>counts' fs'. fold_result reconcile_group (map snd gs) (counts, fs) = Inr (counts', fs @ fs') \<and>
    map finding_identity fs' = map (Some \<circ> fst) gs \<and>
    list_all2 (\<lambda>f (i, cs). get_str ''cross_review_class'' f = Some (classify_candidates cs) \<and>
        get_array ''reviewers'' f = Some (map String (bset_of (map fst cs))) \<and>
        (\<exists>c \<in> set cs. (\<forall>d \<in> set cs. finding_rank (snd d) \<le> finding_rank (snd c)) \<and>
          (\<forall>k. k \<notin> {''cross_review_class'', ''reviewers''} \<longrightarrow> get_key k f = get_key k (snd c)))) fs' gs"
  using assms
proof (induction gs arbitrary: counts fs)
  case (Cons g gs)
  obtain i cs where g: "g = (i, cs)" by (cases g)
  with Cons.prems have "cs \<noteq> []" "\<forall>c \<in> set cs. finding_identity (snd c) = Some i" by auto
  then obtain c1 f reviewer finding where
    step: "\<And>fs. reconcile_group cs (counts, fs) = Inr (c1, fs @ [f])"
    and f: "finding_identity f = Some i"
      "get_str ''cross_review_class'' f = Some (classify_candidates cs)"
      "get_array ''reviewers'' f = Some (map String (bset_of (map fst cs)))"
      "(reviewer, finding) \<in> set cs" "\<forall>c \<in> set cs. finding_rank (snd c) \<le> finding_rank finding"
      "\<forall>k. k \<notin> {''cross_review_class'', ''reviewers''} \<longrightarrow> get_key k f = get_key k finding"
    by (rule reconcile_group_total [where counts = counts]) blast
  have ex: "\<exists>c \<in> set cs. (\<forall>d \<in> set cs. finding_rank (snd d) \<le> finding_rank (snd c)) \<and>
      (\<forall>k. k \<notin> {''cross_review_class'', ''reviewers''} \<longrightarrow> get_key k f = get_key k (snd c))"
    using f(4-6) by (intro bexI [of _ "(reviewer, finding)"]) auto
  have "\<And>i cs. (i, cs) \<in> set gs \<Longrightarrow>
      cs \<noteq> [] \<and> (\<forall>c \<in> set cs. finding_identity (snd c) = Some i)"
    using Cons.prems by auto
  from Cons.IH [OF this, of c1 "fs @ [f]"] obtain c2 fs' where
    rest: "fold_result reconcile_group (map snd gs) (c1, fs @ [f]) = Inr (c2, fs @ f # fs')"
    and ids: "map finding_identity fs' = map (Some \<circ> fst) gs"
    and all: "list_all2 (\<lambda>f (i, cs). get_str ''cross_review_class'' f = Some (classify_candidates cs) \<and>
        get_array ''reviewers'' f = Some (map String (bset_of (map fst cs))) \<and>
        (\<exists>c \<in> set cs. (\<forall>d \<in> set cs. finding_rank (snd d) \<le> finding_rank (snd c)) \<and>
          (\<forall>k. k \<notin> {''cross_review_class'', ''reviewers''} \<longrightarrow> get_key k f = get_key k (snd c)))) fs' gs"
    by auto
  show ?case
    by (rule exI [of _ c2], rule exI [of _ "f # fs'"]) (use rest ids all step f ex g in simp)
qed simp


section \<open>What a composite review promises\<close>

lemma status_of_reconciled:
  assumes "reconcile_complete to_vec sha256 claude codex = Inr r"
  obtains gs us counts fs where "group_findings claude codex = (gs, us)"
    and "fold_result reconcile_group (map snd gs) (initial_counts claude codex, []) = Inr (counts, fs)"
    and "get_str ''status'' r =
      Some (if review_ready claude \<and> review_ready codex \<and> us = [] then ''completed'' else ''incomplete'')"
    and "get_array ''findings'' r =
      Some (if review_ready claude \<and> review_ready codex \<and> us = [] then fs else [])"
proof -
  obtain gs us where gs: "group_findings claude codex = (gs, us)" by fastforce
  from assms have "\<exists>counts fs. fold_result reconcile_group (map snd gs) (initial_counts claude codex, [])
        = Inr (counts, fs) \<and>
      get_str ''status'' r =
        Some (if review_ready claude \<and> review_ready codex \<and> us = [] then ''completed'' else ''incomplete'') \<and>
      get_array ''findings'' r =
        Some (if review_ready claude \<and> review_ready codex \<and> us = [] then fs else [])"
    by (auto simp: reconcile_complete_def result_simps Let_def get_str_def get_array_def gs
        get_key_object_of)
  then show thesis using that gs by blast
qed

lemma identities_of_groups:
  assumes "group_findings claude codex = (gs, us)"
  shows "fst ` set gs = {i. \<exists>c \<in> set (tagged_findings claude codex). finding_identity (snd c) = Some i}"
proof -
  have "i \<in> fst ` set gs \<longleftrightarrow>
      (\<exists>c \<in> set (tagged_findings claude codex). finding_identity (snd c) = Some i)" for i
  proof -
    have "i \<in> fst ` set gs \<longleftrightarrow> map_of gs i \<noteq> None" by (simp add: map_of_eq_None_iff)
    also have "\<dots> \<longleftrightarrow> with_identity i (tagged_findings claude codex) \<noteq> []"
      using group_findings_char(2) [OF assms, of i] by (simp add: Let_def)
    finally show ?thesis by (auto simp: with_identity_def filter_empty_conv)
  qed
  then show ?thesis by blast
qed

lemma Some_image_collect:
  assumes "\<forall>c \<in> T. g c \<noteq> None"
  shows "Some ` {i. \<exists>c \<in> T. g c = Some i} = g ` T"
proof (intro set_eqI iffI)
  fix x assume "x \<in> g ` T"
  then obtain c where c: "c \<in> T" "x = g c" by auto
  with assms obtain i where "g c = Some i" by auto
  with c show "x \<in> Some ` {i. \<exists>c \<in> T. g c = Some i}" by auto
qed (auto simp: image_iff intro: sym)

lemma reconciled_finding_group:
  assumes "reconcile_complete to_vec sha256 claude codex = Inr r"
    and "get_array ''findings'' r = Some fs" and "f \<in> set fs"
  obtains i cs where "finding_identity f = Some i" and "cs \<noteq> []"
    and "cs = with_identity i (tagged_findings claude codex)"
    and "get_str ''cross_review_class'' f = Some (classify_candidates cs)"
    and "\<exists>c \<in> set cs. (\<forall>d \<in> set cs. finding_rank (snd d) \<le> finding_rank (snd c)) \<and>
          (\<forall>k. k \<notin> {''cross_review_class'', ''reviewers''} \<longrightarrow> get_key k f = get_key k (snd c))"
proof -
  obtain gs us counts fs' where gs: "group_findings claude codex = (gs, us)"
    and fold: "fold_result reconcile_group (map snd gs) (initial_counts claude codex, []) = Inr (counts, fs')"
    and "get_array ''findings'' r =
        Some (if review_ready claude \<and> review_ready codex \<and> us = [] then fs' else [])"
    using status_of_reconciled [OF assms(1)] .
  with assms(2,3) have f: "f \<in> set fs'" by (auto split: if_splits)
  have entries: "\<And>i cs. (i, cs) \<in> set gs \<Longrightarrow>
      cs \<noteq> [] \<and> (\<forall>c \<in> set cs. finding_identity (snd c) = Some i)"
    by (drule group_findings_entry [OF gs]) (simp add: with_identity_def)
  note all = reconcile_groups_total [OF entries, of gs "initial_counts claude codex" "[]"]
  have ids: "map finding_identity fs' = map (Some \<circ> fst) gs"
    and rel: "list_all2 (\<lambda>f (i, cs). get_str ''cross_review_class'' f = Some (classify_candidates cs) \<and>
        get_array ''reviewers'' f = Some (map String (bset_of (map fst cs))) \<and>
        (\<exists>c \<in> set cs. (\<forall>d \<in> set cs. finding_rank (snd d) \<le> finding_rank (snd c)) \<and>
          (\<forall>k. k \<notin> {''cross_review_class'', ''reviewers''} \<longrightarrow> get_key k f = get_key k (snd c)))) fs' gs"
    using all fold by auto
  from f obtain n where n: "n < length fs'" "fs' ! n = f" by (auto simp: in_set_conv_nth)
  obtain i cs where g: "gs ! n = (i, cs)" by fastforce
  have len: "length gs = length fs'" using rel by (simp add: list_all2_lengthD)
  have "(i, cs) \<in> set gs" using n(1) g len by (metis nth_mem)
  from group_findings_entry [OF gs this]
  have cs: "cs = with_identity i (tagged_findings claude codex)" "cs \<noteq> []" by blast+
  have "finding_identity f = Some i"
    using arg_cong [OF ids, of "\<lambda>l. l ! n"] n g len by simp
  moreover have "get_str ''cross_review_class'' f = Some (classify_candidates cs) \<and>
      (\<exists>c \<in> set cs. (\<forall>d \<in> set cs. finding_rank (snd d) \<le> finding_rank (snd c)) \<and>
          (\<forall>k. k \<notin> {''cross_review_class'', ''reviewers''} \<longrightarrow> get_key k f = get_key k (snd c)))"
    using list_all2_nthD [OF rel n(1)] unfolding n(2) g by simp
  ultimately show thesis using that [OF _ cs(2) cs(1)] by blast
qed

text \<open>What a group says of each pass: who reported it, and with which severities.\<close>

lemma with_identity_split:
  fixes i claude codex
  defines "cs \<equiv> with_identity i (tagged_findings claude codex)"
    and "xs \<equiv> filter (\<lambda>g. finding_identity g = Some i) (items_at ''findings'' claude)"
    and "ys \<equiv> filter (\<lambda>g. finding_identity g = Some i) (items_at ''findings'' codex)"
  shows "set (map snd cs) = set (xs @ ys)"
    and "set (map fst cs) = (if xs = [] then {} else {''claude''}) \<union> (if ys = [] then {} else {''codex''})"
    and "cs = [] \<longleftrightarrow> xs = [] \<and> ys = []"
  unfolding cs_def xs_def ys_def with_identity_def tagged_findings_def filter_map filter_append o_def
  by (auto simp: image_Un image_image image_constant_conv filter_empty_conv)

lemma length_severities:
  "length (severities cs) = card {s. \<exists>g \<in> set (map snd cs). get_str ''severity'' g = Some s}"
proof -
  have "distinct (severities cs)" using bset_of_ok bset_ok_iff by (metis severities_def)
  moreover have "set (severities cs) = {s. \<exists>g \<in> set (map snd cs). get_str ''severity'' g = Some s}"
    by (simp add: severities_def set_map_filter_Some)
  ultimately show ?thesis by (metis distinct_card)
qed

text \<open>
  C37: The composite review is exactly the union of both passes by source identity. A completed
  composite requires both passes to be ready and every finding to be source-qualified; it then
  reports each identity that occurs in either pass exactly once, in ascending order. An
  incomplete composite reports no finding at all.
\<close>

theorem composite_is_source_qualified_union:
  assumes "reconcile_complete to_vec sha256 claude codex = Inr r"
  shows "\<exists>fs. get_array ''findings'' r = Some fs \<and>
    (if get_str ''status'' r = Some ''completed''
     then review_ready claude \<and> review_ready codex \<and>
       (\<forall>f \<in> set (items_at ''findings'' claude) \<union> set (items_at ''findings'' codex).
          finding_identity f \<noteq> None) \<and>
       sorted_wrt (<) (map finding_identity fs) \<and>
       finding_identity ` set fs =
         finding_identity ` (set (items_at ''findings'' claude) \<union> set (items_at ''findings'' codex))
     else fs = [])"
proof -
  obtain gs us counts fs where gs: "group_findings claude codex = (gs, us)"
    and fold: "fold_result reconcile_group (map snd gs) (initial_counts claude codex, []) = Inr (counts, fs)"
    and r: "get_str ''status'' r =
        Some (if review_ready claude \<and> review_ready codex \<and> us = [] then ''completed'' else ''incomplete'')"
      "get_array ''findings'' r =
        Some (if review_ready claude \<and> review_ready codex \<and> us = [] then fs else [])"
    using status_of_reconciled [OF assms] .
  have entries: "\<And>i cs. (i, cs) \<in> set gs \<Longrightarrow>
      cs \<noteq> [] \<and> (\<forall>c \<in> set cs. finding_identity (snd c) = Some i)"
    by (drule group_findings_entry [OF gs]) (simp add: with_identity_def)
  have ids: "map finding_identity fs = map (Some \<circ> fst) gs"
    using reconcile_groups_total [OF entries, of gs "initial_counts claude codex" "[]"] fold by auto
  have "sorted_wrt (<) (map fst gs)" using group_findings_char(1) [OF gs] by (simp add: bmap_ok_def)
  then have sorted: "sorted_wrt (<) (map finding_identity fs)"
    unfolding ids by (simp add: sorted_wrt_map)
  have tagged: "snd ` set (tagged_findings claude codex) =
      set (items_at ''findings'' claude) \<union> set (items_at ''findings'' codex)"
    by (simp add: tagged_findings_def image_Un image_image)
  have "finding_identity ` set fs = Some ` fst ` set gs"
    using arg_cong [OF ids, of set] by (simp add: image_comp)
  moreover have "us = [] \<longleftrightarrow> (\<forall>f \<in> snd ` set (tagged_findings claude codex). finding_identity f \<noteq> None)"
    using group_findings_char(3) [OF gs] by auto
  moreover have "Some ` fst ` set gs = finding_identity ` snd ` set (tagged_findings claude codex)"
    if "us = []"
    using Some_image_collect [of "set (tagged_findings claude codex)" "\<lambda>c. finding_identity (snd c)"]
      group_findings_char(3) [OF gs] that
    by (simp add: identities_of_groups [OF gs] image_image)
  ultimately show ?thesis using r sorted unfolding tagged [symmetric] by simp
qed


text \<open>A pass of one qualified finding, for the concrete instances below.\<close>

definition sample_finding :: "string \<Rightarrow> json" where
  "sample_finding sev =
     Object [(''filePath'', String ''a''), (''line'', Number (PosInt 1)),
             (''severity'', String sev), (''sourceAnchor'', String ''x'')]"

definition sample_pass :: "json list \<Rightarrow> json" where
  "sample_pass findings =
     Object
       [(''cross_review_policy_binding'', String (replicate 64 CHR ''a'')),
        (''findings'', Array findings),
        (''review_manifest'', Object
          [(''target'', Object [(''identity'', String ''t'')]), (''units'', Array [])]),
        (''review_readiness'', Object [(''status'', String ''ready'')]),
        (''review_status'', String ''completed'')]"

lemma sample_identity: "finding_identity (sample_finding sev) = Some (''a'' @ [CHR 0x00] @ ''1'' @ [CHR 0x00] @ ''x'')"
  by (simp add: finding_identity_def sample_finding_def get_str_def trim_def trim_start_def
      trim_end_def show_int_def show_nat.simps [of "Suc 0"] continuation_bytes_def lead_bits_def
      is_whitespace_def char_of_def bit_iff_odd)

lemma sample_pass_simps:
  "target_identity (sample_pass fs) = Inr ''t''"
  "policy_binding (sample_pass fs) = Inr (replicate 64 CHR ''a'')"
  "unit_plan_identity (\<lambda>_. Inr []) (\<lambda>_. []) (sample_pass fs) = Inr []"
  "review_ready (sample_pass fs)" "items_at ''findings'' (sample_pass fs) = fs"
  by (simp_all add: sample_pass_def target_identity_def policy_binding_def unit_plan_identity_def
      review_ready_def items_at_def get_array_def get_str_def is_ascii_hexdigit_def
      is_ascii_digit_def list_all_iff)

lemma sample_reconciled:
  "\<exists>r f fs. reconcile_complete (\<lambda>_. Inr []) (\<lambda>_. []) (sample_pass [sample_finding ''high''])
      (sample_pass [sample_finding ''low'']) = Inr r \<and> get_str ''status'' r = Some ''completed'' \<and>
      get_array ''findings'' r = Some fs \<and> f \<in> set fs"
proof -
  let ?a = "sample_pass [sample_finding ''high'']" and ?b = "sample_pass [sample_finding ''low'']"
  obtain gs us where gs: "group_findings ?a ?b = (gs, us)" by fastforce
  have entries: "\<And>i cs. (i, cs) \<in> set gs \<Longrightarrow>
      cs \<noteq> [] \<and> (\<forall>c \<in> set cs. finding_identity (snd c) = Some i)"
    by (drule group_findings_entry [OF gs]) (simp add: with_identity_def)
  have us: "us = []"
    using group_findings_char(3) [OF gs] by (auto simp: tagged_findings_def sample_pass_simps sample_identity)
  moreover have "fst ` set gs \<noteq> {}"
    unfolding identities_of_groups [OF gs]
    by (simp add: tagged_findings_def sample_pass_simps sample_identity)
  moreover obtain counts fs where
    fold: "fold_result reconcile_group (map snd gs) (initial_counts ?a ?b, []) = Inr (counts, fs)"
    and "map finding_identity fs = map (Some \<circ> fst) gs"
    using reconcile_groups_total [OF entries, of gs "initial_counts ?a ?b" "[]"] by auto
  ultimately have "fs \<noteq> []" by auto
  with fold show ?thesis
    by (auto simp: reconcile_complete_def same_or_def sample_pass_simps gs us Let_def get_str_def
        get_array_def get_key_object_of neq_Nil_conv)
qed

theorem composite_is_source_qualified_union_witness:
  "\<exists>r fs. reconcile_complete (\<lambda>_. Inr []) (\<lambda>_. []) (sample_pass [sample_finding ''high''])
      (sample_pass [sample_finding ''low'']) = Inr r \<and>
     get_array ''findings'' r = Some fs \<and> fs \<noteq> [] \<and> sorted_wrt (<) (map finding_identity fs)"
proof -
  let ?a = "sample_pass [sample_finding ''high'']" and ?b = "sample_pass [sample_finding ''low'']"
  obtain r where r: "reconcile_complete (\<lambda>_. Inr []) (\<lambda>_. []) ?a ?b = Inr r"
    "get_str ''status'' r = Some ''completed''" using sample_reconciled by blast
  have "items_at ''findings'' ?a \<noteq> []" by (simp add: sample_pass_def items_at_def get_array_def)
  with composite_is_source_qualified_union [OF r(1)] r(2)
  have "\<exists>fs. get_array ''findings'' r = Some fs \<and> fs \<noteq> [] \<and> sorted_wrt (<) (map finding_identity fs)"
    by auto
  with r(1) show ?thesis by blast
qed

text \<open>
  The class of a finding says which passes saw its identity: \<open>claude_only\<close> and
  \<open>codex_only\<close> exactly when the other pass did not, and of the identities both saw,
  \<open>conflicting\<close> exactly those given different severities. The reported finding is one of the
  passes' own findings of highest rank, unchanged but for the two members that record this.
\<close>

theorem composite_classifies_by_pass:
  assumes "reconcile_complete to_vec sha256 claude codex = Inr r"
    and "get_array ''findings'' r = Some fs" and "f \<in> set fs"
    and "by_claude = filter (\<lambda>g. finding_identity g = finding_identity f) (items_at ''findings'' claude)"
    and "by_codex = filter (\<lambda>g. finding_identity g = finding_identity f) (items_at ''findings'' codex)"
  shows "get_str ''cross_review_class'' f = Some (
      if by_codex = [] then ''claude_only'' else if by_claude = [] then ''codex_only''
      else if 1 < card {s. \<exists>g \<in> set (by_claude @ by_codex). get_str ''severity'' g = Some s}
           then ''conflicting'' else ''corroborated'')
    \<and> (\<exists>g \<in> set (by_claude @ by_codex).
         (\<forall>h \<in> set (by_claude @ by_codex). finding_rank h \<le> finding_rank g) \<and>
         (\<forall>k. k \<notin> {''cross_review_class'', ''reviewers''} \<longrightarrow> get_key k f = get_key k g))"
proof -
  obtain i cs where i: "finding_identity f = Some i" and some: "cs \<noteq> []"
    and cs: "cs = with_identity i (tagged_findings claude codex)"
    and c: "get_str ''cross_review_class'' f = Some (classify_candidates cs)"
    and best: "\<exists>c \<in> set cs. (\<forall>d \<in> set cs. finding_rank (snd d) \<le> finding_rank (snd c)) \<and>
          (\<forall>k. k \<notin> {''cross_review_class'', ''reviewers''} \<longrightarrow> get_key k f = get_key k (snd c))"
    using reconciled_finding_group [OF assms(1-3)] .
  note parts = with_identity_split [of i claude codex, folded cs]
  have xs: "by_claude = filter (\<lambda>g. finding_identity g = Some i) (items_at ''findings'' claude)"
    and ys: "by_codex = filter (\<lambda>g. finding_identity g = Some i) (items_at ''findings'' codex)"
    using assms(4,5) i by simp_all
  note parts = parts [folded xs ys]
  have "bset_of (map fst cs) = [''claude''] \<longleftrightarrow> by_codex = []"
    "bset_of (map fst cs) = [''codex''] \<longleftrightarrow> by_claude = []"
    unfolding bset_of_is_single parts(2) using parts(3) some by auto
  moreover have "\<exists>g \<in> set (map snd cs). (\<forall>h \<in> set (map snd cs). finding_rank h \<le> finding_rank g) \<and>
         (\<forall>k. k \<notin> {''cross_review_class'', ''reviewers''} \<longrightarrow> get_key k f = get_key k g)"
    using best by simp
  ultimately show ?thesis
    using c unfolding parts(1) classify_candidates_def Let_def length_severities by simp
qed

theorem composite_classifies_by_pass_witness:
  "\<exists>r f. reconcile_complete (\<lambda>_. Inr []) (\<lambda>_. []) (sample_pass [sample_finding ''high''])
      (sample_pass [sample_finding ''low'']) = Inr r \<and>
     get_str ''cross_review_class'' f = Some ''conflicting''"
proof -
  let ?a = "sample_pass [sample_finding ''high'']" and ?b = "sample_pass [sample_finding ''low'']"
  obtain r f fs where r: "reconcile_complete (\<lambda>_. Inr []) (\<lambda>_. []) ?a ?b = Inr r"
    "get_array ''findings'' r = Some fs" "f \<in> set fs" using sample_reconciled by blast
  obtain i cs where "cs \<noteq> []" "finding_identity f = Some i"
    "cs = with_identity i (tagged_findings ?a ?b)" using reconciled_finding_group [OF r] .
  then have "finding_identity (snd (hd cs)) = finding_identity f \<and> hd cs \<in> set (tagged_findings ?a ?b)"
    using list.set_sel(1) [of cs] by (auto simp: with_identity_def)
  then have f: "finding_identity f = Some (''a'' @ [CHR 0x00] @ ''1'' @ [CHR 0x00] @ ''x'')"
    by (auto simp: tagged_findings_def sample_pass_simps sample_identity)
  have hits: "filter (\<lambda>g. finding_identity g = finding_identity f) (items_at ''findings'' (sample_pass [sample_finding s]))
      = [sample_finding s]" for s
    by (simp add: sample_pass_simps f sample_identity)
  have sev: "get_str ''severity'' (sample_finding s) = Some s" for s
    by (simp add: sample_finding_def get_str_def)
  have both: "{s. \<exists>g \<in> set ([sample_finding ''high''] @ [sample_finding ''low'']). get_str ''severity'' g = Some s}
      = {''high'', ''low''}" by (auto simp: sev)
  have "get_str ''cross_review_class'' f = Some ''conflicting''"
    using conjunct1 [OF composite_classifies_by_pass [OF r refl refl]] unfolding hits both by simp
  with r(1) show ?thesis by blast
qed

end
