(* ===== verification/LocalCheck.thy ===== *)
theory LocalCheck
  imports SpecCoverage CrossReview
begin

text \<open>
  One local, execution-backed assessment of a change, \<open>commands/local_check.rs\<close>: preparing it,
  running the correctness and performance targets, reviewing the change, and turning the four
  stages into one verdict. What the runner learns from Git, the file system, the Node runtime,
  the model reviewers and the database is the record \<open>environment\<close>, one answer per call.
\<close>

section \<open>Data\<close>

datatype local_check_status =
  Passed | Completed | Skipped | Ready | NeedsAttention | Failed | NoConfidence

datatype local_check_verdict =
  VerdictPassedWithLimits | VerdictNeedsAttention | VerdictFailed | VerdictNoConfidence

record local_check_target =
  adapter :: string
  target_path :: string
  target_name :: "string option"
  target_source :: string

record local_check_stage =
  stage_status :: local_check_status
  stage_duration_ms :: nat
  stage_target :: "local_check_target option"
  stage_evidence :: json
  stage_limitations :: "string list"

record local_check_stages =
  review_stage :: local_check_stage
  correctness_stage :: local_check_stage
  performance_stage :: local_check_stage
  optimization_stage_of :: local_check_stage

record trex_source_receipt =
  source_kind :: string
  source_input :: string
  base_sha :: string
  head_sha :: string
  source_commits :: "string list"
  changed_paths :: "string list"

record local_check_receipt =
  receipt_schema_version :: string
  receipt_request_id :: "string option"
  receipt_run_id :: string
  receipt_ran_at :: string
  receipt_repo_path :: string
  receipt_task :: string
  receipt_standards_pack :: "string option"
  receipt_source :: trex_source_receipt
  receipt_stages :: local_check_stages
  receipt_spec_coverage :: "spec_coverage_receipt option"
  receipt_verdict :: local_check_verdict
  receipt_limitations :: "string list"

record local_check_preflight_receipt =
  preflight_schema_version :: string
  preflight_request_id :: "string option"
  preflight_ran_at :: string
  preflight_repo_path :: string
  preflight_task :: string
  preflight_source :: trex_source_receipt
  preflight_spec_coverage :: "spec_coverage_receipt option"
  preflight_correctness_target :: "local_check_target option"
  preflight_performance_target :: "local_check_target option"
  preflight_status :: local_check_status
  preflight_limitations :: "string list"

record local_check_progress =
  progress_stage :: string
  progress_state :: string

record local_check_input =
  input_repo_path :: string
  input_change :: string
  input_task :: string
  input_standards_pack :: "string option"
  input_standards_context :: "string option"
  spec_paths :: "string list"
  selected_requirement_ids :: "string list"
  review_agent :: string
  test_target :: "local_check_target option"
  input_performance_target :: "local_check_target option"
  skip_performance :: bool
  baseline_repo_path :: "string option"
  samples :: nat
  warmups :: nat
  timeout_ms :: nat

record evidence_scope_candidate =
  candidate_id :: string
  candidate_adapter :: string
  candidate_target_path :: string
  candidate_name :: "string option"
  candidate_reason :: string
  candidate_source_paths :: "string list"
  confidence_milli :: nat
  testing_supported :: bool
  performance_supported :: bool

datatype evidence_scope_consumer = Testing | Performance

text \<open>Of a discovered plan the runner reads the candidates only.\<close>

record evidence_scope_plan =
  plan_candidates :: "evidence_scope_candidate list"

section \<open>Statuses, verdict and limitations\<close>

fun status_name :: "local_check_status \<Rightarrow> string" where
  "status_name Passed = ''passed''"
| "status_name Completed = ''completed''"
| "status_name Skipped = ''skipped''"
| "status_name Ready = ''ready''"
| "status_name NeedsAttention = ''needs_attention''"
| "status_name Failed = ''failed''"
| "status_name NoConfidence = ''no_confidence''"

fun verdict_name :: "local_check_verdict \<Rightarrow> string" where
  "verdict_name VerdictPassedWithLimits = ''passed_with_limits''"
| "verdict_name VerdictNeedsAttention = ''needs_attention''"
| "verdict_name VerdictFailed = ''failed''"
| "verdict_name VerdictNoConfidence = ''no_confidence''"

definition progress_for_stage :: "string \<Rightarrow> local_check_stage \<Rightarrow> local_check_progress" where
  "progress_for_stage stage result =
     \<lparr>progress_stage = stage, progress_state = status_name (stage_status result)\<rparr>"

definition aggregate_verdict :: "local_check_stages \<Rightarrow> local_check_verdict" where
  "aggregate_verdict stages =
     (let statuses = [stage_status (review_stage stages), stage_status (correctness_stage stages),
                      stage_status (performance_stage stages),
                      stage_status (optimization_stage_of stages)]
      in if Failed \<in> set statuses then VerdictFailed
         else if NeedsAttention \<in> set statuses then VerdictNeedsAttention
         else if NoConfidence \<in> set statuses
                 \<or> stage_status (review_stage stages) = Skipped
                 \<or> stage_status (correctness_stage stages) = Skipped
         then VerdictNoConfidence
         else VerdictPassedWithLimits)"

definition apply_spec_confidence ::
  "local_check_verdict \<Rightarrow> spec_coverage_receipt option \<Rightarrow> local_check_verdict" where
  "apply_spec_confidence verdict coverage =
     (if verdict \<noteq> VerdictPassedWithLimits then verdict
      else case coverage of
        None \<Rightarrow> verdict
      | Some c \<Rightarrow>
          (let s = coverage_summary c
           in if total_requirements s = 0 \<or> selected_count s = 0
                 \<or> verified_count s + contradicted_count s < selected_count s
              then VerdictNoConfidence else verdict))"

definition collect_limitations :: "local_check_stages \<Rightarrow> string list" where
  "collect_limitations stages =
     take 24 (concat (map stage_limitations
       [review_stage stages, correctness_stage stages, performance_stage stages,
        optimization_stage_of stages]))"

definition no_confidence_stage ::
  "nat \<Rightarrow> local_check_target option \<Rightarrow> string \<Rightarrow> local_check_stage" where
  "no_confidence_stage elapsed target limitation =
     \<lparr>stage_status = NoConfidence, stage_duration_ms = elapsed, stage_target = target,
      stage_evidence = object_of [(''verdict'', object_of [(''status'', String ''no_confidence'')])],
      stage_limitations = [limitation]\<rparr>"

definition skipped_performance_stage :: local_check_stage where
  "skipped_performance_stage =
     \<lparr>stage_status = Skipped, stage_duration_ms = 0, stage_target = None,
      stage_evidence = object_of
        [(''schema_version'', String ''codevetter.skipped-check-stage/v1''),
         (''status'', String ''skipped''), (''reason'', String ''explicit_skip_performance'')],
      stage_limitations =
        [''Performance deliberately skipped; no performance or optimization result is claimed'']\<rparr>"

section \<open>Validating the input\<close>

definition validate_target :: "local_check_target \<Rightarrow> bool \<Rightarrow> unit result" where
  "validate_target target performance =
     (let supported =
        (if performance
         then [''node-test'', ''node-script'', ''vitest'', ''playwright'', ''go-bench'']
         else [''node-test'', ''vitest'', ''playwright'', ''go-test''])
      in if is_blank (target_path target) \<or> is_absolute (target_path target)
            \<or> list_ex (\<lambda>c. \<not> is_normal c) (components (target_path target))
         then Inl ''Runtime target must be a contained repository-relative path''
         else if adapter target \<notin> set supported
         then Inl (''Unsupported '' @ (if performance then ''performance'' else ''testing'')
                     @ '' adapter `'' @ adapter target @ ''`'')
         else Inr ())"

definition validate_input :: "local_check_input \<Rightarrow> unit result" where
  "validate_input i =
     and_then (reject_if (skip_performance i \<and>
                  (input_performance_target i \<noteq> None \<or> baseline_repo_path i \<noteq> None))
                 ''Skipped performance cannot include a performance target or baseline'') (\<lambda>_.
     and_then (reject_if (is_blank (input_task i) \<or> 2000 < length (input_task i))
                 ''Task must contain between 1 and 2,000 characters'') (\<lambda>_.
     and_then (reject_if (review_agent i \<notin> set [''claude'', ''gemini'', ''codex'', ''cross''])
                 ''Review agent must be `claude`, `gemini`, `codex`, or `cross`'') (\<lambda>_.
     and_then (reject_if (\<not> (2 \<le> samples i \<and> samples i \<le> 10))
                 ''Performance samples must be between 2 and 10'') (\<lambda>_.
     and_then (reject_if (5 < warmups i)
                 ''Performance warmups must be between 0 and 5'') (\<lambda>_.
     and_then (reject_if (\<not> (100 \<le> timeout_ms i \<and> timeout_ms i \<le> 120000))
                 ''Runtime timeout must be between 100 and 120,000 milliseconds'') (\<lambda>_.
     and_then (reject_if (spec_paths i = [] \<and> selected_requirement_ids i \<noteq> [])
                 ''Selected requirements require at least one spec path'') (\<lambda>_.
     and_then (case test_target i of None \<Rightarrow> Inr () | Some t \<Rightarrow> validate_target t False) (\<lambda>_.
     (case input_performance_target i of None \<Rightarrow> Inr () | Some t \<Rightarrow> validate_target t True)))))))))"

section \<open>Selecting targets\<close>

definition candidate_target :: "evidence_scope_candidate \<Rightarrow> local_check_target" where
  "candidate_target c =
     \<lparr>adapter = candidate_adapter c, target_path = candidate_target_path c,
      target_name = candidate_name c, target_source = ''discovered:'' @ candidate_id c\<rparr>"

definition select_target ::
  "local_check_target option \<Rightarrow> evidence_scope_plan option \<Rightarrow> local_check_target option" where
  "select_target explicit plan =
     (case explicit of
        Some t \<Rightarrow> Some t
      | None \<Rightarrow>
          (case plan of
             None \<Rightarrow> None
           | Some p \<Rightarrow>
               (case plan_candidates p of [] \<Rightarrow> None | c # _ \<Rightarrow> Some (candidate_target c))))"

definition dedicated_performance_candidate :: "evidence_scope_candidate \<Rightarrow> bool" where
  "dedicated_performance_candidate c \<longleftrightarrow>
     candidate_adapter c = ''go-bench'' \<or> candidate_name c \<noteq> None \<or>
     list_ex (\<lambda>token. map to_ascii_lower token \<in>
         set [''bench'', ''benchmark'', ''benchmarks'', ''perf'', ''performance'', ''load''])
       (split_on (\<lambda>c. \<not> is_ascii_alphanumeric c) (candidate_target_path c))"

definition select_performance_target ::
  "local_check_target option \<Rightarrow> evidence_scope_plan option \<Rightarrow>
   local_check_target option \<times> string option" where
  "select_performance_target explicit plan =
     (case explicit of
        Some t \<Rightarrow> (Some t, None)
      | None \<Rightarrow>
          (case plan of
             None \<Rightarrow> (None, None)
           | Some p \<Rightarrow>
               (case find dedicated_performance_candidate (plan_candidates p) of
                  Some c \<Rightarrow> (Some (candidate_target c), None)
                | None \<Rightarrow> (None, Some ''Discovery found no dedicated performance workload; generic tests require explicit --perf-adapter and --perf-target selection''))))"

section \<open>The environment\<close>

record process_output =
  exit_success :: bool
  process_stdout :: string
  process_stderr :: string

record environment =
  canonicalize :: "string \<Rightarrow> string result"
  is_dir :: "string \<Rightarrow> bool"
  path_exists :: "string \<Rightarrow> bool"
  is_file :: "string \<Rightarrow> bool"
  spawn_git :: "string \<Rightarrow> string list \<Rightarrow> process_output result"
  from_utf8_lossy :: "string \<Rightarrow> string"
  resolve_scope_change :: "string \<Rightarrow> string \<Rightarrow> trex_source_receipt result"
  open_spec_file :: "string \<Rightarrow> string \<Rightarrow> spec_file"
  sha256_hex :: "string \<Rightarrow> string"
  json_to_vec :: "json \<Rightarrow> string result"
  json_to_string :: "json \<Rightarrow> string result"
  json_from_slice :: "string \<Rightarrow> json option"
  resolve_evidence_scope :: "string \<Rightarrow> string \<Rightarrow> evidence_scope_consumer \<Rightarrow> evidence_scope_plan result"
  runtime_cli :: "string result"
  spawn_node :: "string \<Rightarrow> string list \<Rightarrow> process_output result"
  executor_installed :: "string \<Rightarrow> bool"
  review_core :: "string \<Rightarrow> string \<Rightarrow> string \<Rightarrow> string \<Rightarrow> json list \<Rightarrow> json result"
  composite_store :: review_store
  elapsed_ms :: "string \<Rightarrow> nat"
  app_data_dir :: "string result"
  open_database :: "unit result"
  persist_receipt :: "local_check_receipt \<Rightarrow> unit result"
  fresh_run_id :: string
  now :: string

section \<open>Preparing a check\<close>

definition git_text :: "environment \<Rightarrow> string \<Rightarrow> string list \<Rightarrow> string result" where
  "git_text env repo arguments =
     and_then (map_err (\<lambda>e. ''Could not run Git: '' @ e) (spawn_git env repo arguments)) (\<lambda>out.
       if \<not> exit_success out
       then Inl (''Git could not inspect the local checkout: ''
                  @ trim (from_utf8_lossy env (process_stderr out)))
       else if valid_utf8 (process_stdout out) then Inr (trim (process_stdout out))
       else Inl ''Git returned non-UTF-8 checkout evidence'')"

definition path_join :: "string \<Rightarrow> string \<Rightarrow> string" where
  "path_join p q = (if is_absolute q then q else p @ ''/'' @ q)"

definition canonical_clean_repository :: "environment \<Rightarrow> string \<Rightarrow> string result" where
  "canonical_clean_repository env path =
     and_then (map_err (\<lambda>e. ''repository '' @ path @ '' is unavailable: '' @ e) (canonicalize env path))
     (\<lambda>canonical.
       and_then (reject_if (\<not> is_dir env canonical \<or> \<not> path_exists env (path_join canonical ''.git''))
                   ''Local check requires a Git repository root'') (\<lambda>_.
       and_then (git_text env canonical [''status'', ''--porcelain=v1'', ''--untracked-files=normal''])
       (\<lambda>dirty.
         if dirty \<noteq> []
         then Inl ''Local check requires a clean checkout so evidence maps to one immutable source''
         else Inr canonical)))"

text \<open>\<open>value.get(..12)\<close>: \<open>None\<close> when the text is shorter or byte 12 is inside a character.\<close>

definition short_sha :: "string \<Rightarrow> string" where
  "short_sha v =
     (if length v < 12 \<or> (length v > 12 \<and> byte (v ! 12) div 64 = 2) then v else take 12 v)"

definition require_checked_out_head :: "environment \<Rightarrow> string \<Rightarrow> string \<Rightarrow> unit result" where
  "require_checked_out_head env repo expected =
     and_then (git_text env repo [''rev-parse'', ''HEAD'']) (\<lambda>head.
       reject_if (head \<noteq> expected)
         (''Resolved change head '' @ short_sha expected @ '' is not checked out (current HEAD is ''
            @ short_sha head @ ''); use a clean local checkout of the PR head''))"

definition validate_target_file :: "environment \<Rightarrow> string \<Rightarrow> local_check_target \<Rightarrow> unit result" where
  "validate_target_file env repo target =
     and_then (map_err (\<lambda>e. ''Runtime target `'' @ target_path target @ ''` is unavailable: '' @ e)
                 (canonicalize env (path_join repo (target_path target)))) (\<lambda>resolved.
       reject_if (take (length (components repo)) (components resolved) \<noteq> components repo
                  \<or> \<not> is_file env resolved)
         (''Runtime target `'' @ target_path target
            @ ''` must resolve to a regular file inside the repository''))"

record prepared_local_check =
  prepared_repo :: string
  prepared_source :: trex_source_receipt
  prepared_packet :: "spec_packet option"
  test_plan :: "evidence_scope_plan result"
  performance_plan :: "evidence_scope_plan result"
  correctness_target :: "local_check_target option"
  performance_target :: "local_check_target option"
  performance_selection_limitation :: "string option"

text \<open>\<open>Result::ok\<close> and \<open>Result::err\<close>.\<close>

fun ok_of :: "'e + 'a \<Rightarrow> 'a option" where
  "ok_of (Inl _) = None"
| "ok_of (Inr x) = Some x"

fun err_of :: "'e + 'a \<Rightarrow> 'e option" where
  "err_of (Inl e) = Some e"
| "err_of (Inr _) = None"

definition option_or :: "'a option \<Rightarrow> 'a option \<Rightarrow> 'a option" where
  "option_or a b = (case a of Some x \<Rightarrow> Some x | None \<Rightarrow> b)"

definition list_of_option :: "'a option \<Rightarrow> 'a list" where
  "list_of_option x = (case x of None \<Rightarrow> [] | Some y \<Rightarrow> [y])"

definition prepare_local_check :: "environment \<Rightarrow> local_check_input \<Rightarrow> prepared_local_check result" where
  "prepare_local_check env i =
     and_then (validate_input i) (\<lambda>_.
     and_then (canonical_clean_repository env (input_repo_path i)) (\<lambda>repo.
     and_then (case baseline_repo_path i of
                 None \<Rightarrow> Inr [] | Some b \<Rightarrow> canonical_clean_repository env b) (\<lambda>_.
     and_then (resolve_scope_change env repo (input_change i)) (\<lambda>source.
     and_then (require_checked_out_head env repo (head_sha source)) (\<lambda>_.
     and_then (load_spec_packet (sha256_hex env) (and_then (canonicalize env repo) (\<lambda>_. Inr ()))
                 (open_spec_file env repo) (spec_paths i)) (\<lambda>packet.
     and_then (validate_selected_requirements packet (selected_requirement_ids i)) (\<lambda>_.
     let tests = resolve_evidence_scope env repo (input_change i) Testing;
         perf = (if skip_performance i
                 then Inl ''Performance deliberately skipped; no performance result is claimed''
                 else resolve_evidence_scope env repo (input_change i) Performance);
         correctness = select_target (test_target i) (ok_of tests);
         (ptarget, plimit) = select_performance_target (input_performance_target i) (ok_of perf)
     in and_then (check_all (validate_target_file env repo)
                    (list_of_option correctness @ list_of_option ptarget)) (\<lambda>_.
        Inr \<lparr>prepared_repo = repo, prepared_source = source, prepared_packet = packet,
             test_plan = tests, performance_plan = perf, correctness_target = correctness,
             performance_target = ptarget, performance_selection_limitation = plimit\<rparr>))))))))"

section \<open>The runtime stages\<close>

definition MAX_RUNTIME_OUTPUT_BYTES :: nat where "MAX_RUNTIME_OUTPUT_BYTES = 512 * 1024"

definition runtime_arguments ::
  "string \<Rightarrow> string \<Rightarrow> string \<Rightarrow> local_check_target \<Rightarrow> nat \<Rightarrow> nat \<Rightarrow> nat \<Rightarrow> string option \<Rightarrow> string list" where
  "runtime_arguments cli repo operation target n_samples n_warmups timeout baseline =
     [cli, operation, ''--repo'', repo, ''--adapter'', adapter target, ''--target'', target_path target]
     @ (case target_name target of None \<Rightarrow> [] | Some n \<Rightarrow> [''--name'', n])
     @ [''--timeout-ms'', show_nat timeout]
     @ (if operation \<noteq> ''run'' \<and> operation \<noteq> ''preflight''
        then [''--samples'', show_nat n_samples, ''--warmups'', show_nat n_warmups] else [])
     @ (case baseline of None \<Rightarrow> [] | Some b \<Rightarrow> [''--baseline-repo'', b])
     @ [''--json'']"

definition run_runtime ::
  "environment \<Rightarrow> string \<Rightarrow> string \<Rightarrow> local_check_target \<Rightarrow> nat \<Rightarrow> nat \<Rightarrow> nat \<Rightarrow> string option \<Rightarrow>
   json result" where
  "run_runtime env repo operation target n_samples n_warmups timeout baseline =
     and_then (runtime_cli env) (\<lambda>cli.
     and_then (spawn_node env repo
                 (runtime_arguments cli repo operation target n_samples n_warmups timeout baseline))
     (\<lambda>out.
       if MAX_RUNTIME_OUTPUT_BYTES < length (process_stdout out)
          \<or> MAX_RUNTIME_OUTPUT_BYTES < length (process_stderr out)
       then Inl ''Local runtime output exceeded the evidence bound''
       else case json_from_slice env (process_stdout out) of
              Some v \<Rightarrow> Inr v
            | None \<Rightarrow> Inl (''Local runtime returned invalid JSON: ''
                            @ trim (from_utf8_lossy env (process_stderr out)))))"

definition runtime_prerequisites_ready :: "json option \<Rightarrow> bool" where
  "runtime_prerequisites_ready receipt =
     (case receipt of
        None \<Rightarrow> False
      | Some v \<Rightarrow> get_str ''schema_version'' v = Some ''runtime-prerequisite-preflight/v1''
                   \<and> get_str ''status'' v = Some ''ready'')"

definition exit_code :: "json \<Rightarrow> int option" where
  "exit_code evidence =
     Option.bind (Option.bind (get_key ''terminal'' evidence) (get_key ''exit_code'')) as_i64"

definition verdict_status :: "json \<Rightarrow> string" where
  "verdict_status evidence =
     (case Option.bind (get_key ''verdict'' evidence) (get_str ''status'') of
        None \<Rightarrow> ''no_confidence'' | Some s \<Rightarrow> s)"

definition runtime_stage_status :: "string \<Rightarrow> json \<Rightarrow> local_check_status" where
  "runtime_stage_status operation evidence =
     (if operation = ''run''
      then (case exit_code evidence of
              None \<Rightarrow> NoConfidence | Some c \<Rightarrow> if c = 0 then Passed else Failed)
      else let s = verdict_status evidence
           in if s \<in> set [''failed'', ''regressed'', ''rejected''] then Failed
              else if s \<in> set [''captured'', ''confirmed'', ''passed''] then Passed
              else if s \<in> set [''no_confidence'', ''inconclusive'', ''blocked''] then NoConfidence
              else Completed)"

definition evidence_limitations :: "json \<Rightarrow> string list" where
  "evidence_limitations evidence = take 12 (strings_of (items_at ''limitations'' evidence))"

definition run_runtime_stage ::
  "environment \<Rightarrow> string \<Rightarrow> string \<Rightarrow> string \<Rightarrow> local_check_target option \<Rightarrow> nat \<Rightarrow> nat \<Rightarrow> nat \<Rightarrow>
   string option \<Rightarrow> string option \<Rightarrow> local_check_stage" where
  "run_runtime_stage env kind repo operation target n_samples n_warmups timeout baseline discovery_error =
     (case target of
        None \<Rightarrow>
          no_confidence_stage (elapsed_ms env kind) None
            (case discovery_error of
               None \<Rightarrow> ''No defensible runnable target matched this change'' | Some e \<Rightarrow> e)
      | Some t \<Rightarrow>
          (case run_runtime env repo operation t n_samples n_warmups timeout baseline of
             Inl e \<Rightarrow> no_confidence_stage (elapsed_ms env kind) (Some t) e
           | Inr evidence \<Rightarrow>
               (let status = runtime_stage_status operation evidence
                in \<lparr>stage_status = status, stage_duration_ms = elapsed_ms env kind,
                    stage_target = Some t, stage_evidence = evidence,
                    stage_limitations =
                      (if operation = ''run'' \<and> status = Passed then []
                       else evidence_limitations evidence)\<rparr>)))"

definition rerun_fix_correctness_target ::
  "environment \<Rightarrow> string \<Rightarrow> local_check_target option \<Rightarrow> nat \<Rightarrow> local_check_stage" where
  "rerun_fix_correctness_target env repo target timeout =
     run_runtime_stage env ''correctness'' repo ''run'' target 2 0 timeout None
       (Some ''The source verification receipt has no correctness target to recheck'')"

section \<open>The review stage\<close>

definition review_actionable :: "json \<Rightarrow> bool" where
  "review_actionable evidence \<longleftrightarrow>
     list_ex (\<lambda>f. get_str ''severity'' f \<in> set [Some ''critical'', Some ''high''])
       (items_at ''findings'' evidence)"

definition review_stage_limitations :: "json \<Rightarrow> string list" where
  "review_stage_limitations evidence =
     (let listed = (case Option.bind (pointer [''review_readiness'', ''limitations''] evidence) as_array of
                      None \<Rightarrow> [] | Some vs \<Rightarrow> strings_of vs)
      in if listed \<noteq> [] then listed
         else [''Review context or execution coverage was incomplete''])"

definition review_stage_from_evidence :: "nat \<Rightarrow> json \<Rightarrow> local_check_stage" where
  "review_stage_from_evidence elapsed evidence =
     \<lparr>stage_status =
        (if \<not> review_ready evidence then NoConfidence
         else if review_actionable evidence then NeedsAttention else Completed),
      stage_duration_ms = elapsed, stage_target = None, stage_evidence = evidence,
      stage_limitations = (if review_ready evidence then [] else review_stage_limitations evidence)\<rparr>"

fun evidence_status_name :: "local_check_status \<Rightarrow> string" where
  "evidence_status_name Passed = ''pass''"
| "evidence_status_name Failed = ''fail''"
| "evidence_status_name Completed = ''completed''"
| "evidence_status_name Skipped = ''skipped''"
| "evidence_status_name Ready = ''ready''"
| "evidence_status_name NeedsAttention = ''needs_attention''"
| "evidence_status_name NoConfidence = ''no_confidence''"

definition runtime_stage_review_context :: "environment \<Rightarrow> string \<Rightarrow> local_check_stage \<Rightarrow> json" where
  "runtime_stage_review_context env kind stage =
     (let raw_notes =
        (if stage_limitations stage = []
         then (case json_to_string env (stage_evidence stage) of
                 Inl _ \<Rightarrow> ''Evidence unavailable'' | Inr s \<Rightarrow> s)
         else join ''; '' (stage_limitations stage))
      in object_of
        [(''loop_id'', String (''local-check-'' @ kind)),
         (''runner_type'', String (case stage_target stage of None \<Rightarrow> ''unavailable'' | Some t \<Rightarrow> adapter t)),
         (''goal'', String (''Local-check '' @ kind @ '' evidence for the exact reviewed change'')),
         (''pass'', Bool (stage_status stage = Passed)),
         (''evidence_status'', String (evidence_status_name (stage_status stage))),
         (''duration_ms'', Number (PosInt (stage_duration_ms stage))),
         (''notes'', String (bounded raw_notes 1000)),
         (''artifacts'', Array [])])"

abbreviation event :: "string \<Rightarrow> string \<Rightarrow> local_check_progress" where
  "event stage state \<equiv> \<lparr>progress_stage = stage, progress_state = state\<rparr>"

text \<open>A cross review that stopped before reconciliation.\<close>

definition incomplete_stage ::
  "environment \<Rightarrow> (string \<times> json) option \<Rightarrow> string \<Rightarrow> string \<Rightarrow> local_check_stage" where
  "incomplete_stage env finished failed e =
     review_stage_from_evidence (elapsed_ms env ''review'')
       (project_stage_evidence (incomplete_after_pass finished failed e))"

text \<open>Both passes are in: reconcile, persist the composite and project it to a stage.\<close>

definition reconcile_stage :: "environment \<Rightarrow> string \<Rightarrow> json \<Rightarrow> json \<Rightarrow> local_check_stage" where
  "reconcile_stage env diff_range claude codex =
     (case reconcile_complete (json_to_vec env) (sha256_hex env) claude codex of
        Inl e \<Rightarrow> incomplete_stage env None ''reconciliation'' e
      | Inr receipt \<Rightarrow>
          (case fst (persist_composite_review (composite_store env) diff_range
                       (project_stage_evidence receipt)) of
             Inl e \<Rightarrow>
               no_confidence_stage (elapsed_ms env ''review'') None
                 (''Could not persist the cross-review composite: '' @ e)
           | Inr evidence \<Rightarrow> review_stage_from_evidence (elapsed_ms env ''review'') evidence))"

definition run_codex_pass ::
  "environment \<Rightarrow> string \<Rightarrow> string \<Rightarrow> string \<Rightarrow> json list \<Rightarrow> string \<Rightarrow> json \<Rightarrow>
   local_check_stage \<times> local_check_progress list" where
  "run_codex_pass env repo diff_range task runtime_context policy claude =
     (case review_core env repo diff_range task ''codex'' runtime_context of
        Inl e \<Rightarrow> (incomplete_stage env (Some (''claude'', claude)) ''codex'' e,
                   [event ''review_codex'' ''no_confidence''])
      | Inr codex \<Rightarrow>
          (case attach_coordinator_binding codex policy of
             Inl e \<Rightarrow> (incomplete_stage env (Some (''claude'', claude)) ''codex_binding'' e, [])
           | Inr codex' \<Rightarrow>
               (reconcile_stage env diff_range claude codex', [event ''review_codex'' ''completed''])))"

definition run_cross_review_stage ::
  "environment \<Rightarrow> string \<Rightarrow> string \<Rightarrow> string \<Rightarrow> json list \<Rightarrow>
   local_check_stage \<times> local_check_progress list" where
  "run_cross_review_stage env repo diff_range task runtime_context =
     (let missing = missing_executors (executor_installed env)
      in if missing \<noteq> []
         then (incomplete_stage env None ''preflight''
                 (''missing configured executors: '' @ join '', '' missing), [])
         else case coordinator_policy_binding (json_to_vec env) (sha256_hex env) repo diff_range task
                     runtime_context of
           Inl e \<Rightarrow> (incomplete_stage env None ''policy_binding'' e, [])
         | Inr policy \<Rightarrow>
             (case review_core env repo diff_range task ''claude'' runtime_context of
                Inl e \<Rightarrow> (incomplete_stage env None ''claude'' e,
                           [event ''review_claude'' ''running'', event ''review_claude'' ''no_confidence''])
              | Inr claude \<Rightarrow>
                  (case attach_coordinator_binding claude policy of
                     Inl e \<Rightarrow> (incomplete_stage env None ''claude_binding'' e,
                                [event ''review_claude'' ''running''])
                   | Inr claude' \<Rightarrow>
                       (case run_codex_pass env repo diff_range task runtime_context policy claude' of
                          (stage, events) \<Rightarrow>
                            (stage,
                             [event ''review_claude'' ''running'', event ''review_claude'' ''completed'',
                              event ''review_codex'' ''running''] @ events)))))"

definition run_review_stage ::
  "environment \<Rightarrow> string \<Rightarrow> string \<Rightarrow> string \<Rightarrow> string \<Rightarrow> json list \<Rightarrow>
   local_check_stage \<times> local_check_progress list" where
  "run_review_stage env repo diff_range task agent runtime_context =
     (if agent = ''cross'' then run_cross_review_stage env repo diff_range task runtime_context
      else case review_core env repo diff_range task agent runtime_context of
             Inl e \<Rightarrow> (no_confidence_stage (elapsed_ms env ''review'') None e, [])
           | Inr evidence \<Rightarrow> (review_stage_from_evidence (elapsed_ms env ''review'') evidence, []))"

section \<open>The optimization stage\<close>

definition shell_safe :: "char \<Rightarrow> bool" where
  "shell_safe c \<longleftrightarrow> is_ascii_alphanumeric c \<or> c \<in> set ''/.-_:''"

definition quote_char :: "char \<Rightarrow> string" where
  "quote_char c = (if c = CHR 0x27 then [CHR 0x27, CHR 0x5C, CHR 0x27, CHR 0x27] else [c])"

definition shell_token :: "string \<Rightarrow> string" where
  "shell_token v =
     (if list_all shell_safe v then v
      else [CHR 0x27] @ concat (map quote_char v) @ [CHR 0x27])"

definition option_flag :: "string \<Rightarrow> string option \<Rightarrow> string" where
  "option_flag flag v = (case v of None \<Rightarrow> [] | Some x \<Rightarrow> '' '' @ flag @ '' '' @ shell_token x)"

definition render_candidate_command ::
  "string \<Rightarrow> string \<Rightarrow> string \<Rightarrow> string \<Rightarrow> local_check_target option \<Rightarrow> local_check_target \<Rightarrow>
   nat \<Rightarrow> nat \<Rightarrow> nat \<Rightarrow> string list \<Rightarrow> string list \<Rightarrow> string" where
  "render_candidate_command repo base task agent correctness target n_samples n_warmups timeout
     paths requirement_ids =
     (let tests = (case correctness of
            None \<Rightarrow> []
          | Some t \<Rightarrow> '' --test-adapter '' @ shell_token (adapter t) @ '' --test-target ''
                        @ shell_token (target_path t) @ option_flag ''--test-name'' (target_name t));
          specs = concat (map (\<lambda>p. '' --spec '' @ shell_token p) paths);
          requirements = concat (map (\<lambda>r. '' --requirement '' @ shell_token r) requirement_ids)
      in ''codevetter check --repo <candidate-worktree> --range '' @ shell_token (base @ ''...HEAD'')
         @ '' --task '' @ shell_token task @ '' --agent '' @ shell_token agent
         @ tests @ specs @ requirements
         @ '' --perf-adapter '' @ shell_token (adapter target)
         @ '' --perf-target '' @ shell_token (target_path target)
         @ option_flag ''--perf-name'' (target_name target)
         @ '' --baseline-repo '' @ shell_token repo
         @ '' --samples '' @ show_nat n_samples @ '' --warmups '' @ show_nat n_warmups
         @ '' --timeout-ms '' @ show_nat timeout)"

definition paired_status :: "local_check_status \<Rightarrow> local_check_status" where
  "paired_status s = (case s of Passed \<Rightarrow> Passed | Failed \<Rightarrow> Failed | _ \<Rightarrow> NoConfidence)"

definition optimization_stage ::
  "string \<Rightarrow> string \<Rightarrow> string \<Rightarrow> string \<Rightarrow> local_check_target option \<Rightarrow> local_check_target option \<Rightarrow>
   string option \<Rightarrow> local_check_stage \<Rightarrow> nat \<Rightarrow> nat \<Rightarrow> nat \<Rightarrow> string list \<Rightarrow> string list \<Rightarrow>
   local_check_stage" where
  "optimization_stage repo base task agent correctness target baseline performance
     n_samples n_warmups timeout paths requirement_ids =
     (case target of
        None \<Rightarrow>
          \<lparr>stage_status = NoConfidence, stage_duration_ms = 0, stage_target = None,
           stage_evidence = object_of [(''next_action'', Null)],
           stage_limitations = [''Optimization requires a qualified performance target'']\<rparr>
      | Some t \<Rightarrow>
          (if baseline \<noteq> None then
             (let status = paired_status (stage_status performance)
              in \<lparr>stage_status = status, stage_duration_ms = 0, stage_target = Some t,
                  stage_evidence = object_of
                    [(''mode'', String ''paired_verification''),
                     (''performance_verdict'', get_or Null ''verdict'' (stage_evidence performance))],
                  stage_limitations =
                    (if status = NoConfidence
                     then (case Option.bind (get_key ''verdict'' (stage_evidence performance))
                                  (get_str ''reason'') of
                             Some reason \<Rightarrow> [''Paired optimization is inconclusive: '' @ reason]
                           | None \<Rightarrow> [''Paired optimization produced no defensible conclusion''])
                     else [])\<rparr>)
           else
             \<lparr>stage_status = (if stage_status performance \<in> {Passed, Completed} then Ready else NoConfidence),
              stage_duration_ms = 0, stage_target = Some t,
              stage_evidence = object_of
                [(''mode'', String ''agent_handoff''),
                 (''next_action'', String ''Have a coding agent make one bounded performance edit in an isolated clean checkout, then run paired verification.''),
                 (''candidate_command'', String (render_candidate_command repo base task agent
                    correctness t n_samples n_warmups timeout paths requirement_ids)),
                 (''owner_checkout_mutated'', Bool False)],
              stage_limitations =
                [''CodeVetter diagnoses and verifies optimization candidates; it does not silently edit the selected checkout.'']\<rparr>))"

section \<open>Running a check\<close>

definition correctness_spec_evidence :: "local_check_stage \<Rightarrow> spec_evidence_reference option" where
  "correctness_spec_evidence stage =
     (if stage_status stage \<in> {Passed, Failed}
      then Some \<lparr>ev_stage = ''correctness'',
                 ev_status = (if stage_status stage = Passed then ''passed'' else ''failed''),
                 ev_adapter = map_option adapter (stage_target stage),
                 ev_target = map_option target_path (stage_target stage),
                 ev_source = map_option target_source (stage_target stage)\<rparr>
      else None)"

definition compose_review_task :: "string \<Rightarrow> spec_packet option \<Rightarrow> string" where
  "compose_review_task task packet =
     (case packet of
        Some p \<Rightarrow> if review_context p \<noteq> [] then task @ [newline, newline] @ review_context p else task
      | None \<Rightarrow> task)"

definition add_standards :: "string option \<Rightarrow> string \<Rightarrow> string" where
  "add_standards standards task =
     (case standards of
        Some c \<Rightarrow> if trim c \<noteq> [] then task @ [newline, newline] @ trim c else task
      | None \<Rightarrow> task)"

definition spec_execution :: "local_check_status \<Rightarrow> spec_execution_outcome" where
  "spec_execution s = (case s of Passed \<Rightarrow> ExecPassed | Failed \<Rightarrow> ExecFailed | _ \<Rightarrow> ExecUnavailable)"

definition run_correctness :: "environment \<Rightarrow> local_check_input \<Rightarrow> prepared_local_check \<Rightarrow> local_check_stage" where
  "run_correctness env i p =
     run_runtime_stage env ''correctness'' (prepared_repo p) ''run'' (correctness_target p)
       (samples i) (warmups i) (timeout_ms i) None (err_of (test_plan p))"

definition run_performance ::
  "environment \<Rightarrow> local_check_input \<Rightarrow> prepared_local_check \<Rightarrow> string option \<Rightarrow> local_check_stage" where
  "run_performance env i p baseline =
     (if skip_performance i then skipped_performance_stage
      else run_runtime_stage env ''performance'' (prepared_repo p)
             (if baseline \<noteq> None then ''verify-paired-optimization'' else ''diagnose-performance'')
             (performance_target p) (samples i) (warmups i) (timeout_ms i) baseline
             (option_or (err_of (performance_plan p)) (performance_selection_limitation p)))"

definition run_optimization ::
  "local_check_input \<Rightarrow> prepared_local_check \<Rightarrow> string option \<Rightarrow> local_check_stage \<Rightarrow> local_check_stage" where
  "run_optimization i p baseline performance =
     (if skip_performance i then skipped_performance_stage
      else optimization_stage (prepared_repo p) (base_sha (prepared_source p)) (input_task i)
             (review_agent i) (correctness_target p) (performance_target p) baseline performance
             (samples i) (warmups i) (timeout_ms i) (spec_paths i) (selected_requirement_ids i))"

definition run_review ::
  "environment \<Rightarrow> local_check_input \<Rightarrow> prepared_local_check \<Rightarrow> local_check_stage \<Rightarrow> local_check_stage \<Rightarrow>
   local_check_stage \<times> local_check_progress list" where
  "run_review env i p correctness performance =
     run_review_stage env (prepared_repo p)
       (base_sha (prepared_source p) @ ''...'' @ head_sha (prepared_source p))
       (add_standards (input_standards_context i) (compose_review_task (input_task i) (prepared_packet p)))
       (review_agent i)
       [runtime_stage_review_context env ''correctness'' correctness,
        runtime_stage_review_context env ''performance'' performance]"

definition spec_coverage_of ::
  "local_check_input \<Rightarrow> prepared_local_check \<Rightarrow> local_check_stages \<Rightarrow> spec_coverage_receipt option" where
  "spec_coverage_of i p stages =
     map_option (\<lambda>packet.
       compose_spec_coverage packet (selected_requirement_ids i) (head_sha (prepared_source p))
         (stage_status (review_stage stages) \<in> {Completed, NeedsAttention})
         (spec_execution (stage_status (correctness_stage stages)))
         (correctness_spec_evidence (correctness_stage stages))) (prepared_packet p)"

definition receipt_of ::
  "environment \<Rightarrow> local_check_input \<Rightarrow> prepared_local_check \<Rightarrow> local_check_stages \<Rightarrow> local_check_receipt" where
  "receipt_of env i p stages =
     (let coverage = spec_coverage_of i p stages
      in \<lparr>receipt_schema_version = ''codevetter.local-check/v1'', receipt_request_id = None,
          receipt_run_id = ''local-check-'' @ fresh_run_id env, receipt_ran_at = now env,
          receipt_repo_path = prepared_repo p, receipt_task = input_task i,
          receipt_standards_pack = input_standards_pack i, receipt_source = prepared_source p,
          receipt_stages = stages, receipt_spec_coverage = coverage,
          receipt_verdict = apply_spec_confidence (aggregate_verdict stages) coverage,
          receipt_limitations = collect_limitations stages\<rparr>)"

text \<open>
  The run after preparation: its result and the progress events it emits. The early returns are
  a missing data directory or database, a baseline that stopped being clean, and a receipt that
  could not be persisted.
\<close>

definition run_prepared ::
  "environment \<Rightarrow> local_check_input \<Rightarrow> prepared_local_check \<Rightarrow>
   local_check_receipt result \<times> local_check_progress list" where
  "run_prepared env i p =
     (case and_then (app_data_dir env) (\<lambda>_.
             map_err (\<lambda>e. ''open CodeVetter database: '' @ e) (open_database env)) of
        Inl e \<Rightarrow> (Inl e, [])
      | Inr _ \<Rightarrow>
          (let correctness = run_correctness env i p;
               started = [event ''correctness'' ''running'', progress_for_stage ''correctness'' correctness]
           in case (case baseline_repo_path i of
                      None \<Rightarrow> Inr None
                    | Some b \<Rightarrow> and_then (canonical_clean_repository env b) (\<lambda>c. Inr (Some c))) of
                Inl e \<Rightarrow> (Inl e, started)
              | Inr baseline \<Rightarrow>
                  (let performance = run_performance env i p baseline;
                       (review, review_events) = run_review env i p correctness performance;
                       stages = \<lparr>review_stage = review, correctness_stage = correctness,
                                 performance_stage = performance,
                                 optimization_stage_of = run_optimization i p baseline performance\<rparr>;
                       receipt = receipt_of env i p stages
                   in (and_then (persist_receipt env receipt) (\<lambda>_. Inr receipt),
                       started
                       @ [event ''performance'' (if performance_target p \<noteq> None then ''running'' else ''skipped'')]
                       @ (if skip_performance i then [] else [progress_for_stage ''performance'' performance])
                       @ [event ''review'' ''running''] @ review_events
                       @ [progress_for_stage ''review'' review,
                          event ''done'' (verdict_name (receipt_verdict receipt))]))))"

definition run_local_check_with_progress ::
  "environment \<Rightarrow> local_check_input \<Rightarrow> local_check_receipt result \<times> local_check_progress list" where
  "run_local_check_with_progress env i =
     (case prepare_local_check env i of
        Inl e \<Rightarrow> (Inl e, [event ''preflight'' ''running''])
      | Inr p \<Rightarrow>
          (case run_prepared env i p of
             (r, events) \<Rightarrow>
               (r, [event ''preflight'' ''running'', event ''preflight'' ''completed''] @ events)))"

definition run_local_check :: "environment \<Rightarrow> local_check_input \<Rightarrow> local_check_receipt result" where
  "run_local_check env i = fst (run_local_check_with_progress env i)"

section \<open>Preflight\<close>

definition target_ready :: "environment \<Rightarrow> local_check_input \<Rightarrow> local_check_target \<Rightarrow> bool" where
  "target_ready env i t =
     runtime_prerequisites_ready
       (ok_of (run_runtime env (input_repo_path i) ''preflight'' t (samples i) (warmups i) (timeout_ms i) None))"

definition preflight_spec_limits :: "spec_coverage_receipt option \<Rightarrow> string list" where
  "preflight_spec_limits coverage =
     (case coverage of
        None \<Rightarrow> []
      | Some c \<Rightarrow>
          (if total_requirements (coverage_summary c) = 0
           then [''Supplied specs contain no explicit `### Requirement:` sections; review was not started'']
           else if selected_count (coverage_summary c) = 0
           then [''No extracted requirement is bound to correctness; select at least one --requirement before review'']
           else []))"

definition preflight_local_check ::
  "environment \<Rightarrow> local_check_input \<Rightarrow> local_check_preflight_receipt result" where
  "preflight_local_check env i =
     and_then (prepare_local_check env i) (\<lambda>p.
       let coverage = map_option (\<lambda>packet.
             compose_spec_coverage packet (selected_requirement_ids i) (head_sha (prepared_source p))
               False ExecUnavailable None) (prepared_packet p);
           targets = list_of_option (correctness_target p) @ list_of_option (performance_target p);
           unready = filter (\<lambda>t. \<not> target_ready env i t) targets;
           missing = (if review_agent i = ''cross'' then missing_executors (executor_installed env) else []);
           ready = (unready = [] \<and> missing = [] \<and> correctness_target p \<noteq> None \<and>
             (case coverage of
                None \<Rightarrow> True
              | Some c \<Rightarrow> 0 < total_requirements (coverage_summary c) \<and> 0 < selected_count (coverage_summary c)))
       in Inr \<lparr>preflight_schema_version = ''codevetter.local-check-preflight/v1'',
               preflight_request_id = None, preflight_ran_at = now env,
               preflight_repo_path = prepared_repo p, preflight_task = input_task i,
               preflight_source = prepared_source p, preflight_spec_coverage = coverage,
               preflight_correctness_target = correctness_target p,
               preflight_performance_target = performance_target p,
               preflight_status = (if ready then Ready else NoConfidence),
               preflight_limitations =
                 map (\<lambda>t. ''Executable prerequisites are unavailable for '' @ adapter t) unready
                 @ (if missing \<noteq> []
                    then [''Cross-review requires both configured executors before either pass starts; missing: ''
                            @ join '', '' missing] else [])
                 @ (if correctness_target p = None
                    then [case err_of (test_plan p) of
                            None \<Rightarrow> ''No defensible correctness target matched this change'' | Some e \<Rightarrow> e]
                    else [])
                 @ (if performance_target p = None
                    then [case option_or (err_of (performance_plan p)) (performance_selection_limitation p) of
                            None \<Rightarrow> ''No dedicated performance workload matched; use explicit --perf-adapter and --perf-target to opt in''
                          | Some e \<Rightarrow> e]
                    else [])
                 @ preflight_spec_limits coverage\<rparr>)"

section \<open>Lemmas: stages\<close>

lemma stage_status_simps [simp]:
  "stage_status (no_confidence_stage n t e) = NoConfidence"
  "stage_status skipped_performance_stage = Skipped"
  "stage_status (incomplete_stage env c f e) = NoConfidence"
  by (simp_all add: no_confidence_stage_def skipped_performance_stage_def incomplete_stage_def
      review_stage_from_evidence_def review_ready_def project_stage_evidence_def
      incomplete_after_pass_def get_str_def get_key_object_of Let_def)

lemma run_stage_passed:
  assumes "stage_status (run_runtime_stage env kind repo ''run'' target n w ms b e) = Passed"
  shows "\<exists>t evidence. target = Some t \<and>
    run_runtime env repo ''run'' t n w ms b = Inr evidence \<and> exit_code evidence = Some 0 \<and>
    stage_target (run_runtime_stage env kind repo ''run'' target n w ms b e) = Some t \<and>
    stage_evidence (run_runtime_stage env kind repo ''run'' target n w ms b e) = evidence"
  using assms
  by (auto simp: run_runtime_stage_def runtime_stage_status_def Let_def
      split: option.splits sum.splits if_splits)

lemma run_stage_failed:
  "stage_status (run_runtime_stage env kind repo ''run'' target n w ms b e) = Failed \<longleftrightarrow>
     (\<exists>t evidence c. target = Some t \<and> run_runtime env repo ''run'' t n w ms b = Inr evidence \<and>
        exit_code evidence = Some c \<and> c \<noteq> 0)"
  by (auto simp: run_runtime_stage_def runtime_stage_status_def Let_def
      split: option.splits sum.splits if_splits)

lemma runtime_stage_statuses:
  "stage_status (run_runtime_stage env kind repo operation target n w ms b e)
     \<in> {Passed, Failed, Completed, NoConfidence}"
  by (simp add: run_runtime_stage_def runtime_stage_status_def Let_def split: option.splits sum.splits)

lemma run_stage_statuses:
  "stage_status (run_runtime_stage env kind repo ''run'' target n w ms b e)
     \<in> {Passed, Failed, NoConfidence}"
  by (simp add: run_runtime_stage_def runtime_stage_status_def Let_def split: option.splits sum.splits)

text \<open>Whatever path the review took, its stage is projected from the evidence it carries.\<close>

definition review_stage_sound :: "local_check_stage \<Rightarrow> bool" where
  "review_stage_sound stage \<longleftrightarrow>
     stage_status stage \<in> {Completed, NeedsAttention, NoConfidence} \<and>
     (stage_status stage = Completed \<longrightarrow>
        review_ready (stage_evidence stage) \<and> \<not> review_actionable (stage_evidence stage)) \<and>
     (stage_status stage = NeedsAttention \<longrightarrow>
        review_ready (stage_evidence stage) \<and> review_actionable (stage_evidence stage))"

lemma review_stage_from_evidence_sound [simp]:
  "review_stage_sound (review_stage_from_evidence n evidence)"
  by (simp add: review_stage_sound_def review_stage_from_evidence_def)

lemma no_confidence_stage_sound [simp]: "review_stage_sound (no_confidence_stage n t e)"
  by (simp add: review_stage_sound_def)

lemma incomplete_stage_sound [simp]: "review_stage_sound (incomplete_stage env c f e)"
  by (simp add: review_stage_sound_def)

lemma reconcile_stage_sound: "review_stage_sound (reconcile_stage env dr claude codex)"
  by (simp add: reconcile_stage_def split: sum.splits)

lemma run_codex_pass_sound:
  "review_stage_sound (fst (run_codex_pass env repo dr task ctx policy claude))"
  by (simp add: run_codex_pass_def reconcile_stage_sound split: sum.splits)

lemma run_cross_review_stage_sound:
  "review_stage_sound (fst (run_cross_review_stage env repo dr task ctx))"
  by (simp add: run_cross_review_stage_def Let_def case_prod_beta run_codex_pass_sound
      split: sum.splits)

lemma run_review_stage_sound:
  "review_stage_sound (fst (run_review_stage env repo dr task agent ctx))"
  by (simp add: run_review_stage_def run_cross_review_stage_sound split: sum.splits)

lemma optimization_failed:
  "stage_status (run_optimization i p baseline performance) = Failed \<Longrightarrow> stage_status performance = Failed"
  by (auto simp: run_optimization_def optimization_stage_def paired_status_def Let_def
      split: if_splits option.splits local_check_status.splits)

lemma optimization_statuses:
  "stage_status (run_optimization i p baseline performance)
     \<in> {Skipped, Ready, Passed, Failed, NoConfidence}"
  by (simp add: run_optimization_def optimization_stage_def paired_status_def Let_def
      split: option.splits local_check_status.splits)

lemma performance_statuses:
  "stage_status (run_performance env i p baseline) \<in> {Skipped, Passed, Failed, Completed, NoConfidence}"
  using runtime_stage_statuses by (auto simp: run_performance_def)

lemma aggregate_passed:
  "aggregate_verdict stages = VerdictPassedWithLimits \<longleftrightarrow>
     (\<forall>s \<in> {stage_status (review_stage stages), stage_status (correctness_stage stages),
            stage_status (performance_stage stages), stage_status (optimization_stage_of stages)}.
        s \<notin> {Failed, NeedsAttention, NoConfidence}) \<and>
     stage_status (review_stage stages) \<noteq> Skipped \<and> stage_status (correctness_stage stages) \<noteq> Skipped"
  by (auto simp: aggregate_verdict_def Let_def)

lemma aggregate_failed:
  "aggregate_verdict stages = VerdictFailed \<longleftrightarrow>
     Failed \<in> {stage_status (review_stage stages), stage_status (correctness_stage stages),
       stage_status (performance_stage stages), stage_status (optimization_stage_of stages)}"
  by (auto simp: aggregate_verdict_def Let_def)

lemma apply_spec_confidence_keeps:
  "apply_spec_confidence v c = w \<Longrightarrow> w \<noteq> VerdictNoConfidence \<Longrightarrow> v = w"
  by (auto simp: apply_spec_confidence_def Let_def split: if_splits option.splits)

text \<open>What a run that returns a receipt went through.\<close>

lemma run_local_check_Inr:
  assumes "run_local_check env i = Inr r"
  obtains p baseline where "prepare_local_check env i = Inr p"
    and "receipt_stages r = \<lparr>review_stage = fst (run_review env i p (run_correctness env i p)
              (run_performance env i p baseline)),
            correctness_stage = run_correctness env i p,
            performance_stage = run_performance env i p baseline,
            optimization_stage_of = run_optimization i p baseline (run_performance env i p baseline)\<rparr>"
    and "receipt_verdict r = apply_spec_confidence (aggregate_verdict (receipt_stages r))
           (spec_coverage_of i p (receipt_stages r))"
    and "receipt_spec_coverage r = spec_coverage_of i p (receipt_stages r)"
    and "receipt_source r = prepared_source p" and "receipt_repo_path r = prepared_repo p"
    and "baseline = None \<longleftrightarrow> baseline_repo_path i = None"
proof -
  from assms obtain p where p: "prepare_local_check env i = Inr p"
    and run: "fst (run_prepared env i p) = Inr r"
    by (auto simp: run_local_check_def run_local_check_with_progress_def split: sum.splits prod.splits)
  from run obtain baseline where
    b: "(case baseline_repo_path i of None \<Rightarrow> Inr None
         | Some b \<Rightarrow> and_then (canonical_clean_repository env b) (\<lambda>c. Inr (Some c))) = Inr baseline"
    and r: "r = receipt_of env i p \<lparr>review_stage = fst (run_review env i p (run_correctness env i p)
              (run_performance env i p baseline)),
            correctness_stage = run_correctness env i p,
            performance_stage = run_performance env i p baseline,
            optimization_stage_of = run_optimization i p baseline (run_performance env i p baseline)\<rparr>"
    by (auto simp: run_prepared_def Let_def and_then_Inr split: sum.splits prod.splits)
  have "baseline = None \<longleftrightarrow> baseline_repo_path i = None"
    using b by (auto simp: and_then_Inr split: option.splits)
  with that p r show thesis by (simp add: receipt_of_def Let_def)
qed

lemma summary_counts:
  "total_requirements (summarize_coverage items) = length items"
  "selected_count (summarize_coverage items) = length (filter selected_for_execution items)"
  by (simp_all add: summarize_coverage_def Let_def)

lemma selected_all_verified [simp]:
  "\<not> verified_count (summarize_coverage
        (map (cover_requirement (bset_of ids) rids done ExecPassed ev) rs)) + k
     < length (filter (\<lambda>r. req_id r \<in> set ids) rs)"
proof -
  have "length (filter (\<lambda>r. req_id r \<in> set ids) rs) \<le> verified_count (summarize_coverage
        (map (cover_requirement (bset_of ids) rids done ExecPassed ev) rs))"
    by (induction rs) (auto simp: summarize_coverage_def Let_def count_status_def status_cover_requirement)
  then show ?thesis by linarith
qed

section \<open>A concrete run\<close>

text \<open>
  A clean repository at its checked-out head, one spec file with one requirement bound to a
  passing test, a ready review without findings, and performance deliberately skipped. The
  exit code of the test is a parameter.
\<close>

definition sample_review :: json where
  "sample_review = Object
     [(''findings'', Array []), (''review_readiness'', Object [(''status'', String ''ready'')]),
      (''review_status'', String ''completed'')]"

definition sample_source :: trex_source_receipt where
  "sample_source = \<lparr>source_kind = ''range'', source_input = ''c'', base_sha = ''b'', head_sha = ''h'',
     source_commits = [''h''], changed_paths = [''a.js'']\<rparr>"

definition sample_target :: local_check_target where
  "sample_target = \<lparr>adapter = ''vitest'', target_path = ''a.js'', target_name = None,
     target_source = ''explicit''\<rparr>"

definition sample_env :: "nat \<Rightarrow> environment" where
  "sample_env code =
     \<lparr>canonicalize = Inr, is_dir = (\<lambda>_. True), path_exists = (\<lambda>_. True), is_file = (\<lambda>_. True),
      spawn_git = (\<lambda>_ args. Inr \<lparr>exit_success = True,
        process_stdout = (if args = [''rev-parse'', ''HEAD''] then ''h'' else []), process_stderr = []\<rparr>),
      from_utf8_lossy = id,
      resolve_scope_change = (\<lambda>_ _. Inr sample_source),
      open_spec_file = (\<lambda>_ _. sample_spec_file),
      sha256_hex = (\<lambda>_. ''00''), json_to_vec = (\<lambda>_. Inr []), json_to_string = (\<lambda>_. Inr []),
      json_from_slice = (\<lambda>_. Some (Object
        [(''schema_version'', String ''runtime-prerequisite-preflight/v1''), (''status'', String ''ready''),
         (''terminal'', Object [(''exit_code'', Number (PosInt code))])])),
      resolve_evidence_scope = (\<lambda>_ _ _. Inr \<lparr>plan_candidates = []\<rparr>),
      runtime_cli = Inr ''cli.mjs'',
      spawn_node = (\<lambda>_ _. Inr \<lparr>exit_success = True, process_stdout = [], process_stderr = []\<rparr>),
      executor_installed = (\<lambda>_. True),
      review_core = (\<lambda>_ _ _ _ _. Inr sample_review),
      composite_store = \<lparr>create_local_review = (\<lambda>_ _. Inr []), insert_review_finding = (\<lambda>_. Inr []),
        update_local_review = (\<lambda>_ _ _. Inr ())\<rparr>,
      elapsed_ms = (\<lambda>_. 1), app_data_dir = Inr ''/d'', open_database = Inr (),
      persist_receipt = (\<lambda>_. Inr ()), fresh_run_id = ''1'', now = ''t''\<rparr>"

definition sample_input :: local_check_input where
  "sample_input =
     \<lparr>input_repo_path = ''/r'', input_change = ''c'', input_task = ''t'', input_standards_pack = None,
      input_standards_context = None, spec_paths = [''a.md''], selected_requirement_ids = [''x''],
      review_agent = ''claude'', test_target = Some sample_target, input_performance_target = None,
      skip_performance = True, baseline_repo_path = None, samples = 2, warmups = 0, timeout_ms = 1000\<rparr>"

lemma sample_validated: "validate_input sample_input = Inr ()"
  by (simp add: validate_input_def sample_input_def sample_target_def validate_target_def is_blank_def
      chars_def continuation_bytes_def lead_bits_def is_whitespace_def is_absolute_def components_def
      is_slash_def Let_def)

lemma sample_git:
  "canonical_clean_repository (sample_env n) ''/r'' = Inr ''/r''"
  "require_checked_out_head (sample_env n) ''/r'' ''h'' = Inr ()"
  "validate_target_file (sample_env n) ''/r'' sample_target = Inr ()"
  by (simp_all add: canonical_clean_repository_def require_checked_out_head_def git_text_def
      sample_env_def map_err_def trim_def trim_start_def trim_end_def continuation_bytes_def
      lead_bits_def is_whitespace_def validate_target_file_def path_join_def sample_target_def
      is_absolute_def components_def is_slash_def Let_def)

lemma sample_prepared:
  obtains p packet where "prepare_local_check (sample_env n) sample_input = Inr p"
    and "prepared_packet p = Some packet" and "map req_id (packet_requirements packet) = [''x'']"
    and "prepared_repo p = ''/r''" and "prepared_source p = sample_source"
    and "correctness_target p = Some sample_target" and "performance_target p = None"
proof -
  obtain packet where packet: "load_spec_packet (\<lambda>_. ''00'') (Inr ())
     (\<lambda>_. sample_spec_file) [''a.md''] = Inr (Some packet)"
    and ids: "map req_id (packet_requirements packet) = [''x'']"
    using loads_one_file .
  have selected: "validate_selected_requirements (Some packet) [''x''] = Inr ()"
    by (simp add: validate_selected_requirements_def Let_def ids bset_of_single)
  have env: "resolve_scope_change (sample_env n) ''/r'' ''c'' = Inr sample_source"
    "sha256_hex (sample_env n) = (\<lambda>_. ''00'')" "canonicalize (sample_env n) ''/r'' = Inr ''/r''"
    "open_spec_file (sample_env n) ''/r'' = (\<lambda>_. sample_spec_file)"
    "resolve_evidence_scope (sample_env n) ''/r'' ''c'' c = Inr \<lparr>plan_candidates = []\<rparr>" for c
    by (simp_all add: sample_env_def)
  have input: "input_repo_path sample_input = ''/r''" "input_change sample_input = ''c''"
    "spec_paths sample_input = [''a.md'']" "selected_requirement_ids sample_input = [''x'']"
    "test_target sample_input = Some sample_target" "input_performance_target sample_input = None"
    "skip_performance sample_input" "baseline_repo_path sample_input = None"
    by (simp_all add: sample_input_def)
  have "head_sha sample_source = ''h''" by (simp add: sample_source_def)
  then show thesis
    using that packet ids selected
    by (simp add: prepare_local_check_def sample_validated input env sample_git Let_def
        select_target_def select_performance_target_def list_of_option_def)
qed

lemma sample_run:
  obtains r c where "run_local_check (sample_env n) sample_input = Inr r"
    and "exit_code (stage_evidence (correctness_stage (receipt_stages r))) = Some (int n) \<or> n \<ge> 2 ^ 63"
    and "receipt_spec_coverage r = Some c"
    and "n = 0 \<Longrightarrow> receipt_verdict r = VerdictPassedWithLimits"
proof -
  obtain p packet where p: "prepare_local_check (sample_env n) sample_input = Inr p"
    "prepared_packet p = Some packet" "map req_id (packet_requirements packet) = [''x'']"
    "prepared_repo p = ''/r''" "correctness_target p = Some sample_target"
    using sample_prepared .
  obtain r0 where r0: "packet_requirements packet = [r0]" "req_id r0 = ''x''" using p(3) by auto
  have env: "app_data_dir (sample_env n) = Inr ''/d''" "open_database (sample_env n) = Inr ()"
    "persist_receipt (sample_env n) r = Inr ()" for r by (simp_all add: sample_env_def)
  have input: "baseline_repo_path sample_input = None" "skip_performance sample_input"
    "review_agent sample_input = ''claude''" "selected_requirement_ids sample_input = [''x'']"
    by (simp_all add: sample_input_def)
  have runtime: "run_runtime (sample_env n) ''/r'' ''run'' sample_target a b c None = Inr (Object
      [(''schema_version'', String ''runtime-prerequisite-preflight/v1''), (''status'', String ''ready''),
       (''terminal'', Object [(''exit_code'', Number (PosInt n))])])" for a b c
    by (simp add: run_runtime_def sample_env_def)
  have correct: "stage_evidence (run_correctness (sample_env n) sample_input p) = (Object
      [(''schema_version'', String ''runtime-prerequisite-preflight/v1''), (''status'', String ''ready''),
       (''terminal'', Object [(''exit_code'', Number (PosInt n))])])"
    "stage_status (run_correctness (sample_env n) sample_input p) =
      (if n = 0 then Passed else if n < 2 ^ 63 then Failed else NoConfidence)"
    using p(4,5) by (simp_all add: run_correctness_def run_runtime_stage_def runtime Let_def
        runtime_stage_status_def exit_code_def)
  have review: "stage_status (fst (run_review (sample_env n) sample_input p x y)) = Completed" for x y
    using input(3) by (simp add: run_review_def run_review_stage_def sample_env_def
        review_stage_from_evidence_def review_ready_def review_actionable_def sample_review_def
        get_str_def items_at_def get_array_def)
  have run: "run_local_check (sample_env n) sample_input = Inr (receipt_of (sample_env n) sample_input p
      \<lparr>review_stage = fst (run_review (sample_env n) sample_input p
          (run_correctness (sample_env n) sample_input p) skipped_performance_stage),
       correctness_stage = run_correctness (sample_env n) sample_input p,
       performance_stage = skipped_performance_stage, optimization_stage_of = skipped_performance_stage\<rparr>)"
    by (simp add: run_local_check_def run_local_check_with_progress_def p(1) run_prepared_def env input
        Let_def map_err_def case_prod_beta run_performance_def run_optimization_def)
  show thesis
  proof (rule that [OF run])
    assume n: "n = 0"
    have "stage_status (run_correctness (sample_env n) sample_input p) = Passed"
      using correct(2) n by simp
    then show "receipt_verdict (receipt_of (sample_env n) sample_input p
      \<lparr>review_stage = fst (run_review (sample_env n) sample_input p
          (run_correctness (sample_env n) sample_input p) skipped_performance_stage),
       correctness_stage = run_correctness (sample_env n) sample_input p,
       performance_stage = skipped_performance_stage, optimization_stage_of = skipped_performance_stage\<rparr>)
      = VerdictPassedWithLimits"
      by (simp add: receipt_of_def Let_def spec_coverage_of_def p(2) aggregate_verdict_def review
          apply_spec_confidence_def r0 input spec_execution_def bset_of_single summarize_coverage_def
          count_status_def status_cover_requirement)
  qed (auto simp: receipt_of_def Let_def correct(1) exit_code_def spec_coverage_of_def p(2))
qed

lemma sample_passes:
  obtains r c where "run_local_check (sample_env 0) sample_input = Inr r"
    and "receipt_verdict r = VerdictPassedWithLimits" and "receipt_spec_coverage r = Some c"
  by (rule sample_run [of 0]) (rule that, auto)

section \<open>What a verdict promises\<close>

text \<open>
  C1: A passing verdict rests on executed evidence. Whenever a check returns
  \<open>passed_with_limits\<close>, the correctness target really ran and exited with code 0, the review
  reported itself ready and completed without a critical or high finding, and the performance
  and optimization stages neither failed nor lacked confidence.
\<close>

theorem passed_verdict_is_executed:
  assumes "run_local_check env i = Inr r" and "receipt_verdict r = VerdictPassedWithLimits"
  shows "\<exists>p t evidence. prepare_local_check env i = Inr p \<and> correctness_target p = Some t \<and>
      run_runtime env (receipt_repo_path r) ''run'' t (samples i) (warmups i) (timeout_ms i) None
        = Inr evidence \<and>
      exit_code evidence = Some 0 \<and>
      stage_evidence (correctness_stage (receipt_stages r)) = evidence \<and>
      stage_target (correctness_stage (receipt_stages r)) = Some t \<and>
      review_ready (stage_evidence (review_stage (receipt_stages r))) \<and>
      \<not> review_actionable (stage_evidence (review_stage (receipt_stages r))) \<and>
      stage_status (performance_stage (receipt_stages r)) \<in> {Skipped, Passed, Completed} \<and>
      stage_status (optimization_stage_of (receipt_stages r)) \<in> {Skipped, Ready, Passed}"
proof -
  obtain p baseline where p: "prepare_local_check env i = Inr p"
    and stages: "receipt_stages r = \<lparr>review_stage = fst (run_review env i p (run_correctness env i p)
              (run_performance env i p baseline)),
            correctness_stage = run_correctness env i p,
            performance_stage = run_performance env i p baseline,
            optimization_stage_of = run_optimization i p baseline (run_performance env i p baseline)\<rparr>"
    and verdict: "receipt_verdict r = apply_spec_confidence (aggregate_verdict (receipt_stages r))
           (spec_coverage_of i p (receipt_stages r))"
    and coverage: "receipt_spec_coverage r = spec_coverage_of i p (receipt_stages r)"
    and source: "receipt_source r = prepared_source p" and repo: "receipt_repo_path r = prepared_repo p"
    using run_local_check_Inr [OF assms(1)] .
  have "aggregate_verdict (receipt_stages r) = VerdictPassedWithLimits"
    using apply_spec_confidence_keeps [OF sym [OF verdict]] assms(2) by simp
  note ok = this [unfolded aggregate_passed]
  have "stage_status (run_correctness env i p) = Passed"
    using ok run_stage_statuses [of env "''correctness''" "prepared_repo p"]
    by (fastforce simp: stages run_correctness_def)
  note run = run_stage_passed [OF this [unfolded run_correctness_def], folded run_correctness_def]
  have review: "review_stage_sound (review_stage (receipt_stages r))"
    by (simp add: stages run_review_def run_review_stage_sound)
  have perf: "stage_status (performance_stage (receipt_stages r)) \<in> {Skipped, Passed, Completed}"
    using ok performance_statuses [of env i p baseline] by (auto simp: stages)
  have opt: "stage_status (optimization_stage_of (receipt_stages r)) \<in> {Skipped, Ready, Passed}"
    using ok optimization_statuses [of i p baseline "run_performance env i p baseline"]
    by (auto simp: stages)
  have "stage_status (review_stage (receipt_stages r)) = Completed"
    using ok review by (auto simp: review_stage_sound_def)
  with review p repo run perf opt show ?thesis
    by (auto simp: review_stage_sound_def stages)
qed

theorem passed_verdict_is_executed_witness:
  "\<exists>r. run_local_check (sample_env 0) sample_input = Inr r \<and>
     exit_code (stage_evidence (correctness_stage (receipt_stages r))) = Some 0"
proof -
  obtain r where "run_local_check (sample_env 0) sample_input = Inr r"
    "receipt_verdict r = VerdictPassedWithLimits" using sample_passes .
  with passed_verdict_is_executed [OF this] show ?thesis by auto
qed

text \<open>
  C6: Failure wins. The verdict is \<open>failed\<close> exactly when the correctness target ran and exited
  with a nonzero code, or the performance stage failed; nothing the reviewers or the specs
  contribute can turn either into another verdict, and nothing else produces it.
\<close>

theorem failed_verdict_iff:
  assumes "run_local_check env i = Inr r"
  shows "receipt_verdict r = VerdictFailed \<longleftrightarrow>
     (\<exists>p t evidence c. prepare_local_check env i = Inr p \<and> correctness_target p = Some t \<and>
        run_runtime env (receipt_repo_path r) ''run'' t (samples i) (warmups i) (timeout_ms i) None
          = Inr evidence \<and> exit_code evidence = Some c \<and> c \<noteq> 0) \<or>
     stage_status (performance_stage (receipt_stages r)) = Failed"
proof -
  obtain p baseline where p: "prepare_local_check env i = Inr p"
    and stages: "receipt_stages r = \<lparr>review_stage = fst (run_review env i p (run_correctness env i p)
              (run_performance env i p baseline)),
            correctness_stage = run_correctness env i p,
            performance_stage = run_performance env i p baseline,
            optimization_stage_of = run_optimization i p baseline (run_performance env i p baseline)\<rparr>"
    and verdict: "receipt_verdict r = apply_spec_confidence (aggregate_verdict (receipt_stages r))
           (spec_coverage_of i p (receipt_stages r))"
    and coverage: "receipt_spec_coverage r = spec_coverage_of i p (receipt_stages r)"
    and source: "receipt_source r = prepared_source p" and repo: "receipt_repo_path r = prepared_repo p"
    using run_local_check_Inr [OF assms] .
  have "receipt_verdict r = VerdictFailed \<longleftrightarrow> aggregate_verdict (receipt_stages r) = VerdictFailed"
    unfolding verdict
    by (auto simp: apply_spec_confidence_def Let_def split: option.splits if_splits)
  moreover have "review_stage_sound (review_stage (receipt_stages r))"
    by (simp add: stages run_review_def run_review_stage_sound)
  then have "stage_status (review_stage (receipt_stages r)) \<noteq> Failed"
    by (auto simp: review_stage_sound_def)
  moreover have "stage_status (run_correctness env i p) = Failed \<longleftrightarrow>
      (\<exists>t evidence c. correctness_target p = Some t \<and>
        run_runtime env (prepared_repo p) ''run'' t (samples i) (warmups i) (timeout_ms i) None
          = Inr evidence \<and> exit_code evidence = Some c \<and> c \<noteq> 0)"
    by (simp add: run_correctness_def run_stage_failed)
  ultimately show ?thesis
    using p repo optimization_failed [of i p baseline "run_performance env i p baseline"]
    by (auto simp: aggregate_failed stages)
qed

theorem failed_verdict_iff_witness:
  "\<exists>r. run_local_check (sample_env 1) sample_input = Inr r \<and> receipt_verdict r = VerdictFailed"
proof -
  obtain r where r: "run_local_check (sample_env 1) sample_input = Inr r"
    using sample_run [of 1] by blast
  obtain p where p: "prepare_local_check (sample_env 1) sample_input = Inr p"
    "prepared_repo p = ''/r''" "correctness_target p = Some sample_target" using sample_prepared .
  have "receipt_repo_path r = ''/r''"
    using run_local_check_Inr [OF r] p by (metis Inr_inject)
  moreover have "run_runtime (sample_env 1) ''/r'' ''run'' sample_target a b c None = Inr (Object
      [(''schema_version'', String ''runtime-prerequisite-preflight/v1''), (''status'', String ''ready''),
       (''terminal'', Object [(''exit_code'', Number (PosInt 1))])])" for a b c
    by (simp add: run_runtime_def sample_env_def)
  ultimately have "receipt_verdict r = VerdictFailed"
    unfolding failed_verdict_iff [OF r] using p(1,3) by (auto simp: exit_code_def)
  with r show ?thesis by blast
qed

text \<open>
  C5: With specs, a passing verdict means every selected requirement was verified by the
  executed target. Whenever a check that was given specs returns \<open>passed_with_limits\<close>, at least
  one requirement was selected, a requirement is \<open>Verified\<close> exactly when it was selected, and
  none is contradicted.
\<close>

theorem passed_verdict_verifies_selection:
  assumes "run_local_check env i = Inr r" and "receipt_verdict r = VerdictPassedWithLimits"
    and "receipt_spec_coverage r = Some c"
  shows "(\<exists>item \<in> set (coverage_requirements c). selected_for_execution item) \<and>
    (\<forall>item \<in> set (coverage_requirements c).
       (requirement_status item = Verified \<longleftrightarrow> selected_for_execution item) \<and>
       requirement_status item \<noteq> Contradicted)"
proof -
  obtain p baseline where p: "prepare_local_check env i = Inr p"
    and stages: "receipt_stages r = \<lparr>review_stage = fst (run_review env i p (run_correctness env i p)
              (run_performance env i p baseline)),
            correctness_stage = run_correctness env i p,
            performance_stage = run_performance env i p baseline,
            optimization_stage_of = run_optimization i p baseline (run_performance env i p baseline)\<rparr>"
    and verdict: "receipt_verdict r = apply_spec_confidence (aggregate_verdict (receipt_stages r))
           (spec_coverage_of i p (receipt_stages r))"
    and coverage: "receipt_spec_coverage r = spec_coverage_of i p (receipt_stages r)"
    and source: "receipt_source r = prepared_source p" and repo: "receipt_repo_path r = prepared_repo p"
    using run_local_check_Inr [OF assms(1)] .
  note coverage = coverage [unfolded assms(3), symmetric]
  note verdict = verdict [unfolded coverage assms(2), symmetric]
  have "aggregate_verdict (receipt_stages r) = VerdictPassedWithLimits"
    by (rule apply_spec_confidence_keeps [OF verdict]) simp
  then have "stage_status (correctness_stage (receipt_stages r)) = Passed"
    using run_stage_statuses [of env "''correctness''" "prepared_repo p"]
    unfolding aggregate_passed by (fastforce simp: stages run_correctness_def)
  then obtain packet where c: "c = compose_spec_coverage packet (selected_requirement_ids i)
      (head_sha (prepared_source p)) (stage_status (review_stage (receipt_stages r)) \<in> {Completed, NeedsAttention})
      ExecPassed (correctness_spec_evidence (correctness_stage (receipt_stages r)))"
    using coverage by (auto simp: spec_coverage_of_def spec_execution_def)
  have "0 < selected_count (coverage_summary c)"
    using verdict by (auto simp: apply_spec_confidence_def Let_def split: if_splits)
  then have "\<exists>item \<in> set (coverage_requirements c). selected_for_execution item"
    by (auto simp: c summarize_coverage_def Let_def filter_empty_conv)
  then show ?thesis by (auto simp: c status_cover_requirement)
qed

theorem passed_verdict_verifies_selection_witness:
  "\<exists>r c. run_local_check (sample_env 0) sample_input = Inr r \<and> receipt_spec_coverage r = Some c \<and>
     (\<exists>item \<in> set (coverage_requirements c). requirement_status item = Verified)"
proof -
  obtain r c where "run_local_check (sample_env 0) sample_input = Inr r"
    "receipt_verdict r = VerdictPassedWithLimits" "receipt_spec_coverage r = Some c"
    using sample_passes .
  with passed_verdict_verifies_selection [OF this] show ?thesis by blast
qed

text \<open>
  C7: A \<open>ready\<close> preflight rules out every avoidable loss of confidence. If preflight reports
  \<open>ready\<close>, then the check run in the same environment uses the very target preflight named, has
  one, and its verdict is the stages' own: the specs can no longer downgrade it.
\<close>

theorem ready_preflight_predicts_run:
  assumes "preflight_local_check env i = Inr pre" and "preflight_status pre = Ready"
    and "run_local_check env i = Inr r"
  shows "receipt_verdict r = aggregate_verdict (receipt_stages r) \<and>
    receipt_source r = preflight_source pre \<and>
    (\<exists>t. preflight_correctness_target pre = Some t \<and> target_ready env i t \<and>
       stage_target (correctness_stage (receipt_stages r)) = Some t)"
proof -
  obtain p baseline where p: "prepare_local_check env i = Inr p"
    and stages: "receipt_stages r = \<lparr>review_stage = fst (run_review env i p (run_correctness env i p)
              (run_performance env i p baseline)),
            correctness_stage = run_correctness env i p,
            performance_stage = run_performance env i p baseline,
            optimization_stage_of = run_optimization i p baseline (run_performance env i p baseline)\<rparr>"
    and verdict: "receipt_verdict r = apply_spec_confidence (aggregate_verdict (receipt_stages r))
           (spec_coverage_of i p (receipt_stages r))"
    and coverage: "receipt_spec_coverage r = spec_coverage_of i p (receipt_stages r)"
    and source: "receipt_source r = prepared_source p" and repo: "receipt_repo_path r = prepared_repo p"
    using run_local_check_Inr [OF assms(3)] .
  from assms(1,2) p have pre: "preflight_source pre = prepared_source p"
    "preflight_correctness_target pre = correctness_target p"
    and ready: "correctness_target p \<noteq> None"
      "\<forall>t \<in> set (list_of_option (correctness_target p)). target_ready env i t"
    and spec: "\<And>packet. prepared_packet p = Some packet \<Longrightarrow> packet_requirements packet \<noteq> [] \<and>
        filter (\<lambda>q. req_id q \<in> set (selected_requirement_ids i)) (packet_requirements packet) \<noteq> []"
    by (auto simp: preflight_local_check_def and_then_Inr Let_def summarize_coverage_def
        filter_empty_conv filter_map o_def split: if_splits)
  from ready obtain t where t: "correctness_target p = Some t" "target_ready env i t"
    by (auto simp: list_of_option_def)
  have target: "stage_target (correctness_stage (receipt_stages r)) = Some t"
    by (simp add: stages run_correctness_def run_runtime_stage_def t no_confidence_stage_def Let_def
        split: sum.splits)
  have "receipt_verdict r = aggregate_verdict (receipt_stages r)"
  proof (cases "aggregate_verdict (receipt_stages r) = VerdictPassedWithLimits")
    case True
    then have "stage_status (correctness_stage (receipt_stages r)) = Passed"
      using run_stage_statuses [of env "''correctness''" "prepared_repo p"]
      unfolding aggregate_passed by (fastforce simp: stages run_correctness_def)
    then show ?thesis unfolding verdict True
      using spec by (auto simp: apply_spec_confidence_def spec_coverage_of_def spec_execution_def
          Let_def summary_counts(1) filter_map o_def filter_empty_conv
          summary_counts(2)
          split: option.splits)
  qed (simp add: verdict apply_spec_confidence_def)
  with t target pre source show ?thesis by simp
qed

theorem ready_preflight_predicts_run_witness:
  "\<exists>pre r. preflight_local_check (sample_env 0) sample_input = Inr pre \<and>
     run_local_check (sample_env 0) sample_input = Inr r \<and>
     receipt_verdict r = aggregate_verdict (receipt_stages r)"
proof -
  obtain r where r: "run_local_check (sample_env 0) sample_input = Inr r" using sample_passes .
  obtain p packet where p: "prepare_local_check (sample_env 0) sample_input = Inr p"
    "prepared_packet p = Some packet" "map req_id (packet_requirements packet) = [''x'']"
    "correctness_target p = Some sample_target" "performance_target p = None" using sample_prepared .
  obtain r0 where r0: "packet_requirements packet = [r0]" "req_id r0 = ''x''" using p(3) by auto
  have "target_ready (sample_env 0) sample_input sample_target"
    by (simp add: target_ready_def run_runtime_def sample_env_def runtime_prerequisites_ready_def get_str_def)
  then obtain pre where "preflight_local_check (sample_env 0) sample_input = Inr pre"
    "preflight_status pre = Ready"
    using p r0 by (simp add: preflight_local_check_def Let_def list_of_option_def sample_input_def
        summarize_coverage_def bset_of_single)
  with r ready_preflight_predicts_run [OF this r] show ?thesis by blast
qed

text \<open>
  C8: Evidence maps to one immutable source. A check returns a receipt only if Git reported the
  checkout clean and its checked-out commit to be the head the receipt names, and every target
  it ran resolves to a regular file under the repository root.
\<close>

theorem receipt_maps_to_one_source:
  assumes "run_local_check env i = Inr r"
  shows "canonicalize env (input_repo_path i) = Inr (receipt_repo_path r) \<and>
    git_text env (receipt_repo_path r) [''status'', ''--porcelain=v1'', ''--untracked-files=normal'']
      = Inr [] \<and>
    git_text env (receipt_repo_path r) [''rev-parse'', ''HEAD''] = Inr (head_sha (receipt_source r)) \<and>
    (\<forall>t. stage_target (correctness_stage (receipt_stages r)) = Some t \<longrightarrow>
       (\<exists>file. canonicalize env (path_join (receipt_repo_path r) (target_path t)) = Inr file \<and>
          is_file env file \<and>
          take (length (components (receipt_repo_path r))) (components file)
            = components (receipt_repo_path r)))"
proof -
  obtain p baseline where p: "prepare_local_check env i = Inr p"
    and stages: "receipt_stages r = \<lparr>review_stage = fst (run_review env i p (run_correctness env i p)
              (run_performance env i p baseline)),
            correctness_stage = run_correctness env i p,
            performance_stage = run_performance env i p baseline,
            optimization_stage_of = run_optimization i p baseline (run_performance env i p baseline)\<rparr>"
    and source: "receipt_source r = prepared_source p" and repo: "receipt_repo_path r = prepared_repo p"
    using run_local_check_Inr [OF assms] .
  from p have clean: "canonical_clean_repository env (input_repo_path i) = Inr (prepared_repo p)"
    and head: "require_checked_out_head env (prepared_repo p) (head_sha (prepared_source p)) = Inr ()"
    and files: "\<forall>t \<in> set (list_of_option (correctness_target p)).
                  validate_target_file env (prepared_repo p) t = Inr ()"
    by (auto simp: prepare_local_check_def result_simps Let_def case_prod_beta)
  have "correctness_target p = Some t" if "stage_target (run_correctness env i p) = Some t" for t
    using that by (auto simp: run_correctness_def run_runtime_stage_def no_confidence_stage_def Let_def
        split: option.splits sum.splits)
  with clean head files show ?thesis
    by (auto simp: canonical_clean_repository_def require_checked_out_head_def validate_target_file_def
        result_simps list_of_option_def source repo stages split: if_splits)
qed

theorem receipt_maps_to_one_source_witness:
  "\<exists>r. run_local_check (sample_env 0) sample_input = Inr r \<and>
     git_text (sample_env 0) (receipt_repo_path r) [''rev-parse'', ''HEAD''] = Inr (head_sha (receipt_source r))"
proof -
  obtain r where r: "run_local_check (sample_env 0) sample_input = Inr r" using sample_passes .
  with receipt_maps_to_one_source [OF r] show ?thesis by blast
qed

text \<open>
  Progress is announced in order and ends with the verdict. Every run starts with
  preflight; if it returns a receipt, the last event is \<open>done\<close> with the receipt's verdict, and
  before it come correctness, performance and review, each first announced and then reported
  with its stage's status (a skipped performance stage is announced only).
\<close>

theorem progress_ends_with_verdict:
  assumes "run_local_check_with_progress env i = (Inr r, events)"
  shows "\<exists>perf review_events. events =
      [event ''preflight'' ''running'', event ''preflight'' ''completed'',
       event ''correctness'' ''running'',
       progress_for_stage ''correctness'' (correctness_stage (receipt_stages r))]
      @ perf @ [event ''review'' ''running''] @ review_events
      @ [progress_for_stage ''review'' (review_stage (receipt_stages r)),
         event ''done'' (verdict_name (receipt_verdict r))] \<and>
    perf \<in> {[event ''performance'' s] | s. skip_performance i \<and> s \<in> {''running'', ''skipped''}} \<union>
      {[event ''performance'' s, progress_for_stage ''performance'' (performance_stage (receipt_stages r))]
        | s. \<not> skip_performance i \<and> s \<in> {''running'', ''skipped''}} \<and>
    (\<forall>e \<in> set review_events. progress_stage e \<in> {''review_claude'', ''review_codex''}) \<and>
    (review_agent i \<noteq> ''cross'' \<longrightarrow> review_events = [])"
proof -
  from assms obtain p es where p: "prepare_local_check env i = Inr p"
    and run: "run_prepared env i p = (Inr r, es)"
    and events: "events = [event ''preflight'' ''running'', event ''preflight'' ''completed''] @ es"
    by (auto simp: run_local_check_with_progress_def split: sum.splits prod.splits)
  from run obtain baseline res where
    review: "run_review env i p (run_correctness env i p) (run_performance env i p baseline)
      = (review_stage (receipt_stages r), res)"
    and stages: "correctness_stage (receipt_stages r) = run_correctness env i p"
      "performance_stage (receipt_stages r) = run_performance env i p baseline"
    and es: "es = [event ''correctness'' ''running'', progress_for_stage ''correctness'' (run_correctness env i p)]
       @ [event ''performance'' (if performance_target p \<noteq> None then ''running'' else ''skipped'')]
       @ (if skip_performance i then []
          else [progress_for_stage ''performance'' (run_performance env i p baseline)])
       @ [event ''review'' ''running''] @ res
       @ [progress_for_stage ''review'' (review_stage (receipt_stages r)),
          event ''done'' (verdict_name (receipt_verdict r))]"
    by (auto simp: run_prepared_def Let_def and_then_Inr receipt_of_def split: sum.splits prod.splits)
  have "\<forall>e \<in> set (snd (run_review_stage env a b c g d)).
      progress_stage e \<in> {''review_claude'', ''review_codex''}" for a b c g d
    by (auto simp: run_review_stage_def run_cross_review_stage_def run_codex_pass_def Let_def
        split: sum.splits)
  moreover have "snd (run_review_stage env a b c g d) = []" if "g \<noteq> ''cross''" for a b c g d
    using that by (simp add: run_review_stage_def split: sum.splits)
  ultimately have res: "\<forall>e \<in> set res. progress_stage e \<in> {''review_claude'', ''review_codex''}"
    "review_agent i \<noteq> ''cross'' \<longrightarrow> res = []"
    using review unfolding run_review_def by (metis snd_conv)+
  show ?thesis
    by (rule exI [of _ "[event ''performance'' (if performance_target p \<noteq> None then ''running'' else ''skipped'')]
       @ (if skip_performance i then []
          else [progress_for_stage ''performance'' (run_performance env i p baseline)])"],
        rule exI [of _ res])
      (use res in \<open>auto simp: events es stages\<close>)
qed

theorem progress_ends_with_verdict_witness:
  "\<exists>r events. run_local_check_with_progress (sample_env 0) sample_input = (Inr r, events) \<and>
     last events = event ''done'' (verdict_name (receipt_verdict r))"
proof -
  obtain r where "run_local_check (sample_env 0) sample_input = Inr r" using sample_passes .
  then obtain events where run: "run_local_check_with_progress (sample_env 0) sample_input = (Inr r, events)"
    by (metis run_local_check_def surjective_pairing)
  from progress_ends_with_verdict [OF run] have "last events = event ''done'' (verdict_name (receipt_verdict r))"
    by auto
  with run show ?thesis by blast
qed

section \<open>The handoff command\<close>

text \<open>
  How a POSIX shell reads words: blanks separate them, single quotes keep everything between
  them, a backslash keeps the next character. Every other metacharacter outside quotes makes
  the line more than a list of words (\<open>None\<close>). The second argument is the word being read.
\<close>

definition shell_meta :: "char \<Rightarrow> bool" where
  "shell_meta c \<longleftrightarrow> c \<in> set ''|&;<>()$`*?[]#~=%!{}^'' \<or> byte c \<in> set [34, 9, 10]"

definition flush_word :: "string option \<Rightarrow> string list \<Rightarrow> string list" where
  "flush_word w ws = (case w of None \<Rightarrow> ws | Some x \<Rightarrow> x # ws)"

definition extend_word :: "string option \<Rightarrow> string \<Rightarrow> string option" where
  "extend_word w s = Some ((case w of None \<Rightarrow> [] | Some x \<Rightarrow> x) @ s)"

fun shell_words :: "bool \<Rightarrow> string option \<Rightarrow> string \<Rightarrow> string list option" where
  "shell_words quoted w [] = (if quoted then None else Some (flush_word w []))"
| "shell_words True w (c # cs) =
     (if c = CHR 0x27 then shell_words False w cs else shell_words True (extend_word w [c]) cs)"
| "shell_words False w (c # cs) =
     (if c = CHR 0x27 then shell_words True (extend_word w []) cs
      else if c = CHR 0x5C
      then (case cs of [] \<Rightarrow> None | d # ds \<Rightarrow> shell_words False (extend_word w [d]) ds)
      else if c = CHR 0x20 then map_option (flush_word w) (shell_words False None cs)
      else if shell_meta c then None
      else shell_words False (extend_word w [c]) cs)"

lemma shell_safe_plain:
  "shell_safe c \<Longrightarrow> c \<noteq> CHR 0x27 \<and> c \<noteq> CHR 0x5C \<and> c \<noteq> CHR 0x20 \<and> \<not> shell_meta c"
  by (auto simp: shell_safe_def shell_meta_def is_ascii_alphanumeric_def is_ascii_digit_def
      is_ascii_lowercase_def is_ascii_uppercase_def)

lemma extend_word_extend [simp]: "extend_word (extend_word w s) t = extend_word w (s @ t)"
  by (simp add: extend_word_def)

lemma shell_words_plain:
  "list_all shell_safe v \<Longrightarrow> v \<noteq> [] \<Longrightarrow>
   shell_words False w (v @ rest) = shell_words False (extend_word w v) rest"
proof (induction v arbitrary: w)
  case (Cons c v)
  then show ?case using shell_safe_plain [of c] by (cases v) auto
qed simp

lemma shell_words_quoted:
  "shell_words True (extend_word w s) (concat (map quote_char v) @ CHR 0x27 # rest)
     = shell_words False (extend_word w (s @ v)) rest"
  by (induction v arbitrary: s) (simp_all add: quote_char_def)

lemma shell_words_token:
  assumes "v \<noteq> []"
  shows "shell_words False None (shell_token v @ rest) = shell_words False (Some v) rest"
proof (cases "list_all shell_safe v")
  case True
  with shell_words_plain [OF True assms, of None rest] show ?thesis
    by (simp add: shell_token_def extend_word_def)
next
  case False
  with shell_words_quoted [of None "[]" v rest] show ?thesis
    by (simp add: shell_token_def extend_word_def)
qed

text \<open>
  The handed-off command cannot be broken out of. A POSIX shell reads the rendering of a
  list of nonempty values, separated by blanks, as exactly those values, whatever quotes, blanks
  or metacharacters they contain.
\<close>

theorem shell_tokens_read_back:
  assumes "\<forall>v \<in> set vs. v \<noteq> []"
  shows "shell_words False None (join '' '' (map shell_token vs)) = Some vs"
  using assms
proof (induction vs rule: induct_list012)
  case (3 x y zs)
  then show ?case by (simp add: shell_words_token flush_word_def)
qed (use shell_words_token [where rest = "[]"] in \<open>simp_all add: flush_word_def\<close>)

theorem shell_tokens_read_back_witness:
  "shell_words False None (join '' '' (map shell_token [''a'', [CHR 0x27] @ '' b;$x'']))
     = Some [''a'', [CHR 0x27] @ '' b;$x'']"
  by (rule shell_tokens_read_back) simp

text \<open>
  An empty value is lost. \<open>shell_token\<close> renders the empty string as nothing at all, so a
  target whose name is empty, which \<open>validate_target\<close> accepts, is rendered as a flag without an
  argument: the shell then takes the next flag as the name.
\<close>

theorem empty_token_is_lost:
  "let t = sample_target\<lparr>target_name := Some []\<rparr>
   in validate_target t False = Inr () \<and>
      shell_words False None (''check'' @ option_flag ''--test-name'' (target_name t)
          @ '' --spec '' @ shell_token ''s.md'')
        = Some [''check'', ''--test-name'', ''--spec'', ''s.md'']"
  by (simp add: shell_token_def flush_word_def extend_word_def shell_meta_def shell_safe_def
      is_ascii_alphanumeric_def is_ascii_digit_def is_ascii_lowercase_def is_ascii_uppercase_def
      option_flag_def validate_target_def sample_target_def is_blank_def chars_def
      continuation_bytes_def lead_bits_def is_whitespace_def is_absolute_def components_def
      is_slash_def Let_def)

end
