(* ===== verification/FixAttempt.thy ===== *)
theory FixAttempt
  imports LocalCheck
begin

text \<open>
  Isolated agent fix attempts, \<open>commands/fix_attempt.rs\<close>: an agent edits a detached worktree,
  the recorded correctness target and a review recheck the result, and the attempt is classified.
  The environment \<open>fix_env\<close> answers for Git, the agent process, the model review, the database
  and the codec; each Git command line is issued at one point of the attempt only. The files
  outside the worktree are an explicit state, a map from paths to contents that storing, inspecting
  and discarding a receipt read and write; the environment says which accesses fail.
\<close>

section \<open>Data\<close>

definition MAX_AGENT_OUTPUT_BYTES :: nat where "MAX_AGENT_OUTPUT_BYTES = 512 * 1024"
definition MAX_DIFF_BYTES :: nat where "MAX_DIFF_BYTES = 1024 * 1024"
definition MAX_DIFF_PREVIEW_BYTES :: nat where "MAX_DIFF_PREVIEW_BYTES = 128 * 1024"
definition MAX_CHANGED_FILES :: nat where "MAX_CHANGED_FILES = 100"
definition MAX_FINDINGS :: nat where "MAX_FINDINGS = 100"
definition FIX_SCHEMA_VERSION :: string where "FIX_SCHEMA_VERSION = ''codevetter.fix-attempt/v1''"

record fix_attempt_input =
  fix_run_id :: string
  finding_ids :: "string list"
  fix_agent :: string
  fix_confirmed :: bool
  fix_timeout_ms :: nat

record fix_attempt_source =
  fix_source_input :: string
  fix_base_sha :: string
  fix_head_sha :: string

record fix_attempt_worktree =
  worktree_path :: string
  worktree_detached :: bool
  worktree_retained :: bool
  worktree_source_head :: string

record fix_attempt_agent =
  fix_agent_id :: string
  fix_agent_status :: string
  fix_agent_duration_ms :: nat
  fix_agent_diagnostic :: "string option"

record fix_attempt_change =
  changed_files :: "string list"
  diff_sha256 :: "string option"
  diff_bytes :: nat
  diff_preview :: string
  preview_truncated :: bool

record fix_attempt_gate =
  gate_status :: string
  gate_detail :: string

record fix_attempt_correctness =
  correctness_status :: string
  correctness_target_label :: "string option"
  correctness_duration_ms :: nat
  correctness_evidence :: json
  correctness_limitations :: "string list"

record fix_attempt_review =
  fix_review_status :: string
  fix_review_id :: "string option"
  fix_review_summary :: "string option"
  fix_review_findings :: "json list"
  fix_review_limitation :: "string option"

record fix_finding_recheck =
  recheck_finding_id :: string
  recheck_status :: string
  recheck_reason :: string

record fix_attempt_recheck =
  diff_check :: fix_attempt_gate
  recheck_correctness :: fix_attempt_correctness
  recheck_review :: fix_attempt_review
  recheck_findings :: "fix_finding_recheck list"

record fix_attempt_receipt =
  fix_schema_version :: string
  attempt_id :: string
  fix_operation :: string
  attempt_state :: string
  source_run_id :: string
  repository_path :: string
  attempt_source :: fix_attempt_source
  attempt_worktree :: fix_attempt_worktree
  attempt_agent :: fix_attempt_agent
  attempt_change :: fix_attempt_change
  attempt_recheck :: fix_attempt_recheck
  attempt_limitations :: "string list"
  started_at :: string
  completed_at :: string

record fix_packet_finding =
  packet_finding_id :: string
  packet_finding_severity :: string
  packet_finding_title :: string
  packet_finding_summary :: string
  packet_finding_suggestion :: "string option"
  packet_finding_path :: string
  packet_finding_line :: "int option"
  packet_finding_confidence :: "rat option"

text \<open>The members of an \<open>AgentFixPacketReceipt\<close> that an attempt reads.\<close>

record fix_packet =
  packet_run_id :: string
  packet_repo_path :: string
  packet_source :: fix_attempt_source
  packet_goal :: string
  acceptance_criteria :: "string list"
  packet_findings :: "fix_packet_finding list"
  packet_markdown :: string

record agent_execution =
  execution_success :: bool
  execution_duration_ms :: nat
  execution_diagnostic :: "string option"

section \<open>Validating the request\<close>

definition ascii_or_dash :: "char \<Rightarrow> bool" where
  "ascii_or_dash c \<longleftrightarrow> is_ascii_alphanumeric c \<or> c = CHR ''-''"

definition validate_identity :: "string \<Rightarrow> string \<Rightarrow> unit result" where
  "validate_identity v label =
     reject_if (v = [] \<or> 160 < length v \<or> trim v \<noteq> v \<or> CHR 0x00 \<in> set v
                \<or> carriage_return \<in> set v \<or> newline \<in> set v \<or> \<not> list_all ascii_or_dash v)
       (label @ '' must be a bounded lowercase-safe identity'')"

definition validate_execute_input :: "fix_attempt_input \<Rightarrow> unit result" where
  "validate_execute_input i =
     and_then (validate_identity (fix_run_id i) ''run id'') (\<lambda>_.
     and_then (reject_if (finding_ids i = [] \<or> MAX_FINDINGS < length (finding_ids i))
                 (''Select between 1 and '' @ show_nat MAX_FINDINGS @ '' findings'')) (\<lambda>_.
     and_then (reject_if (length (bset_of (finding_ids i)) \<noteq> length (finding_ids i))
                 ''Finding selection contains duplicate identities'') (\<lambda>_.
     and_then (check_all (\<lambda>f. validate_identity f ''finding id'') (finding_ids i)) (\<lambda>_.
     and_then (reject_if (fix_agent i \<notin> set [''claude'', ''gemini'', ''codex''])
                 ''Fix agent must be `claude`, `gemini`, or `codex`'') (\<lambda>_.
     and_then (reject_if (\<not> (100 \<le> fix_timeout_ms i \<and> fix_timeout_ms i \<le> 120000))
                 ''Correctness timeout must be between 100 and 120,000 milliseconds'') (\<lambda>_.
     reject_if (\<not> fix_confirmed i)
       ''Fix execution requires explicit confirmation because it invokes an agent and edits an isolated worktree''))))))"

definition validate_packet_source :: "fix_packet \<Rightarrow> local_check_receipt \<Rightarrow> unit result" where
  "validate_packet_source packet receipt =
     reject_if (packet_run_id packet \<noteq> receipt_run_id receipt
                \<or> packet_repo_path packet \<noteq> receipt_repo_path receipt
                \<or> fix_source_input (packet_source packet) \<noteq> source_input (receipt_source receipt)
                \<or> fix_base_sha (packet_source packet) \<noteq> base_sha (receipt_source receipt)
                \<or> fix_head_sha (packet_source packet) \<noteq> head_sha (receipt_source receipt))
       ''The fix packet drifted from its persisted local-check source identity''"

definition valid_sha :: "string \<Rightarrow> bool" where
  "valid_sha v \<longleftrightarrow> (length v = 40 \<or> length v = 64) \<and>
     list_all (\<lambda>c. is_ascii_digit c \<or> (97 \<le> byte c \<and> byte c \<le> 102)) v"

definition validate_relative_path :: "string \<Rightarrow> unit result" where
  "validate_relative_path v =
     reject_if (v = [] \<or> is_absolute v \<or> list_ex (\<lambda>c. \<not> is_normal c) (components v))
       ''The fix attempt produced an unsafe changed path''"

section \<open>Classifying the recheck\<close>

text \<open>\<open>"{} \<sqdot> {}"\<close>: the middle dot is U+00B7.\<close>

definition project_correctness :: "local_check_stage \<Rightarrow> fix_attempt_correctness" where
  "project_correctness stage =
     \<lparr>correctness_status = status_name (stage_status stage),
      correctness_target_label =
        map_option (\<lambda>t. adapter t @ [CHR 0x20, CHR 0xC2, CHR 0xB7, CHR 0x20] @ target_path t)
          (stage_target stage),
      correctness_duration_ms = stage_duration_ms stage,
      correctness_evidence = stage_evidence stage,
      correctness_limitations = stage_limitations stage\<rparr>"

definition title_tokens :: "string \<Rightarrow> string bset" where
  "title_tokens v =
     bset_of (filter (\<lambda>t. 3 \<le> length t)
       (map (map to_ascii_lower) (split_on (\<lambda>c. \<not> is_ascii_alphanumeric c) v)))"

text \<open>
  The quotient of two set sizes; rounding it to a float is monotone and leaves one half alone, so
  comparing with one half is exact.
\<close>

definition token_similarity :: "string \<Rightarrow> string \<Rightarrow> rat" where
  "token_similarity left right =
     (let l = title_tokens left; r = title_tokens right
      in if l = [] \<or> r = [] then 0
         else of_nat (length (filter (\<lambda>t. t \<in> set r) l))
              / of_nat (length (l @ filter (\<lambda>t. t \<notin> set l) r)))"

definition finding_matches :: "fix_packet_finding \<Rightarrow> json \<Rightarrow> bool" where
  "finding_matches original candidate =
     (let path_value = (case get_key ''filePath'' candidate of
                          Some v \<Rightarrow> Some v | None \<Rightarrow> get_key ''file_path'' candidate);
          candidate_path = (case Option.bind path_value as_str of None \<Rightarrow> [] | Some s \<Rightarrow> s);
          candidate_line = Option.bind (get_key ''line'' candidate) as_i64
      in if candidate_path \<noteq> packet_finding_path original then False
         else (case (packet_finding_line original, candidate_line) of
                 (Some a, Some b) \<Rightarrow>
                   \<bar>a - b\<bar> \<le> 5
                   \<or> 1 / 2 \<le> token_similarity (packet_finding_title original) (str_or [] ''title'' candidate)
               | _ \<Rightarrow> 1 / 2 \<le> token_similarity (packet_finding_title original) (str_or [] ''title'' candidate)))"

definition classify_finding ::
  "fix_attempt_review \<Rightarrow> fix_attempt_correctness \<Rightarrow> fix_packet_finding \<Rightarrow> fix_finding_recheck" where
  "classify_finding review correctness finding =
     (let recheck = (\<lambda>status reason.
        \<lparr>recheck_finding_id = packet_finding_id finding, recheck_status = status, recheck_reason = reason\<rparr>)
      in if fix_review_status review \<noteq> ''completed'' \<or> correctness_status correctness = ''no_confidence''
         then recheck ''unchecked'' ''Executable or source-qualified recheck confidence is incomplete''
         else if list_ex (finding_matches finding) (fix_review_findings review)
                 \<or> correctness_status correctness = ''failed''
         then recheck ''reproduced''
                (if correctness_status correctness = ''failed''
                 then ''The recorded correctness target still fails''
                 else ''Source-qualified re-review reproduced the finding'')
         else if correctness_status correctness = ''passed''
         then recheck ''fixed''
                ''The recorded correctness target passed and re-review did not reproduce the finding''
         else recheck ''unchecked''
                ''The correctness recheck did not produce a passing executable result'')"

definition classify_findings ::
  "fix_packet_finding list \<Rightarrow> fix_attempt_review \<Rightarrow> fix_attempt_correctness \<Rightarrow>
   fix_finding_recheck list" where
  "classify_findings originals review correctness =
     map (classify_finding review correctness) originals"

definition classify_attempt_state ::
  "fix_attempt_gate \<Rightarrow> fix_attempt_correctness \<Rightarrow> fix_attempt_review \<Rightarrow> fix_finding_recheck list \<Rightarrow>
   string" where
  "classify_attempt_state gate correctness review findings =
     (if gate_status gate = ''failed'' \<or> correctness_status correctness = ''failed''
      then ''reproduced''
      else if gate_status gate \<noteq> ''passed'' \<or> correctness_status correctness \<noteq> ''passed''
              \<or> fix_review_status review \<noteq> ''completed''
              \<or> list_ex (\<lambda>f. recheck_status f = ''unchecked'') findings
      then ''no_confidence''
      else if list_ex (\<lambda>f. recheck_status f = ''reproduced'') findings then ''reproduced''
      else if fix_review_findings review \<noteq> [] then ''needs_attention''
      else ''verified_fixed'')"

section \<open>Receipts\<close>

definition unchecked_recheck :: "fix_packet \<Rightarrow> string \<Rightarrow> fix_attempt_recheck" where
  "unchecked_recheck packet reason =
     \<lparr>diff_check = \<lparr>gate_status = ''unchecked'', gate_detail = reason\<rparr>,
      recheck_correctness =
        \<lparr>correctness_status = ''unchecked'', correctness_target_label = None,
         correctness_duration_ms = 0, correctness_evidence = Null, correctness_limitations = [reason]\<rparr>,
      recheck_review =
        \<lparr>fix_review_status = ''unchecked'', fix_review_id = None, fix_review_summary = None,
         fix_review_findings = [], fix_review_limitation = Some reason\<rparr>,
      recheck_findings =
        map (\<lambda>f. \<lparr>recheck_finding_id = packet_finding_id f, recheck_status = ''unchecked'',
                   recheck_reason = reason\<rparr>) (packet_findings packet)\<rparr>"

definition empty_change :: fix_attempt_change where
  "empty_change = \<lparr>changed_files = [], diff_sha256 = None, diff_bytes = 0, diff_preview = [],
     preview_truncated = False\<rparr>"

definition terminal_receipt ::
  "string \<Rightarrow> string \<Rightarrow> fix_attempt_input \<Rightarrow> fix_packet \<Rightarrow> string \<Rightarrow> string \<Rightarrow> agent_execution \<Rightarrow>
   fix_attempt_change \<Rightarrow> fix_attempt_recheck \<Rightarrow> string list \<Rightarrow> string \<Rightarrow> string \<Rightarrow> fix_attempt_receipt" where
  "terminal_receipt identity state i packet repository worktree execution change recheck limitations
     started clock =
     \<lparr>fix_schema_version = FIX_SCHEMA_VERSION, attempt_id = identity, fix_operation = ''execute'',
      attempt_state = state, source_run_id = fix_run_id i, repository_path = repository,
      attempt_source = packet_source packet,
      attempt_worktree = \<lparr>worktree_path = worktree, worktree_detached = True,
        worktree_retained = True, worktree_source_head = fix_head_sha (packet_source packet)\<rparr>,
      attempt_agent = \<lparr>fix_agent_id = fix_agent i,
        fix_agent_status = (if execution_success execution then ''completed'' else ''failed''),
        fix_agent_duration_ms = execution_duration_ms execution,
        fix_agent_diagnostic = execution_diagnostic execution\<rparr>,
      attempt_change = change, attempt_recheck = recheck, attempt_limitations = limitations,
      started_at = started, completed_at = clock\<rparr>"

section \<open>The environment of an attempt\<close>

datatype agent_outcome =
    SpawnFailed string
  | WaitFailed string
  | DeadlineExceeded
  | Exited "int option" bool string string

record fix_env =
  check_env :: environment
  review_author :: "unit result"
  fix_database :: "unit result"
  build_agent_fix_packet :: "string \<Rightarrow> string list \<Rightarrow> fix_packet result"
  load_local_check_receipt :: "string \<Rightarrow> local_check_receipt result"
  git_process :: "string \<Rightarrow> string list \<Rightarrow> process_output result"
  create_dir_all :: "string \<Rightarrow> unit result"
  resolve_cli_path :: "string \<Rightarrow> string"
  spawn_agent :: "string \<Rightarrow> string list \<Rightarrow> string \<Rightarrow> agent_outcome"
  agent_elapsed :: nat
  fix_review_core :: "string \<Rightarrow> string \<Rightarrow> string \<Rightarrow> string \<Rightarrow> json \<Rightarrow> string option \<Rightarrow> json result"
  encode_receipt :: "fix_attempt_receipt \<Rightarrow> string result"
  decode_receipt :: "string \<Rightarrow> fix_attempt_receipt result"
  missing_file :: string
  read_fault :: "string \<Rightarrow> string option"
  write_fault :: "string \<Rightarrow> (string \<times> string option) option"
  rename_fault :: "string \<Rightarrow> string \<Rightarrow> string option"
  fresh_attempt :: string
  start_clock :: string
  end_clock :: string

text \<open>
  \<open>std::fs\<close> on the files: a write that fails leaves whatever it got to behind; a rename replaces
  its target, and leaves both files alone when it fails.
\<close>

type_synonym files = "string \<Rightarrow> string option"

definition read_file :: "fix_env \<Rightarrow> string \<Rightarrow> files \<Rightarrow> string result" where
  "read_file env path fs =
     (case read_fault env path of
        Some e \<Rightarrow> Inl e
      | None \<Rightarrow> (case fs path of None \<Rightarrow> Inl (missing_file env) | Some bytes \<Rightarrow> Inr bytes))"

definition write_file :: "fix_env \<Rightarrow> string \<Rightarrow> string \<Rightarrow> files \<Rightarrow> files \<times> unit result" where
  "write_file env path bytes fs =
     (case write_fault env path of
        Some (e, left) \<Rightarrow> (fs(path := left), Inl e)
      | None \<Rightarrow> (fs(path := Some bytes), Inr ()))"

definition rename_file :: "fix_env \<Rightarrow> string \<Rightarrow> string \<Rightarrow> files \<Rightarrow> files \<times> unit result" where
  "rename_file env source target fs =
     (case rename_fault env source target of
        Some e \<Rightarrow> (fs, Inl e)
      | None \<Rightarrow>
          (case fs source of
             None \<Rightarrow> (fs, Inl (missing_file env))
           | Some bytes \<Rightarrow> (fs(source := None, target := Some bytes), Inr ())))"

definition lossy :: "fix_env \<Rightarrow> string \<Rightarrow> string" where
  "lossy env = from_utf8_lossy (check_env env)"

definition bounded_diagnostic :: "fix_env \<Rightarrow> string \<Rightarrow> nat \<Rightarrow> string" where
  "bounded_diagnostic env bytes limit = bounded (join '' '' (split_whitespace (lossy env bytes))) limit"

definition fix_git_output :: "fix_env \<Rightarrow> string \<Rightarrow> string list \<Rightarrow> nat \<Rightarrow> string result" where
  "fix_git_output env worktree arguments max_bytes =
     (case git_process env worktree arguments of
        Inl e \<Rightarrow> Inl (''Run git '' @ join '' '' arguments @ '': '' @ e)
      | Inr out \<Rightarrow>
          if \<not> exit_success out
          then Inl (''git '' @ join '' '' arguments @ '' failed: ''
                     @ bounded_diagnostic env (process_stderr out) 4096)
          else if max_bytes < length (process_stdout out) \<or> max_bytes < length (process_stderr out)
          then Inl (''git '' @ join '' '' arguments @ '' output exceeded its bound'')
          else Inr (process_stdout out))"

definition canonical_git_repository :: "fix_env \<Rightarrow> string \<Rightarrow> string result" where
  "canonical_git_repository env path =
     and_then (map_err (\<lambda>e. ''Repository '' @ path @ '' is unavailable: '' @ e)
                 (canonicalize (check_env env) path)) (\<lambda>canonical.
     and_then (map_err (\<lambda>e. ''Inspect repository: '' @ e)
                 (git_process env canonical [''rev-parse'', ''--show-toplevel''])) (\<lambda>out.
     and_then (reject_if (\<not> exit_success out) ''Fix execution requires a readable Git repository'') (\<lambda>_.
     and_then (map_err (\<lambda>_. ''The Git repository root is unavailable'')
                 (canonicalize (check_env env) (trim (lossy env (process_stdout out))))) (\<lambda>top.
     if top \<noteq> canonical then Inl ''Fix execution requires the exact Git repository root''
     else Inr canonical))))"

definition require_commit :: "fix_env \<Rightarrow> string \<Rightarrow> string \<Rightarrow> unit result" where
  "require_commit env repository sha =
     and_then (reject_if (\<not> valid_sha sha) ''The source receipt head is not an exact Git SHA'') (\<lambda>_.
     and_then (map_err (\<lambda>e. ''Inspect source commit: '' @ e)
                 (git_process env repository [''cat-file'', ''-e'', sha @ ''^{commit}''])) (\<lambda>out.
     reject_if (\<not> exit_success out) ''The exact source receipt head is no longer available locally''))"

text \<open>The worktree's parent always exists as a path: it ends in \<open>/worktree\<close>.\<close>

definition create_detached_worktree :: "fix_env \<Rightarrow> string \<Rightarrow> string \<Rightarrow> string \<Rightarrow> string \<Rightarrow> unit result" where
  "create_detached_worktree env repository parent worktree sha =
     and_then (reject_if (path_exists (check_env env) worktree)
                 ''The generated fix-attempt worktree already exists'') (\<lambda>_.
     and_then (map_err (\<lambda>e. ''Create fix-attempt directory: '' @ e) (create_dir_all env parent)) (\<lambda>_.
     and_then (map_err (\<lambda>e. ''Create isolated worktree: '' @ e)
                 (git_process env repository [''worktree'', ''add'', ''--detach'', worktree, sha])) (\<lambda>out.
     reject_if (\<not> exit_success out)
       (''Create isolated worktree: '' @ bounded_diagnostic env (process_stderr out) 4096))))"

section \<open>Running the agent\<close>

definition agent_failure_detail :: "fix_env \<Rightarrow> string \<Rightarrow> string \<Rightarrow> int option \<Rightarrow> string" where
  "agent_failure_detail env out err code =
     (let stderr = bounded_diagnostic env err 2048;
          stdout = bounded_diagnostic env out 2048;
          detail = (if stderr \<noteq> [] \<and> stdout \<noteq> []
                    then ''stderr: '' @ stderr @ ''; stdout: '' @ stdout
                    else if stderr \<noteq> [] then stderr
                    else if stdout \<noteq> [] then stdout
                    else ''Coding agent returned no diagnostic output'')
      in ''Coding agent failed with exit ''
         @ (case code of None \<Rightarrow> ''None'' | Some c \<Rightarrow> ''Some('' @ show_int c @ '')'')
         @ '': '' @ detail)"

definition read_bounded :: "string \<Rightarrow> string" where
  "read_bounded bytes = (if MAX_AGENT_OUTPUT_BYTES < length bytes then [] else bytes)"

definition fix_agent_arguments :: "string \<Rightarrow> string \<Rightarrow> string list" where
  "fix_agent_arguments agent prompt =
     (if agent = ''claude'' then
        [''--setting-sources'', ''user'', ''--permission-mode'', ''acceptEdits'',
         ''--no-session-persistence'', ''--no-chrome'', ''--strict-mcp-config'', ''--mcp-config'',
         ''{'' @ [CHR 0x22] @ ''mcpServers'' @ [CHR 0x22] @ '':{}}'', ''-p'', prompt]
      else if agent = ''codex'' then
        [''exec'', ''--ephemeral'', ''--ignore-user-config'', ''-c'',
         ''model_reasoning_effort='' @ [CHR 0x22] @ ''medium'' @ [CHR 0x22],
         ''--sandbox'', ''workspace-write'', ''--color'', ''never'', prompt]
      else
        [''--sandbox'', ''--approval-mode'', ''auto_edit'', ''--extensions'', ''none'', ''-p'', prompt])"

definition run_fix_agent_at :: "fix_env \<Rightarrow> string \<Rightarrow> string \<Rightarrow> string \<Rightarrow> string \<Rightarrow> agent_execution" where
  "run_fix_agent_at env agent cli worktree prompt =
     (let failed = (\<lambda>d. \<lparr>execution_success = False, execution_duration_ms = agent_elapsed env,
                         execution_diagnostic = Some d\<rparr>)
      in case spawn_agent env cli (fix_agent_arguments agent prompt) worktree of
           SpawnFailed e \<Rightarrow> failed (''Start coding agent `'' @ agent @ ''`: '' @ e)
         | WaitFailed e \<Rightarrow> failed (''Wait for coding agent `'' @ agent @ ''`: '' @ e)
         | DeadlineExceeded \<Rightarrow> failed ''Coding agent exceeded the 30 minute deadline''
         | Exited code success out err \<Rightarrow>
             (if success
              then \<lparr>execution_success = True, execution_duration_ms = agent_elapsed env,
                    execution_diagnostic = None\<rparr>
              else failed (agent_failure_detail env (read_bounded out) (read_bounded err) code)))"

definition run_fix_agent :: "fix_env \<Rightarrow> string \<Rightarrow> string \<Rightarrow> string \<Rightarrow> agent_execution" where
  "run_fix_agent env agent worktree prompt =
     (let cli = resolve_cli_path env agent
      in if cli = agent
         then \<lparr>execution_success = False, execution_duration_ms = 0,
               execution_diagnostic = Some (''Coding agent `'' @ agent @ ''` is unavailable'')\<rparr>
         else run_fix_agent_at env agent cli worktree prompt)"

definition render_agent_prompt :: "fix_packet \<Rightarrow> string" where
  "render_agent_prompt packet =
     ''You are executing a bounded CodeVetter fix attempt in an isolated detached Git worktree. Edit the actual source files in this worktree; do not commit, create branches, merge, push, or modify another checkout. Keep the patch minimal, obey repository instructions, and preserve the recorded evidence contract. Do not claim completion merely by describing a fix.''
     @ [newline, newline] @ packet_markdown packet"

section \<open>Inspecting the change\<close>

definition exact_worktree_head :: "fix_env \<Rightarrow> string \<Rightarrow> string result" where
  "exact_worktree_head env worktree =
     and_then (fix_git_output env worktree [''rev-parse'', ''HEAD''] 1024) (\<lambda>out.
       if \<not> valid_utf8 out then Inl ''The isolated worktree HEAD is not UTF-8''
       else if \<not> valid_sha (trim out) then Inl ''The isolated worktree no longer has an exact Git HEAD''
       else Inr (trim out))"

definition expose_untracked_diff :: "fix_env \<Rightarrow> string \<Rightarrow> unit result" where
  "expose_untracked_diff env worktree =
     and_then (map_err (\<lambda>e. ''Prepare isolated diff: '' @ e)
                 (git_process env worktree [''add'', ''--intent-to-add'', ''--all''])) (\<lambda>out.
       reject_if (\<not> exit_success out)
         (''Prepare isolated diff: '' @ bounded_diagnostic env (process_stderr out) 4096))"

text \<open>The preview stops at the last prefix within the bound that is valid UTF-8.\<close>

fun preview_end :: "string \<Rightarrow> nat \<Rightarrow> nat" where
  "preview_end diff 0 = 0"
| "preview_end diff (Suc n) =
     (if valid_utf8 (take (Suc n) diff) then Suc n else preview_end diff n)"

definition collect_change :: "fix_env \<Rightarrow> string \<Rightarrow> fix_attempt_change result" where
  "collect_change env worktree =
     and_then (fix_git_output env worktree [''diff'', ''--name-only'', ''-z'', ''HEAD''] MAX_DIFF_BYTES) (\<lambda>names.
     and_then (map_result (\<lambda>p. if valid_utf8 p then Inr p else Inl ''Changed path is not UTF-8'')
                 (filter (\<lambda>p. p \<noteq> []) (split_on (\<lambda>c. c = CHR 0x00) names))) (\<lambda>files.
     and_then (reject_if (MAX_CHANGED_FILES < length files)
                 (''The fix attempt changed more than '' @ show_nat MAX_CHANGED_FILES @ '' files'')) (\<lambda>_.
     and_then (check_all validate_relative_path files) (\<lambda>_.
     and_then (fix_git_output env worktree [''diff'', ''--binary'', ''HEAD''] MAX_DIFF_BYTES) (\<lambda>diff.
     let stop = preview_end diff (min (length diff) MAX_DIFF_PREVIEW_BYTES)
     in Inr \<lparr>changed_files = files,
             diff_sha256 = (if diff = [] then None
                            else Some (''sha256:'' @ sha256_hex (check_env env) diff)),
             diff_bytes = length diff, diff_preview = lossy env (take stop diff),
             preview_truncated = (stop < length diff)\<rparr>)))))"

definition run_diff_check :: "fix_env \<Rightarrow> string \<Rightarrow> fix_attempt_gate" where
  "run_diff_check env worktree =
     (case git_process env worktree [''diff'', ''--check'', ''HEAD''] of
        Inl e \<Rightarrow> \<lparr>gate_status = ''no_confidence'', gate_detail = ''Could not run git diff --check: '' @ e\<rparr>
      | Inr out \<Rightarrow>
          if exit_success out
          then \<lparr>gate_status = ''passed'',
                gate_detail = ''git diff --check passed for the isolated worktree''\<rparr>
          else \<lparr>gate_status = ''failed'',
                gate_detail = bounded_diagnostic env (process_stdout out @ process_stderr out) 4096\<rparr>)"

section \<open>Rechecking\<close>

definition target_json :: "local_check_target \<Rightarrow> json" where
  "target_json t =
     object_of [(''adapter'', String (adapter t)), (''target'', String (target_path t)),
                (''name'', json_of_option String (target_name t)), (''source'', String (target_source t))]"

definition no_confidence_review :: "string \<Rightarrow> fix_attempt_review" where
  "no_confidence_review limitation =
     \<lparr>fix_review_status = ''no_confidence'', fix_review_id = None, fix_review_summary = None,
      fix_review_findings = [], fix_review_limitation = Some limitation\<rparr>"

definition run_fix_review ::
  "fix_env \<Rightarrow> string \<Rightarrow> string \<Rightarrow> fix_packet \<Rightarrow> local_check_receipt \<Rightarrow> local_check_stage \<Rightarrow>
   fix_attempt_review" where
  "run_fix_review env worktree agent packet receipt correctness =
     (case fix_database env of
        Inl e \<Rightarrow> no_confidence_review (''Open recheck database: '' @ e)
      | Inr _ \<Rightarrow>
          (let acceptance =
             (if acceptance_criteria packet = [] then []
              else [newline, newline] @ ''Acceptance criteria:'' @ [newline]
                   @ join [newline] (map (\<lambda>a. ''- '' @ a) (acceptance_criteria packet)));
               qa = object_of
                 [(''kind'', String ''fix_correctness_recheck''),
                  (''status'', String (status_name (stage_status correctness))),
                  (''target'', json_of_option target_json (stage_target correctness)),
                  (''limitations'', Array (map String (stage_limitations correctness)))]
           in case fix_review_core env worktree agent
                (''Isolated fix attempt for local-check run '' @ packet_run_id packet)
                (''Recheck whether the worktree diff resolves only the selected findings while preserving the original task: ''
                   @ packet_goal packet @ acceptance) qa (receipt_standards_pack receipt) of
                Inl e \<Rightarrow> no_confidence_review (''Source-qualified re-review did not complete: '' @ e)
              | Inr v \<Rightarrow>
                  (let finished = (get_str ''review_status'' v = Some ''completed'' \<and>
                         Option.bind (pointer [''review_manifest'', ''complete_coverage''] v) as_bool = Some True)
                   in \<lparr>fix_review_status = (if finished then ''completed'' else ''no_confidence''),
                       fix_review_id = get_str ''review_id'' v,
                       fix_review_summary = get_str ''summary'' v,
                       fix_review_findings = take MAX_FINDINGS (items_at ''findings'' v),
                       fix_review_limitation =
                         (if finished then None
                          else Some ''Source-qualified re-review completed with incomplete coverage or readiness limitations.'')\<rparr>)))"

definition skipped_fix_review :: fix_attempt_review where
  "skipped_fix_review =
     \<lparr>fix_review_status = ''unchecked'', fix_review_id = None, fix_review_summary = None,
      fix_review_findings = [],
      fix_review_limitation = Some ''Review was skipped because git diff --check failed.''\<rparr>"

section \<open>Storing receipts\<close>

definition attempt_root :: "string \<Rightarrow> string \<Rightarrow> string result" where
  "attempt_root app_data identity =
     and_then (validate_identity identity ''attempt id'') (\<lambda>_.
       if \<not> starts_with identity ''fix-attempt-''
       then Inl ''Fix-attempt identity has an unsupported prefix''
       else Inr (path_join (path_join app_data ''fix-attempts'') identity))"

text \<open>Written to a temporary file first, then renamed into place.\<close>

definition persist_fix_receipt :: "fix_env \<Rightarrow> string \<Rightarrow> fix_attempt_receipt \<Rightarrow> files \<Rightarrow> files \<times> unit result" where
  "persist_fix_receipt env dir receipt fs =
     (case and_then (map_err (\<lambda>e. ''Create fix-attempt receipt directory: '' @ e) (create_dir_all env dir)) (\<lambda>_.
             map_err (\<lambda>e. ''Encode fix-attempt receipt: '' @ e) (encode_receipt env receipt)) of
        Inl e \<Rightarrow> (fs, Inl e)
      | Inr bytes \<Rightarrow>
          (case write_file env (path_join dir ''receipt.json.tmp'') bytes fs of
             (fs1, Inl e) \<Rightarrow> (fs1, Inl (''Write fix-attempt receipt: '' @ e))
           | (fs1, Inr _) \<Rightarrow>
               apsnd (map_err (\<lambda>e. ''Publish fix-attempt receipt: '' @ e))
                 (rename_file env (path_join dir ''receipt.json.tmp'') (path_join dir ''receipt.json'') fs1)))"

definition publish :: "fix_env \<Rightarrow> string \<Rightarrow> fix_attempt_receipt \<Rightarrow> files \<Rightarrow> files \<times> fix_attempt_receipt result" where
  "publish env dir receipt fs =
     (case persist_fix_receipt env dir receipt fs of
        (fs', Inl e) \<Rightarrow> (fs', Inl e)
      | (fs', Inr _) \<Rightarrow> (fs', Inr receipt))"

section \<open>One attempt\<close>

text \<open>The checkpoint after the agent: its own failure, or a moved or unreadable HEAD.\<close>

definition fail_execution :: "agent_execution \<Rightarrow> string \<Rightarrow> agent_execution" where
  "fail_execution execution d =
     execution\<lparr>execution_success := False, execution_diagnostic := Some d\<rparr>"

definition agent_checkpoint ::
  "fix_env \<Rightarrow> string \<Rightarrow> string \<Rightarrow> agent_execution \<Rightarrow> (agent_execution \<times> string \<times> string) option" where
  "agent_checkpoint env worktree head execution =
     (if \<not> execution_success execution
      then Some (execution, ''The coding agent did not complete successfully.'',
                 ''The isolated worktree is retained for inspection; CodeVetter did not merge or commit any change.'')
      else case exact_worktree_head env worktree of
             Inl e \<Rightarrow> Some (fail_execution execution e,
                        ''Rechecks were blocked because Git HEAD was unreadable.'', e)
           | Inr h \<Rightarrow>
               if h = head then None
               else Some (fail_execution execution
                      (''The coding agent changed Git HEAD from '' @ head @ '' to '' @ h
                         @ ''; commits and branch movement are outside the fix-attempt contract''),
                      ''Rechecks were blocked because the coding agent changed Git history.'',
                      ''The isolated worktree is retained for inspection; CodeVetter did not merge or push the unsupported commit.''))"

definition attempt_limits :: "fix_attempt_correctness \<Rightarrow> fix_attempt_review \<Rightarrow> string list" where
  "attempt_limits correctness review =
     [''The isolated worktree is retained for owner inspection; CodeVetter did not commit, merge, push, or modify the selected checkout.'',
      ''A fixed status is bounded to the recorded correctness target and source-qualified re-review; it is not a general proof of the repository.'']
     @ (if correctness_status correctness = ''no_confidence''
        then [''The source verification receipt had no runnable correctness target, or its recheck produced no executable confidence.'']
        else [])
     @ list_of_option (fix_review_limitation review)"

text \<open>The recheck of a worktree that has an inspectable diff, with its state.\<close>

definition recheck_attempt ::
  "fix_env \<Rightarrow> string \<Rightarrow> fix_attempt_input \<Rightarrow> fix_packet \<Rightarrow> local_check_receipt \<Rightarrow>
   fix_attempt_recheck \<times> string" where
  "recheck_attempt env worktree i packet receipt =
     (let gate = run_diff_check env worktree;
          stage = rerun_fix_correctness_target (check_env env) worktree
                    (stage_target (correctness_stage (receipt_stages receipt))) (fix_timeout_ms i);
          correctness = project_correctness stage;
          review = (if gate_status gate = ''passed''
                    then run_fix_review env worktree (fix_agent i) packet receipt stage
                    else skipped_fix_review);
          findings = classify_findings (packet_findings packet) review correctness
      in (\<lparr>diff_check = gate, recheck_correctness = correctness, recheck_review = review,
           recheck_findings = findings\<rparr>,
          classify_attempt_state gate correctness review findings))"

text \<open>The attempt in its worktree, from the agent's run to the receipt it leaves.\<close>

definition attempt_in_worktree ::
  "fix_env \<Rightarrow> string \<Rightarrow> string \<Rightarrow> string \<Rightarrow> fix_attempt_input \<Rightarrow> fix_packet \<Rightarrow> local_check_receipt \<Rightarrow>
   fix_attempt_receipt result" where
  "attempt_in_worktree env identity repository worktree i packet source =
     (let execution = run_fix_agent env (fix_agent i) worktree (render_agent_prompt packet);
          finish = (\<lambda>state ex change recheck limits.
            terminal_receipt identity state i packet repository worktree ex change recheck limits
              (start_clock env) (end_clock env))
      in case agent_checkpoint env worktree (fix_head_sha (packet_source packet)) execution of
           Some (ex, reason, limit) \<Rightarrow>
             Inr (finish ''failed'' ex empty_change (unchecked_recheck packet reason) [limit])
         | None \<Rightarrow>
             and_then (expose_untracked_diff env worktree) (\<lambda>_.
             and_then (collect_change env worktree) (\<lambda>change.
               if changed_files change = [] \<or> diff_bytes change = 0
               then Inr (finish ''no_changes'' execution change
                      (unchecked_recheck packet ''The coding agent produced no inspectable worktree diff.'')
                      [''No source change was produced, so CodeVetter issued no fixed finding or correctness claim.'',
                       ''The isolated worktree is retained for inspection; CodeVetter did not merge or commit any change.''])
               else case recheck_attempt env worktree i packet source of
                      (recheck, state) \<Rightarrow>
                        Inr (finish state execution change recheck
                          (attempt_limits (recheck_correctness recheck) (recheck_review recheck))))))"

text \<open>Everything up to the receipt, with the directory it is stored in.\<close>

definition make_attempt ::
  "fix_env \<Rightarrow> string \<Rightarrow> fix_attempt_input \<Rightarrow> (string \<times> fix_attempt_receipt) result" where
  "make_attempt env app_data i =
     and_then (review_author env) (\<lambda>_.
     and_then (validate_execute_input i) (\<lambda>_.
     and_then (map_err (\<lambda>e. ''Open CodeVetter database: '' @ e) (fix_database env)) (\<lambda>_.
     and_then (build_agent_fix_packet env (fix_run_id i) (finding_ids i)) (\<lambda>packet.
     and_then (load_local_check_receipt env (fix_run_id i)) (\<lambda>source.
     and_then (validate_packet_source packet source) (\<lambda>_.
     and_then (canonical_git_repository env (packet_repo_path packet)) (\<lambda>repository.
     and_then (require_commit env repository (fix_head_sha (packet_source packet))) (\<lambda>_.
     let identity = ''fix-attempt-'' @ fresh_attempt env in
     and_then (attempt_root app_data identity) (\<lambda>root.
     let worktree = path_join root ''worktree'' in
     and_then (create_detached_worktree env repository root worktree (fix_head_sha (packet_source packet))) (\<lambda>_.
     and_then (attempt_in_worktree env identity repository worktree i packet source) (\<lambda>receipt.
     Inr (root, receipt))))))))))))"

definition execute_fix_attempt ::
  "fix_env \<Rightarrow> string \<Rightarrow> fix_attempt_input \<Rightarrow> files \<Rightarrow> files \<times> fix_attempt_receipt result" where
  "execute_fix_attempt env app_data i fs =
     (case make_attempt env app_data i of
        Inl e \<Rightarrow> (fs, Inl e)
      | Inr (dir, receipt) \<Rightarrow> publish env dir receipt fs)"

section \<open>Inspecting and discarding\<close>

definition inspect_fix_attempt :: "fix_env \<Rightarrow> string \<Rightarrow> string \<Rightarrow> files \<Rightarrow> fix_attempt_receipt result" where
  "inspect_fix_attempt env app_data identity fs =
     and_then (attempt_root app_data identity) (\<lambda>root.
     and_then (map_err (\<lambda>e. ''Read fix-attempt receipt: '' @ e) (read_file env (path_join root ''receipt.json'') fs)) (\<lambda>bytes.
     and_then (map_err (\<lambda>e. ''Decode fix-attempt receipt: '' @ e) (decode_receipt env bytes)) (\<lambda>receipt.
     and_then (reject_if (fix_schema_version receipt \<noteq> FIX_SCHEMA_VERSION \<or> attempt_id receipt \<noteq> identity)
                 ''The fix-attempt receipt identity is invalid'') (\<lambda>_.
     and_then (reject_if (components (worktree_path (attempt_worktree receipt))
                            \<noteq> components (path_join root ''worktree''))
                 ''The fix-attempt worktree escaped its app-data scope'') (\<lambda>_.
     Inr receipt)))))"

definition discarded :: "fix_env \<Rightarrow> fix_attempt_receipt \<Rightarrow> fix_attempt_receipt" where
  "discarded env receipt =
     receipt\<lparr>fix_operation := ''discard'', attempt_state := ''discarded'',
       attempt_worktree := (attempt_worktree receipt)\<lparr>worktree_retained := False\<rparr>,
       completed_at := end_clock env,
       attempt_limitations := attempt_limitations receipt @
         [''The separately confirmed discard removed the isolated unmerged worktree; the source checkout was not modified.'']\<rparr>"

definition remove_worktree :: "fix_env \<Rightarrow> fix_attempt_receipt \<Rightarrow> unit result" where
  "remove_worktree env receipt =
     and_then (canonical_git_repository env (repository_path receipt)) (\<lambda>repository.
     and_then (map_err (\<lambda>e. ''Start git worktree remove: '' @ e)
                 (git_process env repository
                    [''worktree'', ''remove'', ''--force'', worktree_path (attempt_worktree receipt)])) (\<lambda>out.
     reject_if (\<not> exit_success out)
       (''Discard isolated worktree: '' @ bounded_diagnostic env (process_stderr out) 4096)))"

definition discard_fix_attempt ::
  "fix_env \<Rightarrow> string \<Rightarrow> string \<Rightarrow> bool \<Rightarrow> files \<Rightarrow> files \<times> fix_attempt_receipt result" where
  "discard_fix_attempt env app_data identity confirmed fs =
     (case and_then (reject_if (\<not> confirmed)
              ''Discard requires explicit confirmation because unmerged worktree changes will be removed'') (\<lambda>_.
           inspect_fix_attempt env app_data identity fs) of
        Inl e \<Rightarrow> (fs, Inl e)
      | Inr receipt \<Rightarrow>
          if \<not> worktree_retained (attempt_worktree receipt) then (fs, Inr receipt)
          else (case and_then (remove_worktree env receipt) (\<lambda>_. attempt_root app_data identity) of
                  Inl e \<Rightarrow> (fs, Inl e)
                | Inr dir \<Rightarrow> publish env dir (discarded env receipt) fs))"

section \<open>Lemmas\<close>

lemma status_name_inject: "status_name s = status_name t \<longleftrightarrow> s = t"
  by (cases s; cases t) simp_all

lemma status_name_eqs [simp]:
  "status_name s = ''passed'' \<longleftrightarrow> s = Passed" "status_name s = ''failed'' \<longleftrightarrow> s = Failed"
  "status_name s = ''no_confidence'' \<longleftrightarrow> s = NoConfidence"
  by (cases s; simp)+

lemma classify_finding_status:
  "recheck_status (classify_finding review correctness f) =
     (if fix_review_status review \<noteq> ''completed'' \<or> correctness_status correctness = ''no_confidence''
      then ''unchecked''
      else if list_ex (finding_matches f) (fix_review_findings review) \<or> correctness_status correctness = ''failed''
      then ''reproduced''
      else if correctness_status correctness = ''passed'' then ''fixed'' else ''unchecked'')"
  by (simp add: classify_finding_def Let_def)

lemma classify_attempt_verified:
  assumes "classify_attempt_state gate correctness review (classify_findings fs review correctness) = ''verified_fixed''"
  shows "gate_status gate = ''passed'' \<and> correctness_status correctness = ''passed'' \<and>
    fix_review_status review = ''completed'' \<and> fix_review_findings review = [] \<and>
    (\<forall>f \<in> set (classify_findings fs review correctness). recheck_status f = ''fixed'')"
  using assms
  by (auto simp: classify_attempt_state_def classify_findings_def classify_finding_status list_ex_iff
      split: if_splits)

lemma project_correctness_simps [simp]:
  "correctness_status (project_correctness stage) = status_name (stage_status stage)"
  by (simp add: project_correctness_def)

lemma terminal_receipt_simps [simp]:
  "attempt_state (terminal_receipt a s i p d w ex c rc l b e) = s"
  "repository_path (terminal_receipt a s i p d w ex c rc l b e) = d"
  "attempt_recheck (terminal_receipt a s i p d w ex c rc l b e) = rc"
  "attempt_change (terminal_receipt a s i p d w ex c rc l b e) = c"
  "attempt_id (terminal_receipt a s i p d w ex c rc l b e) = a"
  "fix_schema_version (terminal_receipt a s i p d w ex c rc l b e) = FIX_SCHEMA_VERSION"
  "worktree_path (attempt_worktree (terminal_receipt a s i p d w ex c rc l b e)) = w"
  "worktree_retained (attempt_worktree (terminal_receipt a s i p d w ex c rc l b e))"
  "fix_agent_status (attempt_agent (terminal_receipt a s i p d w ex c rc l b e)) =
     (if execution_success ex then ''completed'' else ''failed'')"
  "attempt_source (terminal_receipt a s i p d w ex c rc l b e) = packet_source p"
  by (simp_all add: terminal_receipt_def)

lemma agent_checkpoint_None:
  "agent_checkpoint env worktree head execution = None \<longleftrightarrow>
     execution_success execution \<and> exact_worktree_head env worktree = Inr head"
  by (auto simp: agent_checkpoint_def split: sum.splits)

text \<open>How an attempt that returned a receipt came to it.\<close>

lemma execute_fix_attempt_Inr:
  assumes "execute_fix_attempt env app_data i fs = (fs', Inr r)"
  obtains packet source repository dir where
    "validate_execute_input i = Inr ()"
    and "build_agent_fix_packet env (fix_run_id i) (finding_ids i) = Inr packet"
    and "load_local_check_receipt env (fix_run_id i) = Inr source"
    and "validate_packet_source packet source = Inr ()"
    and "attempt_root app_data (''fix-attempt-'' @ fresh_attempt env) = Inr dir"
    and "attempt_in_worktree env (''fix-attempt-'' @ fresh_attempt env) repository
           (path_join dir ''worktree'') i packet source = Inr r"
    and "publish env dir r fs = (fs', Inr r)"
proof -
  from assms obtain dir receipt where make: "make_attempt env app_data i = Inr (dir, receipt)"
    and publish: "publish env dir receipt fs = (fs', Inr r)"
    by (cases "make_attempt env app_data i") (auto simp: execute_fix_attempt_def)
  from publish have "receipt = r" by (auto simp: publish_def split: prod.splits sum.splits)
  with that make publish show thesis by (auto simp: make_attempt_def result_simps Let_def)
qed

lemma attempt_state_cases:
  assumes "attempt_in_worktree env a d w i packet source = Inr r"
  obtains (blocked) ex reason limit where
      "agent_checkpoint env w (fix_head_sha (packet_source packet))
         (run_fix_agent env (fix_agent i) w (render_agent_prompt packet)) = Some (ex, reason, limit)"
      and "attempt_state r = ''failed''"
  | (unchanged) change where "collect_change env w = Inr change"
      and "changed_files change = [] \<or> diff_bytes change = 0" and "attempt_state r = ''no_changes''"
  | (rechecked) change where
      "execution_success (run_fix_agent env (fix_agent i) w (render_agent_prompt packet))"
      and "exact_worktree_head env w = Inr (fix_head_sha (packet_source packet))"
      and "collect_change env w = Inr change" and "changed_files change \<noteq> []" and "0 < diff_bytes change"
      and "attempt_change r = change" and "fix_agent_status (attempt_agent r) = ''completed''"
      and "(attempt_recheck r, attempt_state r) = recheck_attempt env w i packet source"
proof (cases "agent_checkpoint env w (fix_head_sha (packet_source packet))
    (run_fix_agent env (fix_agent i) w (render_agent_prompt packet))")
  case None
  then have ok: "execution_success (run_fix_agent env (fix_agent i) w (render_agent_prompt packet))"
    "exact_worktree_head env w = Inr (fix_head_sha (packet_source packet))"
    by (simp_all add: agent_checkpoint_None)
  obtain change where change: "collect_change env w = Inr change"
    using assms by (auto simp: attempt_in_worktree_def None and_then_Inr Let_def)
  have res: "(if changed_files change = [] \<or> diff_bytes change = 0
        then \<exists>rc ls. r = terminal_receipt a ''no_changes'' i packet d w
               (run_fix_agent env (fix_agent i) w (render_agent_prompt packet)) change rc ls
               (start_clock env) (end_clock env)
        else \<exists>ls. r = terminal_receipt a (snd (recheck_attempt env w i packet source)) i packet d w
               (run_fix_agent env (fix_agent i) w (render_agent_prompt packet)) change
               (fst (recheck_attempt env w i packet source)) ls (start_clock env) (end_clock env))"
    using assms
    by (cases "changed_files change = [] \<or> diff_bytes change = 0")
      (simp_all add: attempt_in_worktree_def None and_then_Inr Let_def case_prod_beta change, blast+)
  have r: "(if changed_files change = [] \<or> diff_bytes change = 0 then attempt_state r = ''no_changes''
        else attempt_change r = change \<and> fix_agent_status (attempt_agent r) = ''completed'' \<and>
          (attempt_recheck r, attempt_state r) = recheck_attempt env w i packet source)"
    using res ok(1) by (auto split: if_splits)
  show thesis
  proof (cases "changed_files change = [] \<or> diff_bytes change = 0")
    case True
    with r change unchanged show thesis by simp
  next
    case False
    with r change ok rechecked show thesis by simp
  qed
next
  case (Some x)
  with assms have "attempt_state r = ''failed''"
    by (cases x) (auto simp: attempt_in_worktree_def Let_def)
  with Some blocked show thesis by (cases x) auto
qed

lemma recheck_states: "snd (recheck_attempt env w i packet source)
    \<in> {''reproduced'', ''no_confidence'', ''needs_attention'', ''verified_fixed''}"
  by (simp add: recheck_attempt_def Let_def classify_attempt_state_def)

section \<open>What an attempt promises\<close>

text \<open>
  C2: \<open>verified_fixed\<close> is earned. An attempt ends in that state only if the agent succeeded
  without moving HEAD and left a nonempty diff, \<open>git diff --check\<close> passed, the correctness
  target recorded by the source check ran again in the worktree and exited with code 0, the
  re-review completed without any finding, and every selected finding is rechecked as fixed.
\<close>

theorem verified_fix_is_earned:
  assumes "execute_fix_attempt env app_data i fs = (fs', Inr r)" and "attempt_state r = ''verified_fixed''"
  shows "\<exists>packet source t evidence.
    fix_confirmed i \<and> fix_agent_status (attempt_agent r) = ''completed'' \<and>
    build_agent_fix_packet env (fix_run_id i) (finding_ids i) = Inr packet \<and>
    load_local_check_receipt env (fix_run_id i) = Inr source \<and>
    exact_worktree_head env (worktree_path (attempt_worktree r)) = Inr (head_sha (receipt_source source)) \<and>
    changed_files (attempt_change r) \<noteq> [] \<and> 0 < diff_bytes (attempt_change r) \<and>
    gate_status (diff_check (attempt_recheck r)) = ''passed'' \<and>
    stage_target (correctness_stage (receipt_stages source)) = Some t \<and>
    run_runtime (check_env env) (worktree_path (attempt_worktree r)) ''run'' t 2 0 (fix_timeout_ms i) None
      = Inr evidence \<and>
    exit_code evidence = Some 0 \<and>
    fix_review_status (recheck_review (attempt_recheck r)) = ''completed'' \<and>
    fix_review_findings (recheck_review (attempt_recheck r)) = [] \<and>
    map recheck_finding_id (recheck_findings (attempt_recheck r)) = map packet_finding_id (packet_findings packet) \<and>
    (\<forall>f \<in> set (recheck_findings (attempt_recheck r)). recheck_status f = ''fixed'')"
proof -
  obtain packet source repository dir where
    input: "validate_execute_input i = Inr ()"
    and packet: "build_agent_fix_packet env (fix_run_id i) (finding_ids i) = Inr packet"
    and source: "load_local_check_receipt env (fix_run_id i) = Inr source"
    and same: "validate_packet_source packet source = Inr ()"
    and run: "attempt_in_worktree env (''fix-attempt-'' @ fresh_attempt env) repository
           (path_join dir ''worktree'') i packet source = Inr r"
    using execute_fix_attempt_Inr [OF assms(1)] .
  let ?w = "path_join dir ''worktree''"
  have w: "worktree_path (attempt_worktree r) = ?w"
    using run by (auto simp: attempt_in_worktree_def Let_def result_simps case_prod_beta
        split: option.splits if_splits)
  from run obtain change where
    head: "exact_worktree_head env ?w = Inr (fix_head_sha (packet_source packet))"
    and change: "changed_files change \<noteq> []" "0 < diff_bytes change" "attempt_change r = change"
    and agent: "fix_agent_status (attempt_agent r) = ''completed''"
    and recheck: "(attempt_recheck r, attempt_state r) = recheck_attempt env ?w i packet source"
    by (cases rule: attempt_state_cases) (use assms(2) in auto)
  let ?stage = "rerun_fix_correctness_target (check_env env) ?w
      (stage_target (correctness_stage (receipt_stages source))) (fix_timeout_ms i)"
  from recheck assms(2) have parts: "gate_status (diff_check (attempt_recheck r)) = ''passed''"
    "stage_status ?stage = Passed"
    "fix_review_status (recheck_review (attempt_recheck r)) = ''completed''"
    "fix_review_findings (recheck_review (attempt_recheck r)) = []"
    "\<forall>f \<in> set (recheck_findings (attempt_recheck r)). recheck_status f = ''fixed''"
    "recheck_findings (attempt_recheck r) = classify_findings (packet_findings packet)
       (recheck_review (attempt_recheck r)) (project_correctness ?stage)"
    by (auto simp: recheck_attempt_def Let_def dest!: classify_attempt_verified [OF sym])
  from run_stage_passed [OF parts(2) [unfolded rerun_fix_correctness_target_def]]
  obtain t evidence where "stage_target (correctness_stage (receipt_stages source)) = Some t"
    "run_runtime (check_env env) ?w ''run'' t 2 0 (fix_timeout_ms i) None = Inr evidence"
    "exit_code evidence = Some 0" by blast
  moreover have "fix_confirmed i"
    using input by (auto simp: validate_execute_input_def result_simps)
  moreover have "fix_head_sha (packet_source packet) = head_sha (receipt_source source)"
    using same by (simp add: validate_packet_source_def result_simps)
  moreover have "map recheck_finding_id (recheck_findings (attempt_recheck r))
      = map packet_finding_id (packet_findings packet)"
    by (simp add: parts(6) classify_findings_def classify_finding_def Let_def)
  ultimately show ?thesis
    using packet source head change agent parts(1,3-5) w by auto
qed

text \<open>
  A finding is called fixed or reproduced for the reasons the code gives. In a rechecked
  attempt, a selected finding is \<open>fixed\<close> exactly when the review completed, the target passed
  and no finding of the re-review in the same file lies within five lines of it or shares half
  of its title's words; it is \<open>reproduced\<close> exactly when the review completed and either the
  target failed or such a finding exists.
\<close>

theorem recheck_classifies_findings:
  assumes "f \<in> set (classify_findings originals review (project_correctness stage))"
  shows "\<exists>original \<in> set originals. recheck_finding_id f = packet_finding_id original \<and>
    (recheck_status f = ''fixed'' \<longleftrightarrow>
       fix_review_status review = ''completed'' \<and> stage_status stage = Passed \<and>
       (\<forall>c \<in> set (fix_review_findings review). \<not> finding_matches original c)) \<and>
    (recheck_status f = ''reproduced'' \<longleftrightarrow>
       fix_review_status review = ''completed'' \<and>
       (stage_status stage = Failed \<or>
        stage_status stage \<noteq> NoConfidence \<and>
          (\<exists>c \<in> set (fix_review_findings review). finding_matches original c))) \<and>
    recheck_status f \<in> {''fixed'', ''reproduced'', ''unchecked''}"
  using assms
  by (auto simp: classify_findings_def classify_finding_status list_ex_iff)
    (auto simp: classify_finding_def Let_def)

theorem recheck_classifies_findings_witness:
  "\<exists>f. f \<in> set (classify_findings
       [\<lparr>packet_finding_id = ''f'', packet_finding_severity = ''high'', packet_finding_title = ''t'',
         packet_finding_summary = [], packet_finding_suggestion = None, packet_finding_path = ''a'',
         packet_finding_line = Some 10, packet_finding_confidence = None\<rparr>]
       \<lparr>fix_review_status = ''completed'', fix_review_id = None, fix_review_summary = None,
        fix_review_findings = [Object [(''filePath'', String ''a''), (''line'', Number (PosInt 15))]],
        fix_review_limitation = None\<rparr>
       (project_correctness \<lparr>stage_status = Passed, stage_duration_ms = 0, stage_target = None,
          stage_evidence = Null, stage_limitations = []\<rparr>)) \<and> recheck_status f = ''reproduced''"
proof -
  let ?o = "\<lparr>packet_finding_id = ''f'', packet_finding_severity = ''high'', packet_finding_title = ''t'',
         packet_finding_summary = [], packet_finding_suggestion = None, packet_finding_path = ''a'',
         packet_finding_line = Some 10, packet_finding_confidence = None\<rparr>"
  let ?c = "Object [(''filePath'', String ''a''), (''line'', Number (PosInt 15))]"
  let ?r = "\<lparr>fix_review_status = ''completed'', fix_review_id = None, fix_review_summary = None,
        fix_review_findings = [?c], fix_review_limitation = None\<rparr>"
  let ?s = "\<lparr>stage_status = Passed, stage_duration_ms = 0, stage_target = None,
          stage_evidence = Null, stage_limitations = []\<rparr>"
  have matches: "finding_matches ?o ?c" by (simp add: finding_matches_def)
  have "classify_finding ?r (project_correctness ?s) ?o \<in> set (classify_findings [?o] ?r (project_correctness ?s))"
    by (simp add: classify_findings_def)
  from this recheck_classifies_findings [OF this] matches show ?thesis by auto
qed

text \<open>
  Words shared by two titles are counted symmetrically and as a share: the similarity lies
  between 0 and 1, does not depend on the order of the titles, and is 1 exactly when both have
  the same nonempty set of words.
\<close>

theorem token_similarity_is_jaccard:
  "token_similarity a b = token_similarity b a \<and> 0 \<le> token_similarity a b \<and> token_similarity a b \<le> 1 \<and>
   (token_similarity a b = 1 \<longleftrightarrow> title_tokens a = title_tokens b \<and> title_tokens a \<noteq> [])"
proof -
  define A B where "A = set (title_tokens a)" and "B = set (title_tokens b)"
  have fin: "finite A" "finite B" by (simp_all add: A_def B_def)
  have dist: "distinct (title_tokens v)" for v
    using bset_of_ok bset_ok_iff unfolding title_tokens_def by blast
  have sim: "token_similarity x y = (if set (title_tokens x) = {} \<or> set (title_tokens y) = {} then 0
      else of_nat (card (set (title_tokens x) \<inter> set (title_tokens y)))
         / of_nat (card (set (title_tokens x) \<union> set (title_tokens y))))" for x y
  proof -
    have "length (filter (\<lambda>t. t \<in> set (title_tokens y)) (title_tokens x))
        = card (set (title_tokens x) \<inter> set (title_tokens y))"
      by (simp add: distinct_length_filter dist Int_commute)
    moreover have "length (title_tokens x @ filter (\<lambda>t. t \<notin> set (title_tokens x)) (title_tokens y))
        = card (set (title_tokens x) \<union> set (title_tokens y))"
    proof -
      have "distinct (title_tokens x @ filter (\<lambda>t. t \<notin> set (title_tokens x)) (title_tokens y))"
        using dist by auto
      moreover have "set (title_tokens x @ filter (\<lambda>t. t \<notin> set (title_tokens x)) (title_tokens y))
          = set (title_tokens x) \<union> set (title_tokens y)" by auto
      ultimately show ?thesis by (metis distinct_card)
    qed
    ultimately show ?thesis by (simp add: token_similarity_def Let_def)
  qed
  have le: "card (A \<inter> B) \<le> card (A \<union> B)" by (rule card_mono) (use fin in auto)
  have eq: "card (A \<inter> B) = card (A \<union> B) \<longleftrightarrow> A = B"
    using card_subset_eq [of "A \<union> B" "A \<inter> B"] fin by auto
  have tok: "title_tokens a = title_tokens b \<longleftrightarrow> A = B"
    unfolding A_def B_def by (metis bset_eqI bset_of_ok title_tokens_def)
  have pos: "0 < card (A \<union> B)" if "A \<noteq> {}" using that fin by (simp add: card_gt_0_iff)
  show ?thesis
    using le eq tok pos unfolding sim A_def [symmetric] B_def [symmetric]
    by (auto simp: Int_commute Un_commute divide_le_eq_1 A_def B_def)
qed

text \<open>What storing a receipt does to the files.\<close>

lemma receipt_paths: "path_join dir ''receipt.json'' \<noteq> path_join dir ''receipt.json.tmp''"
  by (simp add: path_join_def is_absolute_def is_slash_def)

lemma publish_files:
  assumes "publish env dir receipt fs = (fs', res)"
  shows "case res of
      Inr r \<Rightarrow> r = receipt \<and> (\<exists>bytes. encode_receipt env receipt = Inr bytes \<and>
        fs' = fs(path_join dir ''receipt.json.tmp'' := None, path_join dir ''receipt.json'' := Some bytes))
    | Inl e \<Rightarrow> (\<forall>p. p \<noteq> path_join dir ''receipt.json.tmp'' \<longrightarrow> fs' p = fs p)"
  using assms
  by (auto simp: publish_def persist_fix_receipt_def write_file_def rename_file_def map_err_def fun_upd_twist
      split: sum.splits prod.splits option.splits if_splits)

lemma inspect_fix_attempt_Inr:
  "inspect_fix_attempt env app_data identity fs = Inr r \<longleftrightarrow>
     (\<exists>dir bytes. attempt_root app_data identity = Inr dir \<and>
        read_file env (path_join dir ''receipt.json'') fs = Inr bytes \<and> decode_receipt env bytes = Inr r \<and>
        fix_schema_version r = FIX_SCHEMA_VERSION \<and> attempt_id r = identity \<and>
        components (worktree_path (attempt_worktree r)) = components (path_join dir ''worktree''))"
  by (auto simp: inspect_fix_attempt_def result_simps)

lemma inspect_cong:
  assumes "attempt_root app_data identity = Inr dir"
    and "fs' (path_join dir ''receipt.json'') = fs (path_join dir ''receipt.json'')"
  shows "inspect_fix_attempt env app_data identity fs' = inspect_fix_attempt env app_data identity fs"
proof -
  have "read_file env (path_join dir ''receipt.json'') fs' = read_file env (path_join dir ''receipt.json'') fs"
    unfolding read_file_def assms(2) ..
  then show ?thesis unfolding inspect_fix_attempt_def assms(1) and_then.simps by (rule arg_cong)
qed

lemma discarded_simps [simp]:
  "attempt_id (discarded env r) = attempt_id r" "fix_schema_version (discarded env r) = fix_schema_version r"
  "worktree_path (attempt_worktree (discarded env r)) = worktree_path (attempt_worktree r)"
  "\<not> worktree_retained (attempt_worktree (discarded env r))"
  by (simp_all add: discarded_def)

text \<open>A stored receipt can be read back.\<close>

lemma published_is_inspectable:
  assumes "publish env dir r fs = (fs', Inr r)" and "attempt_root app_data (attempt_id r) = Inr dir"
    and "fix_schema_version r = FIX_SCHEMA_VERSION"
    and "components (worktree_path (attempt_worktree r)) = components (path_join dir ''worktree'')"
    and "\<And>b. encode_receipt env r = Inr b \<Longrightarrow> decode_receipt env' b = Inr r" and "\<And>p. read_fault env' p = None"
  shows "inspect_fix_attempt env' app_data (attempt_id r) fs' = Inr r"
  using publish_files [OF assms(1)] assms(2-) unfolding inspect_fix_attempt_Inr
  by (auto simp: read_file_def)

lemma executed_receipt:
  assumes "execute_fix_attempt env app_data i fs = (fs', Inr r)"
  obtains dir where "attempt_root app_data (attempt_id r) = Inr dir" and "publish env dir r fs = (fs', Inr r)"
    and "fix_schema_version r = FIX_SCHEMA_VERSION"
    and "worktree_path (attempt_worktree r) = path_join dir ''worktree''"
    and "worktree_retained (attempt_worktree r)"
proof -
  obtain packet source repository d where
    root: "attempt_root app_data (''fix-attempt-'' @ fresh_attempt env) = Inr d"
    and run: "attempt_in_worktree env (''fix-attempt-'' @ fresh_attempt env) repository
           (path_join d ''worktree'') i packet source = Inr r"
    and published: "publish env d r fs = (fs', Inr r)"
    using execute_fix_attempt_Inr [OF assms] .
  from run have "attempt_id r = ''fix-attempt-'' @ fresh_attempt env \<and>
    fix_schema_version r = FIX_SCHEMA_VERSION \<and> worktree_path (attempt_worktree r) = path_join d ''worktree'' \<and>
    worktree_retained (attempt_worktree r)"
    by (auto simp: attempt_in_worktree_def Let_def result_simps case_prod_beta split: option.splits if_splits)
  with root published show thesis by (intro that [of d]) simp_all
qed

text \<open>
  C39: The receipt on disk always tells how an attempt stands. After an attempt was executed the
  files give back its very receipt, and nothing else of them has changed. A discard later on, in
  any environment, that succeeds was confirmed, and the files then give back the discarded receipt it answered with; if
  it fails, wherever it does (a write that stops halfway, a rename that is refused), they still
  give back the receipt of the attempt. Assumed are only that the JSON codec decodes what it
  encoded and that reading is not refused.
\<close>

theorem executed_attempt_is_inspectable:
  assumes "execute_fix_attempt env app_data i fs = (fs1, Inr r)"
    and "discard_fix_attempt env' app_data (attempt_id r) confirmed fs1 = (fs2, res)"
    and "\<And>b. encode_receipt env r = Inr b \<Longrightarrow> decode_receipt env' b = Inr r"
    and "\<And>b. encode_receipt env' (discarded env' r) = Inr b \<Longrightarrow> decode_receipt env' b = Inr (discarded env' r)"
    and "\<And>p. read_fault env' p = None"
  shows "\<exists>dir. attempt_root app_data (attempt_id r) = Inr dir \<and>
    inspect_fix_attempt env' app_data (attempt_id r) fs1 = Inr r \<and>
    (\<forall>p. p = path_join dir ''receipt.json'' \<or> p = path_join dir ''receipt.json.tmp'' \<or> fs1 p = fs p \<and> fs2 p = fs p) \<and>
    (case res of
       Inl e \<Rightarrow> inspect_fix_attempt env' app_data (attempt_id r) fs2 = Inr r
     | Inr r' \<Rightarrow> confirmed \<and> r' = discarded env' r \<and>
         inspect_fix_attempt env' app_data (attempt_id r) fs2 = Inr (discarded env' r))"
proof -
  obtain dir where root: "attempt_root app_data (attempt_id r) = Inr dir"
    and stored: "publish env dir r fs = (fs1, Inr r)" "fix_schema_version r = FIX_SCHEMA_VERSION"
      "worktree_path (attempt_worktree r) = path_join dir ''worktree''" "worktree_retained (attempt_worktree r)"
    using executed_receipt [OF assms(1)] .
  have first: "inspect_fix_attempt env' app_data (attempt_id r) fs1 = Inr r"
    by (rule published_is_inspectable [OF stored(1) root stored(2) _ assms(3,5)]) (simp_all add: stored(3))
  have same: "fs1 p = fs p" if "p \<noteq> path_join dir ''receipt.json''" "p \<noteq> path_join dir ''receipt.json.tmp''" for p
    using publish_files [OF stored(1)] that by auto
  have "fs2 = fs1 \<and> (\<exists>e. res = Inl e) \<or> confirmed \<and> publish env' dir (discarded env' r) fs1 = (fs2, res)"
    using assms(2) first root stored(4)
    by (auto simp: discard_fix_attempt_def split: sum.splits if_splits)
      (auto simp: result_simps reject_if_def split: if_splits)
  then show ?thesis
  proof (elim disjE exE conjE)
    fix e assume "fs2 = fs1" "res = Inl e"
    then show ?thesis using root first same by auto
  next
    assume ok: confirmed and again: "publish env' dir (discarded env' r) fs1 = (fs2, res)"
    note files = publish_files [OF again]
    have others: "fs2 p = fs p" if "p \<noteq> path_join dir ''receipt.json''" "p \<noteq> path_join dir ''receipt.json.tmp''" for p
      using files same that by (auto split: sum.splits)
    show ?thesis
    proof (cases res)
      case (Inl e)
      with files have "inspect_fix_attempt env' app_data (attempt_id r) fs2 = Inr r"
        using inspect_cong [OF root, of fs2 fs1 env'] receipt_paths first by simp
      then show ?thesis using Inl root first same others by auto
    next
      case (Inr r')
      with files have r': "r' = discarded env' r" by simp
      have "inspect_fix_attempt env' app_data (attempt_id (discarded env' r)) fs2 = Inr (discarded env' r)"
        by (rule published_is_inspectable [of env' dir _ fs1, OF _ _ _ _ assms(4,5)])
          (simp_all add: again [unfolded Inr r'] root stored)
      then show ?thesis using Inr ok r' root first same others by auto
    qed
  qed
qed

text \<open>
  Discarding needs confirmation, happens once, and only inside the attempt's own directory.
  If a discard succeeds it was confirmed, it concerned a receipt that inspection accepts, and
  either that receipt's worktree was already gone and nothing changed, or Git removed exactly the
  recorded worktree and the new receipt says so; discarding that receipt again changes nothing.
\<close>

theorem discard_is_confirmed_and_final:
  assumes "discard_fix_attempt env app_data identity confirmed fs = (fs', Inr r)"
  shows "confirmed \<and> \<not> worktree_retained (attempt_worktree r) \<and>
    (\<exists>r0 dir. inspect_fix_attempt env app_data identity fs = Inr r0 \<and>
       attempt_root app_data identity = Inr dir \<and>
       components (worktree_path (attempt_worktree r0)) = components (path_join dir ''worktree'') \<and>
       (if worktree_retained (attempt_worktree r0)
        then r = discarded env r0 \<and> remove_worktree env r0 = Inr ()
        else r = r0 \<and> fs' = fs)) \<and>
    (\<forall>env' fs''. inspect_fix_attempt env' app_data identity fs'' = Inr r \<longrightarrow>
       discard_fix_attempt env' app_data identity True fs'' = (fs'', Inr r))"
proof -
  from assms obtain r0 where confirmed: confirmed
    and r0: "inspect_fix_attempt env app_data identity fs = Inr r0"
    by (auto simp: discard_fix_attempt_def and_then_Inr reject_if_def split: sum.splits if_splits)
  from r0 obtain dir where dir: "attempt_root app_data identity = Inr dir"
    "components (worktree_path (attempt_worktree r0)) = components (path_join dir ''worktree'')"
    unfolding inspect_fix_attempt_Inr by blast
  have step: "if worktree_retained (attempt_worktree r0)
        then r = discarded env r0 \<and> remove_worktree env r0 = Inr () else r = r0 \<and> fs' = fs"
    using assms r0 dir(1) confirmed
    by (auto simp: discard_fix_attempt_def and_then_Inr split: if_splits sum.splits dest!: publish_files)
  then have "\<not> worktree_retained (attempt_worktree r)"
    by (auto split: if_splits)
  with confirmed r0 dir step show ?thesis by (auto simp: discard_fix_attempt_def)
qed

section \<open>A concrete attempt\<close>

text \<open>
  The source check of \<^const>\<open>sample_env\<close>'s kind bound its test; the agent edits one file, and the
  review finds nothing.
\<close>

definition sample_head :: string where
  "sample_head = ''0123456789abcdef0123456789abcdef01234567''"

definition sample_stage :: "local_check_stage" where
  "sample_stage = \<lparr>stage_status = Failed, stage_duration_ms = 0, stage_target = Some sample_target,
     stage_evidence = Null, stage_limitations = []\<rparr>"

definition sample_receipt :: local_check_receipt where
  "sample_receipt =
     \<lparr>receipt_schema_version = [], receipt_request_id = None, receipt_run_id = ''r1'',
      receipt_ran_at = [], receipt_repo_path = ''/r'', receipt_task = ''t'',
      receipt_standards_pack = None, receipt_source = sample_source\<lparr>head_sha := sample_head\<rparr>,
      receipt_stages = \<lparr>review_stage = sample_stage, correctness_stage = sample_stage,
        performance_stage = sample_stage, optimization_stage_of = sample_stage\<rparr>,
      receipt_spec_coverage = None, receipt_verdict = VerdictFailed, receipt_limitations = []\<rparr>"

definition sample_packet :: fix_packet where
  "sample_packet =
     \<lparr>packet_run_id = ''r1'', packet_repo_path = ''/r'',
      packet_source = \<lparr>fix_source_input = ''c'', fix_base_sha = ''b'', fix_head_sha = sample_head\<rparr>,
      packet_goal = ''t'', acceptance_criteria = [], packet_findings = [], packet_markdown = []\<rparr>"

definition sample_git_process :: "string list \<Rightarrow> string" where
  "sample_git_process args =
     (if args = [''rev-parse'', ''--show-toplevel''] then ''/r''
      else if args = [''rev-parse'', ''HEAD''] then sample_head
      else if args = [''diff'', ''--name-only'', ''-z'', ''HEAD''] then ''a.js''
      else if args = [''diff'', ''--binary'', ''HEAD''] then ''d'' else [])"

definition sample_fix_env :: fix_env where
  "sample_fix_env =
     \<lparr>check_env = (sample_env 0)\<lparr>path_exists := (\<lambda>_. False)\<rparr>, review_author = Inr (),
      fix_database = Inr (), build_agent_fix_packet = (\<lambda>_ _. Inr sample_packet),
      load_local_check_receipt = (\<lambda>_. Inr sample_receipt),
      git_process = (\<lambda>_ args. Inr \<lparr>exit_success = True, process_stdout = sample_git_process args,
         process_stderr = []\<rparr>),
      create_dir_all = (\<lambda>_. Inr ()), resolve_cli_path = (\<lambda>_. ''/bin/agent''),
      spawn_agent = (\<lambda>_ _ _. Exited (Some 0) True [] []), agent_elapsed = 1,
      fix_review_core = (\<lambda>_ _ _ _ _ _. Inr (Object
        [(''review_manifest'', Object [(''complete_coverage'', Bool True)]),
         (''review_status'', String ''completed'')])),
      encode_receipt = (\<lambda>r. Inr (if attempt_state r = ''discarded'' then ''d'' else ''e'')), decode_receipt = (\<lambda>_. Inl []), missing_file = ''missing'',
      read_fault = (\<lambda>_. None), write_fault = (\<lambda>_. None), rename_fault = (\<lambda>_ _. None), fresh_attempt = ''1'',
      start_clock = ''s'', end_clock = ''e''\<rparr>"

definition sample_fix_input :: fix_attempt_input where
  "sample_fix_input = \<lparr>fix_run_id = ''r1'', finding_ids = [''f''], fix_agent = ''claude'',
     fix_confirmed = True, fix_timeout_ms = 1000\<rparr>"

lemmas sample_eval =
  trim_def trim_start_def trim_end_def continuation_bytes_def lead_bits_def is_whitespace_def
  ascii_or_dash_def is_ascii_alphanumeric_def is_ascii_digit_def is_ascii_lowercase_def
  is_ascii_uppercase_def

lemma sample_identities:
  "validate_identity ''r1'' l = Inr ()" "validate_identity ''f'' l = Inr ()"
  "validate_identity ''fix-attempt-1'' l = Inr ()"
  by (simp_all add: validate_identity_def sample_eval)

lemma sample_fix_input_ok: "validate_execute_input sample_fix_input = Inr ()"
  by (simp add: validate_execute_input_def sample_fix_input_def sample_identities MAX_FINDINGS_def
      bset_of_single)

lemma sample_sha: "valid_sha sample_head" "trim sample_head = sample_head"
  "valid_utf8 sample_head" "length sample_head = 40"
  by (simp_all add: sample_head_def valid_sha_def sample_eval)

lemma sample_root: "attempt_root ''/d'' ''fix-attempt-1'' = Inr ''/d/fix-attempts/fix-attempt-1''"
  by (simp add: attempt_root_def sample_identities path_join_def is_absolute_def is_slash_def)

lemma sample_git_step:
  "git_process sample_fix_env w args =
     Inr \<lparr>exit_success = True, process_stdout = sample_git_process args, process_stderr = []\<rparr>"
  by (simp add: sample_fix_env_def)

lemma sample_repository: "canonical_git_repository sample_fix_env ''/r'' = Inr ''/r''"
proof -
  have "canonicalize (check_env sample_fix_env) = Inr" "lossy sample_fix_env = id"
    by (simp_all add: sample_fix_env_def sample_env_def lossy_def)
  moreover have "trim ''/r'' = ''/r''" by (simp add: sample_eval)
  ultimately show ?thesis
    by (simp add: canonical_git_repository_def map_err_def sample_git_step sample_git_process_def)
qed

lemma sample_git_steps:
  "require_commit sample_fix_env ''/r'' sample_head = Inr ()"
  "exact_worktree_head sample_fix_env w = Inr sample_head"
  "run_diff_check sample_fix_env w =
     \<lparr>gate_status = ''passed'', gate_detail = ''git diff --check passed for the isolated worktree''\<rparr>"
  by (simp_all add: sample_git_step map_err_def sample_git_process_def require_commit_def sample_sha
      exact_worktree_head_def fix_git_output_def run_diff_check_def)

lemma sample_change:
  "\<exists>c. collect_change sample_fix_env w = Inr c \<and> changed_files c = [''a.js''] \<and> diff_bytes c = 1"
  by (simp add: collect_change_def fix_git_output_def sample_git_step sample_git_process_def
      MAX_DIFF_BYTES_def MAX_CHANGED_FILES_def validate_relative_path_def is_absolute_def is_slash_def
      components_def Let_def)

lemma sample_attempt:
  obtains r fs' where "execute_fix_attempt sample_fix_env ''/d'' sample_fix_input fs = (fs', Inr r)"
    and "attempt_state r = ''verified_fixed''" and "repository_path r = ''/r''" and "attempt_id r = ''fix-attempt-1''"
proof -
  let ?w = "''/d/fix-attempts/fix-attempt-1/worktree''"
  obtain c where c: "collect_change sample_fix_env ?w = Inr c" "changed_files c = [''a.js'']" "diff_bytes c = 1"
    using sample_change by blast
  have env: "review_author sample_fix_env = Inr ()" "fix_database sample_fix_env = Inr ()"
    "build_agent_fix_packet sample_fix_env x y = Inr sample_packet"
    "load_local_check_receipt sample_fix_env x = Inr sample_receipt"
    "fresh_attempt sample_fix_env = ''1''" "create_dir_all sample_fix_env x = Inr ()"
    "path_exists (check_env sample_fix_env) x = False" for x y
    by (simp_all add: sample_fix_env_def)
  have packet: "packet_repo_path sample_packet = ''/r''" "packet_findings sample_packet = []"
    "fix_head_sha (packet_source sample_packet) = sample_head"
    "validate_packet_source sample_packet sample_receipt = Inr ()"
    by (simp_all add: sample_packet_def sample_receipt_def validate_packet_source_def sample_source_def)
  have agent: "execution_success (run_fix_agent sample_fix_env g w p)" if "g = ''claude''" for g w p
    using that by (simp add: run_fix_agent_def run_fix_agent_at_def sample_fix_env_def Let_def)
  have stage: "stage_status (rerun_fix_correctness_target (check_env sample_fix_env) ?w
      (stage_target (correctness_stage (receipt_stages sample_receipt))) n) = Passed" for n
    by (simp add: rerun_fix_correctness_target_def run_runtime_stage_def run_runtime_def sample_fix_env_def
        sample_env_def sample_receipt_def sample_stage_def runtime_stage_status_def exit_code_def Let_def)
  have review: "fix_review_status (run_fix_review sample_fix_env ?w g sample_packet sample_receipt st) = ''completed''"
    "fix_review_findings (run_fix_review sample_fix_env ?w g sample_packet sample_receipt st) = []" for g st
    by (simp_all add: run_fix_review_def sample_fix_env_def Let_def get_str_def items_at_def get_array_def)
  have state: "snd (recheck_attempt sample_fix_env ?w sample_fix_input sample_packet sample_receipt) = ''verified_fixed''"
    by (simp add: recheck_attempt_def Let_def sample_git_steps(3) classify_attempt_state_def packet(2)
        classify_findings_def stage review)
  have go: "agent_checkpoint sample_fix_env ?w sample_head
      (run_fix_agent sample_fix_env (fix_agent sample_fix_input) ?w p) = None" for p
    using agent [of "fix_agent sample_fix_input"] by (simp add: agent_checkpoint_None sample_git_steps(2) sample_fix_input_def)
  have expose: "expose_untracked_diff sample_fix_env ?w = Inr ()"
    by (simp add: expose_untracked_diff_def sample_git_step map_err_def)
  have create: "create_detached_worktree sample_fix_env a b w sample_head = Inr ()" for a b w
    by (simp add: create_detached_worktree_def env sample_git_step map_err_def)
  have publish: "\<exists>fs'. publish sample_fix_env d r fs = (fs', Inr r)" for d r
    by (simp add: publish_def persist_fix_receipt_def write_file_def rename_file_def sample_fix_env_def map_err_def)
  have worktree: "path_join ''/d/fix-attempts/fix-attempt-1'' ''worktree'' = ?w"
    by (simp add: path_join_def is_absolute_def is_slash_def)
  obtain r where r: "make_attempt sample_fix_env ''/d'' sample_fix_input = Inr (''/d/fix-attempts/fix-attempt-1'', r)"
    "attempt_state r = ''verified_fixed''" "repository_path r = ''/r''" "attempt_id r = ''fix-attempt-1''"
    using state
    by (simp add: make_attempt_def env sample_fix_input_ok packet sample_repository sample_git_steps(1) sample_root
        create worktree attempt_in_worktree_def go expose c map_err_def Let_def case_prod_beta)
  from publish [of "''/d/fix-attempts/fix-attempt-1''" r] that r show thesis
    by (auto simp: execute_fix_attempt_def)
qed

theorem verified_fix_is_earned_witness:
  "\<exists>r fs'. execute_fix_attempt sample_fix_env ''/d'' sample_fix_input Map.empty = (fs', Inr r) \<and>
     fix_agent_status (attempt_agent r) = ''completed''"
proof -
  obtain r fs' where r: "execute_fix_attempt sample_fix_env ''/d'' sample_fix_input Map.empty = (fs', Inr r)"
    "attempt_state r = ''verified_fixed''" using sample_attempt .
  from verified_fix_is_earned [OF r] r show ?thesis by blast
qed

text \<open>Discarding with a decoder for the receipts of the attempt.\<close>

definition sample_discard_env :: "fix_attempt_receipt \<Rightarrow> fix_env" where
  "sample_discard_env r = sample_fix_env\<lparr>decode_receipt :=
     (\<lambda>bytes. Inr (if bytes = ''e'' then r else discarded sample_fix_env r))\<rparr>"

lemma sample_discard_env_simps [simp]:
  "encode_receipt (sample_discard_env r) = encode_receipt sample_fix_env"
  "discarded (sample_discard_env r) = discarded sample_fix_env"
  "read_fault (sample_discard_env r) p = None" "check_env (sample_discard_env r) = check_env sample_fix_env"
  "git_process (sample_discard_env r) = git_process sample_fix_env"
  by (simp_all add: sample_discard_env_def sample_fix_env_def discarded_def fun_eq_iff)

lemma sample_publish:
  "\<exists>fs'. publish (sample_discard_env r) d x fs = (fs', Inr x)"
  by (simp add: publish_def persist_fix_receipt_def write_file_def rename_file_def sample_discard_env_def
      sample_fix_env_def map_err_def)

lemma sample_removal:
  assumes "repository_path r = ''/r''"
  shows "remove_worktree (sample_discard_env r') r = Inr ()"
proof -
  have "canonical_git_repository (sample_discard_env r') ''/r'' = canonical_git_repository sample_fix_env ''/r''"
    by (simp add: canonical_git_repository_def lossy_def)
  then show ?thesis
    using assms sample_repository by (simp add: remove_worktree_def sample_git_step map_err_def)
qed

lemma sample_discard:
  assumes "inspect_fix_attempt (sample_discard_env r) ''/d'' ''fix-attempt-1'' fs = Inr r"
    and "repository_path r = ''/r''"
  shows "\<exists>fs' x. discard_fix_attempt (sample_discard_env r) ''/d'' ''fix-attempt-1'' True fs = (fs', Inr x)"
  using assms sample_publish [of r "''/d/fix-attempts/fix-attempt-1''" "discarded sample_fix_env r" fs]
    sample_removal [OF assms(2), of r]
  by (simp add: discard_fix_attempt_def sample_root) blast

text \<open>The attempt is executed, inspected and discarded.\<close>

theorem executed_attempt_is_inspectable_witness:
  "\<exists>r fs1 fs2. execute_fix_attempt sample_fix_env ''/d'' sample_fix_input Map.empty = (fs1, Inr r) \<and>
     inspect_fix_attempt (sample_discard_env r) ''/d'' (attempt_id r) fs1 = Inr r \<and>
     discard_fix_attempt (sample_discard_env r) ''/d'' (attempt_id r) True fs1 = (fs2, Inr (discarded sample_fix_env r)) \<and>
     inspect_fix_attempt (sample_discard_env r) ''/d'' (attempt_id r) fs2 = Inr (discarded sample_fix_env r)"
proof -
  obtain r fs1 where r: "execute_fix_attempt sample_fix_env ''/d'' sample_fix_input Map.empty = (fs1, Inr r)"
    "attempt_state r = ''verified_fixed''" "repository_path r = ''/r''" "attempt_id r = ''fix-attempt-1''"
    using sample_attempt .
  have codec: "encode_receipt sample_fix_env r = Inr b \<Longrightarrow> decode_receipt (sample_discard_env r) b = Inr r"
    "encode_receipt (sample_discard_env r) (discarded (sample_discard_env r) r) = Inr b \<Longrightarrow>
       decode_receipt (sample_discard_env r) b = Inr (discarded (sample_discard_env r) r)" for b
    using r(2) by (auto simp: sample_discard_env_def sample_fix_env_def discarded_def)
  obtain fs res where "discard_fix_attempt (sample_discard_env r) ''/d'' (attempt_id r) False fs1 = (fs, res)"
    by fastforce
  from executed_attempt_is_inspectable [OF r(1) this codec] have
    first: "inspect_fix_attempt (sample_discard_env r) ''/d'' (attempt_id r) fs1 = Inr r" by auto
  from sample_discard [OF first [unfolded r(4)] r(3)] obtain fs2 x where
    "discard_fix_attempt (sample_discard_env r) ''/d'' (attempt_id r) True fs1 = (fs2, Inr x)" by (auto simp: r(4))
  from executed_attempt_is_inspectable [OF r(1) this codec] this r(1) first show ?thesis by auto
qed

definition sample_fix_receipt :: fix_attempt_receipt where
  "sample_fix_receipt =
     terminal_receipt ''fix-attempt-1'' ''failed'' sample_fix_input sample_packet ''/r''
       ''/d/fix-attempts/fix-attempt-1/worktree''
       \<lparr>execution_success = False, execution_duration_ms = 0, execution_diagnostic = None\<rparr>
       empty_change (unchecked_recheck sample_packet []) [] [] []"

theorem discard_is_confirmed_and_final_witness:
  "\<exists>fs' r. discard_fix_attempt (sample_discard_env sample_fix_receipt) ''/d'' ''fix-attempt-1'' True
       [''/d/fix-attempts/fix-attempt-1/receipt.json'' \<mapsto> ''e''] = (fs', Inr r) \<and>
     \<not> worktree_retained (attempt_worktree r)"
proof -
  have paths: "path_join ''/d/fix-attempts/fix-attempt-1'' ''receipt.json'' = ''/d/fix-attempts/fix-attempt-1/receipt.json''"
    "path_join ''/d/fix-attempts/fix-attempt-1'' ''worktree'' = ''/d/fix-attempts/fix-attempt-1/worktree''"
    by (simp_all add: path_join_def is_absolute_def is_slash_def)
  have receipt: "repository_path sample_fix_receipt = ''/r''" "attempt_id sample_fix_receipt = ''fix-attempt-1''"
    "worktree_path (attempt_worktree sample_fix_receipt) = ''/d/fix-attempts/fix-attempt-1/worktree''"
    "fix_schema_version sample_fix_receipt = FIX_SCHEMA_VERSION"
    by (simp_all add: sample_fix_receipt_def)
  have "inspect_fix_attempt (sample_discard_env sample_fix_receipt) ''/d'' ''fix-attempt-1''
      [''/d/fix-attempts/fix-attempt-1/receipt.json'' \<mapsto> ''e''] = Inr sample_fix_receipt"
    unfolding inspect_fix_attempt_Inr
    by (intro exI [of _ "''/d/fix-attempts/fix-attempt-1''"] exI [of _ "''e''"])
      (simp add: sample_root paths receipt read_file_def, simp add: sample_discard_env_def)
  from sample_discard [OF this receipt(1)] obtain fs' x where
    run: "discard_fix_attempt (sample_discard_env sample_fix_receipt) ''/d'' ''fix-attempt-1'' True
       [''/d/fix-attempts/fix-attempt-1/receipt.json'' \<mapsto> ''e''] = (fs', Inr x)" by blast
  from discard_is_confirmed_and_final [OF this] run show ?thesis by blast
qed

end
