(* ===== verification/FixPacket.thy ===== *)
theory FixPacket
  imports FixAttempt "HOL-Library.Code_Target_Nat"
begin

text \<open>
  The handoff to a coding agent, \<open>commands/fix_packet.rs\<close>: a stored local-check receipt is read back
  as JSON, the selected findings that have a relative path are taken from it, and a bounded
  Markdown rendering is made. The stored receipt, its decoding and the clock are parameters, and so
  is the order in which a hash set is listed in one error message.
\<close>

section \<open>Data\<close>

record fix_packet_task =
  task_goal :: string
  task_criteria :: "string list"
  task_non_goals :: "string list"
  task_source :: string

record fix_packet_evidence =
  packet_evidence_kind :: string
  packet_evidence_status :: string
  packet_evidence_label :: string
  packet_evidence_artifact :: "string option"
  packet_evidence_qualification :: string

record agent_fix_packet =
  agent_packet_schema :: string
  agent_packet_created :: string
  agent_packet_run :: string
  agent_packet_repo :: string
  agent_packet_source :: fix_attempt_source
  agent_packet_agent :: string
  agent_packet_task :: fix_packet_task
  route_advice :: string
  agent_packet_findings :: "fix_packet_finding list"
  agent_packet_evidence :: "fix_packet_evidence list"
  agent_packet_limitations :: "string list"
  agent_packet_markdown :: string

definition PACKET_SCHEMA_VERSION :: string where
  "PACKET_SCHEMA_VERSION = ''codevetter.agent-fix-packet/v1''"

definition PACKET_MAX_FINDINGS :: nat where "PACKET_MAX_FINDINGS = 100"
definition MAX_EVIDENCE_REFS :: nat where "MAX_EVIDENCE_REFS = 24"
definition MAX_MARKDOWN_BYTES :: nat where "MAX_MARKDOWN_BYTES = 256 * 1024"

definition LOCAL_CHECK_SCHEMA :: string where
  "LOCAL_CHECK_SCHEMA = ''codevetter.local-check/v1''"

section \<open>Reading the receipt\<close>

text \<open>Identities of a packet may hold any text on one line, unlike those of an attempt.\<close>

definition validate_packet_identity :: "string \<Rightarrow> string \<Rightarrow> unit result" where
  "validate_packet_identity v label =
     reject_if (v = [] \<or> 160 < length v \<or> trim v \<noteq> v \<or> CHR 0x00 \<in> set v \<or> CHR 0x0D \<in> set v \<or> CHR 0x0A \<in> set v)
       (label @ '' must be a bounded single-line identity'')"

definition required_string :: "json \<Rightarrow> string \<Rightarrow> string result" where
  "required_string v key =
     (case get_str key v of
        Some (c # s) \<Rightarrow> Inr (c # s)
      | _ \<Rightarrow> Inl (''Local-check receipt is missing '' @ key))"

definition string_array :: "json \<Rightarrow> string \<Rightarrow> string list" where
  "string_array v key = strings_of (items_at key v)"

definition load_receipt_json :: "(string \<Rightarrow> string option result) \<Rightarrow> string \<Rightarrow> string result" where
  "load_receipt_json stored run_id =
     (case stored run_id of
        Inl e \<Rightarrow> Inl (''Read local-check receipt: '' @ e)
      | Inr None \<Rightarrow> Inl ''Local-check run was not found''
      | Inr (Some s) \<Rightarrow> Inr s)"

definition decode_stored_receipt :: "(string \<Rightarrow> 'v result) \<Rightarrow> string \<Rightarrow> 'v result" where
  "decode_stored_receipt decode s =
     (case decode s of Inl e \<Rightarrow> Inl (''Decode local-check receipt: '' @ e) | Inr v \<Rightarrow> Inr v)"

definition load_local_check_receipt ::
  "(string \<Rightarrow> string option result) \<Rightarrow> (string \<Rightarrow> local_check_receipt result) \<Rightarrow> string \<Rightarrow> local_check_receipt result" where
  "load_local_check_receipt stored decode run_id =
     and_then (validate_packet_identity run_id ''run id'') (\<lambda>_.
     and_then (load_receipt_json stored run_id) (\<lambda>s.
     and_then (decode_stored_receipt decode s) (\<lambda>r.
     and_then (reject_if (receipt_schema_version r \<noteq> LOCAL_CHECK_SCHEMA \<or> receipt_run_id r \<noteq> run_id)
                 ''Only the exact completed codevetter.local-check/v1 receipt is supported'') (\<lambda>_.
     Inr r))))"

section \<open>Findings\<close>

definition or_else :: "'a option \<Rightarrow> 'a option \<Rightarrow> 'a option" where
  "or_else x y = (case x of None \<Rightarrow> y | Some _ \<Rightarrow> x)"

definition text_or :: "string \<Rightarrow> string option \<Rightarrow> string" where
  "text_or d x = (case x of None \<Rightarrow> d | Some s \<Rightarrow> s)"

definition packet_path :: "json \<Rightarrow> string" where
  "packet_path v = text_or [] (or_else (get_str ''filePath'' v) (get_str ''file_path'' v))"

text \<open>Whether the loop takes a finding: it is selected by its own identity, and lies in the repository.\<close>

definition takes_finding :: "string list \<Rightarrow> json \<Rightarrow> bool" where
  "takes_finding selected v \<longleftrightarrow>
     (selected = [] \<or> (case get_str ''id'' v of None \<Rightarrow> False | Some i \<Rightarrow> i \<in> set selected)) \<and>
     packet_path v \<noteq> [] \<and> \<not> is_absolute (packet_path v)"

definition packet_finding_of :: "nat \<Rightarrow> json \<Rightarrow> fix_packet_finding result" where
  "packet_finding_of index v =
     and_then (required_string v ''title'') (\<lambda>title.
     and_then (required_string v ''summary'') (\<lambda>summary.
     Inr \<lparr>packet_finding_id = text_or (''receipt-finding-'' @ show_nat (index + 1)) (get_str ''id'' v),
          packet_finding_severity = text_or ''unknown'' (get_str ''severity'' v),
          packet_finding_title = title, packet_finding_summary = summary,
          packet_finding_suggestion =
            (case get_str ''suggestion'' v of None \<Rightarrow> None | Some s \<Rightarrow> if trim s = [] then None else Some s),
          packet_finding_path = packet_path v,
          packet_finding_line = Option.bind (get_key ''line'' v) as_i64,
          packet_finding_confidence = Option.bind (get_key ''confidence'' v) as_f64\<rparr>))"

definition packet_findings_of :: "string list \<Rightarrow> json list \<Rightarrow> fix_packet_finding list result" where
  "packet_findings_of selected vs =
     map_result (\<lambda>(i, v). packet_finding_of i v)
       (filter (\<lambda>(_, v). takes_finding selected v) (enumerate 0 (take PACKET_MAX_FINDINGS vs)))"

section \<open>Acceptance, evidence, advice\<close>

definition flagged :: "string \<Rightarrow> json \<Rightarrow> bool" where
  "flagged key v = (case Option.bind (get_key key v) as_bool of None \<Rightarrow> False | Some b \<Rightarrow> b)"

definition criterion_of :: "json \<Rightarrow> string option" where
  "criterion_of v =
     map_option (\<lambda>title. let t = text_or [] (get_str ''text'' v) in if t = [] then title else title @ '': '' @ t)
       (get_str ''title'' v)"

definition packet_criteria :: "json \<Rightarrow> string list" where
  "packet_criteria receipt =
     take 32 (List.map_filter criterion_of
       (filter (\<lambda>v. flagged ''supplied_to_review'' v \<or> flagged ''selected_for_execution'' v)
         (case Option.bind (pointer [''spec_coverage'', ''requirements''] receipt) as_array of None \<Rightarrow> [] | Some vs \<Rightarrow> vs)))"

definition middle_dot :: string where "middle_dot = [CHR 0xC2, CHR 0xB7]"

definition stage_evidence :: "json \<Rightarrow> string \<Rightarrow> fix_packet_evidence list" where
  "stage_evidence receipt stage =
     (case pointer [''stages'', stage] receipt of
        None \<Rightarrow> []
      | Some v \<Rightarrow>
          (let label = Option.bind (get_key ''target'' v) (\<lambda>t.
                 Option.bind (get_str ''adapter'' t) (\<lambda>a.
                 map_option (\<lambda>p. a @ '' '' @ middle_dot @ '' '' @ p) (get_str ''target'' t)))
           in [\<lparr>packet_evidence_kind = stage, packet_evidence_status = text_or ''unavailable'' (get_str ''status'' v),
                packet_evidence_label = text_or (stage @ '' stage'') label, packet_evidence_artifact = None,
                packet_evidence_qualification = ''versioned local-check stage''\<rparr>]))"

definition qa_row :: "json \<Rightarrow> fix_packet_evidence" where
  "qa_row qa =
     \<lparr>packet_evidence_kind = ''synthetic_qa'',
      packet_evidence_status =
        (if Option.bind (get_key ''pass'' qa) as_bool = Some True then ''passed'' else ''failed''),
      packet_evidence_label = text_or ''Recorded QA journey'' (or_else (get_str ''goal'' qa) (get_str ''route'' qa)),
      packet_evidence_artifact = get_str ''screenshot_path'' qa,
      packet_evidence_qualification = ''recorded runtime evidence''\<rparr>"

definition procedure_row :: "json \<Rightarrow> fix_packet_evidence" where
  "procedure_row step =
     \<lparr>packet_evidence_kind = ''procedure_gate'',
      packet_evidence_status = text_or ''planned'' (get_str ''status'' step),
      packet_evidence_label = text_or ''Evidence procedure'' (or_else (get_str ''gate'' step) (get_str ''procedure'' step)),
      packet_evidence_artifact =
        (case get_str ''artifact'' step of None \<Rightarrow> None | Some s \<Rightarrow> if s = [] then None else Some s),
      packet_evidence_qualification = ''deterministic procedure context''\<rparr>"

definition collect_evidence :: "json \<Rightarrow> json \<Rightarrow> fix_packet_evidence list" where
  "collect_evidence receipt review =
     take MAX_EVIDENCE_REFS
       (concat (map (stage_evidence receipt) [''correctness'', ''performance''])
        @ map qa_row (take 5 (items_at ''qa_evidence'' review))
        @ map procedure_row (take 8 (items_at ''evidence_procedure_steps'' review)))"

definition route_advice_for :: "fix_packet_finding list \<Rightarrow> string" where
  "route_advice_for fs =
     (if list_ex (\<lambda>f. packet_finding_severity f \<in> {''critical'', ''high''}) fs
      then ''Use a full coding agent in an isolated worktree; require executable proof before merge.''
      else if length fs \<le> 2 then ''Keep the patch tightly scoped, then rerun the exact verification receipt.''
      else ''Split this broad batch by file or behavior before starting the first fix attempt.'')"

section \<open>Rendering\<close>

definition finding_lines :: "nat \<times> fix_packet_finding \<Rightarrow> string list" where
  "finding_lines nf =
     (case nf of (i, f) \<Rightarrow>
        [''- '' @ show_nat (i + 1) @ ''. ['' @ packet_finding_severity f @ ''] '' @ packet_finding_title f @ '' (''
           @ packet_finding_path f
           @ (case packet_finding_line f of None \<Rightarrow> [] | Some l \<Rightarrow> '':'' @ show_int l) @ '')'',
         ''  Problem: '' @ packet_finding_summary f]
        @ (case packet_finding_suggestion f of None \<Rightarrow> [] | Some s \<Rightarrow> [''  Suggested fix: '' @ s]))"

definition evidence_line :: "fix_packet_evidence \<Rightarrow> string" where
  "evidence_line e =
     ''- ['' @ packet_evidence_kind e @ '' / '' @ packet_evidence_status e @ ''] '' @ packet_evidence_label e
       @ '' ('' @ packet_evidence_qualification e @ '')''
       @ (case packet_evidence_artifact e of None \<Rightarrow> [] | Some a \<Rightarrow> ''; artifact='' @ a)"

definition render_markdown :: "agent_fix_packet \<Rightarrow> string" where
  "render_markdown p =
     join [CHR 0x0A]
       ([''# Agent Fix Packet'', [], ''Run: '' @ agent_packet_run p, ''Repo: '' @ agent_packet_repo p,
         ''Diff: '' @ fix_source_input (agent_packet_source p), ''Head: '' @ fix_head_sha (agent_packet_source p),
         ''Agent: '' @ agent_packet_agent p, ''Route advice: '' @ route_advice p, [],
         ''Goal: '' @ task_goal (agent_packet_task p)]
        @ (if task_criteria (agent_packet_task p) = [] then []
           else [[], ''Acceptance:''] @ map (\<lambda>c. ''- '' @ c) (task_criteria (agent_packet_task p)))
        @ [[], ''Findings:''] @ concat (map finding_lines (enumerate 0 (agent_packet_findings p)))
        @ (if agent_packet_evidence p = [] then []
           else [[], ''Evidence to preserve:''] @ map evidence_line (agent_packet_evidence p))
        @ [[], ''Limitations:''] @ map (\<lambda>l. ''- '' @ l) (agent_packet_limitations p))"

section \<open>The packet\<close>

definition validate_selection :: "string list \<Rightarrow> unit result" where
  "validate_selection ids =
     and_then (reject_if (PACKET_MAX_FINDINGS < length ids)
                 (''At most '' @ show_nat PACKET_MAX_FINDINGS @ '' findings can enter one fix packet'')) (\<lambda>_.
     and_then (check_all (\<lambda>i. validate_packet_identity i ''finding id'') ids) (\<lambda>_.
     reject_if (length (bset_of ids) \<noteq> length ids) ''Finding selection contains duplicate identities''))"

definition packet_source_of :: "json \<Rightarrow> fix_attempt_source result" where
  "packet_source_of receipt =
     (case get_key ''source'' receipt of
        None \<Rightarrow> Inl ''Local-check receipt has no source identity''
      | Some source \<Rightarrow>
          and_then (required_string source ''input'') (\<lambda>i.
          and_then (required_string source ''base_sha'') (\<lambda>b.
          and_then (required_string source ''head_sha'') (\<lambda>h.
          Inr \<lparr>fix_source_input = i, fix_base_sha = b, fix_head_sha = h\<rparr>))))"

definition review_evidence_of :: "json \<Rightarrow> json" where
  "review_evidence_of receipt =
     (case pointer [''stages'', ''review'', ''evidence''] receipt of None \<Rightarrow> Null | Some v \<Rightarrow> v)"

definition packet_agent :: "json \<Rightarrow> string" where
  "packet_agent review =
     text_or ''coding-agent''
       (or_else (get_str ''agent'' review)
         (Option.bind (pointer [''review_manifest'', ''executor_id''] review) as_str))"

definition handoff_limitation :: string where
  "handoff_limitation = ''This packet is a deterministic handoff, not proof that a proposed fix is correct.''"

definition intent_limitation :: string where
  "intent_limitation =
     ''No explicit acceptance requirements were attached; the task goal is the only intent contract.''"

text \<open>What is read from a decoded receipt; \<open>arrange\<close> lists the missing identities of a hash set.\<close>

definition packet_of ::
  "(string list \<Rightarrow> string list) \<Rightarrow> string \<Rightarrow> string \<Rightarrow> string list \<Rightarrow> json \<Rightarrow> agent_fix_packet result" where
  "packet_of arrange created run_id ids receipt =
     and_then (reject_if (get_str ''schema_version'' receipt \<noteq> Some LOCAL_CHECK_SCHEMA)
                 ''Only completed codevetter.local-check/v1 receipts support fix packets'') (\<lambda>_.
     and_then (required_string receipt ''repo_path'') (\<lambda>repo.
     and_then (packet_source_of receipt) (\<lambda>source.
     and_then (required_string receipt ''task'') (\<lambda>goal.
     let review = review_evidence_of receipt
     in and_then (packet_findings_of ids (items_at ''findings'' review)) (\<lambda>fs.
     let missing = filter (\<lambda>i. i \<notin> packet_finding_id ` set fs) ids
     in and_then (reject_if (missing \<noteq> [])
          (''Selected findings are unavailable or not source-qualified: '' @ join '', '' (arrange missing))) (\<lambda>_.
     and_then (reject_if (fs = []) ''The local-check receipt has no source-qualified findings to hand off'') (\<lambda>_.
     let criteria = packet_criteria receipt;
         p = \<lparr>agent_packet_schema = PACKET_SCHEMA_VERSION, agent_packet_created = created, agent_packet_run = run_id,
              agent_packet_repo = repo, agent_packet_source = source, agent_packet_agent = packet_agent review,
              agent_packet_task = \<lparr>task_goal = goal, task_criteria = criteria, task_non_goals = [],
                task_source = ''persisted_local_check_receipt''\<rparr>,
              route_advice = route_advice_for fs, agent_packet_findings = fs,
              agent_packet_evidence = collect_evidence receipt review,
              agent_packet_limitations = string_array receipt ''limitations'' @ [handoff_limitation]
                @ (if criteria = [] then [intent_limitation] else []),
              agent_packet_markdown = []\<rparr>;
         markdown = render_markdown p
     in and_then (reject_if (MAX_MARKDOWN_BYTES < length markdown)
                    ''Agent fix packet exceeds the bounded Markdown size'') (\<lambda>_.
        Inr (p\<lparr>agent_packet_markdown := markdown\<rparr>)))))))))"

definition build_agent_fix_packet ::
  "(string list \<Rightarrow> string list) \<Rightarrow> (string \<Rightarrow> string option result) \<Rightarrow> (string \<Rightarrow> json result) \<Rightarrow> string \<Rightarrow>
   string \<Rightarrow> string list \<Rightarrow> agent_fix_packet result" where
  "build_agent_fix_packet arrange stored decode created run_id ids =
     and_then (validate_packet_identity run_id ''run id'') (\<lambda>_.
     and_then (validate_selection ids) (\<lambda>_.
     and_then (load_receipt_json stored run_id) (\<lambda>s.
     and_then (decode_stored_receipt decode s) (packet_of arrange created run_id ids))))"

text \<open>The part of a packet that an attempt reads.\<close>

definition attempt_packet :: "agent_fix_packet \<Rightarrow> fix_packet" where
  "attempt_packet p =
     \<lparr>packet_run_id = agent_packet_run p, packet_repo_path = agent_packet_repo p, packet_source = agent_packet_source p,
      packet_goal = task_goal (agent_packet_task p), acceptance_criteria = task_criteria (agent_packet_task p),
      packet_findings = agent_packet_findings p, packet_markdown = agent_packet_markdown p\<rparr>"

definition packet_for_attempt ::
  "(string list \<Rightarrow> string list) \<Rightarrow> (string \<Rightarrow> string option result) \<Rightarrow> (string \<Rightarrow> json result) \<Rightarrow> string \<Rightarrow>
   string \<Rightarrow> string list \<Rightarrow> fix_packet result" where
  "packet_for_attempt arrange stored decode created run_id ids =
     (case build_agent_fix_packet arrange stored decode created run_id ids of
        Inl e \<Rightarrow> Inl e
      | Inr p \<Rightarrow> Inr (attempt_packet p))"

section \<open>What a packet holds\<close>

lemma map_result_set:
  "map_result f xs = Inr ys \<Longrightarrow> y \<in> set ys \<Longrightarrow> \<exists>x \<in> set xs. f x = Inr y"
  by (induction xs arbitrary: ys) (auto simp: and_then_Inr)

lemma packet_of_Inr:
  assumes "packet_of arrange created run_id ids receipt = Inr p"
  obtains repo source goal fs where
    "packet_source_of receipt = Inr source" and "required_string receipt ''repo_path'' = Inr repo"
    and "packet_findings_of ids (items_at ''findings'' (review_evidence_of receipt)) = Inr fs"
    and "set ids \<subseteq> packet_finding_id ` set fs" and "fs \<noteq> []"
    and "agent_packet_findings p = fs" and "agent_packet_source p = source" and "agent_packet_repo p = repo"
    and "agent_packet_run p = run_id"
    and "length (agent_packet_markdown p) \<le> MAX_MARKDOWN_BYTES"
    and "handoff_limitation \<in> set (agent_packet_limitations p)"
    and "get_str ''schema_version'' receipt = Some LOCAL_CHECK_SCHEMA"
  using assms unfolding packet_of_def Let_def
  by (auto simp: and_then_Inr reject_if_Inr filter_empty_conv intro: that)

text \<open>What a finding of a packet says is what one finding of the receipt says.\<close>

definition taken_from :: "json \<Rightarrow> fix_packet_finding \<Rightarrow> bool" where
  "taken_from v f \<longleftrightarrow>
     get_str ''title'' v = Some (packet_finding_title f) \<and> get_str ''summary'' v = Some (packet_finding_summary f) \<and>
     packet_finding_title f \<noteq> [] \<and> packet_finding_summary f \<noteq> [] \<and>
     packet_finding_path f \<in> set (List.map_filter (\<lambda>k. get_str k v) [''filePath'', ''file_path'']) \<and>
     (case get_str ''id'' v of None \<Rightarrow> True | Some i \<Rightarrow> packet_finding_id f = i)"

lemma required_string_Inr: "required_string v k = Inr s \<longleftrightarrow> get_str k v = Some s \<and> s \<noteq> []"
  by (auto simp: required_string_def split: option.splits list.splits)

lemma packet_path_from:
  "packet_path v \<noteq> [] \<Longrightarrow> packet_path v \<in> set (List.map_filter (\<lambda>k. get_str k v) [''filePath'', ''file_path''])"
  by (auto simp: packet_path_def text_or_def or_else_def List.map_filter_simps split: option.splits)

lemma packet_findings:
  assumes "packet_findings_of ids vs = Inr fs" and "f \<in> set fs"
  obtains i v where "i < PACKET_MAX_FINDINGS" and "i < length vs" and "v = vs ! i" and "taken_from v f"
    and "\<not> is_absolute (packet_finding_path f)" and "packet_finding_path f \<noteq> []"
    and "ids \<noteq> [] \<Longrightarrow> get_str ''id'' v = Some (packet_finding_id f) \<and> packet_finding_id f \<in> set ids"
proof -
  from map_result_set [OF assms(1) [unfolded packet_findings_of_def] assms(2)] obtain i v where
    iv: "(i, v) \<in> set (enumerate 0 (take PACKET_MAX_FINDINGS vs))" "takes_finding ids v" "packet_finding_of i v = Inr f"
    by auto
  from iv(1) have "i < PACKET_MAX_FINDINGS" "i < length vs" "v = vs ! i" by (auto simp: in_set_enumerate_eq)
  moreover obtain title summary where t: "get_str ''title'' v = Some title" "title \<noteq> []"
      "get_str ''summary'' v = Some summary" "summary \<noteq> []"
    and f: "packet_finding_title f = title" "packet_finding_summary f = summary" "packet_finding_path f = packet_path v"
      "packet_finding_id f = text_or (''receipt-finding-'' @ show_nat (i + 1)) (get_str ''id'' v)"
    using iv(3) unfolding packet_finding_of_def and_then_Inr required_string_Inr by auto
  moreover have path: "packet_path v \<noteq> []" "\<not> is_absolute (packet_path v)" using iv(2) by (simp_all add: takes_finding_def)
  moreover have "taken_from v f"
    using t packet_path_from [OF path(1)] by (auto simp: taken_from_def f text_or_def split: option.split)
  moreover have "ids \<noteq> [] \<Longrightarrow> get_str ''id'' v = Some (packet_finding_id f) \<and> packet_finding_id f \<in> set ids"
    using iv(2) by (auto simp: takes_finding_def f text_or_def split: option.splits)
  ultimately show ?thesis using that by simp
qed

lemma packet_findings_length: "packet_findings_of ids vs = Inr fs \<Longrightarrow> length fs \<le> PACKET_MAX_FINDINGS"
  using length_filter_le [of "\<lambda>(_, v). takes_finding ids v" "enumerate 0 (take PACKET_MAX_FINDINGS vs)"]
  by (auto simp: packet_findings_of_def dest!: map_result_Inr_length simp del: length_filter_le)

text \<open>
  C3: A fix packet hands off the selected findings. A packet that is built holds between one and a
  hundred findings, each of them taken from one of the first hundred findings of the stored receipt
  with its title, summary and a relative path; if identities were selected, the packet holds
  exactly findings with these identities, and at least one of each; it names the receipt's
  repository and exact source; it says that it proves nothing; and its Markdown is bounded.
\<close>

theorem packet_is_the_selection:
  assumes "build_agent_fix_packet arrange stored decode created run_id ids = Inr p"
    and "stored run_id = Inr (Some s)" and "decode s = Inr receipt"
  shows "(\<forall>f \<in> set (agent_packet_findings p).
      (\<exists>v \<in> set (take PACKET_MAX_FINDINGS (items_at ''findings'' (review_evidence_of receipt))). taken_from v f) \<and>
      packet_finding_path f \<noteq> [] \<and> \<not> is_absolute (packet_finding_path f)) \<and>
    agent_packet_findings p \<noteq> [] \<and> length (agent_packet_findings p) \<le> PACKET_MAX_FINDINGS \<and>
    (ids \<noteq> [] \<longrightarrow> packet_finding_id ` set (agent_packet_findings p) = set ids) \<and>
    agent_packet_run p = run_id \<and> packet_source_of receipt = Inr (agent_packet_source p) \<and>
    required_string receipt ''repo_path'' = Inr (agent_packet_repo p) \<and>
    handoff_limitation \<in> set (agent_packet_limitations p) \<and>
    length (agent_packet_markdown p) \<le> MAX_MARKDOWN_BYTES"
proof -
  from assms have "packet_of arrange created run_id ids receipt = Inr p"
    by (auto simp: build_agent_fix_packet_def and_then_Inr load_receipt_json_def decode_stored_receipt_def)
  then obtain fs where fs: "packet_findings_of ids (items_at ''findings'' (review_evidence_of receipt)) = Inr fs"
    and p: "set ids \<subseteq> packet_finding_id ` set fs" "fs \<noteq> []" "agent_packet_findings p = fs"
      "packet_source_of receipt = Inr (agent_packet_source p)" "required_string receipt ''repo_path'' = Inr (agent_packet_repo p)"
      "agent_packet_run p = run_id" "length (agent_packet_markdown p) \<le> MAX_MARKDOWN_BYTES"
      "handoff_limitation \<in> set (agent_packet_limitations p)"
    by (elim packet_of_Inr) simp
  have each: "(\<exists>v \<in> set (take PACKET_MAX_FINDINGS (items_at ''findings'' (review_evidence_of receipt))). taken_from v f) \<and>
      packet_finding_path f \<noteq> [] \<and> \<not> is_absolute (packet_finding_path f) \<and>
      (ids \<noteq> [] \<longrightarrow> packet_finding_id f \<in> set ids)" if "f \<in> set fs" for f
    by (rule packet_findings [OF fs that]) (auto simp: set_conv_nth intro!: exI)
  then show ?thesis using p packet_findings_length [OF fs] by blast
qed

lemma no_selection_of_unnamed:
  assumes "\<forall>v \<in> set (items_at ''findings'' (review_evidence_of receipt)). get_str ''id'' v = None"
    and "stored run_id = Inr (Some s)" and "decode s = Inr receipt" and "ids \<noteq> []"
  shows "build_agent_fix_packet arrange stored decode created run_id ids \<noteq> Inr p"
proof
  assume "build_agent_fix_packet arrange stored decode created run_id ids = Inr p"
  with assms(2,3) have "packet_of arrange created run_id ids receipt = Inr p"
    by (auto simp: build_agent_fix_packet_def and_then_Inr load_receipt_json_def decode_stored_receipt_def)
  then obtain fs where fs: "packet_findings_of ids (items_at ''findings'' (review_evidence_of receipt)) = Inr fs"
    "fs \<noteq> []" by (elim packet_of_Inr) simp
  obtain f where "f \<in> set fs" using fs(2) by (cases fs) auto
  from packet_findings [OF fs(1) this] assms(1,4) show False by (metis nth_mem option.distinct(1))
qed

lemma map_result_map:
  assumes "map_result f xs = Inr ys" and "\<And>x y. x \<in> set xs \<Longrightarrow> f x = Inr y \<Longrightarrow> g y = h x"
  shows "map g ys = map h xs"
  using assms by (induction xs arbitrary: ys) (auto simp: and_then_Inr)

text \<open>The name a packet makes up for a finding without one.\<close>

lemma unnamed_packet_finding:
  "packet_finding_of i v = Inr f \<Longrightarrow> get_str ''id'' v = None \<Longrightarrow>
     packet_finding_id f = ''receipt-finding-'' @ show_nat (i + 1)"
  by (auto simp: packet_finding_of_def and_then_Inr text_or_def)

text \<open>
  C4: Findings without an identity can be shown but not fixed. If no finding of the stored receipt
  carries an \<open>id\<close>, a packet built without a selection shows every finding with a relative path
  among the first hundred, each under a made-up name, \<open>receipt-finding-\<close> and its number in the
  receipt. But no selection whatsoever is accepted for that receipt, not even of
  the names the packet gave out, so that every attempt, which has to select identities, fails, and leaves
  the files as they are.
\<close>

theorem unnamed_findings_cannot_be_fixed:
  assumes "\<forall>v \<in> set (items_at ''findings'' (review_evidence_of receipt)). get_str ''id'' v = None"
    and "stored (fix_run_id input) = Inr (Some s)" and "decode s = Inr receipt"
    and "fix_env.build_agent_fix_packet env = packet_for_attempt arrange stored decode created"
  shows "(\<exists>e. execute_fix_attempt env app_data input fs = (fs, Inl e)) \<and>
    (\<forall>ids. ids \<noteq> [] \<longrightarrow>
       (\<exists>e. build_agent_fix_packet arrange stored decode created (fix_run_id input) ids = Inl e)) \<and>
    (\<forall>p. build_agent_fix_packet arrange stored decode created (fix_run_id input) [] = Inr p \<longrightarrow>
       agent_packet_findings p \<noteq> [] \<and>
       map packet_finding_id (agent_packet_findings p) =
         map (\<lambda>(i, _). ''receipt-finding-'' @ show_nat (i + 1))
           (filter (\<lambda>(_, v). packet_path v \<noteq> [] \<and> \<not> is_absolute (packet_path v))
             (enumerate 0 (take 100 (items_at ''findings'' (review_evidence_of receipt))))))"
proof (intro conjI allI impI)
  have refused: "\<exists>e. build_agent_fix_packet arrange stored decode created (fix_run_id input) ids = Inl e"
    if "ids \<noteq> []" for ids
    using no_selection_of_unnamed [where stored = stored and decode = decode, OF assms(1-3) that, of arrange created]
    by (cases "build_agent_fix_packet arrange stored decode created (fix_run_id input) ids") auto
  then show "\<exists>e. build_agent_fix_packet arrange stored decode created (fix_run_id input) ids = Inl e"
    if "ids \<noteq> []" for ids using that .
  have "make_attempt env app_data input \<noteq> Inr x" for x
  proof
    assume "make_attempt env app_data input = Inr x"
    then have "finding_ids input \<noteq> []"
      "\<exists>p. packet_for_attempt arrange stored decode created (fix_run_id input) (finding_ids input) = Inr p"
      by (auto simp: make_attempt_def validate_execute_input_def and_then_Inr reject_if_Inr assms(4))
    with refused [of "finding_ids input"] show False by (auto simp: packet_for_attempt_def)
  qed
  then obtain e where "make_attempt env app_data input = Inl e"
    by (cases "make_attempt env app_data input") auto
  then show "\<exists>e. execute_fix_attempt env app_data input fs = (fs, Inl e)" by (simp add: execute_fix_attempt_def)
next
  fix p assume "build_agent_fix_packet arrange stored decode created (fix_run_id input) [] = Inr p"
  with assms(2,3) have "packet_of arrange created (fix_run_id input) [] receipt = Inr p"
    by (auto simp: build_agent_fix_packet_def and_then_Inr load_receipt_json_def decode_stored_receipt_def)
  then have fs: "packet_findings_of [] (items_at ''findings'' (review_evidence_of receipt)) = Inr (agent_packet_findings p)"
    "agent_packet_findings p \<noteq> []" by (elim packet_of_Inr, simp)+
  show "agent_packet_findings p \<noteq> []" by (rule fs(2))
  show "map packet_finding_id (agent_packet_findings p) =
      map (\<lambda>(i, _). ''receipt-finding-'' @ show_nat (i + 1))
        (filter (\<lambda>(_, v). packet_path v \<noteq> [] \<and> \<not> is_absolute (packet_path v))
          (enumerate 0 (take 100 (items_at ''findings'' (review_evidence_of receipt)))))"
  proof (rule map_result_map)
    show "map_result (\<lambda>(i, v). packet_finding_of i v)
        (filter (\<lambda>(_, v). packet_path v \<noteq> [] \<and> \<not> is_absolute (packet_path v))
          (enumerate 0 (take 100 (items_at ''findings'' (review_evidence_of receipt))))) = Inr (agent_packet_findings p)"
      using fs(1) by (simp add: packet_findings_of_def takes_finding_def PACKET_MAX_FINDINGS_def)
    fix x f assume "x \<in> set (filter (\<lambda>(_, v). packet_path v \<noteq> [] \<and> \<not> is_absolute (packet_path v))
          (enumerate 0 (take 100 (items_at ''findings'' (review_evidence_of receipt)))))"
      and f: "(case x of (i, v) \<Rightarrow> packet_finding_of i v) = Inr f"
    then have "snd x \<in> set (items_at ''findings'' (review_evidence_of receipt))"
      by (auto simp: in_set_enumerate_eq dest: in_set_takeD)
    with assms(1) f show "packet_finding_id f = (case x of (i, _) \<Rightarrow> ''receipt-finding-'' @ show_nat (i + 1))"
      by (cases x) (auto dest: unnamed_packet_finding)
  qed
qed

section \<open>Examples\<close>

definition example_finding :: "(string \<times> json) list \<Rightarrow> json" where
  "example_finding extra =
     object_of ([(''title'', String ''t''), (''summary'', String ''s''), (''filePath'', String ''a.js'')] @ extra)"

definition example_receipt :: "json list \<Rightarrow> json" where
  "example_receipt findings =
     object_of [(''schema_version'', String LOCAL_CHECK_SCHEMA), (''repo_path'', String ''/r''), (''task'', String ''g''),
       (''source'', object_of [(''input'', String ''i''), (''base_sha'', String ''b''), (''head_sha'', String ''h'')]),
       (''stages'', object_of [(''review'', object_of [(''evidence'', object_of [(''findings'', Array findings)])])])]"

definition example_named :: json where
  "example_named = example_receipt [example_finding [(''id'', String ''f'')], example_finding []]"

definition example_unnamed :: json where
  "example_unnamed = example_receipt [example_finding []]"

lemma example_packet:
  "case build_agent_fix_packet (\<lambda>is. is) (\<lambda>_. Inr (Some [])) (\<lambda>_. Inr example_named) ''now'' ''r1'' [''f''] of
     Inl _ \<Rightarrow> False | Inr p \<Rightarrow> length (agent_packet_findings p) = 1"
  by code_simp

theorem packet_is_the_selection_witness:
  "\<exists>p. build_agent_fix_packet (\<lambda>is. is) (\<lambda>_. Inr (Some [])) (\<lambda>_. Inr example_named) ''now'' ''r1'' [''f''] = Inr p \<and>
     packet_finding_id ` set (agent_packet_findings p) = {''f''} \<and> agent_packet_run p = ''r1''"
proof -
  from example_packet obtain p where
    p: "build_agent_fix_packet (\<lambda>is. is) (\<lambda>_. Inr (Some [])) (\<lambda>_. Inr example_named) ''now'' ''r1'' [''f''] = Inr p"
    by (auto split: sum.splits)
  from packet_is_the_selection [OF this refl refl] show ?thesis using p by auto
qed

lemma example_unnamed_findings: "items_at ''findings'' (review_evidence_of example_unnamed) = [example_finding []]"
  "get_str ''id'' (example_finding []) = None"
  by code_simp+

lemma example_unnamed_packet:
  "case build_agent_fix_packet (\<lambda>is. is) (\<lambda>_. Inr (Some [])) (\<lambda>_. Inr example_unnamed) ''now'' ''r1'' [] of
     Inl _ \<Rightarrow> False | Inr p \<Rightarrow> length (agent_packet_findings p) = 1"
  by code_simp

lemma example_unnamed_names:
  "map (\<lambda>(i, _). ''receipt-finding-'' @ show_nat (i + 1))
     (filter (\<lambda>(_, v). packet_path v \<noteq> [] \<and> \<not> is_absolute (packet_path v))
       (enumerate 0 (take 100 (items_at ''findings'' (review_evidence_of example_unnamed))))) = [''receipt-finding-1'']"
  by code_simp

text \<open>An attempt that selects the very name the packet gave its finding.\<close>

definition example_selecting :: fix_attempt_input where
  "example_selecting = sample_fix_input\<lparr>finding_ids := [''receipt-finding-1'']\<rparr>"

theorem unnamed_findings_cannot_be_fixed_witness:
  "\<exists>p e. build_agent_fix_packet (\<lambda>is. is) (\<lambda>_. Inr (Some [])) (\<lambda>_. Inr example_unnamed) ''now'' ''r1'' [] = Inr p \<and>
     map packet_finding_id (agent_packet_findings p) = finding_ids example_selecting \<and>
     execute_fix_attempt (sample_fix_env\<lparr>build_agent_fix_packet :=
        packet_for_attempt (\<lambda>is. is) (\<lambda>_. Inr (Some [])) (\<lambda>_. Inr example_unnamed) ''now''\<rparr>)
       ''/d'' example_selecting Map.empty = (Map.empty, Inl e)"
proof -
  let ?env = "sample_fix_env\<lparr>build_agent_fix_packet :=
        packet_for_attempt (\<lambda>is. is) (\<lambda>_. Inr (Some [])) (\<lambda>_. Inr example_unnamed) ''now''\<rparr>"
  have run: "fix_run_id example_selecting = ''r1''" by (simp add: example_selecting_def sample_fix_input_def)
  from example_unnamed_packet obtain p where
    p: "build_agent_fix_packet (\<lambda>is. is) (\<lambda>_. Inr (Some [])) (\<lambda>_. Inr example_unnamed) ''now'' ''r1'' [] = Inr p"
    by (auto split: sum.splits)
  have unnamed: "\<forall>v \<in> set (items_at ''findings'' (review_evidence_of example_unnamed)). get_str ''id'' v = None"
    by (simp add: example_unnamed_findings)
  have builder: "fix_env.build_agent_fix_packet ?env =
      packet_for_attempt (\<lambda>is. is) (\<lambda>_. Inr (Some [])) (\<lambda>_. Inr example_unnamed) ''now''" by simp
  from unnamed_findings_cannot_be_fixed [where input = example_selecting and stored = "\<lambda>_. Inr (Some [])" and
      decode = "\<lambda>_. Inr example_unnamed", OF unnamed refl refl builder, of "''/d''" Map.empty]
  show ?thesis using p unfolding run example_unnamed_names by (auto simp: example_selecting_def)
qed

end
