(* ===== verification/ArchInvalidation.thy ===== *)
theory ArchInvalidation
  imports Prelude
begin

text \<open>
  Planning of incremental archaeology refreshes,
  \<open>commands/business_rule_archaeology/invalidation.rs\<close>: the bounded closure of changed paths
  under reverse dependencies, and the classification of generation-input drift. The cancellation
  flag may be set at any time; \<open>cancel n\<close> is what the \<open>n\<close>-th poll of it answers.
\<close>

section \<open>Data\<close>

datatype dependency_kind = Include | Copybook | Macro | Symbol | Call | Data | Rule

text \<open>The derived order of the enumeration is the order of its variants.\<close>

primrec dependency_rank :: "dependency_kind \<Rightarrow> nat" where
  "dependency_rank Include = 0"
| "dependency_rank Copybook = 1"
| "dependency_rank Macro = 2"
| "dependency_rank Symbol = 3"
| "dependency_rank Call = 4"
| "dependency_rank Data = 5"
| "dependency_rank Rule = 6"

lemma dependency_rank_inject: "dependency_rank a = dependency_rank b \<longleftrightarrow> a = b"
  by (cases a; cases b) simp_all

instantiation dependency_kind :: linorder
begin

definition less_eq_dependency_kind :: "dependency_kind \<Rightarrow> dependency_kind \<Rightarrow> bool" where
  "less_eq_dependency_kind a b \<longleftrightarrow> dependency_rank a \<le> dependency_rank b"

definition less_dependency_kind :: "dependency_kind \<Rightarrow> dependency_kind \<Rightarrow> bool" where
  "less_dependency_kind a b \<longleftrightarrow> dependency_rank a < dependency_rank b"

instance
  by standard (auto simp: less_eq_dependency_kind_def less_dependency_kind_def
      dependency_rank_inject)

end

record source_dependency =
  dependent_path_identity :: string
  prerequisite_path_identity :: string
  dependency_kind :: dependency_kind

record invalidation_limits =
  max_seed_paths :: nat
  max_dependencies :: nat
  max_invalidated_paths :: nat
  max_depth :: nat
  max_identity_bytes :: nat
  max_input_bytes :: nat
  max_output_bytes :: nat

definition default_limits :: invalidation_limits where
  "default_limits =
     \<lparr>max_seed_paths = 250000, max_dependencies = 1000000, max_invalidated_paths = 250000,
      max_depth = 256, max_identity_bytes = 256, max_input_bytes = 256 * 1024 * 1024,
      max_output_bytes = 64 * 1024 * 1024\<rparr>"

record invalidated_path =
  path_identity :: string
  path_depth :: nat
  path_via :: "dependency_kind list"

section \<open>Validators\<close>

definition validate_limits :: "invalidation_limits \<Rightarrow> unit result" where
  "validate_limits l =
     reject_if (max_seed_paths l = 0 \<or> max_dependencies l = 0 \<or> max_invalidated_paths l = 0
                \<or> max_identity_bytes l = 0 \<or> max_input_bytes l = 0 \<or> max_output_bytes l = 0)
       ''Archaeology invalidation limits are invalid''"

definition validate_path_identity :: "string \<Rightarrow> nat \<Rightarrow> string \<Rightarrow> unit result" where
  "validate_path_identity v max_bytes label =
     reject_if (v = [] \<or> max_bytes < length v
                \<or> list_ex (\<lambda>c. is_ascii_control c \<or> is_ascii_whitespace c) v)
       (''Archaeology '' @ label @ '' identity is invalid'')"

text \<open>\<open>usize\<close> is 64 bits wide; the addition saturates.\<close>

definition saturating_add :: "nat \<Rightarrow> nat \<Rightarrow> nat" where
  "saturating_add a b = min (a + b) (2 ^ 64 - 1)"

definition add_bounded :: "nat \<Rightarrow> nat \<Rightarrow> nat \<Rightarrow> nat result" where
  "add_bounded running v limit =
     (let sum = saturating_add running v
      in if limit < sum then Inl ''Archaeology invalidation byte bound exceeded'' else Inr sum)"

definition poll :: "(nat \<Rightarrow> bool) \<Rightarrow> nat \<Rightarrow> nat result" where
  "poll cancel n =
     (if cancel n then Inl ''Archaeology invalidation cancelled'' else Inr (Suc n))"

section \<open>Reading the input\<close>

record input_state =
  input_polls :: nat
  input_bytes :: nat
  seeds :: "string bset"
  reverse_edges :: "(string, source_dependency list) bmap"
  unique_edges :: "(string \<times> string \<times> dependency_kind) bset"

definition add_seed ::
  "invalidation_limits \<Rightarrow> (nat \<Rightarrow> bool) \<Rightarrow> string \<Rightarrow> input_state \<Rightarrow> input_state result" where
  "add_seed l cancel path st =
     and_then (poll cancel (input_polls st)) (\<lambda>polls.
     and_then (validate_path_identity path (max_identity_bytes l) ''seed path'') (\<lambda>_.
     and_then (add_bounded (input_bytes st) (length path) (max_input_bytes l)) (\<lambda>bytes.
     if path \<in> set (seeds st)
     then Inl ''Archaeology invalidation seed identity is duplicated''
     else Inr (st\<lparr>input_polls := polls, input_bytes := bytes, seeds := bset_insert path (seeds st)\<rparr>))))"

definition edge_key :: "source_dependency \<Rightarrow> string \<times> string \<times> dependency_kind" where
  "edge_key e = (dependent_path_identity e, prerequisite_path_identity e, dependency_kind e)"

definition add_dependency ::
  "invalidation_limits \<Rightarrow> (nat \<Rightarrow> bool) \<Rightarrow> source_dependency \<Rightarrow> input_state \<Rightarrow> input_state result" where
  "add_dependency l cancel e st =
     and_then (poll cancel (input_polls st)) (\<lambda>polls.
     and_then (validate_path_identity (dependent_path_identity e) (max_identity_bytes l) ''dependent path'') (\<lambda>_.
     and_then (validate_path_identity (prerequisite_path_identity e) (max_identity_bytes l) ''prerequisite path'') (\<lambda>_.
     and_then (reject_if (dependent_path_identity e = prerequisite_path_identity e)
                 ''Archaeology invalidation self dependency is invalid'') (\<lambda>_.
     and_then (add_bounded (input_bytes st)
                 (saturating_add
                    (saturating_add (length (dependent_path_identity e)) (length (prerequisite_path_identity e))) 16)
                 (max_input_bytes l)) (\<lambda>bytes.
     if edge_key e \<in> set (unique_edges st)
     then Inl ''Archaeology invalidation dependency is duplicated''
     else Inr (st\<lparr>input_polls := polls, input_bytes := bytes,
                  unique_edges := bset_insert (edge_key e) (unique_edges st),
                  reverse_edges := bmap_insert (prerequisite_path_identity e)
                    ((case map_of (reverse_edges st) (prerequisite_path_identity e) of
                        None \<Rightarrow> [] | Some es \<Rightarrow> es) @ [e]) (reverse_edges st)\<rparr>))))))"

definition edge_order :: "source_dependency \<Rightarrow> string \<times> dependency_kind \<times> string" where
  "edge_order e = (dependent_path_identity e, dependency_kind e, prerequisite_path_identity e)"

section \<open>The closure\<close>

record closure_state =
  polls :: nat
  output_bytes :: nat
  discovered :: "(string, nat \<times> dependency_kind bset) bmap"
  queue :: "string list"

definition start_seed ::
  "invalidation_limits \<Rightarrow> string \<Rightarrow> closure_state \<Rightarrow> closure_state result" where
  "start_seed l seed st =
     and_then (add_bounded (output_bytes st) (length seed + 16) (max_output_bytes l)) (\<lambda>bytes.
       Inr (st\<lparr>output_bytes := bytes, discovered := bmap_insert seed (0, []) (discovered st),
               queue := queue st @ [seed]\<rparr>))"

definition rediscover ::
  "invalidation_limits \<Rightarrow> nat \<Rightarrow> source_dependency \<Rightarrow> nat \<Rightarrow> dependency_kind bset \<Rightarrow>
   closure_state \<Rightarrow> closure_state result" where
  "rediscover l next_depth e known_depth kinds st =
     (let fresh = (known_depth \<noteq> 0 \<and> dependency_kind e \<notin> set kinds);
          kinds' = (if known_depth \<noteq> 0 then bset_insert (dependency_kind e) kinds else kinds)
      in and_then (if fresh then add_bounded (output_bytes st) 16 (max_output_bytes l)
                   else Inr (output_bytes st)) (\<lambda>bytes.
         if next_depth < known_depth
         then Inr (st\<lparr>output_bytes := bytes,
                      discovered := bmap_insert (dependent_path_identity e) (next_depth, kinds') (discovered st),
                      queue := queue st @ [dependent_path_identity e]\<rparr>)
         else Inr (st\<lparr>output_bytes := bytes,
                      discovered := bmap_insert (dependent_path_identity e) (known_depth, kinds') (discovered st)\<rparr>)))"

definition visit_edge ::
  "invalidation_limits \<Rightarrow> (nat \<Rightarrow> bool) \<Rightarrow> nat \<Rightarrow> source_dependency \<Rightarrow> closure_state \<Rightarrow>
   closure_state result" where
  "visit_edge l cancel depth e st =
     and_then (poll cancel (polls st)) (\<lambda>n.
     and_then (if 2 ^ 64 \<le> depth + 1 then Inl ''Archaeology invalidation depth overflowed''
               else Inr (depth + 1)) (\<lambda>next_depth.
     and_then (reject_if (max_depth l < next_depth
                          \<and> map_of (discovered st) (dependent_path_identity e) = None)
                 ''Archaeology invalidation depth bound exceeded'') (\<lambda>_.
     case map_of (discovered st) (dependent_path_identity e) of
       Some (known_depth, kinds) \<Rightarrow> rediscover l next_depth e known_depth kinds (st\<lparr>polls := n\<rparr>)
     | None \<Rightarrow>
         if length (discovered st) = max_invalidated_paths l
         then Inl ''Archaeology invalidation path bound exceeded''
         else and_then (add_bounded (output_bytes st) (length (dependent_path_identity e) + 24)
                          (max_output_bytes l)) (\<lambda>bytes.
           Inr (st\<lparr>polls := n, output_bytes := bytes,
                   discovered := bmap_insert (dependent_path_identity e)
                     (next_depth, [dependency_kind e]) (discovered st),
                   queue := queue st @ [dependent_path_identity e]\<rparr>)))))"

definition edges_of :: "(string, source_dependency list) bmap \<Rightarrow> string \<Rightarrow> source_dependency list" where
  "edges_of reverse p = (case map_of reverse p of None \<Rightarrow> [] | Some es \<Rightarrow> es)"

definition expand_path ::
  "invalidation_limits \<Rightarrow> (nat \<Rightarrow> bool) \<Rightarrow> (string, source_dependency list) bmap \<Rightarrow> string \<Rightarrow>
   closure_state \<Rightarrow> closure_state result" where
  "expand_path l cancel reverse p st =
     and_then (poll cancel (polls st)) (\<lambda>n.
       case map_of (discovered st) p of
         None \<Rightarrow> Inl ''Archaeology invalidation queue became inconsistent''
       | Some (depth, _) \<Rightarrow>
           fold_result (visit_edge l cancel depth) (edges_of reverse p) (st\<lparr>polls := n\<rparr>))"

text \<open>
  The loop ends because each step discovers a path, or lowers the depth of a known one, or takes
  one off the queue.
\<close>

definition targets :: "(string, source_dependency list) bmap \<Rightarrow> string set" where
  "targets reverse = (\<Union>p. dependent_path_identity ` set (edges_of reverse p))"

definition undiscovered :: "(string, source_dependency list) bmap \<Rightarrow> closure_state \<Rightarrow> nat" where
  "undiscovered reverse st = card (targets reverse - dom (map_of (discovered st)))"

definition depth_sum :: "closure_state \<Rightarrow> nat" where
  "depth_sum st = (\<Sum>x \<in> dom (map_of (discovered st)). fst (the (map_of (discovered st) x)))"

lemma in_edges_of: "e \<in> set (edges_of r p) \<longleftrightarrow> (\<exists>es. map_of r p = Some es \<and> e \<in> set es)"
  by (cases "map_of r p") (auto simp: edges_of_def)

lemma finite_targets: "finite (targets reverse)"
proof -
  have "targets reverse \<subseteq> dependent_path_identity ` (\<Union>pes \<in> set reverse. set (snd pes))"
  proof
    fix t assume "t \<in> targets reverse"
    then obtain p es e where "map_of reverse p = Some es" "e \<in> set es" "t = dependent_path_identity e"
      by (auto simp: targets_def in_edges_of)
    then show "t \<in> dependent_path_identity ` (\<Union>pes \<in> set reverse. set (snd pes))"
      by (auto dest!: map_of_SomeD intro!: imageI bexI [of _ "(p, es)"])
  qed
  then show ?thesis by (rule finite_subset) auto
qed

definition no_later :: "(string, source_dependency list) bmap \<Rightarrow> closure_state \<Rightarrow> closure_state \<Rightarrow> bool" where
  "no_later reverse st' st \<longleftrightarrow>
     undiscovered reverse st' < undiscovered reverse st \<or>
     undiscovered reverse st' = undiscovered reverse st \<and> depth_sum st' < depth_sum st \<or>
     undiscovered reverse st' = undiscovered reverse st \<and> depth_sum st' = depth_sum st \<and>
       queue st' = queue st"

lemma depth_sum_insert:
  assumes "map_of (discovered st) x = Some (d, ks)"
    and "map_of (discovered st') = (map_of (discovered st))(x \<mapsto> (d', ks'))"
  shows "depth_sum st' + d = depth_sum st + d'"
proof -
  let ?D = "dom (map_of (discovered st)) - {x}"
  have rest: "(\<Sum>y \<in> ?D. fst (the (map_of (discovered st') y))) = (\<Sum>y \<in> ?D. fst (the (map_of (discovered st) y)))"
    by (rule sum.cong) (auto simp: assms(2))
  have "dom (map_of (discovered st')) - {x} = ?D" by (auto simp: assms(2))
  with sum.remove [of "dom (map_of (discovered st'))" x "\<lambda>y. fst (the (map_of (discovered st') y))"]
  have "depth_sum st' = d' + (\<Sum>y \<in> ?D. fst (the (map_of (discovered st) y)))"
    by (simp add: depth_sum_def finite_dom_map_of assms(2) rest)
  moreover have "depth_sum st = d + (\<Sum>y \<in> ?D. fst (the (map_of (discovered st) y)))"
    using sum.remove [of "dom (map_of (discovered st))" x "\<lambda>y. fst (the (map_of (discovered st) y))"]
    by (simp add: depth_sum_def finite_dom_map_of assms(1) domI)
  ultimately show ?thesis by simp
qed

lemma visit_edge_no_later:
  assumes "visit_edge l cancel depth e st = Inr st'" and "dependent_path_identity e \<in> targets reverse"
  shows "no_later reverse st' st"
proof (cases "map_of (discovered st) (dependent_path_identity e)")
  case None
  then have "map_of (discovered st') = (map_of (discovered st))
      (dependent_path_identity e \<mapsto> (depth + 1, [dependency_kind e]))"
    using assms(1) by (auto simp: visit_edge_def result_simps Let_def split: if_splits)
  then have "targets reverse - dom (map_of (discovered st')) \<subset> targets reverse - dom (map_of (discovered st))"
    using None assms(2) by auto
  then show ?thesis
    using finite_targets [of reverse] by (auto simp: no_later_def undiscovered_def intro!: psubset_card_mono)
next
  case (Some dk)
  obtain d ks where dk: "dk = (d, ks)" by (cases dk)
  obtain d' ks' where st': "map_of (discovered st') = (map_of (discovered st))(dependent_path_identity e \<mapsto> (d', ks'))"
    and less: "d' < d \<or> d' = d \<and> queue st' = queue st"
    using assms(1) Some dk
    by (fastforce simp: visit_edge_def rediscover_def result_simps Let_def split: if_splits)
  have "undiscovered reverse st' = undiscovered reverse st"
    using Some by (simp add: undiscovered_def st' insert_absorb domIff)
  moreover have "depth_sum st' + d = depth_sum st + d'"
    using depth_sum_insert [OF _ st'] Some dk by simp
  ultimately show ?thesis using less by (auto simp: no_later_def)
qed

lemma no_later_trans:
  "no_later reverse a b \<Longrightarrow> no_later reverse b c \<Longrightarrow> no_later reverse a c"
  by (auto simp: no_later_def)

lemma expand_path_no_later:
  assumes "expand_path l cancel reverse p st = Inr st'"
  shows "no_later reverse st' st"
proof -
  from assms obtain n depth where
    "fold_result (visit_edge l cancel depth) (edges_of reverse p) (st\<lparr>polls := n\<rparr>) = Inr st'"
    by (auto simp: expand_path_def result_simps split: option.splits)
  then have "no_later reverse st' (st\<lparr>polls := n\<rparr>)"
  proof (rule fold_result_invariant [where I = "\<lambda>s. no_later reverse s (st\<lparr>polls := n\<rparr>)"])
    show "no_later reverse (st\<lparr>polls := n\<rparr>) (st\<lparr>polls := n\<rparr>)" by (simp add: no_later_def)
    fix e s t
    assume "e \<in> set (edges_of reverse p)" and "visit_edge l cancel depth e s = Inr t"
      and "no_later reverse s (st\<lparr>polls := n\<rparr>)"
    then show "no_later reverse t (st\<lparr>polls := n\<rparr>)"
      using visit_edge_no_later no_later_trans by (fastforce simp: targets_def)
  qed
  then show ?thesis by (simp add: no_later_def undiscovered_def depth_sum_def)
qed

function closure_loop ::
  "invalidation_limits \<Rightarrow> (nat \<Rightarrow> bool) \<Rightarrow> (string, source_dependency list) bmap \<Rightarrow>
   closure_state \<Rightarrow> closure_state result" where
  "closure_loop l cancel reverse st =
     (case queue st of
        [] \<Rightarrow> Inr st
      | p # rest \<Rightarrow>
          (case expand_path l cancel reverse p (st\<lparr>queue := rest\<rparr>) of
             Inl e \<Rightarrow> Inl e
           | Inr st' \<Rightarrow> closure_loop l cancel reverse st'))"
  by pat_completeness auto
termination
proof (relation "measures [\<lambda>(l, c, reverse, st). undiscovered reverse st,
    \<lambda>(l, c, reverse, st). depth_sum st, \<lambda>(l, c, reverse, st). length (queue st)]")
  fix l cancel reverse st p rest st'
  assume "queue st = p # rest" and "expand_path l cancel reverse p (st\<lparr>queue := rest\<rparr>) = Inr st'"
  then show "((l, cancel, reverse, st'), l, cancel, reverse, st)
      \<in> measures [\<lambda>(l, c, reverse, st). undiscovered reverse st,
          \<lambda>(l, c, reverse, st). depth_sum st, \<lambda>(l, c, reverse, st). length (queue st)]"
    using expand_path_no_later [of l cancel reverse p "st\<lparr>queue := rest\<rparr>" st']
    by (auto simp: no_later_def undiscovered_def depth_sum_def)
qed simp

declare closure_loop.simps [simp del]

lemma closure_loop_steps:
  "queue st = [] \<Longrightarrow> closure_loop l cancel reverse st = Inr st"
  "queue st = p # rest \<Longrightarrow> closure_loop l cancel reverse st =
     and_then (expand_path l cancel reverse p (st\<lparr>queue := rest\<rparr>)) (closure_loop l cancel reverse)"
proof -
  assume "queue st = p # rest"
  then show "closure_loop l cancel reverse st =
      and_then (expand_path l cancel reverse p (st\<lparr>queue := rest\<rparr>)) (closure_loop l cancel reverse)"
    by (cases "expand_path l cancel reverse p (st\<lparr>queue := rest\<rparr>)")
      (simp_all add: closure_loop.simps [of _ _ _ st])
qed (simp add: closure_loop.simps [of _ _ _ st])

definition invalidated_paths :: "(string, nat \<times> dependency_kind bset) bmap \<Rightarrow> invalidated_path list" where
  "invalidated_paths disc =
     map (\<lambda>(p, d, via). \<lparr>path_identity = p, path_depth = d, path_via = via\<rparr>) disc"

definition reverse_dependency_closure ::
  "string list \<Rightarrow> source_dependency list \<Rightarrow> (nat \<Rightarrow> bool) \<Rightarrow> invalidation_limits \<Rightarrow>
   invalidated_path list result" where
  "reverse_dependency_closure seed_paths dependencies cancel l =
     and_then (poll cancel 0) (\<lambda>n.
     and_then (validate_limits l) (\<lambda>_.
     and_then (reject_if (max_seed_paths l < length seed_paths)
                 ''Archaeology invalidation seed bound exceeded'') (\<lambda>_.
     and_then (reject_if (max_dependencies l < length dependencies)
                 ''Archaeology invalidation dependency bound exceeded'') (\<lambda>_.
     and_then (fold_result (add_seed l cancel) seed_paths
                 \<lparr>input_polls = n, input_bytes = 0, seeds = [], reverse_edges = [], unique_edges = []\<rparr>) (\<lambda>st0.
     and_then (fold_result (add_dependency l cancel) dependencies st0) (\<lambda>st1.
     let reverse = map (\<lambda>(p, es). (p, sort_key edge_order es)) (reverse_edges st1)
     in and_then (reject_if (max_invalidated_paths l < length (seeds st1))
                    ''Archaeology invalidation path bound exceeded'') (\<lambda>_.
        and_then (fold_result (start_seed l) (seeds st1)
                    \<lparr>polls = input_polls st1, output_bytes = 0, discovered = [], queue = []\<rparr>) (\<lambda>start.
        and_then (closure_loop l cancel reverse start) (\<lambda>final.
        and_then (poll cancel (polls final)) (\<lambda>_.
          Inr (invalidated_paths (discovered final))))))))))))"

section \<open>Specification\<close>

text \<open>The reverse-dependency hops that lead from a seed to a path.\<close>

inductive hops :: "string set \<Rightarrow> source_dependency set \<Rightarrow> nat \<Rightarrow> string \<Rightarrow> bool"
  for S :: "string set" and E :: "source_dependency set" where
  seed: "x \<in> S \<Longrightarrow> hops S E 0 x"
| hop: "hops S E n (prerequisite_path_identity e) \<Longrightarrow> e \<in> E \<Longrightarrow> hops S E (Suc n) (dependent_path_identity e)"

inductive_cases hops_ZeroE: "hops S E 0 x"

definition affected :: "string set \<Rightarrow> source_dependency set \<Rightarrow> string \<Rightarrow> bool" where
  "affected S E x \<longleftrightarrow> (\<exists>n. hops S E n x)"

section \<open>The loop's invariant\<close>

text \<open>
  What holds of an edge once the path it starts from has been expanded; \<open>pending\<close> is the set of
  edges of the path under expansion that are still to be visited.
\<close>

definition edge_done :: "closure_state \<Rightarrow> source_dependency \<Rightarrow> bool" where
  "edge_done st e \<longleftrightarrow>
     (\<forall>d ks. map_of (discovered st) (prerequisite_path_identity e) = Some (d, ks) \<longrightarrow>
        (\<exists>d' ks'. map_of (discovered st) (dependent_path_identity e) = Some (d', ks') \<and> d' \<le> Suc d \<and>
           (d' \<noteq> 0 \<longrightarrow> dependency_kind e \<in> set ks')))"

definition path_sound :: "string set \<Rightarrow> source_dependency set \<Rightarrow> invalidation_limits \<Rightarrow> closure_state \<Rightarrow>
    string \<Rightarrow> nat \<Rightarrow> dependency_kind bset \<Rightarrow> bool" where
  "path_sound S E l st x d ks \<longleftrightarrow>
     hops S E d x \<and> (d = 0 \<longleftrightarrow> x \<in> S) \<and> d \<le> max_depth l + (if x \<in> S then d else 0) \<and>
     bset_ok ks \<and> (x \<in> S \<longrightarrow> ks = []) \<and>
     (\<forall>k \<in> set ks. \<exists>e \<in> E. dependent_path_identity e = x \<and> dependency_kind e = k \<and>
        prerequisite_path_identity e \<in> dom (map_of (discovered st)))"

definition closure_inv :: "string set \<Rightarrow> source_dependency set \<Rightarrow> invalidation_limits \<Rightarrow>
    source_dependency set \<Rightarrow> closure_state \<Rightarrow> bool" where
  "closure_inv S E l pending st \<longleftrightarrow>
     bmap_ok (discovered st) \<and>
     (\<forall>x d ks. map_of (discovered st) x = Some (d, ks) \<longrightarrow> path_sound S E l st x d ks) \<and>
     S \<subseteq> dom (map_of (discovered st)) \<and> set (queue st) \<subseteq> dom (map_of (discovered st)) \<and>
     length (discovered st) \<le> max_invalidated_paths l \<and>
     (\<forall>e \<in> E - pending. prerequisite_path_identity e \<in> set (queue st) \<or> edge_done st e)"

lemma closure_inv_polls [simp]: "closure_inv S E l P (st\<lparr>polls := n\<rparr>) \<longleftrightarrow> closure_inv S E l P st"
  by (simp add: closure_inv_def path_sound_def edge_done_def)

text \<open>One update of a path's entry keeps the invariant, whichever branch of the visit made it.\<close>

lemma closure_inv_update:
  assumes inv: "closure_inv S E l (insert e P) st"
    and p: "map_of (discovered st) (prerequisite_path_identity e) = Some (depth, kp)"
    and ne: "prerequisite_path_identity e \<noteq> dependent_path_identity e"
    and st': "discovered st' = bmap_insert (dependent_path_identity e) (d', ks') (discovered st)"
    and sound: "path_sound S E l st (dependent_path_identity e) d' ks'"
    and le: "d' \<le> Suc depth" "d' \<noteq> 0 \<Longrightarrow> dependency_kind e \<in> set ks'"
    and old: "\<And>d ks. map_of (discovered st) (dependent_path_identity e) = Some (d, ks) \<Longrightarrow>
        d' \<le> d \<and> set ks \<subseteq> set ks' \<and> (d' < d \<longrightarrow> dependent_path_identity e \<in> set (queue st'))"
    and new: "map_of (discovered st) (dependent_path_identity e) = None \<Longrightarrow> dependent_path_identity e \<in> set (queue st')"
    and q: "set (queue st) \<subseteq> set (queue st')" "set (queue st') \<subseteq> insert (dependent_path_identity e) (set (queue st))"
    and len: "length (discovered st') \<le> max_invalidated_paths l"
  shows "closure_inv S E l P st'"
proof -
  let ?x = "dependent_path_identity e"
  have m: "map_of (discovered st') = (map_of (discovered st))(?x \<mapsto> (d', ks'))" by (simp add: st')
  have sound': "path_sound S E l st' x d ks" if "path_sound S E l st x d ks" for x d ks
    using that unfolding path_sound_def m by fastforce
  have up: "\<exists>a' b'. map_of (discovered st') y = Some (a', b') \<and> a' \<le> a \<and> set b \<subseteq> set b'"
    if "map_of (discovered st) y = Some (a, b)" for y a b
    using that old by (cases "y = ?x") (auto simp: m)
  have "prerequisite_path_identity f \<in> set (queue st') \<or> edge_done st' f" if f: "f \<in> E - P" for f
  proof (cases "prerequisite_path_identity f \<in> set (queue st') \<or> f = e")
    case True
    then show ?thesis using p le ne by (auto simp: edge_done_def m)
  next
    case False
    with f inv q(1) have done_f: "edge_done st f" by (auto simp: closure_inv_def)
    have "edge_done st' f" unfolding edge_done_def
    proof (intro allI impI)
      fix a b assume ab: "map_of (discovered st') (prerequisite_path_identity f) = Some (a, b)"
      have "\<exists>b'. map_of (discovered st) (prerequisite_path_identity f) = Some (a, b')"
      proof (cases "prerequisite_path_identity f = ?x")
        case True
        with ab False new obtain d ks where "map_of (discovered st) ?x = Some (d, ks)" "a = d'"
          by (cases "map_of (discovered st) ?x") (auto simp: m)
        with old False True show ?thesis by force
      qed (use ab in \<open>simp add: m\<close>)
      with done_f obtain d1 k1 where d1: "map_of (discovered st) (dependent_path_identity f) = Some (d1, k1)"
        "d1 \<le> Suc a" "d1 \<noteq> 0 \<longrightarrow> dependency_kind f \<in> set k1" by (auto simp: edge_done_def)
      with up [OF d1(1)] show "\<exists>d' ks'. map_of (discovered st') (dependent_path_identity f) = Some (d', ks') \<and>
          d' \<le> Suc a \<and> (d' \<noteq> 0 \<longrightarrow> dependency_kind f \<in> set ks')" by fastforce
    qed
    then show ?thesis ..
  qed
  moreover have "path_sound S E l st' x d ks" if "map_of (discovered st') x = Some (d, ks)" for x d ks
    using that inv sound sound' by (cases "x = ?x") (auto simp: m closure_inv_def)
  moreover have "bmap_ok (discovered st')" using inv by (auto simp: st' closure_inv_def)
  moreover have "S \<subseteq> dom (map_of (discovered st'))" "set (queue st') \<subseteq> dom (map_of (discovered st'))"
    using inv q(2) by (auto simp: closure_inv_def m)
  ultimately show ?thesis using len by (simp add: closure_inv_def)
qed

lemma length_bmap_insert:
  assumes "bmap_ok m"
  shows "length (bmap_insert k v m) = (if map_of m k = None then Suc (length m) else length m)"
proof -
  have "length m = card (fst ` set m)" "length (bmap_insert k v m) = card (fst ` set (bmap_insert k v m))"
    using bmap_ok_distinct [OF assms] bmap_ok_distinct [OF bmap_insert_ok [OF assms]]
    by (metis distinct_card length_map list.set_map)+
  then show ?thesis by (auto simp: insert_absorb card_insert_if map_of_eq_None_iff)
qed

lemma visit_edge_inv:
  assumes visit: "visit_edge l cancel depth e st = Inr st'"
    and inv: "closure_inv S E l (insert e P) st" and e: "e \<in> E"
    and ne: "\<forall>e \<in> E. prerequisite_path_identity e \<noteq> dependent_path_identity e"
    and p: "map_of (discovered st) (prerequisite_path_identity e) = Some (depth, kp)"
  shows "closure_inv S E l P st' \<and>
    map_of (discovered st') (prerequisite_path_identity e) = Some (depth, kp)"
proof -
  let ?x = "dependent_path_identity e"
  have p_sound: "path_sound S E l st (prerequisite_path_identity e) depth kp"
    using inv p by (auto simp: closure_inv_def)
  have hop: "hops S E (Suc depth) ?x"
    using p_sound e by (auto simp: path_sound_def intro: hops.hop)
  have from_p: "\<exists>f \<in> E. dependent_path_identity f = ?x \<and> dependency_kind f = dependency_kind e \<and>
      prerequisite_path_identity f \<in> dom (map_of (discovered st))"
    using e p by auto
  have ne': "prerequisite_path_identity e \<noteq> ?x" using ne e by auto
  have ok: "bmap_ok (discovered st)" "length (discovered st) \<le> max_invalidated_paths l"
    using inv by (simp_all add: closure_inv_def)
  show ?thesis
  proof (cases "map_of (discovered st) ?x")
    case None
    with visit have st': "discovered st' = bmap_insert ?x (Suc depth, [dependency_kind e]) (discovered st)"
        "queue st' = queue st @ [?x]" "Suc depth \<le> max_depth l"
        "length (discovered st) \<noteq> max_invalidated_paths l"
      by (auto simp: visit_edge_def result_simps Let_def split: if_splits)
    have "?x \<notin> S" using inv None by (auto simp: closure_inv_def)
    then have "path_sound S E l st ?x (Suc depth) [dependency_kind e]"
      using hop from_p st'(3) by (auto simp: path_sound_def bset_ok_def)
    then have "closure_inv S E l P st'"
      using closure_inv_update [OF inv p ne' st'(1)] None st' ok length_bmap_insert [OF ok(1)]
      by (auto simp: le_Suc_eq)
    then show ?thesis using p ne' st' by simp
  next
    case (Some dk)
    then obtain d ks where dk: "map_of (discovered st) ?x = Some (d, ks)" by (cases dk) auto
    have old: "path_sound S E l st ?x d ks" using inv dk by (auto simp: closure_inv_def)
    let ?ks = "if d \<noteq> 0 then bset_insert (dependency_kind e) ks else ks"
    let ?d = "min d (Suc depth)"
    have st': "discovered st' = bmap_insert ?x (?d, ?ks) (discovered st)"
        "queue st' = (if Suc depth < d then queue st @ [?x] else queue st)"
      using visit dk by (auto simp: visit_edge_def rediscover_def result_simps Let_def min_def split: if_splits)
    have "path_sound S E l st ?x ?d ?ks"
      using old hop from_p by (auto simp: path_sound_def min_def set_insort_insert)
    moreover have "length (discovered st') \<le> max_invalidated_paths l"
      using ok length_bmap_insert [OF ok(1)] dk by (simp add: st')
    ultimately have "closure_inv S E l P st'"
      by (intro closure_inv_update [OF inv p ne' st'(1)])
        (use dk st'(2) in \<open>auto simp: set_insort_insert split: if_splits\<close>)
    then show ?thesis using p ne' st' by simp
  qed
qed

lemma expand_path_inv:
  assumes expand: "expand_path l cancel reverse p (st\<lparr>queue := rest\<rparr>) = Inr st'"
    and inv: "closure_inv S E l {} st" and queue: "queue st = p # rest"
    and ne: "\<forall>e \<in> E. prerequisite_path_identity e \<noteq> dependent_path_identity e"
    and edges: "\<And>p. set (edges_of reverse p) = {e \<in> E. prerequisite_path_identity e = p}"
  shows "closure_inv S E l {} st'"
proof -
  from expand obtain n depth ks where
    depth: "map_of (discovered st) p = Some (depth, ks)" and
    run: "fold_result (visit_edge l cancel depth) (edges_of reverse p) (st\<lparr>queue := rest, polls := n\<rparr>) = Inr st'"
    by (auto simp: expand_path_def result_simps split: option.splits)
  have start: "closure_inv S E l (set (edges_of reverse p)) (st\<lparr>queue := rest, polls := n\<rparr>)"
    using inv queue by (auto simp: closure_inv_def path_sound_def edge_done_def edges)
  have "closure_inv S E l (set es) s \<and> map_of (discovered s) p = Some (depth, ks) \<Longrightarrow>
      set es \<subseteq> set (edges_of reverse p) \<Longrightarrow>
      fold_result (visit_edge l cancel depth) es s = Inr t \<Longrightarrow> closure_inv S E l {} t" for es s t
  proof (induction es arbitrary: s)
    case (Cons e es)
    from Cons.prems(3) obtain u where u: "visit_edge l cancel depth e s = Inr u"
      "fold_result (visit_edge l cancel depth) es u = Inr t" by (auto simp: and_then_Inr)
    from Cons.prems(2) have e: "e \<in> E" "prerequisite_path_identity e = p" by (auto simp: edges)
    from visit_edge_inv [OF u(1) _ e(1) ne, of S "set es" ks] Cons.prems(1) e(2)
    have "closure_inv S E l (set es) u \<and> map_of (discovered u) p = Some (depth, ks)" by simp
    with Cons.IH [OF this _ u(2)] Cons.prems(2) show ?case by simp
  qed simp
  from this [OF _ subset_refl run] start depth show ?thesis by simp
qed

lemma closure_loop_inv:
  assumes "closure_loop l cancel reverse st = Inr st'" and "closure_inv S E l {} st"
    and "\<forall>e \<in> E. prerequisite_path_identity e \<noteq> dependent_path_identity e"
    and "\<And>p. set (edges_of reverse p) = {e \<in> E. prerequisite_path_identity e = p}"
  shows "closure_inv S E l {} st' \<and> queue st' = []"
  using assms
proof (induction l cancel reverse st rule: closure_loop.induct)
  case (1 l cancel reverse st)
  show ?case
  proof (cases "queue st")
    case Nil
    with "1.prems" show ?thesis by (simp add: closure_loop.simps [of _ _ _ st])
  next
    case (Cons p rest)
    with "1.prems"(1) obtain u where u: "expand_path l cancel reverse p (st\<lparr>queue := rest\<rparr>) = Inr u"
      "closure_loop l cancel reverse u = Inr st'"
      by (auto simp: closure_loop.simps [of _ _ _ st] split: sum.splits)
    from expand_path_inv [OF u(1) "1.prems"(2) Cons "1.prems"(3,4)]
    have "closure_inv S E l {} u" .
    from "1.IH" [OF Cons u(1) u(2) this "1.prems"(3,4)] show ?thesis .
  qed
qed

text \<open>What the invariant says once the queue is empty.\<close>

lemma closure_inv_final:
  assumes "closure_inv S E l {} st" and "queue st = []"
  shows "hops S E n x \<Longrightarrow> \<exists>d ks. map_of (discovered st) x = Some (d, ks) \<and> d \<le> n"
proof (induction rule: hops.induct)
  case (seed x)
  with assms obtain d ks where "map_of (discovered st) x = Some (d, ks)" "path_sound S E l st x d ks"
    by (fastforce simp: closure_inv_def)
  with seed show ?case by (auto simp: path_sound_def)
next
  case (hop n e)
  with assms show ?case by (fastforce simp: closure_inv_def edge_done_def)
qed

lemma closure_inv_result:
  assumes inv: "closure_inv S E l {} st" and q: "queue st = []"
    and x: "map_of (discovered st) x = Some (d, ks)"
  shows "d = (LEAST n. hops S E n x) \<and> affected S E x \<and> (x \<notin> S \<longrightarrow> d \<le> max_depth l) \<and>
    sorted_wrt (<) ks \<and>
    set ks = (if x \<in> S then {} else
      {dependency_kind e | e. e \<in> E \<and> dependent_path_identity e = x \<and> affected S E (prerequisite_path_identity e)})"
proof -
  have sound: "path_sound S E l st x d ks" using inv x by (auto simp: closure_inv_def)
  have least: "d = (LEAST n. hops S E n x)"
  proof (rule sym, rule Least_equality)
    show "hops S E d x" using sound by (simp add: path_sound_def)
    show "d \<le> n" if "hops S E n x" for n using closure_inv_final [OF inv q that] x by auto
  qed
  have aff: "affected S E y \<longleftrightarrow> y \<in> dom (map_of (discovered st))" for y
  proof
    show "affected S E y \<Longrightarrow> y \<in> dom (map_of (discovered st))"
      using closure_inv_final [OF inv q] by (fastforce simp: affected_def)
    show "y \<in> dom (map_of (discovered st)) \<Longrightarrow> affected S E y"
      using inv by (fastforce simp: affected_def closure_inv_def path_sound_def)
  qed
  have "set ks = {dependency_kind e | e. e \<in> E \<and> dependent_path_identity e = x \<and> affected S E (prerequisite_path_identity e)}"
    if "x \<notin> S"
  proof
    show "set ks \<subseteq> {dependency_kind e | e. e \<in> E \<and> dependent_path_identity e = x \<and> affected S E (prerequisite_path_identity e)}"
      using sound by (fastforce simp: path_sound_def aff)
    show "{dependency_kind e | e. e \<in> E \<and> dependent_path_identity e = x \<and> affected S E (prerequisite_path_identity e)} \<subseteq> set ks"
      using inv q x that sound by (fastforce simp: aff closure_inv_def edge_done_def path_sound_def)
  qed
  with sound least aff x show ?thesis by (auto simp: path_sound_def bset_ok_def)
qed

section \<open>Reading the input, in lemmas\<close>

lemma add_seeds_Inr:
  "fold_result (add_seed l cancel) ps st = Inr st' \<Longrightarrow> bset_ok (seeds st) \<Longrightarrow>
     bset_ok (seeds st') \<and> set (seeds st') = set (seeds st) \<union> set ps \<and>
     distinct ps \<and> set ps \<inter> set (seeds st) = {} \<and> reverse_edges st' = reverse_edges st"
proof (induction ps arbitrary: st)
  case (Cons p ps)
  from Cons.prems(1) obtain u where u: "add_seed l cancel p st = Inr u"
    "fold_result (add_seed l cancel) ps u = Inr st'" by (auto simp: and_then_Inr)
  then have fresh: "p \<notin> set (seeds st)" "seeds u = bset_insert p (seeds st)"
    "reverse_edges u = reverse_edges st"
    by (auto simp: add_seed_def result_simps split: if_splits)
  from Cons.IH [OF u(2)] Cons.prems(2) fresh show ?case
    by (auto simp: set_insort_insert intro!: bset_insert_ok)
qed simp

lemma add_dependencies_Inr:
  "fold_result (add_dependency l cancel) es st = Inr st' \<Longrightarrow>
     bmap_ok (reverse_edges st) \<Longrightarrow>
     bmap_ok (reverse_edges st') \<and> seeds st' = seeds st \<and>
     (\<forall>e \<in> set es. prerequisite_path_identity e \<noteq> dependent_path_identity e) \<and>
     edges_of (reverse_edges st') p
       = edges_of (reverse_edges st) p @ filter (\<lambda>e. prerequisite_path_identity e = p) es"
proof (induction es arbitrary: st)
  case (Cons e es)
  from Cons.prems(1) obtain u where u: "add_dependency l cancel e st = Inr u"
    "fold_result (add_dependency l cancel) es u = Inr st'" by (auto simp: and_then_Inr)
  then have step: "prerequisite_path_identity e \<noteq> dependent_path_identity e" "seeds u = seeds st"
    "reverse_edges u = bmap_insert (prerequisite_path_identity e)
       (edges_of (reverse_edges st) (prerequisite_path_identity e) @ [e]) (reverse_edges st)"
    by (auto simp: add_dependency_def result_simps edges_of_def split: if_splits)
  then have "edges_of (reverse_edges u) p = edges_of (reverse_edges st) p
      @ (if prerequisite_path_identity e = p then [e] else [])"
    by (simp add: edges_of_def)
  moreover have "bmap_ok (reverse_edges u)" using step(3) Cons.prems(2) by (simp add: bmap_insert_ok)
  ultimately show ?case using Cons.IH [OF u(2)] step(1,2) by auto
qed simp

lemma edges_of_sorted:
  "set (edges_of (map (\<lambda>(p, es). (p, sort_key edge_order es)) r) p) = set (edges_of r p)"
  by (induction r) (auto simp: edges_of_def)

lemma start_seeds_Inr:
  "fold_result (start_seed l) ss st = Inr st' \<Longrightarrow> bmap_ok (discovered st) \<Longrightarrow>
     bmap_ok (discovered st') \<and> queue st' = queue st @ ss \<and>
     map_of (discovered st') x = (if x \<in> set ss then Some (0, []) else map_of (discovered st) x)"
proof (induction ss arbitrary: st)
  case (Cons s ss)
  from Cons.prems(1) obtain u where u: "start_seed l s st = Inr u"
    "fold_result (start_seed l) ss u = Inr st'" by (auto simp: and_then_Inr)
  then have step: "discovered u = bmap_insert s (0, []) (discovered st)" "queue u = queue st @ [s]"
    by (auto simp: start_seed_def result_simps)
  then have "bmap_ok (discovered u)" using Cons.prems(2) by (simp add: bmap_insert_ok)
  from Cons.IH [OF u(2) this] step show ?case by auto
qed simp

lemma bmap_length_dom: "bmap_ok m \<Longrightarrow> length m = card (dom (map_of m))"
  by (metis bmap_ok_distinct distinct_card dom_map_of_conv_image_fst length_map list.set_map)

text \<open>What a closure that was computed went through.\<close>

lemma closure_steps:
  assumes "reverse_dependency_closure ss es cancel l = Inr paths"
  obtains final where "paths = invalidated_paths (discovered final)" and "queue final = []"
    and "closure_inv (set ss) (set es) l {} final"
proof -
  from assms obtain n st0 st1 start final where
    seeds: "fold_result (add_seed l cancel) ss
      \<lparr>input_polls = n, input_bytes = 0, seeds = [], reverse_edges = [], unique_edges = []\<rparr> = Inr st0"
    and deps: "fold_result (add_dependency l cancel) es st0 = Inr st1"
    and few: "length (seeds st1) \<le> max_invalidated_paths l"
    and start: "fold_result (start_seed l) (seeds st1)
      \<lparr>polls = input_polls st1, output_bytes = 0, discovered = [], queue = []\<rparr> = Inr start"
    and loop: "closure_loop l cancel (map (\<lambda>(p, es). (p, sort_key edge_order es)) (reverse_edges st1)) start
      = Inr final"
    and paths: "paths = invalidated_paths (discovered final)"
    by (auto simp: reverse_dependency_closure_def result_simps Let_def not_less)
  let ?reverse = "map (\<lambda>(p, es). (p, sort_key edge_order es)) (reverse_edges st1)"
  note s = add_seeds_Inr [OF seeds, simplified]
  have d: "\<forall>e \<in> set es. prerequisite_path_identity e \<noteq> dependent_path_identity e" "seeds st1 = seeds st0"
    "\<And>p. set (edges_of (reverse_edges st1) p) = {e \<in> set es. prerequisite_path_identity e = p}"
    using add_dependencies_Inr [OF deps] s by (auto simp: edges_of_def)
  have st: "bmap_ok (discovered start)" "queue start = seeds st0"
    "\<And>x. map_of (discovered start) x = (if x \<in> set ss then Some (0, []) else None)"
    using start_seeds_Inr [OF start] s d(2) by auto
  have "dom (map_of (discovered start)) = set ss" by (auto simp: st(3) split: if_splits)
  then have "length (discovered start) = card (set ss)" by (simp add: bmap_length_dom [OF st(1)])
  also have "\<dots> = length (seeds st0)" using s by (metis bset_ok_iff distinct_card)
  finally have inv: "closure_inv (set ss) (set es) l {} start"
    using s st few d(2) by (auto simp: closure_inv_def path_sound_def edge_done_def hops.seed split: if_splits)
  have edges: "set (edges_of ?reverse p) = {e \<in> set es. prerequisite_path_identity e = p}" for p
    by (simp add: edges_of_sorted d(3))
  from closure_loop_inv [OF loop inv d(1) edges] that [OF paths] show thesis by blast
qed

section \<open>Drift of the generation inputs\<close>

datatype generation_input_kind =
  Head | Ignore | Config | Parser | Schema | Algorithm | SynthesisPolicy

primrec input_kind_rank :: "generation_input_kind \<Rightarrow> nat" where
  "input_kind_rank Head = 0"
| "input_kind_rank Ignore = 1"
| "input_kind_rank Config = 2"
| "input_kind_rank Parser = 3"
| "input_kind_rank Schema = 4"
| "input_kind_rank Algorithm = 5"
| "input_kind_rank SynthesisPolicy = 6"

lemma input_kind_rank_inject: "input_kind_rank a = input_kind_rank b \<longleftrightarrow> a = b"
  by (cases a; cases b) simp_all

instantiation generation_input_kind :: linorder
begin

definition less_eq_generation_input_kind :: "generation_input_kind \<Rightarrow> generation_input_kind \<Rightarrow> bool" where
  "less_eq_generation_input_kind a b \<longleftrightarrow> input_kind_rank a \<le> input_kind_rank b"

definition less_generation_input_kind :: "generation_input_kind \<Rightarrow> generation_input_kind \<Rightarrow> bool" where
  "less_generation_input_kind a b \<longleftrightarrow> input_kind_rank a < input_kind_rank b"

instance
  by standard (auto simp: less_eq_generation_input_kind_def less_generation_input_kind_def
      input_kind_rank_inject)

end

record generation_input =
  input_kind :: generation_input_kind
  input_scope :: "string option"
  input_identity :: string

datatype invalidation_mode = NoOp | SynthesisOnly | Scoped | GlobalRebuild

record input_decision =
  decision_mode :: invalidation_mode
  changed_kinds :: "generation_input_kind list"
  parser_scopes :: "string list"
  synthesis_policy_scopes :: "string list"

type_synonym input_key = "generation_input_kind \<times> string option"

definition is_exact_revision :: "string \<Rightarrow> bool" where
  "is_exact_revision v \<longleftrightarrow> length v \<in> {40, 64} \<and> list_all lower_hex_digit v"

definition takes_scope :: "generation_input_kind \<Rightarrow> bool" where
  "takes_scope k \<longleftrightarrow> k \<in> {Parser, SynthesisPolicy}"

definition check_input :: "generation_input \<Rightarrow> unit result" where
  "check_input i =
     and_then (validate_path_identity (input_identity i) 256 ''generation input'') (\<lambda>_.
     and_then (reject_if (input_kind i = Head \<and> \<not> is_exact_revision (input_identity i))
                 ''Archaeology HEAD input identity is invalid'') (\<lambda>_.
     and_then (reject_if (takes_scope (input_kind i) \<noteq> (input_scope i \<noteq> None))
                 ''Archaeology generation input scope is invalid'') (\<lambda>_.
     case input_scope i of
       None \<Rightarrow> Inr ()
     | Some s \<Rightarrow> validate_path_identity s 256 ''generation input scope'')))"

definition input_key :: "generation_input \<Rightarrow> input_key" where
  "input_key i = (input_kind i, input_scope i)"

definition add_input :: "generation_input \<Rightarrow> (input_key, string) bmap \<Rightarrow> (input_key, string) bmap result" where
  "add_input i m =
     and_then (check_input i) (\<lambda>_.
       if map_of m (input_key i) \<noteq> None then Inl ''Archaeology generation input is duplicated''
       else Inr (bmap_insert (input_key i) (input_identity i) m))"

definition input_map :: "generation_input list \<Rightarrow> (input_key, string) bmap result" where
  "input_map inputs = fold_result add_input inputs []"

record drift =
  kinds_seen :: "generation_input_kind bset"
  parsers_seen :: "string bset"
  policies_seen :: "string bset"
  drift_global :: bool
  drift_scoped :: bool
  drift_synthesis :: bool

definition no_drift :: drift where
  "no_drift = \<lparr>kinds_seen = [], parsers_seen = [], policies_seen = [], drift_global = False,
     drift_scoped = False, drift_synthesis = False\<rparr>"

fun note_change :: "input_key \<Rightarrow> drift \<Rightarrow> drift result" where
  "note_change (Head, s) d = Inr (d\<lparr>drift_scoped := True\<rparr>)"
| "note_change (Parser, s) d =
     (case s of
        None \<Rightarrow> Inl ''Archaeology parser input lost its scope''
      | Some p \<Rightarrow>
          (let d' = d\<lparr>parsers_seen := bset_insert p (parsers_seen d)\<rparr>
           in Inr (if p = ''global'' then d'\<lparr>drift_global := True\<rparr> else d'\<lparr>drift_scoped := True\<rparr>)))"
| "note_change (SynthesisPolicy, s) d =
     (case s of
        None \<Rightarrow> Inl ''Archaeology synthesis policy input lost its scope''
      | Some p \<Rightarrow> Inr (d\<lparr>drift_synthesis := True, policies_seen := bset_insert p (policies_seen d)\<rparr>))"
| "note_change (_, s) d = Inr (d\<lparr>drift_global := True\<rparr>)"

definition compare_key ::
  "(input_key, string) bmap \<Rightarrow> (input_key, string) bmap \<Rightarrow> input_key \<Rightarrow> drift \<Rightarrow> drift result" where
  "compare_key previous current k d =
     (if map_of previous k = map_of current k then Inr d
      else note_change k (d\<lparr>kinds_seen := bset_insert (fst k) (kinds_seen d)\<rparr>))"

definition mode_of :: "drift \<Rightarrow> invalidation_mode" where
  "mode_of d =
     (if drift_global d then GlobalRebuild else if drift_scoped d then Scoped
      else if drift_synthesis d then SynthesisOnly else NoOp)"

definition classify_generation_input_changes ::
  "generation_input list \<Rightarrow> generation_input list \<Rightarrow> input_decision result" where
  "classify_generation_input_changes previous current =
     and_then (input_map previous) (\<lambda>prev.
     and_then (input_map current) (\<lambda>cur.
     and_then (fold_result (compare_key prev cur) (bset_of (map fst prev @ map fst cur)) no_drift) (\<lambda>d.
       Inr \<lparr>decision_mode = mode_of d, changed_kinds = kinds_seen d, parser_scopes = parsers_seen d,
            synthesis_policy_scopes = policies_seen d\<rparr>)))"

text \<open>The identity an input list gives to a key, and the keys on which two lists differ.\<close>

definition identity_of :: "generation_input list \<Rightarrow> input_key \<Rightarrow> string option" where
  "identity_of inputs = map_of (map (\<lambda>i. (input_key i, input_identity i)) inputs)"

definition drifted :: "generation_input list \<Rightarrow> generation_input list \<Rightarrow> input_key \<Rightarrow> bool" where
  "drifted previous current k \<longleftrightarrow> identity_of previous k \<noteq> identity_of current k"

definition inputs_ok :: "generation_input list \<Rightarrow> bool" where
  "inputs_ok inputs \<longleftrightarrow>
     list_all (\<lambda>i. check_input i = Inr ()) inputs \<and> distinct (map input_key inputs)"

lemma add_inputs_Inr:
  "bmap_ok m \<Longrightarrow> fold_result add_input is m = Inr m' \<longleftrightarrow>
     list_all (\<lambda>i. check_input i = Inr ()) is \<and> distinct (map input_key is) \<and>
     (\<forall>i \<in> set is. map_of m (input_key i) = None) \<and> bmap_ok m' \<and>
     map_of m' = map_of m ++ identity_of is"
proof (induction "is" arbitrary: m)
  case Nil
  then show ?case by (auto simp: identity_of_def intro: bmap_eqI)
next
  case (Cons i "is")
  let ?m = "bmap_insert (input_key i) (input_identity i) m"
  have ok: "bmap_ok ?m" using Cons.prems by (rule bmap_insert_ok)
  have step: "fold_result add_input (i # is) m = Inr m' \<longleftrightarrow>
      check_input i = Inr () \<and> map_of m (input_key i) = None \<and> fold_result add_input is ?m = Inr m'"
    by (auto simp: add_input_def and_then_Inr)
  show ?case
  proof (cases "input_key i \<in> input_key ` set is")
    case True
    then show ?thesis unfolding step Cons.IH [OF ok] by auto
  next
    case False
    then have other: "\<forall>j \<in> set is. input_key j \<noteq> input_key i" by (metis image_eqI)
    from False have "identity_of is (input_key i) = None"
      by (auto simp: identity_of_def map_of_eq_None_iff)
    then have "map_of ?m ++ identity_of is = map_of m ++ identity_of (i # is)"
      by (auto simp: identity_of_def map_add_def fun_eq_iff split: option.splits)
    moreover have "(\<forall>j \<in> set is. map_of ?m (input_key j) = None)
        \<longleftrightarrow> (\<forall>j \<in> set is. map_of m (input_key j) = None)" using other by auto
    ultimately show ?thesis using False unfolding step Cons.IH [OF ok] by auto
  qed
qed

lemma input_map_Inr:
  "input_map inputs = Inr m \<longleftrightarrow> inputs_ok inputs \<and> bmap_ok m \<and> map_of m = identity_of inputs"
  by (simp add: input_map_def add_inputs_Inr inputs_ok_def conj_assoc map_add_def fun_eq_iff
      split: option.splits)

text \<open>The effect of the keys that differ on the summary.\<close>

definition rebuild_key :: "input_key \<Rightarrow> bool" where
  "rebuild_key k \<longleftrightarrow> fst k \<in> {Ignore, Config, Schema, Algorithm} \<or> k = (Parser, Some ''global'')"

definition scoped_key :: "input_key \<Rightarrow> bool" where
  "scoped_key k \<longleftrightarrow> fst k = Head \<or> (fst k = Parser \<and> k \<noteq> (Parser, Some ''global''))"

definition summarises :: "input_key set \<Rightarrow> drift \<Rightarrow> bool" where
  "summarises K d \<longleftrightarrow>
     bset_ok (kinds_seen d) \<and> set (kinds_seen d) = fst ` K \<and>
     bset_ok (parsers_seen d) \<and> set (parsers_seen d) = {p. (Parser, Some p) \<in> K} \<and>
     bset_ok (policies_seen d) \<and> set (policies_seen d) = {p. (SynthesisPolicy, Some p) \<in> K} \<and>
     (drift_global d \<longleftrightarrow> (\<exists>k \<in> K. rebuild_key k)) \<and>
     (drift_scoped d \<longleftrightarrow> (\<exists>k \<in> K. scoped_key k)) \<and>
     (drift_synthesis d \<longleftrightarrow> (\<exists>k \<in> K. fst k = SynthesisPolicy))"

lemma note_change_summarises:
  assumes "summarises K d" and "takes_scope (fst k) \<longleftrightarrow> snd k \<noteq> None"
  shows "\<exists>d'. note_change k (d\<lparr>kinds_seen := bset_insert (fst k) (kinds_seen d)\<rparr>) = Inr d' \<and>
    summarises (insert k K) d'"
proof -
  obtain kind s where k: "k = (kind, s)" by (cases k)
  show ?thesis
    using assms
    by (cases kind; cases s)
      (auto simp: k summarises_def takes_scope_def rebuild_key_def scoped_key_def Let_def
        set_insort_insert bset_insert_ok)
qed

lemma compare_keys_summarises:
  "summarises K d \<Longrightarrow> \<forall>k \<in> set ks. takes_scope (fst k) \<longleftrightarrow> snd k \<noteq> None \<Longrightarrow>
     \<exists>d'. fold_result (compare_key prev cur) ks d = Inr d' \<and>
       summarises (K \<union> {k \<in> set ks. map_of prev k \<noteq> map_of cur k}) d'"
proof (induction ks arbitrary: K d)
  case (Cons k ks)
  let ?K = "if map_of prev k = map_of cur k then K else insert k K"
  obtain u where u: "compare_key prev cur k d = Inr u" "summarises ?K u"
    using note_change_summarises [OF Cons.prems(1), of k] Cons.prems
    by (cases "map_of prev k = map_of cur k") (auto simp: compare_key_def)
  have "?K \<union> {j \<in> set ks. map_of prev j \<noteq> map_of cur j}
      = K \<union> {j \<in> set (k # ks). map_of prev j \<noteq> map_of cur j}" by auto
  with Cons.IH [OF u(2)] Cons.prems(2) u(1) show ?case by auto
qed simp

lemma inputs_ok_scopes:
  "inputs_ok inputs \<Longrightarrow> identity_of inputs k \<noteq> None \<Longrightarrow> takes_scope (fst k) \<longleftrightarrow> snd k \<noteq> None"
  by (auto simp: inputs_ok_def identity_of_def input_key_def check_input_def list_all_iff
      result_simps dest!: map_of_SomeD)

lemma classify_inputs:
  assumes "inputs_ok previous" and "inputs_ok current"
  obtains d where "classify_generation_input_changes previous current =
      Inr \<lparr>decision_mode = mode_of d, changed_kinds = kinds_seen d, parser_scopes = parsers_seen d,
            synthesis_policy_scopes = policies_seen d\<rparr>"
    and "summarises {k. drifted previous current k} d"
proof -
  have "\<exists>m. input_map inputs = Inr m \<and> bmap_ok m \<and> map_of m = identity_of inputs"
    if "inputs_ok inputs" for inputs
  proof -
    let ?m = "btree.collect (rev (map (\<lambda>i. (input_key i, input_identity i)) inputs))"
    have "bmap_ok ?m" "map_of ?m = identity_of inputs"
      by (simp_all add: btree.collect_valid btree.get_collect identity_of_def)
    with that show ?thesis by (auto simp: input_map_Inr)
  qed
  then obtain p c where p: "input_map previous = Inr p" "map_of p = identity_of previous"
    and c: "input_map current = Inr c" "map_of c = identity_of current" using assms by meson
  have keys: "k \<in> set (bset_of (map fst p @ map fst c)) \<longleftrightarrow>
      identity_of previous k \<noteq> None \<or> identity_of current k \<noteq> None" for k
    by (auto simp: p(2) [symmetric] c(2) [symmetric] map_of_eq_None_iff)
  have start: "summarises {} no_drift" by (simp add: summarises_def no_drift_def)
  have "\<forall>k \<in> set (bset_of (map fst p @ map fst c)). takes_scope (fst k) \<longleftrightarrow> snd k \<noteq> None"
    using inputs_ok_scopes [OF assms(1)] inputs_ok_scopes [OF assms(2)] keys by blast
  from compare_keys_summarises [OF start this, of p c, unfolded Un_empty_left]
  obtain d where run: "fold_result (compare_key p c) (bset_of (map fst p @ map fst c)) no_drift = Inr d"
    and sum: "summarises {k \<in> set (bset_of (map fst p @ map fst c)). map_of p k \<noteq> map_of c k} d"
    by blast
  have "{k \<in> set (bset_of (map fst p @ map fst c)). map_of p k \<noteq> map_of c k} = {k. drifted previous current k}"
    unfolding keys by (auto simp: p(2) c(2) drifted_def)
  with sum run show thesis
    by (intro that [of d]) (simp_all add: classify_generation_input_changes_def p(1) c(1))
qed

section \<open>What the closure promises\<close>

text \<open>
  C40: The closure is exactly what a change affects. When it is returned, it lists in ascending
  order, once each, the paths that some chain of reverse dependencies leads to from a changed
  path; with each it gives the length of the shortest such chain and, for a path that was not
  itself changed, exactly the kinds of its dependencies on affected paths.
\<close>

theorem closure_is_affected_set:
  assumes "reverse_dependency_closure ss es cancel l = Inr paths"
  shows "sorted_wrt (<) (map path_identity paths) \<and>
    path_identity ` set paths = {x. affected (set ss) (set es) x} \<and>
    (\<forall>p \<in> set paths.
       path_depth p = (LEAST n. hops (set ss) (set es) n (path_identity p)) \<and>
       sorted_wrt (<) (path_via p) \<and>
       set (path_via p) = (if path_identity p \<in> set ss then {} else
         {dependency_kind e | e. e \<in> set es \<and> dependent_path_identity e = path_identity p \<and>
            affected (set ss) (set es) (prerequisite_path_identity e)}))"
proof -
  obtain final where paths: "paths = invalidated_paths (discovered final)" and q: "queue final = []"
    and inv: "closure_inv (set ss) (set es) l {} final" using closure_steps [OF assms] .
  have ok: "bmap_ok (discovered final)" using inv by (simp add: closure_inv_def)
  have ids: "map path_identity paths = map fst (discovered final)"
    by (simp add: paths invalidated_paths_def case_prod_beta comp_def)
  have entry: "map_of (discovered final) (path_identity p) = Some (path_depth p, path_via p)"
    if "p \<in> set paths" for p
    using that bmap_entry_iff [OF ok] by (auto simp: paths invalidated_paths_def)
  have "x \<in> fst ` set (discovered final) \<longleftrightarrow> affected (set ss) (set es) x" for x
  proof -
    have "affected (set ss) (set es) x \<Longrightarrow> x \<in> dom (map_of (discovered final))"
      using closure_inv_final [OF inv q] by (fastforce simp: affected_def)
    moreover have "x \<in> dom (map_of (discovered final)) \<Longrightarrow> affected (set ss) (set es) x"
      using closure_inv_result [OF inv q] by fastforce
    ultimately show ?thesis by (auto simp: dom_map_of_conv_image_fst)
  qed
  then have "path_identity ` set paths = {x. affected (set ss) (set es) x}"
    using arg_cong [OF ids, of set] by (simp add: set_eq_iff)
  moreover have "sorted_wrt (<) (map path_identity paths)" using ok by (simp add: ids bmap_ok_def)
  ultimately show ?thesis using closure_inv_result [OF inv q entry] by auto
qed

text \<open>
  Bounds fail closed. A closure that is returned respects every bound: at most
  \<open>max_invalidated_paths\<close> paths, none of the paths that were not changed further than
  \<open>max_depth\<close> hops away, and no dependency of a path on itself or listed twice among its inputs.
\<close>

theorem closure_respects_bounds:
  assumes "reverse_dependency_closure ss es cancel l = Inr paths"
  shows "length paths \<le> max_invalidated_paths l \<and> length ss \<le> max_seed_paths l \<and>
    length es \<le> max_dependencies l \<and> distinct ss \<and>
    (\<forall>p \<in> set paths. path_identity p \<notin> set ss \<longrightarrow> 1 \<le> path_depth p \<and> path_depth p \<le> max_depth l) \<and>
    (\<forall>p \<in> set paths. path_identity p \<in> set ss \<longrightarrow> path_depth p = 0)"
proof -
  obtain final where paths: "paths = invalidated_paths (discovered final)" and q: "queue final = []"
    and inv: "closure_inv (set ss) (set es) l {} final" using closure_steps [OF assms] .
  have ok: "bmap_ok (discovered final)" using inv by (simp add: closure_inv_def)
  have entry: "path_sound (set ss) (set es) l final (path_identity p) (path_depth p) (path_via p)"
    if "p \<in> set paths" for p
    using that bmap_entry_iff [OF ok] inv by (fastforce simp: paths invalidated_paths_def closure_inv_def)
  have "length ss \<le> max_seed_paths l" "length es \<le> max_dependencies l" "distinct ss"
    using assms add_seeds_Inr by (fastforce simp: reverse_dependency_closure_def result_simps Let_def not_less)+
  moreover have "length paths \<le> max_invalidated_paths l"
    using inv by (simp add: paths invalidated_paths_def closure_inv_def)
  ultimately show ?thesis using entry by (fastforce simp: path_sound_def)
qed

text \<open>
  The closure does not depend on the order of its input, nor on how often it polled for
  cancellation: two runs over the same changed paths and dependencies that both succeed return
  the same list.
\<close>

theorem closure_order_independent:
  assumes "reverse_dependency_closure ss es cancel l = Inr paths"
    and "reverse_dependency_closure ss' es' cancel' l' = Inr paths'"
    and "set ss = set ss'" and "set es = set es'"
  shows "paths = paths'"
proof -
  obtain f where f: "paths = invalidated_paths (discovered f)" "queue f = []"
    "closure_inv (set ss) (set es) l {} f" using closure_steps [OF assms(1)] .
  obtain g where g: "paths' = invalidated_paths (discovered g)" "queue g = []"
    "closure_inv (set ss) (set es) l' {} g" using closure_steps [OF assms(2)] unfolding assms(3,4) .
  have sub: "map_of (discovered u) x = Some dk \<Longrightarrow> map_of (discovered v) x = Some dk"
    if u: "closure_inv (set ss) (set es) k {} u" "queue u = []"
      and v: "closure_inv (set ss) (set es) k' {} v" "queue v = []" for u v x dk k k'
  proof -
    assume dk: "map_of (discovered u) x = Some dk"
    obtain d ks where dks: "dk = (d, ks)" by (cases dk)
    note r = closure_inv_result [OF u(1,2) dk [unfolded dks]]
    then obtain n where "hops (set ss) (set es) n x" by (auto simp: affected_def)
    from closure_inv_final [OF v this] obtain d' ks' where
      d': "map_of (discovered v) x = Some (d', ks')" by blast
    note r' = closure_inv_result [OF v(1,2) d']
    have "ks = ks'" using r r' by (intro bset_eqI) (auto simp: bset_ok_def)
    with r r' d' dks show "map_of (discovered v) x = Some dk" by simp
  qed
  have "map_of (discovered f) = map_of (discovered g)"
    using sub [OF f(3,2) g(3,2)] sub [OF g(3,2) f(3,2)] by (intro ext) (metis not_None_eq)
  with f(3) g(3) have "discovered f = discovered g" by (auto simp: closure_inv_def intro: bmap_eqI)
  then show ?thesis by (simp add: f(1) g(1))
qed

text \<open>
  Refreshing by generation-input drift. The comparison of two lists of generation inputs
  returns a decision exactly when both lists are well formed (every identity and scope valid, no
  key twice). The mode is then decided by the keys on which the lists differ, in either direction:
  no difference is \<open>NoOp\<close>; any difference of an ignore, config, schema or algorithm input or of
  the parser scope \<open>global\<close> is a \<open>GlobalRebuild\<close>, whatever else differs; else a difference of HEAD
  or of a scoped parser is \<open>Scoped\<close>; else only synthesis policies differ. The lists of the
  decision name exactly the kinds and scopes that differ, in ascending order.
\<close>

theorem drift_decides_refresh:
  "case classify_generation_input_changes previous current of
     Inl _ \<Rightarrow> \<not> (inputs_ok previous \<and> inputs_ok current)
   | Inr d \<Rightarrow>
       inputs_ok previous \<and> inputs_ok current \<and>
       (decision_mode d = NoOp \<longleftrightarrow> identity_of previous = identity_of current) \<and>
       (decision_mode d = GlobalRebuild \<longleftrightarrow> (\<exists>k. drifted previous current k \<and> rebuild_key k)) \<and>
       (decision_mode d = Scoped \<longleftrightarrow>
          (\<nexists>k. drifted previous current k \<and> rebuild_key k) \<and> (\<exists>k. drifted previous current k \<and> scoped_key k)) \<and>
       sorted_wrt (<) (changed_kinds d) \<and> sorted_wrt (<) (parser_scopes d) \<and>
       sorted_wrt (<) (synthesis_policy_scopes d) \<and>
       set (changed_kinds d) = fst ` {k. drifted previous current k} \<and>
       set (parser_scopes d) = {p. drifted previous current (Parser, Some p)} \<and>
       set (synthesis_policy_scopes d) = {p. drifted previous current (SynthesisPolicy, Some p)}"
proof (cases "inputs_ok previous \<and> inputs_ok current")
  case True
  then obtain d where d: "classify_generation_input_changes previous current =
      Inr \<lparr>decision_mode = mode_of d, changed_kinds = kinds_seen d, parser_scopes = parsers_seen d,
            synthesis_policy_scopes = policies_seen d\<rparr>"
    and sum: "summarises {k. drifted previous current k} d" using classify_inputs by blast
  have every: "rebuild_key k \<or> scoped_key k \<or> fst k = SynthesisPolicy" for k
    by (cases "fst k") (auto simp: rebuild_key_def scoped_key_def)
  have "identity_of previous = identity_of current \<longleftrightarrow> (\<nexists>k. drifted previous current k)"
    by (auto simp: drifted_def)
  also have "\<dots> \<longleftrightarrow> \<not> drift_global d \<and> \<not> drift_scoped d \<and> \<not> drift_synthesis d"
    using sum every unfolding summarises_def mem_Collect_eq Bex_def by blast
  also have "\<dots> \<longleftrightarrow> mode_of d = NoOp" by (simp add: mode_of_def)
  finally show ?thesis
    using True sum by (auto simp: d mode_of_def summarises_def bset_ok_def split: if_splits)
next
  case False
  then have "\<exists>e. classify_generation_input_changes previous current = Inl e"
    by (cases "classify_generation_input_changes previous current")
      (auto simp: classify_generation_input_changes_def and_then_Inr input_map_Inr)
  with False show ?thesis by auto
qed

section \<open>Witnesses\<close>

text \<open>A changed copybook, a program that includes it, and two programs that call each other.\<close>

definition sample_dependencies :: "source_dependency list" where
  "sample_dependencies =
     [\<lparr>dependent_path_identity = ''p'', prerequisite_path_identity = ''c'', dependency_kind = Copybook\<rparr>,
      \<lparr>dependent_path_identity = ''q'', prerequisite_path_identity = ''p'', dependency_kind = Call\<rparr>,
      \<lparr>dependent_path_identity = ''p'', prerequisite_path_identity = ''q'', dependency_kind = Call\<rparr>]"

definition sample_closure :: "invalidated_path list" where
  "sample_closure =
     [\<lparr>path_identity = ''c'', path_depth = 0, path_via = []\<rparr>,
      \<lparr>path_identity = ''p'', path_depth = 1, path_via = [Copybook, Call]\<rparr>,
      \<lparr>path_identity = ''q'', path_depth = 2, path_via = [Call]\<rparr>]"

definition sample_limits :: invalidation_limits where
  "sample_limits =
     \<lparr>max_seed_paths = 4, max_dependencies = 9, max_invalidated_paths = 3, max_depth = 2,
      max_identity_bytes = 8, max_input_bytes = 256, max_output_bytes = 256\<rparr>"

lemmas closure_eval = reverse_dependency_closure_def add_seed_def add_dependency_def start_seed_def
  poll_def validate_limits_def validate_path_identity_def is_ascii_control_def is_ascii_whitespace_def
  add_bounded_def saturating_add_def edge_key_def closure_loop_steps expand_path_def visit_edge_def
  rediscover_def edges_of_def invalidated_paths_def insort_insert_key_def less_dependency_kind_def
  less_eq_dependency_kind_def Let_def

lemma sample_closure_computed:
  "reverse_dependency_closure [''c''] sample_dependencies (\<lambda>_. False) sample_limits = Inr sample_closure"
  by (simp add: closure_eval sample_dependencies_def sample_limits_def sample_closure_def
      cong: sum.case_cong option.case_cong if_cong)

lemma sample_closure_reversed:
  "is_ok (reverse_dependency_closure [''c''] (rev sample_dependencies) (\<lambda>_. False) sample_limits)"
  by (simp add: closure_eval sample_dependencies_def sample_limits_def sample_closure_def
      cong: sum.case_cong option.case_cong if_cong)

theorem closure_is_affected_set_witness:
  "path_identity ` set sample_closure = {x. affected {''c''} (set sample_dependencies) x} \<and>
   (LEAST n. hops {''c''} (set sample_dependencies) n ''q'') = 2"
  using closure_is_affected_set [OF sample_closure_computed] by (simp add: sample_closure_def)

theorem closure_respects_bounds_witness:
  "length sample_closure \<le> max_invalidated_paths sample_limits"
  using closure_respects_bounds [OF sample_closure_computed] by simp

theorem closure_order_independent_witness:
  "reverse_dependency_closure [''c''] (rev sample_dependencies) (\<lambda>_. False) sample_limits = Inr sample_closure"
proof -
  obtain paths where "reverse_dependency_closure [''c''] (rev sample_dependencies) (\<lambda>_. False) sample_limits
      = Inr paths" using sample_closure_reversed by (auto simp: is_ok_iff)
  with closure_order_independent [OF sample_closure_computed this] show ?thesis by simp
qed

end
