(* ===== verification/ArchJobs.thy ===== *)
theory ArchJobs
  imports SecretPolicy ArchInvalidation
begin

text \<open>
  The durable job engine of business-rule archaeology,
  \<open>commands/business_rule_archaeology/jobs.rs\<close>: jobs, generations and the ready pointer of a
  repository as rows of three SQLite tables, and the owner-checked transitions over them.
  An \<open>UPDATE .. WHERE\<close> on a primary key is a compare-and-swap on one row (\<open>cas_row\<close>), a
  transaction either commits all its statements or none (\<open>transact\<close>). The remaining tables of
  the database are the component \<open>rest\<close> of a type of the caller's choice: the code that fills
  and reads them is a parameter.
\<close>

section \<open>Rows\<close>

datatype job_stage =
  Inventory | Parse | Link | Derive | Synthesize | Validate | Publish | Cleanup | Idle

datatype job_state =
  Pending | Running | Paused | Cancelling | Completed | Failed | Cancelled | Unavailable

datatype generation_status = Staging | Ready | GenFailed | GenCancelled | Superseded

record generation_identity =
  id_revision :: string
  id_source :: string
  id_parser :: string
  id_algorithm :: string
  id_config :: string

record repository_row =
  repo_path :: string
  repo_source :: string
  current_revision :: string
  ready_generation_id :: "string option"
  repo_updated_at :: string

record generation_row =
  gen_repository :: string
  gen_schema :: nat
  gen_identity :: generation_identity
  gen_status :: generation_status
  coverage_json :: string
  source_unit_count :: nat
  fact_count :: nat
  rule_count :: nat
  created_at :: string
  published_at :: "string option"

record job_row =
  job_repository :: string
  job_generation :: "string option"
  job_owner :: string
  job_stage :: job_stage
  job_state :: job_state
  checkpoint_identity :: "string option"
  checkpoint_json :: string
  completed_units :: nat
  total_units :: "nat option"
  cancellation_requested :: bool
  errors_json :: string
  started_at :: string
  updated_at :: string
  finished_at :: "string option"

record 'c db =
  repositories :: "(string, repository_row) bmap"
  generations :: "(string, generation_row) bmap"
  jobs :: "(string, job_row) bmap"
  rest :: 'c

section \<open>Values that travel\<close>

record job_checkpoint =
  cursor_identity :: "string option"
  source_unit_id :: "string option"
  checkpoint_ordinal :: "nat option"
  counters :: "(string, nat) bmap"

datatype job_error_code =
  InventoryFailed | ParserFailed | LinkFailed | DerivationFailed | SynthesisFailed
| ValidationFailed | PublicationFailed | CleanupFailed | OwnershipLost | Internal

datatype coverage_state = CoverageComplete | CoveragePartial | CoverageUnavailable

record coverage =
  cov_state :: coverage_state
  parser_coverage :: coverage_state
  repository_coverage :: coverage_state
  temporal_coverage :: coverage_state
  discovered_source_units :: nat
  indexed_source_units :: nat
  discovered_bytes :: nat
  indexed_bytes :: nat
  cov_reasons :: "string list"

definition default_coverage :: coverage where
  "default_coverage =
     \<lparr>cov_state = CoverageUnavailable, parser_coverage = CoverageUnavailable,
      repository_coverage = CoverageUnavailable, temporal_coverage = CoverageUnavailable,
      discovered_source_units = 0, indexed_source_units = 0, discovered_bytes = 0,
      indexed_bytes = 0, cov_reasons = []\<rparr>"

record job_status =
  status_schema :: nat
  status_job :: "string option"
  status_repository :: "string option"
  status_generation :: "string option"
  status_owner :: "string option"
  status_stage :: job_stage
  status_state :: job_state
  status_completed :: nat
  status_total :: "nat option"
  status_checkpoint :: "string option"
  status_cancellation :: bool
  status_coverage :: coverage
  status_updated_at :: "string option"
  status_errors :: "string list"

text \<open>
  What the link, derive, synthesis, validation and publication stages are called with; they
  share the fields.
\<close>

record stage_input =
  in_job :: string
  in_repository :: string
  in_generation :: string
  in_owner :: string
  in_identity :: generation_identity
  in_now :: string

record table_seal =
  seal_count :: nat
  seal_sha256 :: string

record validation_snapshot =
  empty_inventory_proven :: bool
  coverage_sha256 :: string
  snapshot_tables :: "(string, table_seal) bmap"

record validation_receipt =
  receipt_version :: nat
  receipt_repository :: string
  receipt_generation :: string
  receipt_identity :: generation_identity
  receipt_schema :: nat
  snapshot :: validation_snapshot

text \<open>
  Outside code: the time parsers of \<open>chrono\<close> and of SQLite, \<open>serde_json\<close>, SHA-256, SQLite's
  messages; and the modules that work on the other tables (linker, rule derivation, synthesis,
  integrity checks and table seals, lifecycle reconciliation, temporal projection, row counts).
\<close>

record clone_plan =
  plan_repository :: string
  plan_generation :: string
  plan_ready :: "string option"
  plan_mode :: invalidation_mode
  plan_invalidated :: "string list"

record 'c env =
  instant :: "string \<Rightarrow> int option"
  julianday :: "string \<Rightarrow> int option"
  sql_detail :: string
  decode_errors :: "string \<Rightarrow> string list option"
  encode_errors :: "string list \<Rightarrow> string"
  decode_checkpoint :: "string \<Rightarrow> job_checkpoint option"
  encode_checkpoint :: "job_checkpoint \<Rightarrow> string"
  decode_receipt :: "string \<Rightarrow> validation_receipt option"
  encode_receipt :: "validation_receipt \<Rightarrow> string"
  decode_coverage :: "string \<Rightarrow> coverage option"
  encode_coverage :: "coverage \<Rightarrow> string"
  sha256_hex :: "string \<Rightarrow> string"
  clone_rest :: "clone_plan \<Rightarrow> 'c \<Rightarrow> 'c result"
  stage_work :: "job_stage \<Rightarrow> stage_input \<Rightarrow> coverage option \<Rightarrow> 'c \<Rightarrow> (job_checkpoint \<times> 'c) result"
  catalog_receipt :: "stage_input \<Rightarrow> 'c \<Rightarrow> string result"
  catalog_counts :: "string \<Rightarrow> 'c \<Rightarrow> nat \<times> nat \<times> nat"
  integrity :: "stage_input \<Rightarrow> 'c \<Rightarrow> (nat \<times> nat \<times> nat \<times> nat) result"
  table_seals :: "string \<Rightarrow> 'c \<Rightarrow> (string, table_seal) bmap result"
  reconcile_lifecycle :: "stage_input \<Rightarrow> string option \<Rightarrow> 'c \<Rightarrow> 'c result"
  project_history :: "stage_input \<Rightarrow> string option \<Rightarrow> string \<Rightarrow> string option \<Rightarrow> 'c \<Rightarrow> 'c result"
  owned_rows :: "string \<Rightarrow> 'c \<Rightarrow> nat \<times> nat \<times> nat \<times> nat"
  delete_owned :: "string \<Rightarrow> 'c \<Rightarrow> 'c"

section \<open>Validators\<close>

definition MAX_ID_BYTES :: nat where "MAX_ID_BYTES = 256"
definition MAX_CHECKPOINT_BYTES :: nat where "MAX_CHECKPOINT_BYTES = 64 * 1024"
definition MAX_ERRORS :: nat where "MAX_ERRORS = 16"
definition MAX_ERRORS_JSON_BYTES :: nat where "MAX_ERRORS_JSON_BYTES = 32 * 1024"
definition MAX_CHECKPOINT_COUNTERS :: nat where "MAX_CHECKPOINT_COUNTERS = 32"
definition MAX_CLEANUP_GENERATIONS :: nat where "MAX_CLEANUP_GENERATIONS = 256"
definition MAX_COVERAGE_REASONS :: nat where "MAX_COVERAGE_REASONS = 32"
definition MAX_COVERAGE_REASON_BYTES :: nat where "MAX_COVERAGE_REASON_BYTES = 512"
definition VALIDATION_RECEIPT_VERSION :: nat where "VALIDATION_RECEIPT_VERSION = 1"
definition ARCHAEOLOGY_SCHEMA_VERSION :: nat where "ARCHAEOLOGY_SCHEMA_VERSION = 1"
definition ARCHAEOLOGY_STORAGE_SCHEMA_VERSION :: nat where "ARCHAEOLOGY_STORAGE_SCHEMA_VERSION = 2"

definition validate_id :: "string \<Rightarrow> string \<Rightarrow> unit result" where
  "validate_id label v =
     reject_if (v = [] \<or> MAX_ID_BYTES < length v \<or> CHR 0x00 \<in> set v)
       (''Archaeology '' @ label @ '' identity must contain 1..=256 safe bytes'')"

definition validate_timestamp :: "'c env \<Rightarrow> string \<Rightarrow> int result" where
  "validate_timestamp env v =
     (case instant env v of
        None \<Rightarrow> Inl ''Archaeology timestamps must be RFC 3339''
      | Some t \<Rightarrow> Inr t)"

definition validate_actor :: "'c env \<Rightarrow> string \<Rightarrow> string \<Rightarrow> string \<Rightarrow> unit result" where
  "validate_actor env job_id owner_id now =
     and_then (validate_id ''job'' job_id) (\<lambda>_.
     and_then (validate_id ''owner'' owner_id) (\<lambda>_.
     and_then (validate_timestamp env now) (\<lambda>_. Inr ())))"

definition validate_revision_sha :: "string \<Rightarrow> unit result" where
  "validate_revision_sha v =
     reject_if (\<not> (length v \<in> {40, 64} \<and> list_all lower_hex_digit v))
       ''An exact lowercase full revision SHA is required''"

definition validate_identity :: "generation_identity \<Rightarrow> unit result" where
  "validate_identity i =
     and_then (validate_revision_sha (id_revision i)) (\<lambda>_.
       check_all (\<lambda>(label, v). validate_id label v)
         [(''source'', id_source i), (''parser'', id_parser i),
          (''algorithm'', id_algorithm i), (''config'', id_config i)])"

definition validate_owned_generation :: "'c env \<Rightarrow> stage_input \<Rightarrow> unit result" where
  "validate_owned_generation env i =
     and_then (validate_actor env (in_job i) (in_owner i) (in_now i)) (\<lambda>_.
     and_then (validate_id ''repository'' (in_repository i)) (\<lambda>_.
     and_then (validate_id ''generation'' (in_generation i)) (\<lambda>_.
       validate_identity (in_identity i))))"

definition token_byte :: "char \<Rightarrow> bool" where
  "token_byte c \<longleftrightarrow> is_ascii_alphanumeric c \<or> c \<in> set ''-_:.@''"

definition validate_persisted_token :: "string \<Rightarrow> string \<Rightarrow> nat \<Rightarrow> unit result" where
  "validate_persisted_token label v max_bytes =
     reject_if (v = [] \<or> max_bytes < length v \<or> looks_like_secret v \<or> contains_sensitive_path v
                \<or> \<not> list_all token_byte v)
       (''Archaeology '' @ label @ '' must be an opaque safe token of 1..='' @ show_nat max_bytes @ '' bytes'')"

definition validate_checkpoint :: "job_checkpoint \<Rightarrow> unit result" where
  "validate_checkpoint c =
     and_then (check_all (\<lambda>(label, v). case v of
                  None \<Rightarrow> Inr () | Some t \<Rightarrow> validate_persisted_token label t MAX_ID_BYTES)
                [(''checkpoint cursor'', cursor_identity c),
                 (''checkpoint source unit'', source_unit_id c)]) (\<lambda>_.
     and_then (reject_if (MAX_CHECKPOINT_COUNTERS < length (counters c))
                 ''Archaeology checkpoint has more than 32 counters'') (\<lambda>_.
       check_all (\<lambda>(key, _). validate_persisted_token ''checkpoint counter'' key 64) (counters c)))"

fun stage_index :: "job_stage \<Rightarrow> nat option" where
  "stage_index Inventory = Some 0"
| "stage_index Parse = Some 1"
| "stage_index Link = Some 2"
| "stage_index Derive = Some 3"
| "stage_index Synthesize = Some 4"
| "stage_index Validate = Some 5"
| "stage_index Publish = Some 6"
| "stage_index Cleanup = Some 7"
| "stage_index Idle = None"

definition active_index :: "job_stage \<Rightarrow> nat result" where
  "active_index s =
     (case stage_index s of
        None \<Rightarrow> Inl ''Idle is not an active archaeology stage'' | Some i \<Rightarrow> Inr i)"

definition validate_stage_progression :: "job_stage \<Rightarrow> job_stage \<Rightarrow> unit result" where
  "validate_stage_progression cur nxt =
     and_then (reject_if (cur = Synthesize \<and> nxt = Validate)
       ''Archaeology synthesis must atomically validate and materialize its rule catalog'') (\<lambda>_.
     and_then (reject_if (cur = Validate \<and> nxt = Publish)
       ''Archaeology validate must persist a deterministic publication receipt'') (\<lambda>_.
     and_then (reject_if (cur = Publish \<and> nxt = Cleanup)
       ''Archaeology publish must advance through atomic generation publication'') (\<lambda>_.
     and_then (active_index cur) (\<lambda>i.
     and_then (active_index nxt) (\<lambda>j.
       reject_if (\<not> (j = i \<or> j = i + 1))
         ''Archaeology stages must stay current or advance exactly once'')))))"

definition to_i64 :: "nat \<Rightarrow> nat result" where
  "to_i64 n = (if n < 2 ^ 63 then Inr n else Inl ''Archaeology progress exceeds SQLite range'')"

primrec error_code_name :: "job_error_code \<Rightarrow> string" where
  "error_code_name InventoryFailed = ''inventory_failed''"
| "error_code_name ParserFailed = ''parser_failed''"
| "error_code_name LinkFailed = ''link_failed''"
| "error_code_name DerivationFailed = ''derivation_failed''"
| "error_code_name SynthesisFailed = ''synthesis_failed''"
| "error_code_name ValidationFailed = ''validation_failed''"
| "error_code_name PublicationFailed = ''publication_failed''"
| "error_code_name CleanupFailed = ''cleanup_failed''"
| "error_code_name OwnershipLost = ''ownership_lost''"
| "error_code_name Internal = ''internal''"

section \<open>Statements and transactions\<close>

definition cas_error :: "string \<Rightarrow> string \<Rightarrow> string" where
  "cas_error action job_id =
     ''Archaeology job '' @ action @ '' rejected: owner, state, stage, or progress changed for '' @ job_id"

definition require_cas :: "nat \<Rightarrow> string \<Rightarrow> string \<Rightarrow> unit result" where
  "require_cas changed action job_id = reject_if (changed \<noteq> 1) (cas_error action job_id)"

text \<open>
  \<open>UPDATE t SET f WHERE key = k AND p\<close> on a table with primary key \<open>k\<close>: the new table and the
  number of rows changed.
\<close>

definition update_row ::
  "'k::linorder \<Rightarrow> ('r \<Rightarrow> bool) \<Rightarrow> ('r \<Rightarrow> 'r) \<Rightarrow> ('k, 'r) bmap \<Rightarrow> ('k, 'r) bmap \<times> nat" where
  "update_row k p f t =
     (case map_of t k of
        None \<Rightarrow> (t, 0)
      | Some r \<Rightarrow> if p r then (bmap_insert k (f r) t, 1) else (t, 0))"

text \<open>\<open>DELETE FROM t WHERE key = k AND p\<close>.\<close>

definition delete_row :: "'k \<Rightarrow> ('r \<Rightarrow> bool) \<Rightarrow> ('k, 'r) bmap \<Rightarrow> ('k, 'r) bmap \<times> nat" where
  "delete_row k p t =
     (case map_of t k of
        None \<Rightarrow> (t, 0)
      | Some r \<Rightarrow> if p r then (filter (\<lambda>(k', _). k' \<noteq> k) t, 1) else (t, 0))"

text \<open>An owner-checked update of one job, rejected unless it changes the row.\<close>

definition cas_job ::
  "string \<Rightarrow> string \<Rightarrow> (job_row \<Rightarrow> bool) \<Rightarrow> (job_row \<Rightarrow> job_row) \<Rightarrow> 'c db \<Rightarrow> 'c db result" where
  "cas_job action job_id p f d =
     (case update_row job_id p f (jobs d) of
        (t, changed) \<Rightarrow> and_then (require_cas changed action job_id) (\<lambda>_. Inr (d\<lparr>jobs := t\<rparr>)))"

definition cas_generation ::
  "string \<Rightarrow> string \<Rightarrow> string \<Rightarrow> (generation_row \<Rightarrow> bool) \<Rightarrow> (generation_row \<Rightarrow> generation_row) \<Rightarrow>
   'c db \<Rightarrow> 'c db result" where
  "cas_generation action job_id generation_id p f d =
     (case update_row generation_id p f (generations d) of
        (t, changed) \<Rightarrow> and_then (require_cas changed action job_id) (\<lambda>_. Inr (d\<lparr>generations := t\<rparr>)))"

text \<open>All statements of the body commit, or none.\<close>

definition transact :: "('c db \<Rightarrow> ('c db \<times> 'r) result) \<Rightarrow> 'c db \<Rightarrow> 'c db \<times> 'r result" where
  "transact body d = (case body d of Inl e \<Rightarrow> (d, Inl e) | Inr (d', r) \<Rightarrow> (d', Inr r))"

text \<open>A statement outside a transaction commits by itself, before what follows is computed.\<close>

definition autocommit :: "('c db \<Rightarrow> 'c db result) \<Rightarrow> ('c db \<Rightarrow> 'r result) \<Rightarrow> 'c db \<Rightarrow> 'c db \<times> 'r result" where
  "autocommit stmt after d = (case stmt d of Inl e \<Rightarrow> (d, Inl e) | Inr d' \<Rightarrow> (d', after d'))"

text \<open>\<open>julianday(now) >= julianday(t)\<close>; a time SQLite cannot read makes it NULL.\<close>

definition not_before :: "'c env \<Rightarrow> string \<Rightarrow> string \<Rightarrow> bool" where
  "not_before env now t =
     (case (julianday env now, julianday env t) of (Some a, Some b) \<Rightarrow> b \<le> a | _ \<Rightarrow> False)"

definition active_state :: "job_state \<Rightarrow> bool" where
  "active_state s \<longleftrightarrow> s \<in> {Pending, Running, Paused, Cancelling}"

section \<open>Reading a job\<close>

definition load_job :: "'c env \<Rightarrow> string \<Rightarrow> 'c db \<Rightarrow> job_status result" where
  "load_job env job_id d =
     (case map_of (jobs d) job_id of
        None \<Rightarrow> Inl ''Archaeology job does not exist''
      | Some r \<Rightarrow>
          (case decode_errors env (errors_json r) of
             None \<Rightarrow> Inl ''Stored archaeology errors are invalid''
           | Some errors \<Rightarrow>
               Inr \<lparr>status_schema = ARCHAEOLOGY_SCHEMA_VERSION, status_job = Some job_id,
                    status_repository = Some (job_repository r), status_generation = job_generation r,
                    status_owner = Some (job_owner r), status_stage = job_stage r,
                    status_state = job_state r, status_completed = completed_units r,
                    status_total = total_units r, status_checkpoint = checkpoint_identity r,
                    status_cancellation = cancellation_requested r,
                    status_coverage = default_coverage, status_updated_at = Some (updated_at r),
                    status_errors = errors\<rparr>))"

section \<open>Starting\<close>

text \<open>
  The constraints an insert must satisfy: the primary keys, the foreign key to the repository,
  one staging or ready generation per identity, one active job per repository.
\<close>

definition generation_insertable :: "string \<Rightarrow> generation_row \<Rightarrow> 'c db \<Rightarrow> bool" where
  "generation_insertable generation_id g d \<longleftrightarrow>
     map_of (generations d) generation_id = None \<and>
     map_of (repositories d) (gen_repository g) \<noteq> None \<and>
     list_all (\<lambda>(_, h). \<not> (gen_status h \<in> {Staging, Ready} \<and> gen_repository h = gen_repository g \<and>
         gen_schema h = gen_schema g \<and> gen_identity h = gen_identity g)) (generations d)"

definition job_insertable :: "string \<Rightarrow> job_row \<Rightarrow> 'c db \<Rightarrow> bool" where
  "job_insertable job_id r d \<longleftrightarrow>
     map_of (jobs d) job_id = None \<and>
     map_of (repositories d) (job_repository r) \<noteq> None \<and>
     list_all (\<lambda>(_, q). \<not> (active_state (job_state q) \<and> job_repository q = job_repository r)) (jobs d)"

definition new_generation :: "stage_input \<Rightarrow> generation_row" where
  "new_generation i =
     \<lparr>gen_repository = in_repository i, gen_schema = ARCHAEOLOGY_STORAGE_SCHEMA_VERSION,
      gen_identity = in_identity i, gen_status = Staging, coverage_json = ''{}'',
      source_unit_count = 0, fact_count = 0, rule_count = 0, created_at = in_now i,
      published_at = None\<rparr>"

definition new_job :: "stage_input \<Rightarrow> nat option \<Rightarrow> job_row" where
  "new_job i total_count =
     \<lparr>job_repository = in_repository i, job_generation = Some (in_generation i),
      job_owner = in_owner i, job_stage = Inventory, job_state = Running,
      checkpoint_identity = None, checkpoint_json = ''{}'', completed_units = 0,
      total_units = total_count, cancellation_requested = False, errors_json = ''[]'',
      started_at = in_now i, updated_at = in_now i, finished_at = None\<rparr>"

definition optional_i64 :: "nat option \<Rightarrow> nat option result" where
  "optional_i64 n = (case n of None \<Rightarrow> Inr None | Some k \<Rightarrow> and_then (to_i64 k) (\<lambda>v. Inr (Some v)))"

definition start_job :: "'c env \<Rightarrow> stage_input \<Rightarrow> nat option \<Rightarrow> 'c db \<Rightarrow> 'c db \<times> job_status result" where
  "start_job env i total_count =
     transact (\<lambda>d.
       and_then (validate_owned_generation env i) (\<lambda>_.
       and_then (optional_i64 total_count) (\<lambda>n.
       and_then (reject_if (\<not> generation_insertable (in_generation i) (new_generation i) d)
                   (''Create archaeology staging generation: '' @ sql_detail env)) (\<lambda>_.
       let d1 = d\<lparr>generations := bmap_insert (in_generation i) (new_generation i) (generations d)\<rparr>
       in and_then (reject_if (\<not> job_insertable (in_job i) (new_job i n) d1)
                      (''Create archaeology job: '' @ sql_detail env)) (\<lambda>_.
          let d2 = d1\<lparr>jobs := bmap_insert (in_job i) (new_job i n) (jobs d1)\<rparr>
          in and_then (load_job env (in_job i) d2) (\<lambda>status. Inr (d2, status)))))))"

section \<open>Progress and heartbeats\<close>

definition coalesce :: "'a option \<Rightarrow> 'a option \<Rightarrow> 'a option" where
  "coalesce a b = (case a of None \<Rightarrow> b | Some _ \<Rightarrow> a)"

definition checkpoint_guard ::
  "'c env \<Rightarrow> string \<Rightarrow> job_stage \<Rightarrow> job_stage \<Rightarrow> string \<Rightarrow> nat \<Rightarrow> nat option \<Rightarrow> string \<Rightarrow> job_row \<Rightarrow> bool" where
  "checkpoint_guard env owner expected nxt identity completed total_count now r \<longleftrightarrow>
     job_owner r = owner \<and> job_state r = Running \<and> job_stage r = expected \<and>
     completed_units r \<le> completed \<and>
     (total_units r = None \<or> total_count = None \<or> total_units r = total_count) \<and>
     (case coalesce total_count (total_units r) of None \<Rightarrow> True | Some t \<Rightarrow> completed \<le> t) \<and>
     (nxt \<noteq> expected \<or> completed_units r < completed \<or> checkpoint_identity r = None
       \<or> checkpoint_identity r = Some identity) \<and>
     not_before env now (updated_at r)"

definition checkpoint_job ::
  "'c env \<Rightarrow> string \<Rightarrow> string \<Rightarrow> job_stage \<Rightarrow> job_stage \<Rightarrow> string \<Rightarrow> job_checkpoint \<Rightarrow> nat \<Rightarrow>
   nat option \<Rightarrow> string \<Rightarrow> 'c db \<Rightarrow> 'c db \<times> job_status result" where
  "checkpoint_job env job_id owner_id expected nxt identity checkpoint completed total_count now =
     autocommit (\<lambda>d.
       and_then (validate_actor env job_id owner_id now) (\<lambda>_.
       and_then (validate_stage_progression expected nxt) (\<lambda>_.
       and_then (validate_persisted_token ''checkpoint'' identity MAX_ID_BYTES) (\<lambda>_.
       and_then (validate_checkpoint checkpoint) (\<lambda>_.
       let json = encode_checkpoint env checkpoint
       in and_then (reject_if (MAX_CHECKPOINT_BYTES < length json)
                      ''Archaeology checkpoint exceeds 65536 bytes'') (\<lambda>_.
          and_then (to_i64 completed) (\<lambda>c.
          and_then (optional_i64 total_count) (\<lambda>t.
          and_then (reject_if (case t of None \<Rightarrow> False | Some v \<Rightarrow> v < c)
                      ''Completed archaeology units exceed total units'') (\<lambda>_.
            cas_job ''checkpoint'' job_id
              (checkpoint_guard env owner_id expected nxt identity c t now)
              (\<lambda>r. r\<lparr>job_stage := nxt, checkpoint_identity := Some identity,
                     checkpoint_json := json, completed_units := c,
                     total_units := coalesce t (total_units r), updated_at := now\<rparr>) d)))))))))
     (load_job env job_id)"

definition heartbeat_job ::
  "'c env \<Rightarrow> string \<Rightarrow> string \<Rightarrow> string \<Rightarrow> 'c db \<Rightarrow> 'c db \<times> job_status result" where
  "heartbeat_job env job_id owner_id now =
     autocommit (\<lambda>d.
       and_then (validate_actor env job_id owner_id now) (\<lambda>_.
         cas_job ''heartbeat'' job_id
           (\<lambda>r. job_owner r = owner_id \<and> job_state r \<in> {Running, Cancelling} \<and>
                 not_before env now (updated_at r))
           (\<lambda>r. r\<lparr>updated_at := now\<rparr>) d))
     (load_job env job_id)"

primrec state_name :: "job_state \<Rightarrow> string" where
  "state_name Pending = ''pending''"
| "state_name Running = ''running''"
| "state_name Paused = ''paused''"
| "state_name Cancelling = ''cancelling''"
| "state_name Completed = ''completed''"
| "state_name Failed = ''failed''"
| "state_name Cancelled = ''cancelled''"
| "state_name Unavailable = ''unavailable''"

definition transition_state ::
  "'c env \<Rightarrow> string \<Rightarrow> string \<Rightarrow> job_state \<Rightarrow> job_state \<Rightarrow> bool \<Rightarrow> string \<Rightarrow> 'c db \<Rightarrow>
   'c db \<times> job_status result" where
  "transition_state env job_id owner_id from_state to_state cancellation now =
     autocommit (\<lambda>d.
       and_then (validate_actor env job_id owner_id now) (\<lambda>_.
         cas_job (state_name to_state) job_id
           (\<lambda>r. job_owner r = owner_id \<and> job_state r = from_state \<and> not_before env now (updated_at r))
           (\<lambda>r. r\<lparr>job_state := to_state, cancellation_requested := cancellation, updated_at := now\<rparr>) d))
     (load_job env job_id)"

definition pause_job :: "'c env \<Rightarrow> string \<Rightarrow> string \<Rightarrow> string \<Rightarrow> 'c db \<Rightarrow> 'c db \<times> job_status result" where
  "pause_job env job_id owner_id now = transition_state env job_id owner_id Running Paused False now"

definition resume_job :: "'c env \<Rightarrow> string \<Rightarrow> string \<Rightarrow> string \<Rightarrow> 'c db \<Rightarrow> 'c db \<times> job_status result" where
  "resume_job env job_id owner_id now = transition_state env job_id owner_id Paused Running False now"

section \<open>Cancellation, failure and completion\<close>

text \<open>A subquery on the generation of a job.\<close>

definition generation_of :: "job_row \<Rightarrow> 'c db \<Rightarrow> generation_row option" where
  "generation_of r d = Option.bind (job_generation r) (map_of (generations d))"

definition cancellable :: "'c db \<Rightarrow> job_row \<Rightarrow> bool" where
  "cancellable d r =
     (case generation_of r d of
        None \<Rightarrow> False
      | Some g \<Rightarrow> gen_status g = Staging \<or> (job_stage r = Cleanup \<and> gen_status g = Ready))"

definition request_cancel :: "'c env \<Rightarrow> string \<Rightarrow> string \<Rightarrow> string \<Rightarrow> 'c db \<Rightarrow> 'c db \<times> job_status result" where
  "request_cancel env job_id owner_id now =
     autocommit (\<lambda>d.
       and_then (validate_actor env job_id owner_id now) (\<lambda>_.
         cas_job ''cancel'' job_id
           (\<lambda>r. job_owner r = owner_id \<and> job_state r \<in> {Running, Paused} \<and>
                 not_before env now (updated_at r) \<and> cancellable d r)
           (\<lambda>r. r\<lparr>job_state := Cancelling, cancellation_requested := True, updated_at := now\<rparr>) d))
     (load_job env job_id)"

text \<open>\<open>Published\<close> data is never demoted: a generation that is ready and pointed at stays ready.\<close>

definition published_ready :: "string \<Rightarrow> 'c db \<Rightarrow> bool" where
  "published_ready job_id d =
     (case map_of (jobs d) job_id of
        None \<Rightarrow> False
      | Some r \<Rightarrow>
          (case (generation_of r d, map_of (repositories d) (job_repository r)) of
             (Some g, Some repo) \<Rightarrow> gen_status g = Ready \<and> ready_generation_id repo = job_generation r
           | _ \<Rightarrow> False))"

definition update_staging_generation :: "string \<Rightarrow> generation_status \<Rightarrow> 'c db \<Rightarrow> 'c db result" where
  "update_staging_generation job_id status d =
     (case (case Option.bind (map_of (jobs d) job_id) job_generation of
              None \<Rightarrow> (generations d, 0)
            | Some g \<Rightarrow> update_row g (\<lambda>r. gen_status r = Staging) (\<lambda>r. r\<lparr>gen_status := status\<rparr>) (generations d)) of
        (t, changed) \<Rightarrow>
          if changed = 1 then Inr (d\<lparr>generations := t\<rparr>)
          else if published_ready job_id d \<and> status \<in> {GenFailed, GenCancelled} then Inr d
          else and_then (require_cas changed ''generation update'' job_id) (\<lambda>_. Inr d))"

definition finish_job ::
  "'c env \<Rightarrow> string \<Rightarrow> string \<Rightarrow> job_state \<Rightarrow> job_state \<Rightarrow> generation_status option \<Rightarrow> string \<Rightarrow> 'c db \<Rightarrow>
   'c db \<times> job_status result" where
  "finish_job env job_id owner_id from_state to_state status now =
     transact (\<lambda>d.
       and_then (validate_actor env job_id owner_id now) (\<lambda>_.
       and_then (cas_job (state_name to_state) job_id
           (\<lambda>r. job_owner r = owner_id \<and> job_state r = from_state \<and> not_before env now (updated_at r))
           (\<lambda>r. r\<lparr>job_state := to_state, job_stage := Idle, finished_at := Some now, updated_at := now\<rparr>) d)
         (\<lambda>d1.
       and_then (case status of None \<Rightarrow> Inr d1 | Some s \<Rightarrow> update_staging_generation job_id s d1) (\<lambda>d2.
       and_then (load_job env job_id d2) (\<lambda>st. Inr (d2, st))))))"

definition acknowledge_cancel :: "'c env \<Rightarrow> string \<Rightarrow> string \<Rightarrow> string \<Rightarrow> 'c db \<Rightarrow> 'c db \<times> job_status result" where
  "acknowledge_cancel env job_id owner_id now =
     finish_job env job_id owner_id Cancelling Cancelled (Some GenCancelled) now"

definition completable :: "'c db \<Rightarrow> job_row \<Rightarrow> bool" where
  "completable d r =
     (case generation_of r d of
        None \<Rightarrow> False
      | Some g \<Rightarrow> gen_repository g = job_repository r \<and> gen_status g = Ready)"

definition complete_job :: "'c env \<Rightarrow> string \<Rightarrow> string \<Rightarrow> string \<Rightarrow> 'c db \<Rightarrow> 'c db \<times> job_status result" where
  "complete_job env job_id owner_id now =
     transact (\<lambda>d.
       and_then (validate_actor env job_id owner_id now) (\<lambda>_.
       and_then (cas_job ''complete'' job_id
           (\<lambda>r. job_owner r = owner_id \<and> job_state r = Running \<and> job_stage r = Cleanup \<and>
                 \<not> cancellation_requested r \<and> not_before env now (updated_at r) \<and> completable d r)
           (\<lambda>r. r\<lparr>job_state := Completed, job_stage := Idle, finished_at := Some now, updated_at := now\<rparr>) d)
         (\<lambda>d1.
       and_then (load_job env job_id d1) (\<lambda>st. Inr (d1, st)))))"

definition fail_job ::
  "'c env \<Rightarrow> string \<Rightarrow> string \<Rightarrow> job_error_code \<Rightarrow> string \<Rightarrow> 'c db \<Rightarrow> 'c db \<times> job_status result" where
  "fail_job env job_id owner_id code now =
     transact (\<lambda>d.
       and_then (validate_actor env job_id owner_id now) (\<lambda>_.
       and_then (case map_of (jobs d) job_id of
            None \<Rightarrow> Inl (cas_error ''fail'' job_id)
          | Some r \<Rightarrow>
              if job_owner r = owner_id \<and> job_state r \<in> {Running, Paused, Cancelling}
              then Inr (errors_json r) else Inl (cas_error ''fail'' job_id)) (\<lambda>current.
       and_then (case decode_errors env current of
            None \<Rightarrow> Inl ''Stored archaeology errors are invalid'' | Some es \<Rightarrow> Inr es) (\<lambda>errors.
       and_then (reject_if (MAX_ERRORS \<le> length errors) ''Archaeology job retains at most 16 errors'') (\<lambda>_.
       let json = encode_errors env (errors @ [error_code_name code])
       in and_then (reject_if (MAX_ERRORS_JSON_BYTES < length json)
                      ''Archaeology errors exceed 32768 bytes'') (\<lambda>_.
          and_then (cas_job ''fail'' job_id
              (\<lambda>r. job_owner r = owner_id \<and> job_state r \<in> {Running, Paused, Cancelling} \<and>
                    not_before env now (updated_at r))
              (\<lambda>r. r\<lparr>job_state := Failed, job_stage := Idle, errors_json := json,
                     finished_at := Some now, updated_at := now\<rparr>) d) (\<lambda>d1.
          and_then (update_staging_generation job_id GenFailed d1) (\<lambda>d2.
          and_then (load_job env job_id d2) (\<lambda>st. Inr (d2, st))))))))))"

section \<open>Taking over a stale job\<close>

definition active_job_of :: "string \<Rightarrow> 'c db \<Rightarrow> (string \<times> job_row) option" where
  "active_job_of repository_id d =
     List.find (\<lambda>(_, r). job_repository r = repository_id \<and> active_state (job_state r)) (jobs d)"

definition recover_stale_job ::
  "'c env \<Rightarrow> string \<Rightarrow> string \<Rightarrow> string \<Rightarrow> string \<Rightarrow> 'c db \<Rightarrow> 'c db \<times> job_status result" where
  "recover_stale_job env repository_id new_owner_id stale_before now d =
     (case (and_then (validate_id ''repository'' repository_id) (\<lambda>_.
            and_then (validate_id ''owner'' new_owner_id) (\<lambda>_.
            and_then (validate_timestamp env stale_before) (\<lambda>cutoff.
            and_then (validate_timestamp env now) (\<lambda>now_time.
            and_then (reject_if (now_time < cutoff)
                        ''Archaeology stale cutoff cannot be later than now'') (\<lambda>_.
            case active_job_of repository_id d of
              None \<Rightarrow> Inl ''No active archaeology job exists''
            | Some row \<Rightarrow> Inr (cutoff, row))))))) of
        Inl e \<Rightarrow> (d, Inl e)
      | Inr (cutoff, job_id, row) \<Rightarrow>
          if job_owner row = new_owner_id then (d, load_job env job_id d)
          else autocommit (\<lambda>d.
              and_then (validate_timestamp env (updated_at row)) (\<lambda>beat.
              and_then (reject_if (cutoff \<le> beat)
                          ''Active archaeology job owner heartbeat is still live'') (\<lambda>_.
              let recovered = (if job_state row = Running then Paused else job_state row)
              in cas_job ''recover'' job_id
                   (\<lambda>r. job_repository r = repository_id \<and> job_owner r = job_owner row \<and>
                         job_state r = job_state row \<and> updated_at r = updated_at row)
                   (\<lambda>r. r\<lparr>job_owner := new_owner_id, job_state := recovered, updated_at := now\<rparr>) d)))
            (load_job env job_id) d)"

section \<open>Coverage\<close>

text \<open>The coverage JSON stored with a generation, decoded and checked.\<close>

definition parse_coverage :: "'c env \<Rightarrow> string \<Rightarrow> string \<Rightarrow> coverage result" where
  "parse_coverage env json label =
     (if MAX_CHECKPOINT_BYTES < length json
      then Inl (''Archaeology '' @ label @ '' coverage exceeds its byte bound'')
      else case decode_coverage env json of
        None \<Rightarrow> Inl (''Archaeology '' @ label @ '' coverage is invalid'')
      | Some c \<Rightarrow>
          if cov_state c \<noteq> CoverageComplete \<and> cov_reasons c = []
          then Inl (''Archaeology '' @ label @ '' partial or unavailable coverage requires a reason'')
          else if MAX_COVERAGE_REASONS < length (cov_reasons c)
               \<or> list_ex (\<lambda>r. r = [] \<or> MAX_COVERAGE_REASON_BYTES < length r \<or> looks_like_secret r
                              \<or> contains_sensitive_path r) (cov_reasons c)
               \<or> discovered_source_units c < indexed_source_units c
               \<or> discovered_bytes c < indexed_bytes c
               \<or> (cov_state c = CoverageComplete \<and>
                   (indexed_source_units c \<noteq> discovered_source_units c
                    \<or> indexed_bytes c \<noteq> discovered_bytes c))
          then Inl (''Archaeology '' @ label @ '' coverage is inconsistent'')
          else Inr c)"

text \<open>
  A new generation starts with the coverage \<open>{}\<close>. The inventory writes the coverage it measured,
  as a statement of its own after the job has been started; the number of rows is not looked at.
\<close>

definition record_coverage ::
  "'c env \<Rightarrow> string \<Rightarrow> string \<Rightarrow> coverage \<Rightarrow> 'c db \<Rightarrow> 'c db \<times> unit result" where
  "record_coverage env repository_id generation_id c =
     autocommit (\<lambda>d.
       case update_row generation_id
           (\<lambda>g. gen_repository g = repository_id \<and> gen_status g = Staging)
           (\<lambda>g. g\<lparr>coverage_json := encode_coverage env c\<rparr>) (generations d) of
         (t, _) \<Rightarrow> Inr (d\<lparr>generations := t\<rparr>))
     (\<lambda>_. Inr ())"

text \<open>
  Cloning the facts of the ready generation an invalidation plan builds on: of the three tables only the
  coverage of the staging generation is written, and only in the mode that changes nothing. What
  it does to the other tables is \<open>clone_rest\<close>.
\<close>

definition require_staging_scope :: "string \<Rightarrow> string \<Rightarrow> 'c db \<Rightarrow> unit result" where
  "require_staging_scope repository_id generation_id d =
     (case map_of (generations d) generation_id of
        None \<Rightarrow> Inl ''Archaeology generation is outside repository scope''
      | Some g \<Rightarrow>
          and_then (reject_if (gen_repository g \<noteq> repository_id)
                      ''Archaeology generation is outside repository scope'') (\<lambda>_.
          reject_if (gen_status g \<noteq> Staging)
            ''Archaeology metadata replacement requires its exact staging generation''))"

definition require_ready_scope :: "string \<Rightarrow> string \<Rightarrow> 'c db \<Rightarrow> unit result" where
  "require_ready_scope repository_id generation_id d =
     reject_if (\<not> (case map_of (generations d) generation_id of
                     None \<Rightarrow> False
                   | Some g \<Rightarrow> gen_repository g = repository_id \<and> gen_status g = Ready))
       ''Archaeology ready generation is outside repository scope''"

definition copy_coverage :: "string \<Rightarrow> string \<Rightarrow> 'c db \<Rightarrow> 'c db" where
  "copy_coverage generation_id ready d =
     (case map_of (generations d) ready of
        None \<Rightarrow> d
      | Some h \<Rightarrow> d\<lparr>generations := fst (update_row generation_id (\<lambda>_. True)
                       (\<lambda>g. g\<lparr>coverage_json := coverage_json h\<rparr>) (generations d))\<rparr>)"

definition clone_unaffected_ready_facts ::
  "'c env \<Rightarrow> clone_plan \<Rightarrow> string \<Rightarrow> string \<Rightarrow> 'c db \<Rightarrow> 'c db \<times> unit result" where
  "clone_unaffected_ready_facts env plan repository_id generation_id =
     transact (\<lambda>d.
       and_then (reject_if (plan_repository plan \<noteq> repository_id \<or> plan_generation plan \<noteq> generation_id)
                   ''Archaeology clone plan is outside generation scope'') (\<lambda>_.
       and_then (require_staging_scope repository_id generation_id d) (\<lambda>_.
       case plan_ready plan of
         None \<Rightarrow> Inr (d, ())
       | Some ready \<Rightarrow>
           and_then (require_ready_scope repository_id ready d) (\<lambda>_.
           and_then (clone_rest env plan (rest d)) (\<lambda>x.
             Inr ((if plan_mode plan = NoOp then copy_coverage generation_id ready d else d)\<lparr>rest := x\<rparr>, ()))))))"

section \<open>The stages that build a generation\<close>

text \<open>
  \<open>link_generation\<close>, \<open>derive_template_candidates\<close> and \<open>finalize_synthesis_catalog\<close> load the
  job they own together with its staging generation, do their work on the other tables and hand
  the job to the next stage, in one transaction.
\<close>

definition staging_of :: "stage_input \<Rightarrow> 'c db \<Rightarrow> bool" where
  "staging_of i d =
     (case map_of (generations d) (in_generation i) of
        None \<Rightarrow> False
      | Some g \<Rightarrow> gen_repository g = in_repository i \<and> gen_status g = Staging \<and>
          gen_identity g = in_identity i \<and> gen_schema g = ARCHAEOLOGY_STORAGE_SCHEMA_VERSION)"

definition owned_job :: "'c env \<Rightarrow> stage_input \<Rightarrow> job_stage set \<Rightarrow> 'c db \<Rightarrow> job_row option" where
  "owned_job env i stages d =
     (case map_of (jobs d) (in_job i) of
        None \<Rightarrow> None
      | Some r \<Rightarrow>
          if job_repository r = in_repository i \<and> job_generation r = Some (in_generation i) \<and>
             job_owner r = in_owner i \<and> job_state r = Running \<and> job_stage r \<in> stages \<and>
             \<not> cancellation_requested r \<and> staging_of i d \<and> not_before env (in_now i) (updated_at r)
          then Some r else None)"

definition digest_identity :: "'c env \<Rightarrow> string \<Rightarrow> string \<Rightarrow> string" where
  "digest_identity env bytes prefix = prefix @ sha256_hex env bytes"

definition link_receipt :: "'c env \<Rightarrow> stage_input \<Rightarrow> string" where
  "link_receipt env i =
     digest_identity env
       (in_repository i @ NUL @ in_generation i @ NUL @ id_revision (in_identity i) @ NUL
        @ id_parser (in_identity i)) ''archaeology-link:v1:''"

definition derive_receipt :: "'c env \<Rightarrow> stage_input \<Rightarrow> string" where
  "derive_receipt env i =
     digest_identity env
       (in_repository i @ NUL @ in_generation i @ NUL @ id_revision (in_identity i) @ NUL
        @ id_parser (in_identity i) @ NUL @ id_algorithm (in_identity i) @ NUL
        @ id_config (in_identity i)) ''archaeology-derive-cluster:v1:''"

text \<open>\<open>rsplit_once('@')\<close>.\<close>

definition rsplit_at :: "string \<Rightarrow> (string \<times> string) option" where
  "rsplit_at s =
     (if CHR 0x40 \<in> set s
      then Some (rev (tl (dropWhile (\<lambda>c. c \<noteq> CHR 0x40) (rev s))),
                 rev (takeWhile (\<lambda>c. c \<noteq> CHR 0x40) (rev s)))
      else None)"

definition manifest_prefix :: string where "manifest_prefix = ''parser-manifest:v1:''"

definition add_parser :: "string \<Rightarrow> (string, string) bmap \<Rightarrow> (string, string) bmap result" where
  "add_parser entry m =
     (case rsplit_at entry of
        None \<Rightarrow> Inl ''Parser manifest entry is malformed''
      | Some (parser_id, version) \<Rightarrow>
          and_then (validate_persisted_token ''parser id'' parser_id 128) (\<lambda>_.
          and_then (validate_persisted_token ''parser version'' version 64) (\<lambda>_.
            if map_of m parser_id \<noteq> None then Inl ''Parser manifest contains a duplicate parser''
            else Inr (bmap_insert parser_id version m))))"

definition parse_parser_manifest :: "string \<Rightarrow> (string, string) bmap result" where
  "parse_parser_manifest identity =
     (if \<not> starts_with identity manifest_prefix
      then Inl ''Generation parser identity is not a v1 manifest''
      else and_then (fold_result add_parser
             (filter (\<lambda>e. e \<noteq> []) (split_on (\<lambda>c. c = CHR '','') (drop (length manifest_prefix) identity))) [])
           (\<lambda>m. let canonical = join '','' (map (\<lambda>(p, v). p @ ''@'' @ v) m)
                 in if canonical = [] \<or> manifest_prefix @ canonical \<noteq> identity
                    then Inl ''Generation parser manifest is empty or noncanonical''
                    else Inr m))"

text \<open>The hand-over at the end of a stage: the progress the job was loaded with must stand.\<close>

definition hand_over ::
  "'c env \<Rightarrow> stage_input \<Rightarrow> string \<Rightarrow> job_stage \<Rightarrow> job_stage \<Rightarrow> job_row \<Rightarrow> string \<Rightarrow> job_checkpoint \<Rightarrow>
   'c db \<Rightarrow> 'c db result" where
  "hand_over env i action at nxt loaded receipt checkpoint =
     cas_job action (in_job i)
       (\<lambda>r. job_repository r = in_repository i \<and> job_generation r = Some (in_generation i) \<and>
             job_owner r = in_owner i \<and> job_state r = Running \<and> job_stage r = at \<and>
             \<not> cancellation_requested r \<and> completed_units r = completed_units loaded \<and>
             total_units r = total_units loaded)
       (\<lambda>r. r\<lparr>job_stage := nxt, checkpoint_identity := Some receipt,
              checkpoint_json := encode_checkpoint env checkpoint, updated_at := in_now i\<rparr>)"

text \<open>
  Link and derive have the same shape: a repeated call after the hand-over finds its receipt and
  changes nothing.
\<close>

definition receipt_stage ::
  "'c env \<Rightarrow> bool \<Rightarrow> string \<Rightarrow> string \<Rightarrow> string \<Rightarrow> string \<Rightarrow> job_stage \<Rightarrow> job_stage \<Rightarrow>
   ('c db \<Rightarrow> coverage option result) \<Rightarrow> stage_input \<Rightarrow> 'c db \<Rightarrow> 'c db \<times> job_status result" where
  "receipt_stage env cancelled noun action checkpoint_action receipt at nxt read_coverage i =
     transact (\<lambda>d.
       and_then (validate_owned_generation env i) (\<lambda>_.
       and_then (reject_if cancelled (''Archaeology '' @ noun @ '' cancelled'')) (\<lambda>_.
       and_then (parse_parser_manifest (id_parser (in_identity i))) (\<lambda>_.
       case owned_job env i {at, nxt} d of
         None \<Rightarrow> Inl (cas_error action (in_job i))
       | Some r \<Rightarrow>
           if job_stage r = nxt \<and> checkpoint_identity r = Some receipt
           then and_then (load_job env (in_job i) d) (\<lambda>st. Inr (d, st))
           else if job_stage r \<noteq> at then Inl (cas_error action (in_job i))
           else and_then (read_coverage d) (\<lambda>c.
                and_then (stage_work env at i c (rest d)) (\<lambda>(checkpoint, rest').
                and_then (hand_over env i checkpoint_action at nxt r receipt checkpoint (d\<lparr>rest := rest'\<rparr>)) (\<lambda>d1.
                and_then (load_job env (in_job i) d1) (\<lambda>st. Inr (d1, st)))))))))"

definition link_generation :: "'c env \<Rightarrow> bool \<Rightarrow> stage_input \<Rightarrow> 'c db \<Rightarrow> 'c db \<times> job_status result" where
  "link_generation env cancelled i =
     receipt_stage env cancelled ''linker'' ''link'' ''link checkpoint'' (link_receipt env i) Link Derive
       (\<lambda>_. Inr None) i"

definition derivation_coverage :: "'c env \<Rightarrow> stage_input \<Rightarrow> 'c db \<Rightarrow> coverage option result" where
  "derivation_coverage env i d =
     (case map_of (generations d) (in_generation i) of
        None \<Rightarrow> Inr None
      | Some g \<Rightarrow> and_then (parse_coverage env (coverage_json g) ''derivation generation'') (\<lambda>c. Inr (Some c)))"

definition derive_template_candidates ::
  "'c env \<Rightarrow> bool \<Rightarrow> stage_input \<Rightarrow> 'c db \<Rightarrow> 'c db \<times> job_status result" where
  "derive_template_candidates env cancelled i =
     receipt_stage env cancelled ''derivation'' ''derive'' ''derive checkpoint'' (derive_receipt env i)
       Derive Synthesize (derivation_coverage env i) i"

text \<open>
  The synthesis catalog: the stored checkpoint is extended by the counts of the finalized
  catalog; a repeated call in the next stage accepts only the unchanged catalog.
\<close>

definition catalog_checkpoint :: "string \<Rightarrow> nat \<times> nat \<times> nat \<Rightarrow> job_checkpoint \<Rightarrow> job_checkpoint" where
  "catalog_checkpoint receipt counts c =
     (case counts of (rules, clauses, domains) \<Rightarrow>
        c\<lparr>cursor_identity := Some receipt,
          counters := bmap_insert ''final_domains'' domains (bmap_insert ''final_clauses'' clauses
            (bmap_insert ''final_rules'' rules (bmap_insert ''synthesis_complete'' 1 (counters c))))\<rparr>)"

definition finalize_synthesis_catalog ::
  "'c env \<Rightarrow> bool \<Rightarrow> stage_input \<Rightarrow> 'c db \<Rightarrow> 'c db \<times> job_status result" where
  "finalize_synthesis_catalog env cancelled i =
     transact (\<lambda>d.
       and_then (validate_owned_generation env i) (\<lambda>_.
       and_then (reject_if cancelled ''Archaeology synthesis catalog cancelled'') (\<lambda>_.
       case owned_job env i {Synthesize, Validate} d of
         None \<Rightarrow> Inl (cas_error ''synthesis catalog'' (in_job i))
       | Some r \<Rightarrow>
           and_then (stage_work env (job_stage r) i None (rest d)) (\<lambda>(_, rest').
           and_then (catalog_receipt env i rest') (\<lambda>receipt.
           if job_stage r = Validate
           then (if checkpoint_identity r = Some receipt
                 then and_then (load_job env (in_job i) d) (\<lambda>st. Inr (d, st))
                 else Inl ''Archaeology synthesis catalog changed after validation'')
           else and_then (case decode_checkpoint env (checkpoint_json r) of
                    None \<Rightarrow> Inl ''Stored archaeology synthesis checkpoint is invalid''
                  | Some c \<Rightarrow> Inr (catalog_checkpoint receipt (catalog_counts env (in_generation i) rest') c)) (\<lambda>c.
                and_then (validate_checkpoint c) (\<lambda>_.
                and_then (reject_if (MAX_CHECKPOINT_BYTES < length (encode_checkpoint env c))
                            ''Archaeology checkpoint exceeds 65536 bytes'') (\<lambda>_.
                and_then (reject_if (\<not> not_before env (in_now i) (updated_at r))
                            (cas_error ''synthesis catalog checkpoint'' (in_job i))) (\<lambda>_.
                and_then (hand_over env i ''synthesis catalog checkpoint'' Synthesize Validate r receipt c
                            (d\<lparr>rest := rest'\<rparr>)) (\<lambda>d1.
                and_then (load_job env (in_job i) d1) (\<lambda>st. Inr (d1, st))))))))))))"

text \<open>
  The ends of the inventory and parse stages. The refresh plan is computed by the invalidation
  modules; what is left to do is to enter the next stage, or, when nothing changed, to drop the
  job and its staging generation.
\<close>

definition refresh_stage :: "invalidation_mode \<Rightarrow> job_stage" where
  "refresh_stage mode = (if mode \<in> {NoOp, SynthesisOnly} then Link else Parse)"

definition refresh_checkpoint :: "string \<Rightarrow> nat \<Rightarrow> job_checkpoint" where
  "refresh_checkpoint plan changed_paths =
     \<lparr>cursor_identity = Some plan, source_unit_id = None, checkpoint_ordinal = None,
      counters = btree.collect [(''inventory_complete'', 1), (''refresh_changed_paths'', changed_paths)]\<rparr>"

definition enter_refresh ::
  "'c env \<Rightarrow> stage_input \<Rightarrow> invalidation_mode \<Rightarrow> string \<Rightarrow> nat \<Rightarrow> 'c db \<Rightarrow> 'c db \<times> job_stage result" where
  "enter_refresh env i mode plan changed_paths =
     autocommit (\<lambda>d.
       case update_row (in_job i)
           (\<lambda>r. job_repository r = in_repository i \<and> job_generation r = Some (in_generation i) \<and>
                 job_owner r = in_owner i \<and> job_stage r = Inventory \<and> job_state r = Running \<and>
                 \<not> cancellation_requested r)
           (\<lambda>r. r\<lparr>job_stage := refresh_stage mode, checkpoint_identity := Some plan,
                  checkpoint_json := encode_checkpoint env (refresh_checkpoint plan changed_paths),
                  updated_at := in_now i\<rparr>) (jobs d) of
         (t, changed) \<Rightarrow>
           and_then (reject_if (changed \<noteq> 1) ''Archaeology refresh plan lost its job lease'') (\<lambda>_.
             Inr (d\<lparr>jobs := t\<rparr>)))
     (\<lambda>_. Inr (refresh_stage mode))"

definition drop_no_op :: "stage_input \<Rightarrow> 'c db \<Rightarrow> 'c db \<times> unit result" where
  "drop_no_op i =
     transact (\<lambda>d.
       case delete_row (in_job i)
           (\<lambda>r. job_repository r = in_repository i \<and> job_generation r = Some (in_generation i) \<and>
                 job_owner r = in_owner i \<and> job_stage r = Inventory \<and> job_state r = Running \<and>
                 \<not> cancellation_requested r) (jobs d) of
         (js, deleted_job) \<Rightarrow>
           and_then (reject_if (deleted_job \<noteq> 1) ''Archaeology no-op refresh lost its job lease'') (\<lambda>_.
           case delete_row (in_generation i)
               (\<lambda>g. gen_repository g = in_repository i \<and> gen_status g = Staging) (generations d) of
             (gs, deleted_generation) \<Rightarrow>
               and_then (reject_if (deleted_generation \<noteq> 1)
                           ''Archaeology no-op staging generation did not reconcile'') (\<lambda>_.
                 Inr (d\<lparr>jobs := map (\<lambda>(k, r). (k, if job_generation r = Some (in_generation i)
                                                  then r\<lparr>job_generation := None\<rparr> else r)) js,
                        generations := gs\<rparr>, ()))))"

definition complete_parse :: "stage_input \<Rightarrow> 'c db \<Rightarrow> 'c db \<times> unit result" where
  "complete_parse i =
     autocommit (\<lambda>d.
       (case update_row (in_job i)
           (\<lambda>r. job_repository r = in_repository i \<and> job_generation r = Some (in_generation i) \<and>
                 job_owner r = in_owner i \<and> job_stage r = Parse \<and> job_state r = Running \<and>
                 \<not> cancellation_requested r)
           (\<lambda>r. r\<lparr>job_stage := Link, updated_at := in_now i\<rparr>) (jobs d) of
          (t, changed) \<Rightarrow>
            and_then (reject_if (changed \<noteq> 1) ''Archaeology incremental parse lost its job lease'') (\<lambda>_.
              Inr (d\<lparr>jobs := t\<rparr>))))
     (\<lambda>_. Inr ())"

text \<open>The repository row, inserted or brought up to date by the inventory; its ready pointer
  stays. No two repositories have one path.\<close>

definition registered_row :: "string \<Rightarrow> string \<Rightarrow> string \<Rightarrow> string \<Rightarrow> repository_row option \<Rightarrow> repository_row" where
  "registered_row path source revision now old =
     \<lparr>repo_path = path, repo_source = source, current_revision = revision,
      ready_generation_id = Option.bind old ready_generation_id, repo_updated_at = now\<rparr>"

definition register_repository ::
  "'c env \<Rightarrow> string \<Rightarrow> string \<Rightarrow> string \<Rightarrow> string \<Rightarrow> string \<Rightarrow> 'c db \<Rightarrow> 'c db \<times> unit result" where
  "register_repository env repository_id path source revision now =
     autocommit (\<lambda>d.
       and_then (reject_if (list_ex (\<lambda>(k, r). k \<noteq> repository_id \<and> repo_path r = path) (repositories d))
                   (''Register archaeology repository inventory: '' @ sql_detail env)) (\<lambda>_.
         Inr (d\<lparr>repositories := bmap_insert repository_id
                  (registered_row path source revision now (map_of (repositories d) repository_id))
                  (repositories d)\<rparr>)))
     (\<lambda>_. Inr ())"

section \<open>Validation receipts\<close>

definition seal_count_of :: "(string, table_seal) bmap \<Rightarrow> string \<Rightarrow> nat" where
  "seal_count_of tables table = (case map_of tables table of None \<Rightarrow> 0 | Some s \<Rightarrow> seal_count s)"

definition build_validation_receipt ::
  "'c env \<Rightarrow> stage_input \<Rightarrow> bool \<Rightarrow> 'c db \<Rightarrow> validation_receipt result" where
  "build_validation_receipt env i proven d =
     and_then (case map_of (generations d) (in_generation i) of
         None \<Rightarrow> Inl ''Archaeology staging generation identity changed''
       | Some g \<Rightarrow>
           if gen_repository g = in_repository i \<and> gen_identity g = in_identity i \<and>
              gen_schema g = ARCHAEOLOGY_STORAGE_SCHEMA_VERSION \<and> gen_status g \<in> {Staging, Ready}
           then Inr (coverage_json g)
           else Inl ''Archaeology staging generation identity changed'') (\<lambda>coverage_text.
     and_then (integrity env i (rest d)) (\<lambda>totals.
     and_then (table_seals env (in_generation i) (rest d)) (\<lambda>tables.
     and_then (reject_if (map_of tables ''search_manifest'' \<noteq> map_of tables ''fts'')
                 ''Archaeology FTS linkage does not match its manifest'') (\<lambda>_.
     let empty = (seal_count_of tables ''source_units'' = 0)
     in and_then (reject_if (empty \<and> (sum_list (map (\<lambda>(_, s). seal_count s) tables) \<noteq> 0 \<or> \<not> proven))
                    ''Empty archaeology publication requires completed inventory with total zero'') (\<lambda>_.
        and_then (parse_coverage env coverage_text ''generation'') (\<lambda>c.
        and_then (reject_if ((discovered_source_units c, indexed_source_units c, discovered_bytes c,
                              indexed_bytes c) \<noteq> totals)
                    ''Archaeology coverage does not match persisted source rows'') (\<lambda>_.
        and_then (reject_if (\<not> empty \<and> seal_count_of tables ''facts'' = 0 \<and> cov_state c = CoverageComplete)
                    ''Zero-fact archaeology catalogs require explicit incomplete coverage'') (\<lambda>_.
          Inr \<lparr>receipt_version = VALIDATION_RECEIPT_VERSION, receipt_repository = in_repository i,
               receipt_generation = in_generation i, receipt_identity = in_identity i,
               receipt_schema = ARCHAEOLOGY_STORAGE_SCHEMA_VERSION,
               snapshot = \<lparr>empty_inventory_proven = empty,
                 coverage_sha256 = digest_identity env (encode_coverage env c) ''sha256:'',
                 snapshot_tables = tables\<rparr>\<rparr>))))))))"

definition encode_validation_receipt :: "'c env \<Rightarrow> validation_receipt \<Rightarrow> string result" where
  "encode_validation_receipt env r =
     (let json = encode_receipt env r
      in if MAX_CHECKPOINT_BYTES < length json
         then Inl ''Archaeology validation receipt exceeds 65536 bytes'' else Inr json)"

definition validation_receipt_identity :: "'c env \<Rightarrow> string \<Rightarrow> string" where
  "validation_receipt_identity env json = digest_identity env json ''validation:v1:''"

definition snapshot_count :: "validation_snapshot \<Rightarrow> string \<Rightarrow> nat" where
  "snapshot_count s table = seal_count_of (snapshot_tables s) table"

definition snapshot_counts :: "validation_snapshot \<Rightarrow> (nat \<times> nat \<times> nat) result" where
  "snapshot_counts s =
     and_then (to_i64 (snapshot_count s ''source_units'')) (\<lambda>u.
     and_then (to_i64 (snapshot_count s ''facts'')) (\<lambda>f.
     and_then (to_i64 (snapshot_count s ''rules'')) (\<lambda>r. Inr (u, f, r))))"

definition verify_persisted_counts :: "'c env \<Rightarrow> string \<Rightarrow> validation_snapshot \<Rightarrow> 'c db \<Rightarrow> unit result" where
  "verify_persisted_counts env generation_id s d =
     (case map_of (generations d) generation_id of
        None \<Rightarrow> Inl (''Read persisted generation counts: '' @ sql_detail env)
      | Some g \<Rightarrow>
          and_then (snapshot_counts s) (\<lambda>counts.
            reject_if ((source_unit_count g, fact_count g, rule_count g) \<noteq> counts)
              ''Persisted archaeology generation counts changed after validation''))"

definition verify_validation_receipt :: "'c env \<Rightarrow> stage_input \<Rightarrow> 'c db \<Rightarrow> unit result" where
  "verify_validation_receipt env i d =
     (case map_of (jobs d) (in_job i) of
        None \<Rightarrow> Inl ''Archaeology publication requires a validation receipt''
      | Some r \<Rightarrow>
          if \<not> (job_repository r = in_repository i \<and> job_generation r = Some (in_generation i) \<and>
                job_owner r = in_owner i \<and> job_state r \<in> {Running, Completed, Failed, Cancelled} \<and>
                job_stage r \<in> {Publish, Cleanup, Idle})
          then Inl ''Archaeology publication requires a validation receipt''
          else case checkpoint_identity r of
            None \<Rightarrow> Inl (''Load archaeology validation receipt: '' @ sql_detail env)
          | Some identity \<Rightarrow>
              let json = checkpoint_json r
              in if MAX_CHECKPOINT_BYTES < length json \<or> validation_receipt_identity env json \<noteq> identity
                 then Inl ''Archaeology validation receipt identity is invalid''
                 else case decode_receipt env json of
                   None \<Rightarrow> Inl ''Stored archaeology validation receipt is invalid''
                 | Some stored \<Rightarrow>
                     and_then (encode_validation_receipt env stored) (\<lambda>text.
                     and_then (reject_if (text \<noteq> json)
                                 ''Stored archaeology validation receipt is not canonical'') (\<lambda>_.
                     and_then (build_validation_receipt env i (empty_inventory_proven (snapshot stored)) d) (\<lambda>now.
                     and_then (verify_persisted_counts env (in_generation i) (snapshot now) d) (\<lambda>_.
                       reject_if (stored \<noteq> now)
                         ''Archaeology generation changed after validation'')))))"

definition validate_generation_for_publication ::
  "'c env \<Rightarrow> stage_input \<Rightarrow> 'c db \<Rightarrow> 'c db \<times> job_status result" where
  "validate_generation_for_publication env i =
     transact (\<lambda>d.
       and_then (validate_owned_generation env i) (\<lambda>_.
       let guard = (\<lambda>r. job_repository r = in_repository i \<and> job_generation r = Some (in_generation i) \<and>
             job_owner r = in_owner i \<and> job_state r = Running \<and> job_stage r = Validate \<and>
             \<not> cancellation_requested r \<and> not_before env (in_now i) (updated_at r))
       in and_then (case map_of (jobs d) (in_job i) of
              None \<Rightarrow> Inl (cas_error ''validate'' (in_job i))
            | Some r \<Rightarrow> if guard r then Inr r else Inl (cas_error ''validate'' (in_job i))) (\<lambda>r.
          and_then (case decode_checkpoint env (checkpoint_json r) of
              None \<Rightarrow> Inl ''Stored archaeology pre-validation checkpoint is invalid''
            | Some c \<Rightarrow> Inr (map_of (counters c) ''inventory_complete'' = Some 1)) (\<lambda>inventory_complete.
          and_then (build_validation_receipt env i
                      (inventory_complete \<and> completed_units r = 0 \<and> total_units r = Some 0) d) (\<lambda>receipt.
          and_then (encode_validation_receipt env receipt) (\<lambda>json.
          and_then (cas_job ''validation receipt'' (in_job i) guard
              (\<lambda>r. r\<lparr>job_stage := Publish,
                     checkpoint_identity := Some (validation_receipt_identity env json),
                     checkpoint_json := json, updated_at := in_now i\<rparr>) d) (\<lambda>d1.
          and_then (snapshot_counts (snapshot receipt)) (\<lambda>(u, f, n).
          and_then (cas_generation ''validated counts'' (in_job i) (in_generation i)
              (\<lambda>g. gen_status g = Staging)
              (\<lambda>g. g\<lparr>source_unit_count := u, fact_count := f, rule_count := n\<rparr>) d1) (\<lambda>d2.
          and_then (load_job env (in_job i) d2) (\<lambda>st. Inr (d2, st)))))))))))"

section \<open>Publication\<close>

definition publication_is_already_committed :: "stage_input \<Rightarrow> 'c db \<Rightarrow> bool" where
  "publication_is_already_committed i d =
     (case (map_of (jobs d) (in_job i), map_of (generations d) (in_generation i),
            map_of (repositories d) (in_repository i)) of
        (Some r, Some g, Some repo) \<Rightarrow>
          job_repository r = in_repository i \<and> job_generation r = Some (in_generation i) \<and>
          job_owner r = in_owner i \<and> job_state r \<in> {Running, Completed, Failed, Cancelled} \<and>
          job_stage r \<in> {Cleanup, Idle} \<and> gen_status g = Ready \<and> gen_identity g = in_identity i \<and>
          gen_schema g = ARCHAEOLOGY_STORAGE_SCHEMA_VERSION \<and>
          ready_generation_id repo = Some (in_generation i)
      | _ \<Rightarrow> False)"

definition ready_rows :: "string \<Rightarrow> 'c db \<Rightarrow> string list" where
  "ready_rows repository_id d =
     map fst (filter (\<lambda>(_, g). gen_repository g = repository_id \<and> gen_status g = Ready) (generations d))"

definition validate_ready_pointer :: "string \<Rightarrow> string option \<Rightarrow> 'c db \<Rightarrow> unit result" where
  "validate_ready_pointer repository_id ready d =
     (let rows = ready_rows repository_id d;
          expected = (case ready of None \<Rightarrow> 0 | Some _ \<Rightarrow> 1)
      in reject_if (\<not> (length rows = expected \<and> length (filter (\<lambda>g. Some g = ready) rows) = expected))
           ''Archaeology ready pointer and ready generation disagree'')"

definition compatible_temporal_prior ::
  "'c env \<Rightarrow> string \<Rightarrow> string option \<Rightarrow> 'c db \<Rightarrow> (string \<times> generation_row) option result" where
  "compatible_temporal_prior env repository_id ready d =
     (case ready of
        None \<Rightarrow> Inr None
      | Some prior \<Rightarrow>
          (case map_of (generations d) prior of
             None \<Rightarrow> Inl (''Load temporal prior archaeology generation: '' @ sql_detail env)
           | Some g \<Rightarrow>
               if gen_repository g = repository_id \<and> gen_status g = Ready
               then Inr (if gen_schema g = ARCHAEOLOGY_STORAGE_SCHEMA_VERSION then Some (prior, g) else None)
               else Inl (''Load temporal prior archaeology generation: '' @ sql_detail env)))"

text \<open>
  The ready generation changes hands in one transaction: claim the stage, supersede the old
  generation, mark the new one ready, move the pointer.
\<close>

definition supersede_prior :: "stage_input \<Rightarrow> string option \<Rightarrow> 'c db \<Rightarrow> 'c db result" where
  "supersede_prior i prior d =
     (case prior of
        None \<Rightarrow> Inr d
      | Some p \<Rightarrow>
          cas_generation ''supersede'' (in_job i) p
            (\<lambda>g. gen_repository g = in_repository i \<and> gen_status g = Ready)
            (\<lambda>g. g\<lparr>gen_status := Superseded\<rparr>) d)"

definition move_pointer :: "'c env \<Rightarrow> stage_input \<Rightarrow> string option \<Rightarrow> 'c db \<Rightarrow> 'c db result" where
  "move_pointer env i prior d =
     (case update_row (in_repository i)
         (\<lambda>r. ready_generation_id r = prior \<and> current_revision r = id_revision (in_identity i) \<and>
               repo_source r = id_source (in_identity i) \<and> not_before env (in_now i) (repo_updated_at r))
         (\<lambda>r. r\<lparr>ready_generation_id := Some (in_generation i), repo_updated_at := in_now i\<rparr>)
         (repositories d) of
        (t, changed) \<Rightarrow>
          and_then (require_cas changed ''ready pointer publish'' (in_job i)) (\<lambda>_.
            Inr (d\<lparr>repositories := t\<rparr>)))"

definition make_ready :: "stage_input \<Rightarrow> 'c db \<Rightarrow> 'c db result" where
  "make_ready i d =
     cas_generation ''generation publish'' (in_job i) (in_generation i)
       (\<lambda>g. gen_repository g = in_repository i \<and> gen_status g = Staging \<and>
             gen_identity g = in_identity i \<and> gen_schema g = ARCHAEOLOGY_STORAGE_SCHEMA_VERSION \<and>
             (case map_of (jobs d) (in_job i) of
                None \<Rightarrow> False
              | Some r \<Rightarrow> job_generation r = Some (in_generation i) \<and> job_repository r = in_repository i \<and>
                  job_owner r = in_owner i \<and> job_state r = Running \<and> job_stage r = Cleanup))
       (\<lambda>g. g\<lparr>gen_status := Ready, published_at := Some (in_now i)\<rparr>) d"

definition publish_generation :: "'c env \<Rightarrow> stage_input \<Rightarrow> 'c db \<Rightarrow> 'c db \<times> job_status result" where
  "publish_generation env i =
     transact (\<lambda>d.
       and_then (validate_owned_generation env i) (\<lambda>_.
       and_then (verify_validation_receipt env i d) (\<lambda>_.
       if publication_is_already_committed i d
       then and_then (load_job env (in_job i) d) (\<lambda>st. Inr (d, st))
       else case map_of (repositories d) (in_repository i) of
         None \<Rightarrow> Inl ''Archaeology repository does not exist''
       | Some repo \<Rightarrow>
           let prior = ready_generation_id repo
           in and_then (validate_ready_pointer (in_repository i) prior d) (\<lambda>_.
              and_then (reconcile_lifecycle env i prior (rest d)) (\<lambda>rest1.
              and_then (compatible_temporal_prior env (in_repository i) prior d) (\<lambda>temporal.
              and_then (project_history env i (map_option fst temporal) (repo_path repo)
                          (map_option (\<lambda>(_, g). id_revision (gen_identity g)) temporal) rest1) (\<lambda>rest2.
              and_then (cas_job ''publish'' (in_job i)
                  (\<lambda>r. job_repository r = in_repository i \<and> job_generation r = Some (in_generation i) \<and>
                        job_owner r = in_owner i \<and> job_state r = Running \<and> job_stage r = Publish \<and>
                        \<not> cancellation_requested r \<and> not_before env (in_now i) (updated_at r))
                  (\<lambda>r. r\<lparr>job_stage := Cleanup, updated_at := in_now i\<rparr>) (d\<lparr>rest := rest2\<rparr>)) (\<lambda>d1.
              and_then (supersede_prior i prior d1) (\<lambda>d2.
              and_then (make_ready i d2) (\<lambda>d3.
              and_then (move_pointer env i prior d3) (\<lambda>d4.
              and_then (load_job env (in_job i) d4) (\<lambda>st. Inr (d4, st)))))))))))))"

section \<open>Cleaning up\<close>

record cleanup_input =
  clean_job :: string
  clean_owner :: string
  clean_apply :: bool
  retain_superseded :: nat
  clean_now :: string

record cleanup_generation =
  clean_generation :: string
  clean_status :: generation_status
  search_index_rows :: nat
  synthesis_cache_rows :: nat
  synthesis_attempt_rows :: nat
  synthesis_response_bytes :: nat

record cleanup_report =
  dry_run :: bool
  report_repository :: string
  candidates :: "cleanup_generation list"
  truncated :: bool
  deleted_generations :: nat
  deleted_search_index_rows :: nat
  deleted_synthesis_cache_rows :: nat
  deleted_synthesis_attempt_rows :: nat
  deleted_synthesis_response_bytes :: nat
  unavailable_resources :: "string list"

definition cleanup_allowed :: "'c env \<Rightarrow> cleanup_input \<Rightarrow> job_row \<Rightarrow> bool" where
  "cleanup_allowed env i r \<longleftrightarrow>
     job_owner r = clean_owner i \<and>
     (job_state r = Running \<and> job_stage r = Cleanup \<and> \<not> cancellation_requested r \<or>
      job_state r \<in> {Failed, Cancelled, Completed} \<and> job_stage r = Idle) \<and>
     not_before env (clean_now i) (updated_at r)"

definition authorize_cleanup :: "'c env \<Rightarrow> cleanup_input \<Rightarrow> 'c db \<Rightarrow> ('c db \<times> string \<times> bool) result" where
  "authorize_cleanup env i d =
     (case map_of (jobs d) (clean_job i) of
        None \<Rightarrow> Inl (cas_error ''cleanup'' (clean_job i))
      | Some r \<Rightarrow>
          (case map_of (repositories d) (job_repository r) of
             None \<Rightarrow> Inl (cas_error ''cleanup'' (clean_job i))
           | Some repo \<Rightarrow>
               if \<not> cleanup_allowed env i r then Inl (cas_error ''cleanup'' (clean_job i))
               else let lease = (job_generation r \<noteq> None \<and> ready_generation_id repo = job_generation r)
                 in if clean_apply i
                    then and_then (cas_job ''cleanup'' (clean_job i)
                             (\<lambda>q. cleanup_allowed env i q \<and> job_repository q = job_repository r)
                             (\<lambda>q. q\<lparr>updated_at := clean_now i\<rparr>) d)
                           (\<lambda>d'. Inr (d', job_repository r, lease))
                    else Inr (d, job_repository r, lease)))"

definition has_active_job :: "string \<Rightarrow> 'c db \<Rightarrow> bool" where
  "has_active_job g d \<longleftrightarrow>
     list_ex (\<lambda>(_, r). job_generation r = Some g \<and> active_state (job_state r)) (jobs d)"

definition has_finished_job :: "string \<Rightarrow> string \<Rightarrow> 'c db \<Rightarrow> bool" where
  "has_finished_job g owner d \<longleftrightarrow>
     list_ex (\<lambda>(_, r). job_generation r = Some g \<and> job_owner r = owner \<and>
         job_state r \<in> {Failed, Cancelled, Completed}) (jobs d)"

definition ready_pointer :: "string \<Rightarrow> 'c db \<Rightarrow> string option" where
  "ready_pointer repository_id d =
     Option.bind (map_of (repositories d) repository_id) ready_generation_id"

definition removable :: "string \<Rightarrow> 'c db \<Rightarrow> (string \<times> generation_row) list" where
  "removable repository_id d =
     filter (\<lambda>(k, g). gen_repository g = repository_id \<and> gen_status g \<noteq> Ready \<and>
         ready_pointer repository_id d \<noteq> Some k \<and> \<not> has_active_job k d) (generations d)"

text \<open>\<open>ROW_NUMBER() OVER (PARTITION BY status ORDER BY created_at DESC, generation_id DESC)\<close>.\<close>

definition status_rank :: "(string \<times> generation_row) list \<Rightarrow> string \<times> generation_row \<Rightarrow> nat" where
  "status_rank rows row =
     1 + length (filter (\<lambda>(k, g). gen_status g = gen_status (snd row) \<and>
           (created_at (snd row), fst row) < (created_at g, k)) rows)"

definition cleanup_selected ::
  "string \<Rightarrow> string \<Rightarrow> nat \<Rightarrow> bool \<Rightarrow> 'c db \<Rightarrow> (string \<times> generation_row) list" where
  "cleanup_selected repository_id owner retain lease d =
     (let rows = removable repository_id d
      in sort_key (\<lambda>(k, g). (created_at g, k))
           (filter (\<lambda>(k, g).
               lease \<and> gen_status g = Superseded \<and> retain < status_rank rows (k, g) \<or>
               gen_status g \<in> {Staging, GenFailed, GenCancelled} \<and> has_finished_job k owner d) rows))"

definition cleanup_candidates ::
  "'c env \<Rightarrow> string \<Rightarrow> string \<Rightarrow> nat \<Rightarrow> bool \<Rightarrow> 'c db \<Rightarrow> cleanup_generation list \<times> bool" where
  "cleanup_candidates env repository_id owner retain lease d =
     (let found = take (MAX_CLEANUP_GENERATIONS + 1) (cleanup_selected repository_id owner retain lease d)
      in (map (\<lambda>(k, g). case owned_rows env k (rest d) of (search, cache, attempts, bytes) \<Rightarrow>
                 \<lparr>clean_generation = k, clean_status = gen_status g, search_index_rows = search,
                  synthesis_cache_rows = cache, synthesis_attempt_rows = attempts,
                  synthesis_response_bytes = bytes\<rparr>) (take MAX_CLEANUP_GENERATIONS found),
          MAX_CLEANUP_GENERATIONS < length found))"

text \<open>Deleting a generation sets the reference of its jobs to NULL and drops the rows it owns.\<close>

definition deletable :: "cleanup_input \<Rightarrow> string \<Rightarrow> cleanup_generation \<Rightarrow> 'c db \<Rightarrow> generation_row \<Rightarrow> bool" where
  "deletable i repository_id c d g \<longleftrightarrow>
     gen_repository g = repository_id \<and> gen_status g = clean_status c \<and>
     ready_pointer repository_id d \<noteq> Some (clean_generation c) \<and>
     \<not> has_active_job (clean_generation c) d \<and>
     (gen_status g = Superseded \<and>
        (case map_of (jobs d) (clean_job i) of
           None \<Rightarrow> False
         | Some lease \<Rightarrow> job_owner lease = clean_owner i \<and> job_generation lease \<noteq> None \<and>
             ready_pointer (job_repository lease) d = job_generation lease) \<or>
      has_finished_job (clean_generation c) (clean_owner i) d)"

definition delete_generation ::
  "'c env \<Rightarrow> cleanup_input \<Rightarrow> string \<Rightarrow> cleanup_generation \<Rightarrow> 'c db \<Rightarrow> 'c db result" where
  "delete_generation env i repository_id c d =
     (case delete_row (clean_generation c) (deletable i repository_id c d) (generations d) of
        (gs, changed) \<Rightarrow>
          and_then (require_cas changed ''cleanup generation'' (clean_job i)) (\<lambda>_.
            Inr (d\<lparr>generations := gs,
                   jobs := map (\<lambda>(k, r). (k, if job_generation r = Some (clean_generation c)
                                              then r\<lparr>job_generation := None\<rparr> else r)) (jobs d),
                   rest := delete_owned env (clean_generation c) (rest d)\<rparr>)))"

definition cleanup_generations ::
  "'c env \<Rightarrow> cleanup_input \<Rightarrow> 'c db \<Rightarrow> 'c db \<times> cleanup_report result" where
  "cleanup_generations env i =
     transact (\<lambda>d.
       and_then (validate_actor env (clean_job i) (clean_owner i) (clean_now i)) (\<lambda>_.
       and_then (reject_if (MAX_CLEANUP_GENERATIONS < retain_superseded i)
                   ''Archaeology cleanup retention exceeds 256 generations'') (\<lambda>_.
       and_then (authorize_cleanup env i d) (\<lambda>(d1, repository_id, lease).
       case cleanup_candidates env repository_id (clean_owner i) (retain_superseded i) lease d1 of
         (cs, over) \<Rightarrow>
           let sum_of = (\<lambda>f. if clean_apply i then sum_list (map f cs) else 0)
           in and_then (if clean_apply i then fold_result (delete_generation env i repository_id) cs d1
                        else Inr d1) (\<lambda>d2.
                Inr (d2, \<lparr>dry_run = \<not> clean_apply i, report_repository = repository_id,
                          candidates = cs, truncated = over,
                          deleted_generations = (if clean_apply i then length cs else 0),
                          deleted_search_index_rows = sum_of search_index_rows,
                          deleted_synthesis_cache_rows = sum_of synthesis_cache_rows,
                          deleted_synthesis_attempt_rows = sum_of synthesis_attempt_rows,
                          deleted_synthesis_response_bytes = sum_of synthesis_response_bytes,
                          unavailable_resources = [''parser_cache'']\<rparr>))))))"

end
