(* ===== verification/ArchJobsSafety.thy ===== *)
theory ArchJobsSafety
  imports ArchJobs
begin

text \<open>
  Correctness of the job engine modelled in \<open>ArchJobs\<close>: the state machine a job follows, the
  invariant that ties jobs, generations and ready pointers together, and what the operations
  promise over every interleaving of requests.
\<close>

section \<open>Statements\<close>

named_theorems db_simps "inversion of the statements of a transaction"

lemma require_cas_Inr [db_simps]: "require_cas n a j = Inr u \<longleftrightarrow> n = 1"
  by (simp add: require_cas_def reject_if_Inr)

lemma update_row_one:
  "update_row k p f t = (t', 1) \<longleftrightarrow> (\<exists>r. map_of t k = Some r \<and> p r \<and> t' = bmap_insert k (f r) t)"
  "update_row k p f t = (t', Suc 0) \<longleftrightarrow> (\<exists>r. map_of t k = Some r \<and> p r \<and> t' = bmap_insert k (f r) t)"
  by (auto simp: update_row_def split: option.splits)

lemma cas_job_Inr [db_simps]:
  "cas_job a j p f d = Inr d' \<longleftrightarrow>
     (\<exists>r. map_of (jobs d) j = Some r \<and> p r \<and> d' = d\<lparr>jobs := bmap_insert j (f r) (jobs d)\<rparr>)"
  by (auto simp: cas_job_def update_row_def require_cas_def reject_if_def split: option.splits)

lemma cas_generation_Inr [db_simps]:
  "cas_generation a j k p f d = Inr d' \<longleftrightarrow>
     (\<exists>g. map_of (generations d) k = Some g \<and> p g \<and>
        d' = d\<lparr>generations := bmap_insert k (f g) (generations d)\<rparr>)"
  by (auto simp: cas_generation_def update_row_def require_cas_def reject_if_def split: option.splits)

lemma map_of_delete: "map_of (filter (\<lambda>(k', _). k' \<noteq> k) t) x = (if x = k then None else map_of t x)"
  by (induction t) auto

lemma delete_row_one:
  "delete_row k p t = (t', n) \<Longrightarrow> n = 1 \<Longrightarrow>
     (\<exists>r. map_of t k = Some r \<and> p r) \<and> t' = filter (\<lambda>(k', _). k' \<noteq> k) t"
  by (auto simp: delete_row_def split: option.splits if_splits)

lemma bmap_ok_delete: "bmap_ok t \<Longrightarrow> bmap_ok (filter (\<lambda>(k', _). k' \<noteq> k) t)"
  by (induction t) (auto simp: bmap_ok_def)

text \<open>What holds of every result of a transaction, or of a statement that commits by itself.\<close>

lemma transact_cases:
  assumes "P d" and "\<And>d' r. body d = Inr (d', r) \<Longrightarrow> P d'"
  shows "P (fst (transact body d))"
  using assms by (auto simp: transact_def split: sum.splits)

lemma transact_Inr [db_simps]: "transact body d = (d', Inr r) \<longleftrightarrow> body d = Inr (d', r)"
  by (auto simp: transact_def split: sum.splits)

lemma transact_Inl: "transact body d = (d', Inl e) \<Longrightarrow> d' = d"
  by (auto simp: transact_def split: sum.splits)

lemma autocommit_cases:
  assumes "P d" and "\<And>d'. stmt d = Inr d' \<Longrightarrow> P d'"
  shows "P (fst (autocommit stmt after d))"
  using assms by (auto simp: autocommit_def split: sum.splits)

lemma autocommit_Inr [db_simps]:
  "autocommit stmt after d = (d', Inr r) \<longleftrightarrow> stmt d = Inr d' \<and> after d' = Inr r"
  by (auto simp: autocommit_def split: sum.splits)

lemma load_job_Inr: "load_job env j d = Inr st \<Longrightarrow> \<exists>r. map_of (jobs d) j = Some r \<and>
    status_state st = job_state r \<and> status_stage st = job_stage r \<and> status_owner st = Some (job_owner r) \<and>
    status_generation st = job_generation r \<and> status_completed st = completed_units r"
  by (auto simp: load_job_def split: option.splits)

section \<open>The life of a job\<close>

definition finished_state :: "job_state \<Rightarrow> bool" where
  "finished_state s \<longleftrightarrow> s \<in> {Completed, Failed, Cancelled}"

text \<open>The stages a step may lead to; the refresh of a synthesis-only change skips parsing.\<close>

definition stage_follows :: "job_stage \<Rightarrow> job_stage \<Rightarrow> bool" where
  "stage_follows s s' \<longleftrightarrow>
     s \<noteq> Idle \<and> (s' = s \<or> stage_index s' = map_option Suc (stage_index s) \<or> (s = Inventory \<and> s' = Link))"

inductive job_moves :: "job_row \<Rightarrow> job_row \<Rightarrow> bool" where
  beat: "job_moves r (r\<lparr>updated_at := t\<rparr>)"
| advance: "job_state r = Running \<Longrightarrow> \<not> cancellation_requested r \<Longrightarrow> stage_follows (job_stage r) s \<Longrightarrow>
    completed_units r \<le> n \<Longrightarrow> (total_units r \<noteq> None \<Longrightarrow> u = total_units r) \<Longrightarrow>
    (\<And>m. u = Some m \<Longrightarrow> n \<le> m) \<Longrightarrow>
    job_moves r (r\<lparr>job_stage := s, checkpoint_identity := ci, checkpoint_json := cj,
      completed_units := n, total_units := u, updated_at := t\<rparr>)"
| pause: "job_state r = Running \<Longrightarrow>
    job_moves r (r\<lparr>job_state := Paused, cancellation_requested := False, updated_at := t\<rparr>)"
| resume: "job_state r = Paused \<Longrightarrow>
    job_moves r (r\<lparr>job_state := Running, cancellation_requested := False, updated_at := t\<rparr>)"
| cancel: "job_state r \<in> {Running, Paused} \<Longrightarrow>
    job_moves r (r\<lparr>job_state := Cancelling, cancellation_requested := True, updated_at := t\<rparr>)"
| take_over: "active_state (job_state r) \<Longrightarrow>
    job_moves r (r\<lparr>job_owner := w, job_state := (if job_state r = Running then Paused else job_state r),
      updated_at := t\<rparr>)"
| acknowledge: "job_state r = Cancelling \<Longrightarrow>
    job_moves r (r\<lparr>job_state := Cancelled, job_stage := Idle, finished_at := Some t, updated_at := t\<rparr>)"
| finish: "job_state r = Running \<Longrightarrow> job_stage r = Cleanup \<Longrightarrow> \<not> cancellation_requested r \<Longrightarrow>
    job_moves r (r\<lparr>job_state := Completed, job_stage := Idle, finished_at := Some t, updated_at := t\<rparr>)"
| failure: "job_state r \<in> {Running, Paused, Cancelling} \<Longrightarrow>
    job_moves r (r\<lparr>job_state := Failed, job_stage := Idle, errors_json := e, finished_at := Some t,
      updated_at := t\<rparr>)"
| forget: "finished_state (job_state r) \<Longrightarrow> job_moves r (r\<lparr>job_generation := None\<rparr>)"

inductive_cases job_movesE: "job_moves r r'"

text \<open>What no move changes, and what the moves never undo.\<close>

text \<open>Stages in the order of the pipeline; a finished job is idle for good.\<close>

definition stage_le :: "job_stage \<Rightarrow> job_stage \<Rightarrow> bool" where
  "stage_le s s' \<longleftrightarrow>
     s' = Idle \<or> (\<exists>m n. stage_index s = Some m \<and> stage_index s' = Some n \<and> m \<le> n)"

lemma stage_le_Idle [simp]: "stage_le s Idle"
  by (simp add: stage_le_def)

lemma stage_le_refl: "stage_le s s"
  by (cases s) (simp_all add: stage_le_def)

lemma stage_le_trans: "stage_le r s \<Longrightarrow> stage_le s t \<Longrightarrow> stage_le r t"
  by (auto simp: stage_le_def)

lemma stage_follows_le: "stage_follows s s' \<Longrightarrow> stage_le s s'"
  by (cases s; cases s') (auto simp: stage_follows_def stage_le_def)

definition job_keeps :: "job_row \<Rightarrow> job_row \<Rightarrow> bool" where
  "job_keeps r r' \<longleftrightarrow>
     job_repository r' = job_repository r \<and> started_at r' = started_at r \<and>
     stage_le (job_stage r) (job_stage r') \<and> completed_units r \<le> completed_units r' \<and>
     (total_units r \<noteq> None \<longrightarrow> total_units r' = total_units r) \<and>
     (job_generation r' = job_generation r \<or> finished_state (job_state r') \<and> job_generation r' = None) \<and>
     (finished_state (job_state r) \<longrightarrow> job_state r' = job_state r \<and> job_stage r' = job_stage r \<and>
        job_owner r' = job_owner r \<and> errors_json r' = errors_json r) \<and>
     (job_state r = Cancelling \<longrightarrow> job_state r' \<in> {Cancelling, Cancelled, Failed}) \<and>
     (active_state (job_state r') \<longrightarrow> active_state (job_state r))"

lemma job_moves_keeps: "job_moves r r' \<Longrightarrow> job_keeps r r'"
  unfolding job_keeps_def
  by (induction rule: job_moves.induct)
    (auto simp: finished_state_def active_state_def stage_le_refl stage_follows_le)

lemma job_moves_generation:
  "job_moves r r' \<Longrightarrow> \<not> finished_state (job_state r) \<Longrightarrow> job_generation r' = job_generation r"
  by (induction rule: job_moves.induct) simp_all

lemma job_keeps_refl: "job_keeps r r"
  by (simp add: job_keeps_def stage_le_refl)

lemma job_keeps_trans:
  assumes "job_keeps r s" and "job_keeps s t"
  shows "job_keeps r t"
  unfolding job_keeps_def
proof (intro conjI impI)
  assume "job_state r = Cancelling"
  with assms(1) have "job_state s \<in> {Cancelling, Cancelled, Failed}" unfolding job_keeps_def by blast
  with assms(2) show "job_state t \<in> {Cancelling, Cancelled, Failed}"
    unfolding job_keeps_def finished_state_def by (elim insertE) simp_all
next
  show "job_generation t = job_generation r \<or> finished_state (job_state t) \<and> job_generation t = None"
    using assms unfolding job_keeps_def by metis
next
  show "stage_le (job_stage r) (job_stage t)" using assms stage_le_trans unfolding job_keeps_def by blast
qed (use assms in \<open>simp_all add: job_keeps_def\<close>)

lemma job_moves_path_keeps: "job_moves\<^sup>*\<^sup>* r r' \<Longrightarrow> job_keeps r r'"
  by (induction rule: rtranclp_induct) (blast intro: job_keeps_refl job_keeps_trans job_moves_keeps)+

text \<open>How the jobs of one database state relate to those of a later one.\<close>

definition evolves :: "'c db \<Rightarrow> 'c db \<Rightarrow> bool" where
  "evolves d d' \<longleftrightarrow>
     (\<forall>j r. map_of (jobs d) j = Some r \<longrightarrow>
        (case map_of (jobs d') j of
           Some r' \<Rightarrow> job_moves\<^sup>*\<^sup>* r r'
         | None \<Rightarrow> job_state r = Running \<and> job_stage r = Inventory))"

lemma evolves_same [simp]: "jobs d' = jobs d \<Longrightarrow> evolves d d'"
  by (auto simp: evolves_def)

lemma evolves_move:
  "map_of (jobs d) j = Some r \<Longrightarrow> job_moves r r' \<Longrightarrow> jobs d' = bmap_insert j r' (jobs d) \<Longrightarrow> evolves d d'"
  by (auto simp: evolves_def)

section \<open>The invariant\<close>

text \<open>\<open>serde_json\<close> reads back the error lists it wrote, and the column's default.\<close>

definition errors_roundtrip :: "'c env \<Rightarrow> bool" where
  "errors_roundtrip env \<longleftrightarrow>
     decode_errors env ''[]'' = Some [] \<and> (\<forall>es. decode_errors env (encode_errors env es) = Some es)"

text \<open>
  A job that is active has a stage, a cancellation flag that says whether it is being cancelled,
  and a generation of its own repository: staging, until its publication made it ready.
\<close>

definition owns_generation :: "'c db \<Rightarrow> job_row \<Rightarrow> bool" where
  "owns_generation d r \<longleftrightarrow>
     (\<exists>k g. job_generation r = Some k \<and> map_of (generations d) k = Some g \<and>
        gen_repository g = job_repository r \<and>
        gen_status g = (if job_stage r = Cleanup then Ready else Staging))"

definition job_ok :: "'c env \<Rightarrow> 'c db \<Rightarrow> job_row \<Rightarrow> bool" where
  "job_ok env d r \<longleftrightarrow>
     (finished_state (job_state r) \<and> job_stage r = Idle \<or>
      job_state r \<in> {Running, Paused, Cancelling} \<and> job_stage r \<noteq> Idle \<and> owns_generation d r \<and>
        (cancellation_requested r \<longleftrightarrow> job_state r = Cancelling)) \<and>
     (\<forall>m. total_units r = Some m \<longrightarrow> completed_units r \<le> m) \<and>
     decode_errors env (errors_json r) \<noteq> None \<and>
     map_of (repositories d) (job_repository r) \<noteq> None"

text \<open>The ready pointer of a repository and its ready generation are one.\<close>

definition pointer_ok :: "'c db \<Rightarrow> bool" where
  "pointer_ok d \<longleftrightarrow>
     (\<forall>k g. map_of (generations d) k = Some g \<longrightarrow>
        (\<exists>repo. map_of (repositories d) (gen_repository g) = Some repo \<and>
           (gen_status g = Ready \<longleftrightarrow> ready_generation_id repo = Some k))) \<and>
     (\<forall>i repo k. map_of (repositories d) i = Some repo \<and> ready_generation_id repo = Some k \<longrightarrow>
        (\<exists>g. map_of (generations d) k = Some g \<and> gen_repository g = i))"

definition one_active :: "'c db \<Rightarrow> bool" where
  "one_active d \<longleftrightarrow>
     (\<forall>j j' r r'. map_of (jobs d) j = Some r \<and> map_of (jobs d) j' = Some r' \<and>
        active_state (job_state r) \<and> active_state (job_state r') \<and>
        job_repository r = job_repository r' \<longrightarrow> j = j')"

definition db_inv :: "'c env \<Rightarrow> 'c db \<Rightarrow> bool" where
  "db_inv env d \<longleftrightarrow>
     bmap_ok (repositories d) \<and> bmap_ok (generations d) \<and> bmap_ok (jobs d) \<and>
     (\<forall>j r. map_of (jobs d) j = Some r \<longrightarrow> job_ok env d r) \<and> pointer_ok d \<and> one_active d"

lemma pointer_okI:
  assumes "\<And>k g. map_of (generations d) k = Some g \<Longrightarrow>
      \<exists>repo. map_of (repositories d) (gen_repository g) = Some repo \<and>
        (gen_status g = Ready \<longleftrightarrow> ready_generation_id repo = Some k)"
    and "\<And>i repo k. map_of (repositories d) i = Some repo \<Longrightarrow> ready_generation_id repo = Some k \<Longrightarrow>
      \<exists>g. map_of (generations d) k = Some g \<and> gen_repository g = i"
  shows "pointer_ok d"
  using assms by (simp add: pointer_ok_def)

lemma pointer_ok_generation:
  "pointer_ok d \<Longrightarrow> map_of (generations d) k = Some g \<Longrightarrow>
     \<exists>repo. map_of (repositories d) (gen_repository g) = Some repo \<and>
       (gen_status g = Ready \<longleftrightarrow> ready_generation_id repo = Some k)"
  unfolding pointer_ok_def by blast

lemma pointer_ok_repository:
  assumes "pointer_ok d" and repo: "map_of (repositories d) i = Some repo" "ready_generation_id repo = Some k"
  shows "\<exists>g. map_of (generations d) k = Some g \<and> gen_repository g = i \<and> gen_status g = Ready"
proof -
  from assms obtain g where g: "map_of (generations d) k = Some g" "gen_repository g = i"
    unfolding pointer_ok_def by blast
  from pointer_ok_generation [OF assms(1) g(1)] repo g show ?thesis by auto
qed

lemma pointer_ok_cong:
  "generations d' = generations d \<Longrightarrow> repositories d' = repositories d \<Longrightarrow> pointer_ok d' \<longleftrightarrow> pointer_ok d"
  by (simp add: pointer_ok_def)

lemma one_active_cong: "jobs d' = jobs d \<Longrightarrow> one_active d' \<longleftrightarrow> one_active d"
  by (simp add: one_active_def)

lemma one_activeD:
  "one_active d \<Longrightarrow> map_of (jobs d) j = Some r \<Longrightarrow> map_of (jobs d) j' = Some r' \<Longrightarrow>
     active_state (job_state r) \<Longrightarrow> active_state (job_state r') \<Longrightarrow>
     job_repository r = job_repository r' \<Longrightarrow> j = j'"
  unfolding one_active_def by blast

text \<open>If every active job stood there before, in its repository, there is still at most one.\<close>

lemma one_active_sub:
  assumes "one_active d"
    and "\<And>j r. map_of (jobs d') j = Some r \<Longrightarrow> active_state (job_state r) \<Longrightarrow>
      \<exists>q. map_of (jobs d) j = Some q \<and> active_state (job_state q) \<and> job_repository q = job_repository r"
  shows "one_active d'"
  unfolding one_active_def
proof (intro allI impI, elim conjE)
  fix j j' r r'
  assume a: "map_of (jobs d') j = Some r" "map_of (jobs d') j' = Some r'" "active_state (job_state r)"
    "active_state (job_state r')" "job_repository r = job_repository r'"
  from assms(2) [OF a(1,3)] assms(2) [OF a(2,4)] a(5) one_activeD [OF assms(1)] show "j = j'" by metis
qed

lemma db_invD:
  assumes "db_inv env d"
  shows "bmap_ok (repositories d)" "bmap_ok (generations d)" "bmap_ok (jobs d)" "pointer_ok d"
    "one_active d" "map_of (jobs d) j = Some r \<Longrightarrow> job_ok env d r"
  using assms by (auto simp: db_inv_def)

lemma db_inv_rest [simp]: "db_inv env (d\<lparr>rest := x\<rparr>) \<longleftrightarrow> db_inv env d"
  by (simp add: db_inv_def job_ok_def owns_generation_def pointer_ok_def one_active_def)

lemma db_inv_cong:
  "repositories d' = repositories d \<Longrightarrow> generations d' = generations d \<Longrightarrow> jobs d' = jobs d \<Longrightarrow>
     db_inv env d' \<longleftrightarrow> db_inv env d"
  by (simp add: db_inv_def job_ok_def owns_generation_def pointer_ok_def one_active_def)

lemma job_ok_active: "job_ok env d r \<Longrightarrow> active_state (job_state r) \<Longrightarrow>
    job_state r \<in> {Running, Paused, Cancelling} \<and> job_stage r \<noteq> Idle \<and> owns_generation d r"
  by (auto simp: job_ok_def active_state_def finished_state_def)

text \<open>A job's row stays in order when its generation is still there, if it needs one.\<close>

lemma job_ok_transfer:
  assumes "job_ok env d r" and "map_of (repositories d') (job_repository r) \<noteq> None"
    and "active_state (job_state r) \<Longrightarrow> owns_generation d r \<Longrightarrow> owns_generation d' r"
  shows "job_ok env d' r"
  using assms by (auto simp: job_ok_def active_state_def)

text \<open>Writing one job's row.\<close>

lemma db_inv_job:
  assumes inv: "db_inv env d" and r: "map_of (jobs d) j = Some r"
    and ok: "job_ok env d r'" and repo: "job_repository r' = job_repository r"
    and act: "active_state (job_state r') \<Longrightarrow> active_state (job_state r)"
  shows "db_inv env (d\<lparr>jobs := bmap_insert j r' (jobs d)\<rparr>)"
proof -
  let ?d = "d\<lparr>jobs := bmap_insert j r' (jobs d)\<rparr>"
  have "one_active ?d"
    by (rule one_active_sub [OF db_invD(5) [OF inv]]) (use r repo act in \<open>auto split: if_splits\<close>)
  moreover have "pointer_ok ?d" using pointer_ok_cong [of ?d d] db_invD(4) [OF inv] by simp
  moreover have "job_ok env ?d q" if q: "map_of (jobs ?d) k = Some q" for k q
  proof -
    have base: "job_ok env d q" using q ok db_invD(6) [OF inv] by (cases "k = j") auto
    show ?thesis
      by (rule job_ok_transfer [OF base]) (use base in \<open>simp_all add: job_ok_def owns_generation_def\<close>)
  qed
  ultimately show ?thesis using inv by (simp add: db_inv_def bmap_insert_ok)
qed

text \<open>Writing a generation's row that no active job owns, without making it ready.\<close>

definition unowned :: "string \<Rightarrow> 'c db \<Rightarrow> bool" where
  "unowned k d \<longleftrightarrow>
     (\<forall>j r. map_of (jobs d) j = Some r \<longrightarrow> active_state (job_state r) \<longrightarrow> job_generation r \<noteq> Some k)"

lemma db_inv_generation:
  assumes inv: "db_inv env d" and g: "map_of (generations d) k = Some g"
    and repo: "gen_repository g' = gen_repository g"
    and status: "gen_status g' = gen_status g \<or> gen_status g \<noteq> Ready \<and> gen_status g' \<noteq> Ready \<and> unowned k d"
  shows "db_inv env (d\<lparr>generations := bmap_insert k g' (generations d)\<rparr>)"
proof -
  let ?d = "d\<lparr>generations := bmap_insert k g' (generations d)\<rparr>"
  have "job_ok env ?d r" if r: "map_of (jobs ?d) j = Some r" for j r
  proof (rule job_ok_transfer [of env d])
    show "job_ok env d r" "map_of (repositories ?d) (job_repository r) \<noteq> None"
      using r db_invD(6) [OF inv] by (auto simp: job_ok_def)
    assume "active_state (job_state r)" and "owns_generation d r"
    with r g repo status show "owns_generation ?d r"
      by (fastforce simp: owns_generation_def unowned_def)
  qed
  moreover have "pointer_ok ?d"
  proof (rule pointer_okI)
    fix k1 g1 assume g1: "map_of (generations ?d) k1 = Some g1"
    then have "\<exists>g0. map_of (generations d) k1 = Some g0 \<and> gen_repository g0 = gen_repository g1 \<and>
      (gen_status g0 = Ready \<longleftrightarrow> gen_status g1 = Ready)"
      using g repo status by (cases "k1 = k") auto
    then obtain g0 where g0: "map_of (generations d) k1 = Some g0" "gen_repository g0 = gen_repository g1"
      "gen_status g0 = Ready \<longleftrightarrow> gen_status g1 = Ready" by blast
    from pointer_ok_generation [OF db_invD(4) [OF inv] g0(1)] g0(2,3)
    show "\<exists>r. map_of (repositories ?d) (gen_repository g1) = Some r \<and>
        (gen_status g1 = Ready \<longleftrightarrow> ready_generation_id r = Some k1)" by simp
  next
    fix i r k1 assume "map_of (repositories ?d) i = Some r" "ready_generation_id r = Some k1"
    then have "\<exists>g1. map_of (generations d) k1 = Some g1 \<and> gen_repository g1 = i \<and> gen_status g1 = Ready"
      by (intro pointer_ok_repository [OF db_invD(4) [OF inv]]) simp_all
    then show "\<exists>g. map_of (generations ?d) k1 = Some g \<and> gen_repository g = i"
      using g repo by (cases "k1 = k") auto
  qed
  moreover have "one_active ?d" using one_active_cong [of ?d d] db_invD(5) [OF inv] by simp
  ultimately show ?thesis using inv by (simp add: db_inv_def bmap_insert_ok)
qed

text \<open>Removing a generation that no active job owns and that is not ready.\<close>

definition forget_generation :: "string \<Rightarrow> (string, job_row) bmap \<Rightarrow> (string, job_row) bmap" where
  "forget_generation k js =
     map (\<lambda>(j, r). (j, if job_generation r = Some k then r\<lparr>job_generation := None\<rparr> else r)) js"

lemma map_of_forget: "map_of (forget_generation k js) j =
    map_option (\<lambda>r. if job_generation r = Some k then r\<lparr>job_generation := None\<rparr> else r) (map_of js j)"
  by (induction js) (auto simp: forget_generation_def)

lemma bmap_ok_forget: "bmap_ok (forget_generation k js) \<longleftrightarrow> bmap_ok js"
  by (simp add: bmap_ok_def forget_generation_def case_prod_beta comp_def)

lemma db_inv_drop_generation:
  assumes inv: "db_inv env d" and g: "map_of (generations d) k = Some g" and nr: "gen_status g \<noteq> Ready"
    and free: "unowned k d"
  shows "db_inv env (d\<lparr>generations := filter (\<lambda>(k', _). k' \<noteq> k) (generations d),
    jobs := forget_generation k (jobs d)\<rparr>)"
proof -
  let ?d = "d\<lparr>generations := filter (\<lambda>(k', _). k' \<noteq> k) (generations d), jobs := forget_generation k (jobs d)\<rparr>"
  have "job_ok env ?d r" if r: "map_of (jobs ?d) j = Some r" for j r
  proof -
    from r obtain q where q: "map_of (jobs d) j = Some q"
      "r = (if job_generation q = Some k then q\<lparr>job_generation := None\<rparr> else q)"
      by (auto simp: map_of_forget)
    then have ok: "job_ok env d r" using db_invD(6) [OF inv q(1)] free
      by (auto simp: job_ok_def unowned_def active_state_def split: if_splits)
    show ?thesis
    proof (rule job_ok_transfer [OF ok])
      show "map_of (repositories ?d) (job_repository r) \<noteq> None" using ok by (simp add: job_ok_def)
      assume "owns_generation d r"
      moreover have "job_generation r \<noteq> Some k" using q(2) by auto
      ultimately show "owns_generation ?d r" by (auto simp: owns_generation_def map_of_delete)
    qed
  qed
  moreover have "pointer_ok ?d"
  proof (rule pointer_okI)
    fix k1 g1 assume "map_of (generations ?d) k1 = Some g1"
    then have "map_of (generations d) k1 = Some g1" by (simp add: map_of_delete split: if_splits)
    from pointer_ok_generation [OF db_invD(4) [OF inv] this]
    show "\<exists>r. map_of (repositories ?d) (gen_repository g1) = Some r \<and>
        (gen_status g1 = Ready \<longleftrightarrow> ready_generation_id r = Some k1)" by simp
  next
    fix i r k1 assume "map_of (repositories ?d) i = Some r" "ready_generation_id r = Some k1"
    then have "\<exists>g1. map_of (generations d) k1 = Some g1 \<and> gen_repository g1 = i \<and> gen_status g1 = Ready"
      by (intro pointer_ok_repository [OF db_invD(4) [OF inv]]) simp_all
    then show "\<exists>g. map_of (generations ?d) k1 = Some g \<and> gen_repository g = i"
      using g nr by (auto simp: map_of_delete)
  qed
  moreover have "one_active ?d"
    by (rule one_active_sub [OF db_invD(5) [OF inv]]) (auto simp: map_of_forget split: if_splits)
  ultimately show ?thesis using inv by (simp add: db_inv_def bmap_ok_forget bmap_ok_delete)
qed

text \<open>Nobody else owns the generation of the active job of a repository.\<close>

lemma unowned_otherwise:
  assumes inv: "db_inv env d" and r: "map_of (jobs d) j = Some r" "active_state (job_state r)"
    and k: "job_generation r = Some k"
    and d': "\<And>i q. map_of (jobs d') i = Some q \<Longrightarrow> active_state (job_state q) \<Longrightarrow>
      i \<noteq> j \<and> map_of (jobs d) i = Some q"
  shows "unowned k d'"
  unfolding unowned_def
proof (intro allI impI notI)
  fix i q assume q: "map_of (jobs d') i = Some q" "active_state (job_state q)" "job_generation q = Some k"
  with d' have i: "i \<noteq> j" "map_of (jobs d) i = Some q" by auto
  have "owns_generation d r" "owns_generation d q"
    using job_ok_active db_invD(6) [OF inv] r i(2) q(2) by blast+
  with k q(3) have "job_repository q = job_repository r" by (auto simp: owns_generation_def)
  with one_activeD [OF db_invD(5) [OF inv] i(2) r(1) q(2) r(2)] i(1) show False by simp
qed

section \<open>What every operation promises\<close>

definition step_ok :: "'c env \<Rightarrow> 'c db \<Rightarrow> 'c db \<Rightarrow> bool" where
  "step_ok env d d' \<longleftrightarrow> db_inv env d' \<and> evolves d d'"

text \<open>The step is sound, and an operation that reports an error changed nothing.\<close>

definition op_sound :: "'c env \<Rightarrow> 'c db \<Rightarrow> 'c db \<times> 'r result \<Rightarrow> bool" where
  "op_sound env d res \<longleftrightarrow> step_ok env d (fst res) \<and> (\<forall>d' e. res = (d', Inl e) \<longrightarrow> d' = d)"

lemma step_ok_refl: "db_inv env d \<Longrightarrow> step_ok env d d"
  by (simp add: step_ok_def)

lemma load_job_ok:
  assumes "db_inv env d" and "map_of (jobs d) j \<noteq> None"
  shows "\<exists>st. load_job env j d = Inr st"
proof -
  from assms(2) obtain r where r: "map_of (jobs d) j = Some r" by auto
  with db_invD(6) [OF assms(1)] have "decode_errors env (errors_json r) \<noteq> None"
    by (auto simp: job_ok_def)
  with r show ?thesis by (auto simp: load_job_def)
qed

lemma autocommit_sound:
  assumes "db_inv env d"
    and "\<And>d'. stmt d = Inr d' \<Longrightarrow> step_ok env d d' \<and> map_of (jobs d') j \<noteq> None"
  shows "op_sound env d (autocommit stmt (load_job env j) d)"
proof (cases "stmt d")
  case (Inr d')
  with assms(2) have d': "step_ok env d d'" "map_of (jobs d') j \<noteq> None" by auto
  with load_job_ok [of env d' j] obtain st where "load_job env j d' = Inr st"
    by (auto simp: step_ok_def)
  with Inr d' show ?thesis by (simp add: autocommit_def op_sound_def)
qed (use assms(1) in \<open>simp add: autocommit_def op_sound_def step_ok_refl\<close>)

lemma transact_sound:
  assumes "db_inv env d" and "\<And>d' r. body d = Inr (d', r) \<Longrightarrow> step_ok env d d'"
  shows "op_sound env d (transact body d)"
  using assms step_ok_refl by (auto simp: transact_def op_sound_def split: sum.splits)

text \<open>A move along the job's life keeps its row in order.\<close>

lemma stage_follows_simps [simp]:
  "stage_follows s Idle \<longleftrightarrow> False"
  "stage_follows Cleanup s \<longleftrightarrow> s = Cleanup"
  by (cases s; simp add: stage_follows_def)+

lemma job_moves_ok:
  "job_moves r r' \<Longrightarrow> job_ok env d r \<Longrightarrow> (job_stage r' = Cleanup \<Longrightarrow> job_stage r = Cleanup) \<Longrightarrow>
     decode_errors env (errors_json r') \<noteq> None \<Longrightarrow> job_ok env d r'"
proof (induction rule: job_moves.induct)
  case (advance r s n u ci cj t)
  then have "owns_generation d r" "job_stage r \<noteq> Idle" by (auto simp: job_ok_def finished_state_def)
  moreover have "s \<noteq> Idle" "job_stage r = Cleanup \<longleftrightarrow> s = Cleanup" using advance.hyps(3) advance.prems(2) by auto
  ultimately show ?case using advance by (auto simp: job_ok_def finished_state_def owns_generation_def)
qed (auto simp: job_ok_def finished_state_def active_state_def owns_generation_def)

lemma step_ok_move:
  assumes inv: "db_inv env d" and r: "map_of (jobs d) j = Some r" and move: "job_moves r r'"
    and "job_stage r' = Cleanup \<Longrightarrow> job_stage r = Cleanup" and "decode_errors env (errors_json r') \<noteq> None"
  shows "step_ok env d (d\<lparr>jobs := bmap_insert j r' (jobs d)\<rparr>)"
proof -
  have "job_ok env d r'" using job_moves_ok [OF move db_invD(6) [OF inv r]] assms(4,5) by blast
  then have "db_inv env (d\<lparr>jobs := bmap_insert j r' (jobs d)\<rparr>)"
    using db_inv_job [OF inv r] job_moves_keeps [OF move] by (simp add: job_keeps_def)
  moreover have "evolves d (d\<lparr>jobs := bmap_insert j r' (jobs d)\<rparr>)"
    using evolves_move [OF r move] by simp
  ultimately show ?thesis by (simp add: step_ok_def)
qed

lemma step_ok_update:
  assumes "db_inv env d" and "map_of (jobs d) j = Some r" and "job_moves r r'"
    and "job_stage r' = Cleanup \<Longrightarrow> job_stage r = Cleanup" and "errors_json r' = errors_json r"
  shows "step_ok env d (d\<lparr>jobs := bmap_insert j r' (jobs d)\<rparr>)"
  using step_ok_move [OF assms(1-3)] assms(4,5) db_invD(6) [OF assms(1,2)] by (simp add: job_ok_def)

lemma step_ok_rest: "step_ok env (d\<lparr>rest := x\<rparr>) d' \<longleftrightarrow> step_ok env d d'"
  by (simp add: step_ok_def evolves_def)

lemma advance_stage:
  assumes "job_ok env d r" and "job_state r = Running" and "stage_follows (job_stage r) s"
  shows "job_moves r (r\<lparr>job_stage := s, checkpoint_identity := ci, checkpoint_json := cj, updated_at := t\<rparr>)"
    and "job_moves r (r\<lparr>job_stage := s, updated_at := t\<rparr>)"
proof -
  have "\<not> cancellation_requested r" using assms by (auto simp: job_ok_def finished_state_def)
  then have a: "job_moves r (r\<lparr>job_stage := s, checkpoint_identity := ci, checkpoint_json := cj,
      completed_units := completed_units r, total_units := total_units r, updated_at := t\<rparr>)" for ci :: "string option" and cj t
    using assms by (intro job_moves.advance) (auto simp: job_ok_def)
  have eq: "r\<lparr>job_stage := s, checkpoint_identity := ci, checkpoint_json := cj,
      completed_units := completed_units r, total_units := total_units r, updated_at := t\<rparr> =
    r\<lparr>job_stage := s, checkpoint_identity := ci, checkpoint_json := cj, updated_at := t\<rparr>"
    "r\<lparr>job_stage := s, checkpoint_identity := checkpoint_identity r, checkpoint_json := checkpoint_json r,
      completed_units := completed_units r, total_units := total_units r, updated_at := t\<rparr> =
    r\<lparr>job_stage := s, updated_at := t\<rparr>" by (cases r; simp)+
  show "job_moves r (r\<lparr>job_stage := s, checkpoint_identity := ci, checkpoint_json := cj, updated_at := t\<rparr>)"
    using a unfolding eq(1) [symmetric] .
  show "job_moves r (r\<lparr>job_stage := s, updated_at := t\<rparr>)"
    using a unfolding eq(2) [symmetric] .
qed

locale job_operation =
  fixes run :: "'c env \<Rightarrow> 'i \<Rightarrow> 'c db \<Rightarrow> 'c db \<times> 'r result"
  assumes sound: "errors_roundtrip env \<Longrightarrow> db_inv env d \<Longrightarrow> op_sound env d (run env i d)"
begin

lemma keeps_invariant: "errors_roundtrip env \<Longrightarrow> db_inv env d \<Longrightarrow> db_inv env (fst (run env i d))"
  using sound by (simp add: op_sound_def step_ok_def)

lemma jobs_evolve: "errors_roundtrip env \<Longrightarrow> db_inv env d \<Longrightarrow> evolves d (fst (run env i d))"
  using sound by (simp add: op_sound_def step_ok_def)

lemma error_changes_nothing:
  "errors_roundtrip env \<Longrightarrow> db_inv env d \<Longrightarrow> run env i d = (d', Inl e) \<Longrightarrow> d' = d"
  using sound by (fastforce simp: op_sound_def)

lemma sequence_keeps_invariant:
  "errors_roundtrip env \<Longrightarrow> db_inv env d \<Longrightarrow> db_inv env (fold (\<lambda>i d. fst (run env i d)) is d)"
  by (induction "is" arbitrary: d) (auto simp: keeps_invariant)

end

section \<open>The operations keep the promise\<close>

interpretation heartbeat: job_operation "\<lambda>env (j, w, now). heartbeat_job env j w now"
proof (unfold_locales, clarify)
  fix env :: "'a env" and d j w now
  assume inv: "db_inv env d"
  show "op_sound env d (heartbeat_job env j w now d)"
    unfolding heartbeat_job_def
    by (rule autocommit_sound [OF inv])
      (auto simp: db_simps result_simps
        intro!: step_ok_update [OF inv] job_moves.beat)
qed

lemma checkpoint_advances:
  assumes "checkpoint_guard env w at nxt identity c t now r"
    and "validate_stage_progression at nxt = Inr ()" and "job_ok env d r"
  shows "job_moves r (r\<lparr>job_stage := nxt, checkpoint_identity := Some identity, checkpoint_json := json,
      completed_units := c, total_units := coalesce t (total_units r), updated_at := now\<rparr>)"
    and "nxt = Cleanup \<Longrightarrow> job_stage r = Cleanup"
proof -
  have "stage_follows at nxt \<and> (nxt = Cleanup \<longrightarrow> at = Cleanup)"
    using assms(2)
    by (cases at; cases nxt)
      (simp_all add: validate_stage_progression_def active_index_def stage_follows_def result_simps)
  then have stage: "stage_follows at nxt" "nxt = Cleanup \<Longrightarrow> at = Cleanup" by auto
  show "job_moves r (r\<lparr>job_stage := nxt, checkpoint_identity := Some identity, checkpoint_json := json,
      completed_units := c, total_units := coalesce t (total_units r), updated_at := now\<rparr>)"
    by (rule job_moves.advance)
      (use assms(1,3) stage in \<open>auto simp: checkpoint_guard_def coalesce_def job_ok_def finished_state_def
        split: option.splits\<close>)
  show "nxt = Cleanup \<Longrightarrow> job_stage r = Cleanup"
    using stage(2) assms(1) by (simp add: checkpoint_guard_def)
qed

interpretation checkpoint: job_operation
  "\<lambda>env (j, w, at, nxt, identity, c, n, t, now). checkpoint_job env j w at nxt identity c n t now"
proof (unfold_locales, clarify)
  fix env :: "'a env" and d j w at nxt identity c n t now
  assume inv: "db_inv env d"
  show "op_sound env d (checkpoint_job env j w at nxt identity c n t now d)"
    unfolding checkpoint_job_def Let_def
    by (rule autocommit_sound [OF inv])
      (auto simp: db_simps result_simps
        intro!: step_ok_update [OF inv] checkpoint_advances [OF _ _ db_invD(6) [OF inv]])
qed

interpretation transition: job_operation
  "\<lambda>env (pausing, j, w, now). if pausing then pause_job env j w now else resume_job env j w now"
proof (unfold_locales, clarify)
  fix env :: "'a env" and d pausing j w now
  assume inv: "db_inv env d"
  show "op_sound env d ((if pausing then pause_job env j w now else resume_job env j w now) d)"
    by (cases pausing; simp add: pause_job_def resume_job_def transition_state_def;
        rule autocommit_sound [OF inv])
      (auto simp: db_simps result_simps
        intro!: step_ok_update [OF inv] job_moves.pause job_moves.resume)
qed

interpretation cancel: job_operation "\<lambda>env (j, w, now). request_cancel env j w now"
proof (unfold_locales, clarify)
  fix env :: "'a env" and d j w now
  assume inv: "db_inv env d"
  show "op_sound env d (request_cancel env j w now d)"
    unfolding request_cancel_def
    by (rule autocommit_sound [OF inv])
      (auto simp: db_simps result_simps
        intro!: step_ok_update [OF inv] job_moves.cancel)
qed

text \<open>Finishing a job together with its generation.\<close>

lemma update_staging_Inr:
  assumes "update_staging_generation j s d = Inr d'"
  shows "d' = d \<or> (\<exists>r k g. map_of (jobs d) j = Some r \<and> job_generation r = Some k \<and>
    map_of (generations d) k = Some g \<and> gen_status g = Staging \<and>
    d' = d\<lparr>generations := bmap_insert k (g\<lparr>gen_status := s\<rparr>) (generations d)\<rparr>)"
proof (cases "Option.bind (map_of (jobs d) j) job_generation")
  case None
  with assms show ?thesis
    by (auto simp: update_staging_generation_def result_simps db_simps split: if_splits)
next
  case (Some k)
  then obtain r where r: "map_of (jobs d) j = Some r" "job_generation r = Some k"
    by (auto simp: bind_eq_Some_conv)
  with assms show ?thesis
    by (auto simp: update_staging_generation_def update_row_def result_simps db_simps
        split: option.splits if_splits)
qed

lemma finish_step:
  assumes inv: "db_inv env d" and r: "map_of (jobs d) j = Some r" "active_state (job_state r)"
    and move: "job_moves r r'" and fin: "finished_state (job_state r')" "job_stage r' = Idle"
    and dec: "decode_errors env (errors_json r') \<noteq> None"
    and upd: "update_staging_generation j s (d\<lparr>jobs := bmap_insert j r' (jobs d)\<rparr>) = Inr d'" and s: "s \<noteq> Ready"
  shows "step_ok env d d'"
proof -
  let ?d = "d\<lparr>jobs := bmap_insert j r' (jobs d)\<rparr>"
  have base: "step_ok env d ?d" by (rule step_ok_move [OF inv r(1) move]) (use fin dec in auto)
  have gen: "job_generation r' = job_generation r"
    using job_moves_generation [OF move] r(2) by (auto simp: finished_state_def active_state_def)
  from update_staging_Inr [OF upd] show ?thesis
  proof
    assume "\<exists>q k g. map_of (jobs ?d) j = Some q \<and> job_generation q = Some k \<and>
      map_of (generations ?d) k = Some g \<and> gen_status g = Staging \<and>
      d' = ?d\<lparr>generations := bmap_insert k (g\<lparr>gen_status := s\<rparr>) (generations ?d)\<rparr>"
    then obtain k g where k: "job_generation r = Some k" "map_of (generations ?d) k = Some g"
      "gen_status g = Staging" and d': "d' = ?d\<lparr>generations := bmap_insert k (g\<lparr>gen_status := s\<rparr>) (generations ?d)\<rparr>"
      using gen by auto
    have "unowned k ?d"
      by (rule unowned_otherwise [OF inv r k(1)])
        (use fin in \<open>auto simp: active_state_def finished_state_def split: if_splits\<close>)
    then have "db_inv env d'"
      unfolding d' by (intro db_inv_generation [OF _ k(2)]) (use base k s in \<open>simp_all add: step_ok_def\<close>)
    with base show ?thesis by (simp add: step_ok_def evolves_def d')
  qed (use base in simp)
qed

interpretation acknowledge: job_operation "\<lambda>env (j, w, now). acknowledge_cancel env j w now"
proof (unfold_locales, clarify)
  fix env :: "'a env" and d j w now
  assume inv: "db_inv env d"
  show "op_sound env d (acknowledge_cancel env j w now d)"
    unfolding acknowledge_cancel_def finish_job_def option.case
  proof (rule transact_sound [OF inv], clarsimp simp: db_simps result_simps)
    fix d' r
    assume r: "map_of (jobs d) j = Some r" "job_state r = Cancelling"
      and upd: "update_staging_generation j GenCancelled (d\<lparr>jobs := bmap_insert j
        (r\<lparr>job_state := Cancelled, job_stage := Idle, finished_at := Some now, updated_at := now\<rparr>) (jobs d)\<rparr>) = Inr d'"
    show "step_ok env d d'"
      by (rule finish_step [OF inv r(1) _ job_moves.acknowledge _ _ _ upd])
        (use r db_invD(6) [OF inv r(1)] in \<open>auto simp: active_state_def finished_state_def job_ok_def\<close>)
  qed
qed

interpretation failing: job_operation "\<lambda>env (j, w, code, now). fail_job env j w code now"
proof (unfold_locales, clarify)
  fix env :: "'a env" and d j w code now
  assume law: "errors_roundtrip env" and inv: "db_inv env d"
  show "op_sound env d (fail_job env j w code now d)"
    unfolding fail_job_def Let_def
  proof (rule transact_sound [OF inv], clarsimp simp: db_simps result_simps)
    fix d' r es
    assume r: "map_of (jobs d) j = Some r" "job_state r = Running \<or> job_state r = Paused \<or> job_state r = Cancelling"
      and upd: "update_staging_generation j GenFailed (d\<lparr>jobs := bmap_insert j
        (r\<lparr>job_state := Failed, job_stage := Idle, errors_json := encode_errors env (es @ [error_code_name code]),
           finished_at := Some now, updated_at := now\<rparr>) (jobs d)\<rparr>) = Inr d'"
    show "step_ok env d d'"
      by (rule finish_step [OF inv r(1) _ job_moves.failure _ _ _ upd])
        (use r law in \<open>auto simp: active_state_def finished_state_def errors_roundtrip_def\<close>)
  qed
qed

interpretation completing: job_operation "\<lambda>env (j, w, now). complete_job env j w now"
proof (unfold_locales, clarify)
  fix env :: "'a env" and d j w now
  assume inv: "db_inv env d"
  show "op_sound env d (complete_job env j w now d)"
    unfolding complete_job_def
    by (rule transact_sound [OF inv])
      (auto simp: db_simps result_simps intro!: step_ok_update [OF inv] job_moves.finish)
qed

interpretation recovery: job_operation "\<lambda>env (i, w, t, now). recover_stale_job env i w t now"
proof (unfold_locales, clarify)
  fix env :: "'a env" and d i w t now
  assume inv: "db_inv env d"
  show "op_sound env d (recover_stale_job env i w t now d)"
  proof (cases "active_job_of i d")
    case None
    then show ?thesis
      by (auto simp: recover_stale_job_def op_sound_def step_ok_refl [OF inv] and_then_Inr split: sum.splits)
  next
    case (Some row)
    then obtain j r where row: "row = (j, r)" "map_of (jobs d) j = Some r" "active_state (job_state r)"
      using bmap_entry_iff [OF db_invD(3) [OF inv]]
      by (cases row) (auto simp: active_job_of_def find_Some_iff dest!: nth_mem)
    have taken: "step_ok env d (d\<lparr>jobs := bmap_insert j (r\<lparr>job_owner := w,
        job_state := (if job_state r = Running then Paused else job_state r), updated_at := now\<rparr>) (jobs d)\<rparr>)"
      by (rule step_ok_update [OF inv row(2) job_moves.take_over [OF row(3)]]) simp_all
    have "op_sound env d (autocommit (\<lambda>d.
        and_then (validate_timestamp env (updated_at r)) (\<lambda>beat.
        and_then (reject_if (cutoff \<le> beat) m) (\<lambda>_.
          cas_job ''recover'' j
            (\<lambda>q. job_repository q = i \<and> job_owner q = job_owner r \<and> job_state q = job_state r \<and>
                  updated_at q = updated_at r)
            (\<lambda>q. q\<lparr>job_owner := w, job_state := (if job_state r = Running then Paused else job_state r),
                   updated_at := now\<rparr>) d))) (load_job env j) d)" for cutoff m
      by (rule autocommit_sound [OF inv]) (auto simp: db_simps result_simps row(2) taken simp del: if_split)
    moreover have "op_sound env d (d, load_job env j d)"
      using step_ok_refl [OF inv] by (simp add: op_sound_def)
    moreover have "op_sound env d (d, Inl e)" for e
      using step_ok_refl [OF inv] by (simp add: op_sound_def)
    ultimately show ?thesis
      unfolding recover_stale_job_def Some row(1) Let_def
      by (auto simp: and_then_Inr split: sum.splits)
  qed
qed

text \<open>Writing the coverage of a generation.\<close>

lemma step_ok_coverage:
  assumes inv: "db_inv env d" and g: "map_of (generations d) k = Some g"
  shows "step_ok env d (d\<lparr>generations := bmap_insert k (g\<lparr>coverage_json := s\<rparr>) (generations d)\<rparr>)"
  using db_inv_generation [OF inv g, of "g\<lparr>coverage_json := s\<rparr>"] by (simp add: step_ok_def)

interpretation coverage: job_operation "\<lambda>env (i, k, c). record_coverage env i k c"
proof (unfold_locales, clarify)
  fix env :: "'a env" and d i k c
  assume inv: "db_inv env d"
  show "op_sound env d (record_coverage env i k c d)"
    using step_ok_refl [OF inv] step_ok_coverage [OF inv, of k]
    by (auto simp: record_coverage_def autocommit_def op_sound_def update_row_def split: option.splits)
qed

lemma copy_coverage_step:
  assumes "db_inv env d"
  shows "step_ok env d (copy_coverage k ready d)"
  using step_ok_refl [OF assms] step_ok_coverage [OF assms, of k]
  by (auto simp: copy_coverage_def update_row_def split: option.splits)

interpretation cloning: job_operation
  "\<lambda>env (plan, i, k). clone_unaffected_ready_facts env plan i k"
proof (unfold_locales, clarify)
  fix env :: "'a env" and d :: "'a db" and plan i k
  assume inv: "db_inv env d"
  have rest: "step_ok env d (e\<lparr>rest := x\<rparr>)" if "step_ok env d e" for e x
    using that by (simp add: step_ok_def evolves_def)
  show "op_sound env d (clone_unaffected_ready_facts env plan i k d)"
    unfolding clone_unaffected_ready_facts_def
  proof (rule transact_sound [OF inv], goal_cases)
    case (1 d' u)
    then show ?case
      using rest [OF copy_coverage_step [OF inv]] rest [OF step_ok_refl [OF inv]] step_ok_refl [OF inv]
      by (auto simp: result_simps split: option.splits)
  qed
qed

text \<open>The stages that build a generation.\<close>

lemma owned_job_Some:
  "owned_job env i S d = Some r \<longleftrightarrow>
     map_of (jobs d) (in_job i) = Some r \<and> job_repository r = in_repository i \<and>
     job_generation r = Some (in_generation i) \<and> job_owner r = in_owner i \<and> job_state r = Running \<and>
     job_stage r \<in> S \<and> \<not> cancellation_requested r \<and> staging_of i d \<and> not_before env (in_now i) (updated_at r)"
  by (auto simp: owned_job_def split: option.splits if_splits)

lemma hand_over_step:
  assumes inv: "db_inv env d" and h: "hand_over env i a at nxt r receipt c (d\<lparr>rest := x\<rparr>) = Inr d'"
    and nxt: "stage_follows at nxt" "nxt \<noteq> Cleanup"
  shows "step_ok env d d'"
proof -
  from h obtain q where q: "map_of (jobs d) (in_job i) = Some q" "job_state q = Running" "job_stage q = at"
    and d': "d' = d\<lparr>rest := x, jobs := bmap_insert (in_job i) (q\<lparr>job_stage := nxt,
      checkpoint_identity := Some receipt, checkpoint_json := encode_checkpoint env c,
      updated_at := in_now i\<rparr>) (jobs d)\<rparr>"
    by (auto simp: hand_over_def db_simps)
  have move: "job_moves q (q\<lparr>job_stage := nxt, checkpoint_identity := Some receipt,
      checkpoint_json := encode_checkpoint env c, updated_at := in_now i\<rparr>)"
    by (rule advance_stage(1) [OF db_invD(6) [OF inv q(1)] q(2)]) (simp add: q(3) nxt(1))
  have "db_inv env (d\<lparr>rest := x\<rparr>)" "map_of (jobs (d\<lparr>rest := x\<rparr>)) (in_job i) = Some q"
    using inv q(1) by simp_all
  from step_ok_update [OF this move] have "step_ok env (d\<lparr>rest := x\<rparr>) d'"
    by (simp add: nxt(2) d')
  then show ?thesis by (simp add: step_ok_rest)
qed

lemma receipt_stage_sound:
  assumes inv: "db_inv env d" and nxt: "stage_follows at nxt" "nxt \<noteq> Cleanup"
  shows "op_sound env d (receipt_stage env cancelled n a c r at nxt rc i d)"
  unfolding receipt_stage_def
proof (rule transact_sound [OF inv])
  fix d' st
  assume body: "and_then (validate_owned_generation env i) (\<lambda>_.
      and_then (reject_if cancelled (''Archaeology '' @ n @ '' cancelled'')) (\<lambda>_.
      and_then (parse_parser_manifest (id_parser (in_identity i))) (\<lambda>_.
      case owned_job env i {at, nxt} d of
        None \<Rightarrow> Inl (cas_error a (in_job i))
      | Some q \<Rightarrow>
          if job_stage q = nxt \<and> checkpoint_identity q = Some r
          then and_then (load_job env (in_job i) d) (\<lambda>st. Inr (d, st))
          else if job_stage q \<noteq> at then Inl (cas_error a (in_job i))
          else and_then (rc d) (\<lambda>k.
               and_then (stage_work env at i k (rest d)) (\<lambda>(checkpoint, rest').
               and_then (hand_over env i c at nxt q r checkpoint (d\<lparr>rest := rest'\<rparr>)) (\<lambda>d1.
               and_then (load_job env (in_job i) d1) (\<lambda>st. Inr (d1, st)))))))) = Inr (d', st)"
  then have "d' = d \<or> (\<exists>q k x. hand_over env i c at nxt q r k (d\<lparr>rest := x\<rparr>) = Inr d')"
    by (cases "owned_job env i {at, nxt} d") (auto simp: result_simps split: if_splits)
  then show "step_ok env d d'"
    using step_ok_refl [OF inv] hand_over_step [OF inv _ nxt] by blast
qed

interpretation link: job_operation "\<lambda>env (cancelled, i). link_generation env cancelled i"
  by unfold_locales (auto simp: link_generation_def stage_follows_def intro!: receipt_stage_sound)

interpretation derive: job_operation "\<lambda>env (cancelled, i). derive_template_candidates env cancelled i"
  by unfold_locales (auto simp: derive_template_candidates_def stage_follows_def intro!: receipt_stage_sound)

interpretation synthesis: job_operation "\<lambda>env (cancelled, i). finalize_synthesis_catalog env cancelled i"
proof (unfold_locales, clarify)
  fix env :: "'a env" and d cancelled i
  assume inv: "db_inv env d"
  have follows: "stage_follows Synthesize Validate" by (simp add: stage_follows_def)
  show "op_sound env d (finalize_synthesis_catalog env cancelled i d)"
    unfolding finalize_synthesis_catalog_def
    by (rule transact_sound [OF inv], cases "owned_job env i {Synthesize, Validate} d")
      (auto simp: result_simps step_ok_refl [OF inv] split: if_splits option.splits
        dest!: hand_over_step [OF inv _ follows])
qed

interpretation refresh: job_operation "\<lambda>env (i, mode, plan, n). enter_refresh env i mode plan n"
proof (unfold_locales, clarify)
  fix env :: "'a env" and d mode plan n and i :: stage_input
  assume inv: "db_inv env d"
  have follows: "stage_follows Inventory (refresh_stage mode)" "refresh_stage mode \<noteq> Cleanup"
    by (auto simp: stage_follows_def refresh_stage_def)
  have "step_ok env d (d\<lparr>jobs := bmap_insert (in_job i) (r\<lparr>job_stage := refresh_stage mode,
      checkpoint_identity := Some plan, checkpoint_json := encode_checkpoint env (refresh_checkpoint plan n),
      updated_at := in_now i\<rparr>) (jobs d)\<rparr>)"
    if "map_of (jobs d) (in_job i) = Some r" "job_state r = Running" "job_stage r = Inventory" for r
    using that follows
    by (intro step_ok_update [OF inv that(1) advance_stage(1) [OF db_invD(6) [OF inv that(1)] that(2)]]) simp_all
  then show "op_sound env d (enter_refresh env i mode plan n d)"
    using step_ok_refl [OF inv]
    by (auto simp: enter_refresh_def autocommit_def op_sound_def update_row_def reject_if_def split: option.splits)
qed

interpretation parsed: job_operation "\<lambda>env i. complete_parse i"
proof unfold_locales
  fix env :: "'a env" and d :: "'a db" and i :: stage_input
  assume inv: "db_inv env d"
  have "step_ok env d (d\<lparr>jobs := bmap_insert (in_job i) (r\<lparr>job_stage := Link, updated_at := in_now i\<rparr>) (jobs d)\<rparr>)"
    if "map_of (jobs d) (in_job i) = Some r" "job_state r = Running" "job_stage r = Parse" for r
    using that
    by (intro step_ok_update [OF inv that(1) advance_stage(2) [OF db_invD(6) [OF inv that(1)] that(2)]])
      (simp_all add: stage_follows_def)
  then show "op_sound env d (complete_parse i d)"
    using step_ok_refl [OF inv]
    by (auto simp: complete_parse_def autocommit_def op_sound_def update_row_def reject_if_def split: option.splits)
qed

text \<open>Starting a job.\<close>

lemma db_inv_start:
  assumes inv: "db_inv env d" and law: "errors_roundtrip env"
    and g: "generation_insertable (in_generation i) (new_generation i) d"
    and j: "job_insertable (in_job i) (new_job i n)
      (d\<lparr>generations := bmap_insert (in_generation i) (new_generation i) (generations d)\<rparr>)"
  shows "db_inv env (d\<lparr>generations := bmap_insert (in_generation i) (new_generation i) (generations d),
    jobs := bmap_insert (in_job i) (new_job i n) (jobs d)\<rparr>)" (is "db_inv env ?d")
proof -
  have fresh: "map_of (generations d) (in_generation i) = None" "map_of (jobs d) (in_job i) = None"
    "map_of (repositories d) (in_repository i) \<noteq> None"
    using g j by (simp_all add: generation_insertable_def job_insertable_def new_generation_def new_job_def)
  have idle: "\<not> (active_state (job_state q) \<and> job_repository q = in_repository i)"
    if "map_of (jobs d) k = Some q" for k q
    using j map_of_SomeD [OF that] by (auto simp: job_insertable_def list_all_iff new_job_def)
  have "job_ok env ?d r" if r: "map_of (jobs ?d) k = Some r" for k r
  proof (cases "k = in_job i")
    case True
    with r fresh law show ?thesis
      by (auto simp: job_ok_def owns_generation_def new_job_def new_generation_def errors_roundtrip_def)
  next
    case False
    with r have ok: "job_ok env d r" using db_invD(6) [OF inv] by simp
    have "map_of (generations d) m = Some g \<Longrightarrow> map_of (generations ?d) m = Some g" for m g
      using fresh(1) by (cases "m = in_generation i") simp_all
    then have "owns_generation d r \<Longrightarrow> owns_generation ?d r" unfolding owns_generation_def by blast
    then show ?thesis by (intro job_ok_transfer [OF ok]) (use ok in \<open>simp_all add: job_ok_def\<close>)
  qed
  moreover have "pointer_ok ?d"
  proof (rule pointer_okI)
    fix k g1 assume k: "map_of (generations ?d) k = Some g1"
    show "\<exists>r. map_of (repositories ?d) (gen_repository g1) = Some r \<and>
        (gen_status g1 = Ready \<longleftrightarrow> ready_generation_id r = Some k)"
    proof (cases "k = in_generation i")
      case True
      obtain r where r: "map_of (repositories d) (in_repository i) = Some r" using fresh(3) by auto
      have "ready_generation_id r \<noteq> Some k"
        using pointer_ok_repository [OF db_invD(4) [OF inv] r] fresh(1) True by auto
      with True k r show ?thesis by (auto simp: new_generation_def)
    qed (use pointer_ok_generation [OF db_invD(4) [OF inv]] k in simp)
  next
    fix k r m assume "map_of (repositories ?d) k = Some r" "ready_generation_id r = Some m"
    then show "\<exists>g. map_of (generations ?d) m = Some g \<and> gen_repository g = k"
      using pointer_ok_repository [OF db_invD(4) [OF inv], of k r m] fresh(1) by auto
  qed
  moreover have "one_active ?d"
    unfolding one_active_def
  proof (intro allI impI, elim conjE)
    fix k k' r r'
    assume a: "map_of (jobs ?d) k = Some r" "map_of (jobs ?d) k' = Some r'" "active_state (job_state r)"
      "active_state (job_state r')" "job_repository r = job_repository r'"
    have old: "map_of (jobs d) m = Some q" if "map_of (jobs ?d) m = Some q" "m \<noteq> in_job i" for m q
      using that by simp
    have new: "job_repository q = in_repository i" if "map_of (jobs ?d) (in_job i) = Some q" for q
      using that by (auto simp: new_job_def)
    consider "k = in_job i" "k' = in_job i" | "k = in_job i" "k' \<noteq> in_job i"
      | "k \<noteq> in_job i" "k' = in_job i" | "k \<noteq> in_job i" "k' \<noteq> in_job i" by blast
    then show "k = k'"
    proof cases
      case 2
      with a new old [OF a(2)] idle show ?thesis by metis
    next
      case 3
      with a new old [OF a(1)] idle show ?thesis by metis
    next
      case 4
      show ?thesis
        by (rule one_activeD [OF db_invD(5) [OF inv] old [OF a(1) 4(1)] old [OF a(2) 4(2)] a(3-5)])
    qed simp
  qed
  ultimately show ?thesis using inv by (simp add: db_inv_def bmap_insert_ok)
qed

interpretation starting: job_operation "\<lambda>env (i, n). start_job env i n"
proof (unfold_locales, clarify)
  fix env :: "'a env" and d i n
  assume law: "errors_roundtrip env" and inv: "db_inv env d"
  show "op_sound env d (start_job env i n d)"
    unfolding start_job_def Let_def
  proof (rule transact_sound [OF inv])
    fix d' r
    assume "and_then (validate_owned_generation env i) (\<lambda>_.
       and_then (optional_i64 n) (\<lambda>n.
       and_then (reject_if (\<not> generation_insertable (in_generation i) (new_generation i) d)
                   (''Create archaeology staging generation: '' @ sql_detail env)) (\<lambda>_.
       and_then (reject_if (\<not> job_insertable (in_job i) (new_job i n)
             (d\<lparr>generations := bmap_insert (in_generation i) (new_generation i) (generations d)\<rparr>))
                      (''Create archaeology job: '' @ sql_detail env)) (\<lambda>_.
       and_then (load_job env (in_job i) (d\<lparr>generations := bmap_insert (in_generation i) (new_generation i) (generations d),
            jobs := bmap_insert (in_job i) (new_job i n) (jobs (d\<lparr>generations := bmap_insert (in_generation i) (new_generation i) (generations d)\<rparr>))\<rparr>))
         (\<lambda>status. Inr (d\<lparr>generations := bmap_insert (in_generation i) (new_generation i) (generations d),
            jobs := bmap_insert (in_job i) (new_job i n) (jobs (d\<lparr>generations := bmap_insert (in_generation i) (new_generation i) (generations d)\<rparr>))\<rparr>, status)))))) = Inr (d', r)"
    then obtain m where g: "generation_insertable (in_generation i) (new_generation i) d"
      and j: "job_insertable (in_job i) (new_job i m)
        (d\<lparr>generations := bmap_insert (in_generation i) (new_generation i) (generations d)\<rparr>)"
      and d': "d' = d\<lparr>generations := bmap_insert (in_generation i) (new_generation i) (generations d),
        jobs := bmap_insert (in_job i) (new_job i m) (jobs d)\<rparr>"
      by (auto simp: result_simps)
    have "evolves d d'" using j by (auto simp: evolves_def d' job_insertable_def)
    with db_inv_start [OF inv law g j] show "step_ok env d d'" by (simp add: step_ok_def d')
  qed
qed

text \<open>Validation seals the generation and enters the publish stage.\<close>

interpretation validation: job_operation "\<lambda>env i. validate_generation_for_publication env i"
proof unfold_locales
  fix env :: "'a env" and d :: "'a db" and i :: stage_input
  assume inv: "db_inv env d"
  have step: "step_ok env d (d\<lparr>jobs := bmap_insert (in_job i) r' (jobs d),
      generations := bmap_insert k (g\<lparr>source_unit_count := u, fact_count := f, rule_count := n\<rparr>) (generations d)\<rparr>)"
    if r: "map_of (jobs d) (in_job i) = Some r" "job_state r = Running" "job_stage r = Validate"
      and r': "r' = r\<lparr>job_stage := Publish, checkpoint_identity := Some ci, checkpoint_json := cj,
        updated_at := t\<rparr>" and g: "map_of (generations d) k = Some g"
    for r r' ci cj t k g u f n
  proof -
    have "step_ok env d (d\<lparr>jobs := bmap_insert (in_job i) r' (jobs d)\<rparr>)"
      unfolding r'
      by (rule step_ok_update [OF inv r(1) advance_stage(1) [OF db_invD(6) [OF inv r(1)] r(2)]])
        (simp_all add: stage_follows_def r(3))
    then have "db_inv env (d\<lparr>jobs := bmap_insert (in_job i) r' (jobs d)\<rparr>)"
      and "evolves d (d\<lparr>jobs := bmap_insert (in_job i) r' (jobs d)\<rparr>)" by (simp_all add: step_ok_def)
    moreover from db_inv_generation [OF this(1), of k g "g\<lparr>source_unit_count := u, fact_count := f, rule_count := n\<rparr>"] g
    have "db_inv env (d\<lparr>jobs := bmap_insert (in_job i) r' (jobs d),
      generations := bmap_insert k (g\<lparr>source_unit_count := u, fact_count := f, rule_count := n\<rparr>) (generations d)\<rparr>)"
      by simp
    ultimately show ?thesis by (simp add: step_ok_def evolves_def)
  qed
  show "op_sound env d (validate_generation_for_publication env i d)"
    unfolding validate_generation_for_publication_def Let_def
    by (rule transact_sound [OF inv]) (auto simp: db_simps result_simps intro!: step split: if_splits option.splits)
qed

text \<open>Publication: the ready generation of a repository changes hands.\<close>

lemma db_inv_publish:
  assumes inv: "db_inv env d" and r: "map_of (jobs d) j = Some r" "job_state r = Running"
      "job_generation r = Some k" "job_repository r = i"
    and repo: "map_of (repositories d) i = Some repo"
    and k: "map_of (generations d) k = Some g" "gen_repository g = i" "gen_status g = Staging"
    and prior: "case ready_generation_id repo of None \<Rightarrow> gs = generations d
      | Some p \<Rightarrow> \<exists>h. map_of (generations d) p = Some h \<and> gs = bmap_insert p (h\<lparr>gen_status := Superseded\<rparr>) (generations d)"
  shows "db_inv env (d\<lparr>jobs := bmap_insert j (r\<lparr>job_stage := Cleanup, updated_at := t\<rparr>) (jobs d),
    generations := bmap_insert k (g\<lparr>gen_status := Ready, published_at := pub\<rparr>) gs,
    repositories := bmap_insert i (repo\<lparr>ready_generation_id := Some k, repo_updated_at := t'\<rparr>) (repositories d)\<rparr>)"
    (is "db_inv env ?d")
proof -
  have pointed: "\<exists>h. map_of (generations d) p = Some h \<and> gen_repository h = i \<and> gen_status h = Ready"
    if "ready_generation_id repo = Some p" for p
    using pointer_ok_repository [OF db_invD(4) [OF inv] repo that] .
  have gens: "map_of (generations ?d) m = (if m = k then Some (g\<lparr>gen_status := Ready, published_at := pub\<rparr>)
      else if ready_generation_id repo = Some m
      then map_option (gen_status_update (\<lambda>_. Superseded)) (map_of (generations d) m)
      else map_of (generations d) m)" for m
    using prior by (auto split: option.splits)
  have ok_gens: "bmap_ok (generations ?d)"
    using prior db_invD(2) [OF inv] by (auto split: option.splits intro!: bmap_insert_ok)
  have same_repo: "\<exists>g1. map_of (generations d) m = Some g1 \<and> gen_repository g1 = gen_repository g2"
    if m: "map_of (generations ?d) m = Some g2" for m g2
  proof (cases "m = k")
    case True
    with m have "g2 = g\<lparr>gen_status := Ready, published_at := pub\<rparr>" by simp
    with True k(1) show ?thesis by simp
  next
    case False
    from m [unfolded gens] False show ?thesis
      by (cases "ready_generation_id repo = Some m") (auto simp: map_option_eq_Some)
  qed
  have "job_ok env ?d q" if q: "map_of (jobs ?d) m = Some q" for m q
  proof (cases "m = j")
    case True
    have q': "q = r\<lparr>job_stage := Cleanup, updated_at := t\<rparr>" using q True by simp
    have own: "owns_generation ?d q"
      unfolding owns_generation_def gens q' using r(3,4) k(2) by simp
    from db_invD(6) [OF inv r(1)] r(2) have "\<not> cancellation_requested r"
      "\<forall>m. total_units r = Some m \<longrightarrow> completed_units r \<le> m" "decode_errors env (errors_json r) \<noteq> None"
      by (auto simp: job_ok_def finished_state_def)
    with own show ?thesis using r(2,4) by (simp add: job_ok_def q')
  next
    case False
    then have q': "map_of (jobs d) m = Some q" using q by simp
    then have ok: "job_ok env d q" by (rule db_invD(6) [OF inv])
    show ?thesis
    proof (rule job_ok_transfer [OF ok])
      show "map_of (repositories ?d) (job_repository q) \<noteq> None" using ok by (auto simp: job_ok_def)
      assume act: "active_state (job_state q)" and own: "owns_generation d q"
      have foreign: "job_repository q \<noteq> i"
        using one_activeD [OF db_invD(5) [OF inv] q' r(1) act] False r(2,4) by (auto simp: active_state_def)
      from own obtain l h where l: "job_generation q = Some l" "map_of (generations d) l = Some h"
        "gen_repository h = job_repository q" "gen_status h = (if job_stage q = Cleanup then Ready else Staging)"
        unfolding owns_generation_def by blast
      have "l \<noteq> k" using l(2,3) k(1,2) foreign by auto
      moreover have "ready_generation_id repo \<noteq> Some l" using pointed [of l] l(2,3) foreign by auto
      ultimately have "map_of (generations ?d) l = Some h" unfolding gens using l(2) by simp
      with l show "owns_generation ?d q" unfolding owns_generation_def by blast
    qed
  qed
  moreover have "pointer_ok ?d"
  proof (rule pointer_okI)
    fix m g2 assume m: "map_of (generations ?d) m = Some g2"
    show "\<exists>re. map_of (repositories ?d) (gen_repository g2) = Some re \<and>
        (gen_status g2 = Ready \<longleftrightarrow> ready_generation_id re = Some m)"
    proof (cases "m = k")
      case True
      with m [unfolded gens] k(2) show ?thesis by auto
    next
      case False
      from same_repo [OF m] obtain g1 where g1: "map_of (generations d) m = Some g1"
        "gen_repository g1 = gen_repository g2" by blast
      from pointer_ok_generation [OF db_invD(4) [OF inv] g1(1)] obtain re where
        re: "map_of (repositories d) (gen_repository g1) = Some re"
        "gen_status g1 = Ready \<longleftrightarrow> ready_generation_id re = Some m" by blast
      show ?thesis
      proof (cases "gen_repository g2 = i")
        case True
        with g1(2) re repo have "gen_status g1 = Ready \<longleftrightarrow> ready_generation_id repo = Some m" by simp
        then have "gen_status g2 \<noteq> Ready" using m [unfolded gens] False g1(1) by (auto split: if_splits)
        with True False show ?thesis by auto
      next
        case other: False
        have "ready_generation_id repo \<noteq> Some m" using pointed g1 other by force
        with m [unfolded gens] False g1(1) have "g2 = g1" by simp
        with re other show ?thesis by simp
      qed
    qed
  next
    fix i' re m assume "map_of (repositories ?d) i' = Some re" "ready_generation_id re = Some m"
    then show "\<exists>g. map_of (generations ?d) m = Some g \<and> gen_repository g = i'"
      using k(1,2) pointer_ok_repository [OF db_invD(4) [OF inv], of i' re m] unfolding gens
      by (cases "i' = i") (auto split: if_splits)
  qed
  moreover have "one_active ?d"
    by (rule one_active_sub [OF db_invD(5) [OF inv]])
      (use r in \<open>auto simp: active_state_def split: if_splits\<close>)
  ultimately show ?thesis using inv ok_gens by (simp add: db_inv_def bmap_insert_ok)
qed

lemma supersede_prior_Inr:
  "supersede_prior i prior d = Inr d' \<longleftrightarrow>
     (case prior of None \<Rightarrow> d' = d
      | Some p \<Rightarrow> \<exists>h. map_of (generations d) p = Some h \<and> gen_repository h = in_repository i \<and>
          gen_status h = Ready \<and>
          d' = d\<lparr>generations := bmap_insert p (h\<lparr>gen_status := Superseded\<rparr>) (generations d)\<rparr>)"
  by (auto simp: supersede_prior_def db_simps split: option.splits)

lemma move_pointer_Inr:
  "move_pointer env i prior d = Inr d' \<longleftrightarrow>
     (\<exists>repo. map_of (repositories d) (in_repository i) = Some repo \<and> ready_generation_id repo = prior \<and>
        current_revision repo = id_revision (in_identity i) \<and> repo_source repo = id_source (in_identity i) \<and>
        not_before env (in_now i) (repo_updated_at repo) \<and>
        d' = d\<lparr>repositories := bmap_insert (in_repository i)
          (repo\<lparr>ready_generation_id := Some (in_generation i), repo_updated_at := in_now i\<rparr>) (repositories d)\<rparr>)"
  by (auto simp: move_pointer_def update_row_def require_cas_def reject_if_def split: option.splits)

text \<open>The four writes of a publication, once the checks before them have passed.\<close>

lemma publication_commits:
  assumes inv: "db_inv env d" and repo: "map_of (repositories d) (in_repository i) = Some repo"
    and w1: "cas_job a (in_job i)
      (\<lambda>r. job_repository r = in_repository i \<and> job_generation r = Some (in_generation i) \<and>
            job_owner r = in_owner i \<and> job_state r = Running \<and> job_stage r = Publish \<and>
            \<not> cancellation_requested r \<and> not_before env (in_now i) (updated_at r))
      (\<lambda>r. r\<lparr>job_stage := Cleanup, updated_at := in_now i\<rparr>) (d\<lparr>rest := x\<rparr>) = Inr d1"
    and w2: "supersede_prior i (ready_generation_id repo) d1 = Inr d2"
    and w3: "make_ready i d2 = Inr d3"
    and w4: "move_pointer env i (ready_generation_id repo) d3 = Inr d4"
  shows "step_ok env d d4 \<and>
    (\<exists>r g gs. map_of (jobs d) (in_job i) = Some r \<and> job_stage r = Publish \<and> job_state r = Running \<and>
       map_of (generations d) (in_generation i) = Some g \<and> gen_status g = Staging \<and>
       gen_identity g = in_identity i \<and> gen_repository g = in_repository i \<and>
       (case ready_generation_id repo of None \<Rightarrow> gs = generations d
        | Some p \<Rightarrow> p \<noteq> in_generation i \<and> (\<exists>h. map_of (generations d) p = Some h \<and>
            gs = bmap_insert p (h\<lparr>gen_status := Superseded\<rparr>) (generations d))) \<and>
       d4 = d\<lparr>rest := x,
          jobs := bmap_insert (in_job i) (r\<lparr>job_stage := Cleanup, updated_at := in_now i\<rparr>) (jobs d),
          generations := bmap_insert (in_generation i)
            (g\<lparr>gen_status := Ready, published_at := Some (in_now i)\<rparr>) gs,
          repositories := bmap_insert (in_repository i)
            (repo\<lparr>ready_generation_id := Some (in_generation i), repo_updated_at := in_now i\<rparr>) (repositories d)\<rparr>)"
proof -
  let ?k = "in_generation i"
  from w1 obtain r where r: "map_of (jobs d) (in_job i) = Some r" "job_repository r = in_repository i"
      "job_generation r = Some ?k" "job_state r = Running" "job_stage r = Publish"
    and d1: "d1 = d\<lparr>rest := x, jobs := bmap_insert (in_job i) (r\<lparr>job_stage := Cleanup, updated_at := in_now i\<rparr>) (jobs d)\<rparr>"
    by (auto simp: db_simps)
  have "job_ok env d r" by (rule db_invD(6) [OF inv r(1)])
  then have "owns_generation d r" using r(4) by (auto simp: job_ok_def finished_state_def)
  with r obtain g where g: "map_of (generations d) ?k = Some g" "gen_repository g = in_repository i"
    "gen_status g = Staging" by (auto simp: owns_generation_def)
  have old: "p \<noteq> ?k" if "ready_generation_id repo = Some p" for p
    using pointer_ok_repository [OF db_invD(4) [OF inv] repo that] g by auto
  define gs where "gs = generations d2"
  have prior: "case ready_generation_id repo of None \<Rightarrow> gs = generations d
      | Some p \<Rightarrow> p \<noteq> ?k \<and> (\<exists>h. map_of (generations d) p = Some h \<and>
          gs = bmap_insert p (h\<lparr>gen_status := Superseded\<rparr>) (generations d))"
    and d2: "d2 = d1\<lparr>generations := gs\<rparr>"
    using w2 old by (auto simp: supersede_prior_Inr gs_def d1 split: option.splits)
  have "map_of gs ?k = Some g" using prior g(1) by (auto split: option.splits)
  with w3 have id: "gen_identity g = in_identity i"
    and d3: "d3 = d2\<lparr>generations := bmap_insert ?k (g\<lparr>gen_status := Ready, published_at := Some (in_now i)\<rparr>) gs\<rparr>"
    by (auto simp: make_ready_def db_simps d2)
  have d4: "d4 = d\<lparr>rest := x,
      jobs := bmap_insert (in_job i) (r\<lparr>job_stage := Cleanup, updated_at := in_now i\<rparr>) (jobs d),
      generations := bmap_insert ?k (g\<lparr>gen_status := Ready, published_at := Some (in_now i)\<rparr>) gs,
      repositories := bmap_insert (in_repository i)
        (repo\<lparr>ready_generation_id := Some ?k, repo_updated_at := in_now i\<rparr>) (repositories d)\<rparr>"
    using w4 repo by (auto simp: move_pointer_Inr d3 d2 d1)
  have prior': "case ready_generation_id repo of None \<Rightarrow> gs = generations d
      | Some p \<Rightarrow> \<exists>h. map_of (generations d) p = Some h \<and> gs = bmap_insert p (h\<lparr>gen_status := Superseded\<rparr>) (generations d)"
    using prior by (auto split: option.splits)
  have "db_inv env (d\<lparr>jobs := bmap_insert (in_job i) (r\<lparr>job_stage := Cleanup, updated_at := in_now i\<rparr>) (jobs d),
      generations := bmap_insert ?k (g\<lparr>gen_status := Ready, published_at := Some (in_now i)\<rparr>) gs,
      repositories := bmap_insert (in_repository i)
        (repo\<lparr>ready_generation_id := Some ?k, repo_updated_at := in_now i\<rparr>) (repositories d)\<rparr>)" (is "db_inv env ?e")
    by (rule db_inv_publish [OF inv r(1,4,3,2) repo g prior'])
  moreover have "db_inv env d4 \<longleftrightarrow> db_inv env ?e" by (rule db_inv_cong) (simp_all add: d4)
  ultimately have "db_inv env d4" by simp
  moreover have "evolves d d4"
  proof (rule evolves_move [OF r(1)])
    show "job_moves r (r\<lparr>job_stage := Cleanup, updated_at := in_now i\<rparr>)"
      by (rule advance_stage(2) [OF db_invD(6) [OF inv r(1)] r(4)]) (simp add: stage_follows_def r(5))
  qed (simp add: d4)
  ultimately show ?thesis using r g id prior d4 by (auto simp: step_ok_def)
qed

interpretation publication: job_operation "\<lambda>env i. publish_generation env i"
proof unfold_locales
  fix env :: "'a env" and d :: "'a db" and i :: stage_input
  assume inv: "db_inv env d"
  show "op_sound env d (publish_generation env i d)"
    unfolding publish_generation_def Let_def
  proof (rule transact_sound [OF inv])
    fix d' st
    assume body: "and_then (validate_owned_generation env i) (\<lambda>_.
       and_then (verify_validation_receipt env i d) (\<lambda>_.
       if publication_is_already_committed i d
       then and_then (load_job env (in_job i) d) (\<lambda>st. Inr (d, st))
       else case map_of (repositories d) (in_repository i) of
         None \<Rightarrow> Inl ''Archaeology repository does not exist''
       | Some repo \<Rightarrow>
              and_then (validate_ready_pointer (in_repository i) (ready_generation_id repo) d) (\<lambda>_.
              and_then (reconcile_lifecycle env i (ready_generation_id repo) (rest d)) (\<lambda>rest1.
              and_then (compatible_temporal_prior env (in_repository i) (ready_generation_id repo) d) (\<lambda>temporal.
              and_then (project_history env i (map_option fst temporal) (repo_path repo)
                          (map_option (\<lambda>(_, g). id_revision (gen_identity g)) temporal) rest1) (\<lambda>rest2.
              and_then (cas_job ''publish'' (in_job i)
                  (\<lambda>r. job_repository r = in_repository i \<and> job_generation r = Some (in_generation i) \<and>
                        job_owner r = in_owner i \<and> job_state r = Running \<and> job_stage r = Publish \<and>
                        \<not> cancellation_requested r \<and> not_before env (in_now i) (updated_at r))
                  (\<lambda>r. r\<lparr>job_stage := Cleanup, updated_at := in_now i\<rparr>) (d\<lparr>rest := rest2\<rparr>)) (\<lambda>d1.
              and_then (supersede_prior i (ready_generation_id repo) d1) (\<lambda>d2.
              and_then (make_ready i d2) (\<lambda>d3.
              and_then (move_pointer env i (ready_generation_id repo) d3) (\<lambda>d4.
              and_then (load_job env (in_job i) d4) (\<lambda>st. Inr (d4, st)))))))))))) = Inr (d', st)"
    show "step_ok env d d'"
    proof (cases "publication_is_already_committed i d")
      case True
      with body have "d' = d" by (auto simp: result_simps)
      then show ?thesis by (simp add: step_ok_refl [OF inv])
    next
      case False
      with body obtain repo where "map_of (repositories d) (in_repository i) = Some repo"
        by (cases "map_of (repositories d) (in_repository i)") (auto simp: result_simps)
      with body False show ?thesis using publication_commits [OF inv] by (auto simp: result_simps)
    qed
  qed
qed

end
