(* ===== verification/ArchJobsSystem.thy ===== *)
theory ArchJobsSystem
  imports ArchJobsSafety
begin

text \<open>
  The job engine as a system: cleaning up, the requests that reach it in any order, the states
  they lead to, and the properties of all of them.
\<close>

section \<open>Removing rows\<close>

lemma forget_moves:
  assumes inv: "db_inv env d" and free: "unowned k d" and r: "map_of (jobs d) j = Some r"
  shows "job_moves\<^sup>*\<^sup>* r (if job_generation r = Some k then r\<lparr>job_generation := None\<rparr> else r)"
proof (cases "job_generation r = Some k")
  case True
  with free r have "\<not> active_state (job_state r)" by (auto simp: unowned_def)
  with db_invD(6) [OF inv r] have "finished_state (job_state r)"
    by (auto simp: job_ok_def active_state_def)
  then have "job_moves r (r\<lparr>job_generation := None\<rparr>)" by (rule job_moves.forget)
  with True show ?thesis by simp
qed simp

lemma db_inv_drop_job:
  assumes "db_inv env d"
  shows "db_inv env (d\<lparr>jobs := filter (\<lambda>(j', _). j' \<noteq> j) (jobs d)\<rparr>)" (is "db_inv env ?d")
proof -
  have "job_ok env ?d r" if "map_of (jobs ?d) k = Some r" for k r
    using that db_invD(6) [OF assms, of k r]
    by (auto simp: map_of_delete job_ok_def owns_generation_def split: if_splits)
  moreover have "pointer_ok ?d" using pointer_ok_cong [of ?d d] db_invD(4) [OF assms] by simp
  moreover have "one_active ?d"
    by (rule one_active_sub [OF db_invD(5) [OF assms]]) (auto simp: map_of_delete split: if_splits)
  ultimately show ?thesis using assms by (simp add: db_inv_def bmap_ok_delete)
qed

interpretation dropping: job_operation "\<lambda>env i. drop_no_op i"
proof unfold_locales
  fix env :: "'a env" and d :: "'a db" and i :: stage_input
  assume inv: "db_inv env d"
  show "op_sound env d (drop_no_op i d)"
    unfolding drop_no_op_def
  proof (rule transact_sound [OF inv])
    fix d' u
    let ?p = "\<lambda>r. job_repository r = in_repository i \<and> job_generation r = Some (in_generation i) \<and>
      job_owner r = in_owner i \<and> job_stage r = Inventory \<and> job_state r = Running \<and> \<not> cancellation_requested r"
    let ?q = "\<lambda>g. gen_repository g = in_repository i \<and> gen_status g = Staging"
    assume body: "(case delete_row (in_job i) ?p (jobs d) of
         (js, deleted_job) \<Rightarrow>
           and_then (reject_if (deleted_job \<noteq> 1) ''Archaeology no-op refresh lost its job lease'') (\<lambda>_.
           case delete_row (in_generation i) ?q (generations d) of
             (gs, deleted_generation) \<Rightarrow>
               and_then (reject_if (deleted_generation \<noteq> 1)
                           ''Archaeology no-op staging generation did not reconcile'') (\<lambda>_.
                 Inr (d\<lparr>jobs := map (\<lambda>(k, r). (k, if job_generation r = Some (in_generation i)
                                                  then r\<lparr>job_generation := None\<rparr> else r)) js,
                        generations := gs\<rparr>, ())))) = Inr (d', u)"
    obtain js n where js: "delete_row (in_job i) ?p (jobs d) = (js, n)" by (cases "delete_row (in_job i) ?p (jobs d)")
    obtain gs m where gs: "delete_row (in_generation i) ?q (generations d) = (gs, m)"
      by (cases "delete_row (in_generation i) ?q (generations d)")
    from body have one: "n = 1" "m = 1" and d': "d' = d\<lparr>jobs := forget_generation (in_generation i) js, generations := gs\<rparr>"
      by (auto simp: js gs result_simps forget_generation_def)
    from delete_row_one [OF js one(1)] obtain r where r: "map_of (jobs d) (in_job i) = Some r" "?p r"
      and js': "js = filter (\<lambda>(j', _). j' \<noteq> in_job i) (jobs d)" by blast
    from delete_row_one [OF gs one(2)] obtain g where g: "map_of (generations d) (in_generation i) = Some g" "?q g"
      and gs': "gs = filter (\<lambda>(k', _). k' \<noteq> in_generation i) (generations d)" by blast
    let ?d = "d\<lparr>jobs := js\<rparr>"
    have inv1: "db_inv env ?d" unfolding js' by (rule db_inv_drop_job [OF inv])
    have "active_state (job_state r)" "job_generation r = Some (in_generation i)"
      using r(2) by (simp_all add: active_state_def)
    then have free: "unowned (in_generation i) ?d"
      by (rule unowned_otherwise [OF inv r(1)]) (auto simp: js' map_of_delete split: if_splits)
    have "db_inv env (?d\<lparr>generations := filter (\<lambda>(k', _). k' \<noteq> in_generation i) (generations ?d),
        jobs := forget_generation (in_generation i) (jobs ?d)\<rparr>)" (is "db_inv env ?e")
      by (rule db_inv_drop_generation [OF inv1 _ _ free, of g]) (use g in auto)
    moreover have "db_inv env d' \<longleftrightarrow> db_inv env ?e" by (rule db_inv_cong) (simp_all add: d' gs')
    moreover have "evolves d d'"
      unfolding evolves_def
    proof (intro allI impI)
      fix j q assume q: "map_of (jobs d) j = Some q"
      show "case map_of (jobs d') j of Some r' \<Rightarrow> job_moves\<^sup>*\<^sup>* q r'
          | None \<Rightarrow> job_state q = Running \<and> job_stage q = Inventory"
      proof (cases "j = in_job i")
        case False
        then have "map_of (jobs ?d) j = Some q" using q by (simp add: js' map_of_delete)
        from forget_moves [OF inv1 free this] this show ?thesis by (simp add: d' map_of_forget)
      qed (use q r in \<open>simp add: d' js' map_of_forget map_of_delete\<close>)
    qed
    ultimately show "step_ok env d d'" by (simp add: step_ok_def)
  qed
qed

text \<open>Cleaning up deletes generations one after the other.\<close>

definition jobs_path :: "'c db \<Rightarrow> 'c db \<Rightarrow> bool" where
  "jobs_path d d' \<longleftrightarrow> (\<forall>j. rel_option (job_moves\<^sup>*\<^sup>*) (map_of (jobs d) j) (map_of (jobs d') j))"

lemma jobs_path_refl: "jobs_path d d"
  by (simp add: jobs_path_def option.rel_refl)

lemma jobs_path_trans: "jobs_path d e \<Longrightarrow> jobs_path e f \<Longrightarrow> jobs_path d f"
  unfolding jobs_path_def
proof (intro allI)
  fix j assume "\<forall>j. rel_option job_moves\<^sup>*\<^sup>* (map_of (jobs d) j) (map_of (jobs e) j)"
    and "\<forall>j. rel_option job_moves\<^sup>*\<^sup>* (map_of (jobs e) j) (map_of (jobs f) j)"
  then have "rel_option job_moves\<^sup>*\<^sup>* (map_of (jobs d) j) (map_of (jobs e) j)"
    "rel_option job_moves\<^sup>*\<^sup>* (map_of (jobs e) j) (map_of (jobs f) j)" by blast+
  then show "rel_option job_moves\<^sup>*\<^sup>* (map_of (jobs d) j) (map_of (jobs f) j)"
    by (cases "map_of (jobs d) j"; cases "map_of (jobs e) j"; cases "map_of (jobs f) j") auto
qed

lemma jobs_path_evolves: "jobs_path d d' \<Longrightarrow> evolves d d'"
  unfolding jobs_path_def evolves_def
proof (intro allI impI)
  fix j r assume path: "\<forall>j. rel_option job_moves\<^sup>*\<^sup>* (map_of (jobs d) j) (map_of (jobs d') j)"
    and r: "map_of (jobs d) j = Some r"
  from path have "rel_option job_moves\<^sup>*\<^sup>* (map_of (jobs d) j) (map_of (jobs d') j)" ..
  then show "case map_of (jobs d') j of Some r' \<Rightarrow> job_moves\<^sup>*\<^sup>* r r'
      | None \<Rightarrow> job_state r = Running \<and> job_stage r = Inventory"
    by (cases "map_of (jobs d') j") (simp_all add: r)
qed

text \<open>What is deleted was neither ready nor owned by an active job.\<close>

lemma delete_generation_Inr:
  assumes "delete_generation env i rid c d = Inr d'"
  shows "d' = d\<lparr>generations := filter (\<lambda>(k', _). k' \<noteq> clean_generation c) (generations d),
      jobs := forget_generation (clean_generation c) (jobs d),
      rest := delete_owned env (clean_generation c) (rest d)\<rparr> \<and>
    (\<exists>g. map_of (generations d) (clean_generation c) = Some g \<and> gen_repository g = rid \<and>
       gen_status g = clean_status c \<and> ready_pointer rid d \<noteq> Some (clean_generation c) \<and>
       unowned (clean_generation c) d)"
proof -
  obtain gs n where gs: "delete_row (clean_generation c) (deletable i rid c d) (generations d) = (gs, n)"
    by (cases "delete_row (clean_generation c) (deletable i rid c d) (generations d)")
  with assms have one: "n = 1" and d': "d' = d\<lparr>generations := gs, jobs := forget_generation (clean_generation c) (jobs d),
      rest := delete_owned env (clean_generation c) (rest d)\<rparr>"
    by (auto simp: delete_generation_def result_simps db_simps forget_generation_def)
  from delete_row_one [OF gs one] obtain g where g: "map_of (generations d) (clean_generation c) = Some g"
    "deletable i rid c d g" and gs': "gs = filter (\<lambda>(k', _). k' \<noteq> clean_generation c) (generations d)" by blast
  have "unowned (clean_generation c) d"
    using g(2) by (auto simp: deletable_def has_active_job_def list_ex_iff unowned_def dest!: map_of_SomeD)
  with g d' gs' show ?thesis by (auto simp: deletable_def)
qed

lemma delete_generation_step:
  assumes inv: "db_inv env d" and del: "delete_generation env i rid c d = Inr d'"
  shows "db_inv env d' \<and> jobs_path d d'"
proof -
  let ?k = "clean_generation c"
  from delete_generation_Inr [OF del] obtain g where
    d': "d' = d\<lparr>generations := filter (\<lambda>(k', _). k' \<noteq> ?k) (generations d),
      jobs := forget_generation ?k (jobs d), rest := delete_owned env ?k (rest d)\<rparr>"
    and g: "map_of (generations d) ?k = Some g" "gen_repository g = rid" "ready_pointer rid d \<noteq> Some ?k"
    and free: "unowned ?k d" by blast
  from pointer_ok_generation [OF db_invD(4) [OF inv] g(1)] g(2,3) have "gen_status g \<noteq> Ready"
    by (auto simp: ready_pointer_def)
  from db_inv_drop_generation [OF inv g(1) this free] have "db_inv env d'"
    by (simp add: d' db_inv_cong [of d' "d\<lparr>generations := filter (\<lambda>(k', _). k' \<noteq> ?k) (generations d),
      jobs := forget_generation ?k (jobs d)\<rparr>"])
  moreover have "jobs_path d d'"
    unfolding jobs_path_def
  proof
    fix j show "rel_option job_moves\<^sup>*\<^sup>* (map_of (jobs d) j) (map_of (jobs d') j)"
      using forget_moves [OF inv free]
      by (cases "map_of (jobs d) j") (auto simp: d' map_of_forget)
  qed
  ultimately show ?thesis ..
qed

lemma delete_generations_step:
  assumes "fold_result (delete_generation env i rid) cs d = Inr d'" and "db_inv env d"
  shows "db_inv env d' \<and> jobs_path d d'"
  using assms(1)
proof (rule fold_result_invariant [where I = "\<lambda>e. db_inv env e \<and> jobs_path d e"])
  show "db_inv env d \<and> jobs_path d d" using assms(2) by (simp add: jobs_path_refl)
  fix c s t assume "delete_generation env i rid c s = Inr t" and "db_inv env s \<and> jobs_path d s"
  then show "db_inv env t \<and> jobs_path d t" using delete_generation_step jobs_path_trans by blast
qed

lemma authorize_cleanup_Inr:
  assumes "authorize_cleanup env i d = Inr (d', rid, lease)"
  shows "\<exists>r. map_of (jobs d) (clean_job i) = Some r \<and> job_owner r = clean_owner i \<and> job_repository r = rid \<and>
    (lease \<longleftrightarrow> job_generation r \<noteq> None \<and> ready_pointer rid d = job_generation r) \<and>
    d' = (if clean_apply i then d\<lparr>jobs := bmap_insert (clean_job i) (r\<lparr>updated_at := clean_now i\<rparr>) (jobs d)\<rparr> else d)"
proof (cases "map_of (jobs d) (clean_job i)")
  case (Some r)
  then show ?thesis
    using assms
    by (cases "map_of (repositories d) (job_repository r)")
      (auto simp: authorize_cleanup_def Let_def result_simps db_simps cleanup_allowed_def ready_pointer_def
        split: if_splits)
qed (use assms in \<open>simp add: authorize_cleanup_def\<close>)

lemma cleanup_generations_Inr:
  assumes "cleanup_generations env i d = (d', Inr report)"
  shows "\<exists>d1 rid lease. authorize_cleanup env i d = Inr (d1, rid, lease) \<and>
    candidates report = fst (cleanup_candidates env rid (clean_owner i) (retain_superseded i) lease d1) \<and>
    (if clean_apply i then fold_result (delete_generation env i rid) (candidates report) d1 = Inr d' else d' = d1)"
proof -
  from assms obtain d1 rid lease where auth: "authorize_cleanup env i d = Inr (d1, rid, lease)"
    by (auto simp: cleanup_generations_def db_simps result_simps)
  obtain cs over where cs: "cleanup_candidates env rid (clean_owner i) (retain_superseded i) lease d1 = (cs, over)"
    by (cases "cleanup_candidates env rid (clean_owner i) (retain_superseded i) lease d1")
  from assms show ?thesis
    by (auto simp: cleanup_generations_def db_simps result_simps auth cs Let_def split: if_splits)
qed

lemma op_soundI:
  assumes "\<And>r. res = (d', Inr r) \<Longrightarrow> step_ok env d d'"
    and "\<And>e. res = (d', Inl e) \<Longrightarrow> d' = d" and "db_inv env d" and "fst res = d'"
  shows "op_sound env d res"
  using assms by (cases res; cases "snd res") (auto simp: op_sound_def step_ok_refl)

interpretation cleaning: job_operation "\<lambda>env i. cleanup_generations env i"
proof unfold_locales
  fix env :: "'a env" and d :: "'a db" and i :: cleanup_input
  assume inv: "db_inv env d"
  show "op_sound env d (cleanup_generations env i d)"
  proof (rule op_soundI [OF _ _ inv refl])
    fix report assume "cleanup_generations env i d = (fst (cleanup_generations env i d), Inr report)"
    then obtain d' where d': "cleanup_generations env i d = (d', Inr report)" by metis
    from cleanup_generations_Inr [OF d'] obtain d1 rid lease where
      auth: "authorize_cleanup env i d = Inr (d1, rid, lease)"
      and run: "if clean_apply i then fold_result (delete_generation env i rid) (candidates report) d1 = Inr d' else d' = d1"
      by blast
    from authorize_cleanup_Inr [OF auth] obtain r where r: "map_of (jobs d) (clean_job i) = Some r"
      and d1: "d1 = (if clean_apply i then d\<lparr>jobs := bmap_insert (clean_job i) (r\<lparr>updated_at := clean_now i\<rparr>) (jobs d)\<rparr> else d)"
      by blast
    have beat: "step_ok env d (d\<lparr>jobs := bmap_insert (clean_job i) (r\<lparr>updated_at := clean_now i\<rparr>) (jobs d)\<rparr>)"
      by (rule step_ok_update [OF inv r job_moves.beat]) simp_all
    have path: "jobs_path d d1"
      using r by (auto simp: jobs_path_def d1 option.rel_refl intro!: job_moves.beat r_into_rtranclp)
    have inv1: "db_inv env d1" using beat inv by (simp add: d1 step_ok_def)
    have "db_inv env d' \<and> jobs_path d1 d'"
    proof (cases "clean_apply i")
      case True
      with run have "fold_result (delete_generation env i rid) (candidates report) d1 = Inr d'" by simp
      then show ?thesis using inv1 by (rule delete_generations_step)
    qed (use run inv1 jobs_path_refl in simp)
    then show "step_ok env d (fst (cleanup_generations env i d))"
      using jobs_path_evolves [OF jobs_path_trans [OF path], of d'] by (simp add: d' step_ok_def)
  next
    fix e assume "cleanup_generations env i d = (fst (cleanup_generations env i d), Inl e)"
    then show "fst (cleanup_generations env i d) = d"
      using transact_Inl unfolding cleanup_generations_def by fast
  qed
qed

text \<open>Registering a repository keeps its ready pointer.\<close>

lemma db_inv_register:
  assumes inv: "db_inv env d"
  shows "db_inv env (d\<lparr>repositories := bmap_insert rid
      (registered_row path source revision now (map_of (repositories d) rid)) (repositories d)\<rparr>)" (is "db_inv env ?d")
proof -
  have gens: "generations ?d = generations d" "jobs ?d = jobs d"
    by simp_all
  have repos: "map_of (repositories ?d) i = (if i = rid then Some \<lparr>repo_path = path, repo_source = source,
      current_revision = revision, ready_generation_id = ready_pointer rid d, repo_updated_at = now\<rparr>
      else map_of (repositories d) i)" for i
    by (simp add: registered_row_def ready_pointer_def)
  have "job_ok env ?d r" if "map_of (jobs ?d) j = Some r" for j r
    using db_invD(6) [OF inv, of j r] that by (auto simp: gens repos job_ok_def owns_generation_def)
  moreover have "pointer_ok ?d"
  proof (rule pointer_okI)
    fix k g assume "map_of (generations ?d) k = Some g"
    then have "map_of (generations d) k = Some g" by (simp add: gens)
    from pointer_ok_generation [OF db_invD(4) [OF inv] this]
    show "\<exists>r. map_of (repositories ?d) (gen_repository g) = Some r \<and>
        (gen_status g = Ready \<longleftrightarrow> ready_generation_id r = Some k)"
      by (auto simp: repos ready_pointer_def registered_row_def)
  next
    fix i r k assume r: "map_of (repositories ?d) i = Some r" "ready_generation_id r = Some k"
    then have "\<exists>q. map_of (repositories d) i = Some q \<and> ready_generation_id q = Some k"
      by (cases "i = rid") (auto simp: repos ready_pointer_def registered_row_def bind_eq_Some_conv)
    then show "\<exists>g. map_of (generations ?d) k = Some g \<and> gen_repository g = i"
      using pointer_ok_repository [OF db_invD(4) [OF inv]] by (fastforce simp: gens)
  qed
  moreover have "one_active ?d" using one_active_cong [of ?d d] db_invD(5) [OF inv] by (simp add: gens)
  ultimately show ?thesis
    using inv by (simp add: db_inv_def gens) (simp add: bmap_insert_ok)
qed

interpretation registering: job_operation
  "\<lambda>env (i, path, source, revision, now). register_repository env i path source revision now"
proof (unfold_locales, clarify)
  fix env :: "'a env" and d :: "'a db" and i path source revision now :: string
  assume inv: "db_inv env d"
  show "op_sound env d (register_repository env i path source revision now d)"
    using db_inv_register [OF inv, of i path source revision now] inv
    by (simp add: register_repository_def autocommit_def reject_if_def op_sound_def step_ok_def)
qed

section \<open>Requests\<close>

text \<open>
  Every way the engine is called. Requests of several owners interleave in any order, each of
  them atomic; the last one stands for any code that writes the other tables.
\<close>

datatype 'c request =
    Register string string string string string
  | Start stage_input "nat option"
  | Checkpoint string string job_stage job_stage string job_checkpoint nat "nat option" string
  | Heartbeat string string string
  | Pause string string string
  | Resume string string string
  | RequestCancel string string string
  | AcknowledgeCancel string string string
  | Complete string string string
  | Fail string string job_error_code string
  | Recover string string string string
  | RecordCoverage string string coverage
  | CloneFacts clone_plan string string
  | EnterRefresh stage_input invalidation_mode string nat
  | DropNoOp stage_input
  | CompleteParse stage_input
  | LinkGeneration bool stage_input
  | DeriveCandidates bool stage_input
  | FinalizeSynthesis bool stage_input
  | ValidateGeneration stage_input
  | PublishGeneration stage_input
  | CleanUp cleanup_input
  | OtherTables 'c

datatype outcome = Status job_status | Stage job_stage | Report cleanup_report | Done

definition answer :: "('r \<Rightarrow> outcome) \<Rightarrow> 'c db \<times> 'r result \<Rightarrow> 'c db \<times> outcome result" where
  "answer f = map_prod id (map_sum id f)"

fun perform :: "'c env \<Rightarrow> 'c request \<Rightarrow> 'c db \<Rightarrow> 'c db \<times> outcome result" where
  "perform env (Register i path source revision now) d =
     answer (\<lambda>_. Done) (register_repository env i path source revision now d)"
| "perform env (Start i n) d = answer Status (start_job env i n d)"
| "perform env (Checkpoint j w at nxt k c n t now) d = answer Status (checkpoint_job env j w at nxt k c n t now d)"
| "perform env (Heartbeat j w now) d = answer Status (heartbeat_job env j w now d)"
| "perform env (Pause j w now) d = answer Status (pause_job env j w now d)"
| "perform env (Resume j w now) d = answer Status (resume_job env j w now d)"
| "perform env (RequestCancel j w now) d = answer Status (request_cancel env j w now d)"
| "perform env (AcknowledgeCancel j w now) d = answer Status (acknowledge_cancel env j w now d)"
| "perform env (Complete j w now) d = answer Status (complete_job env j w now d)"
| "perform env (Fail j w code now) d = answer Status (fail_job env j w code now d)"
| "perform env (Recover i w t now) d = answer Status (recover_stale_job env i w t now d)"
| "perform env (RecordCoverage i k c) d = answer (\<lambda>_. Done) (record_coverage env i k c d)"
| "perform env (CloneFacts plan i k) d = answer (\<lambda>_. Done) (clone_unaffected_ready_facts env plan i k d)"
| "perform env (EnterRefresh i mode plan n) d = answer Stage (enter_refresh env i mode plan n d)"
| "perform env (DropNoOp i) d = answer (\<lambda>_. Done) (drop_no_op i d)"
| "perform env (CompleteParse i) d = answer (\<lambda>_. Done) (complete_parse i d)"
| "perform env (LinkGeneration stop i) d = answer Status (link_generation env stop i d)"
| "perform env (DeriveCandidates stop i) d = answer Status (derive_template_candidates env stop i d)"
| "perform env (FinalizeSynthesis stop i) d = answer Status (finalize_synthesis_catalog env stop i d)"
| "perform env (ValidateGeneration i) d = answer Status (validate_generation_for_publication env i d)"
| "perform env (PublishGeneration i) d = answer Status (publish_generation env i d)"
| "perform env (CleanUp i) d = answer Report (cleanup_generations env i d)"
| "perform env (OtherTables x) d = (d\<lparr>rest := x\<rparr>, Inr Done)"

lemma op_sound_answer [simp]: "op_sound env d (answer f res) \<longleftrightarrow> op_sound env d res"
  by (cases res; cases "snd res") (auto simp: op_sound_def answer_def)

lemma op_sound_Inr: "op_sound env d (d', Inr x) \<longleftrightarrow> step_ok env d d'"
  by (simp add: op_sound_def)

lemma perform_sound:
  assumes law: "errors_roundtrip env" and inv: "db_inv env d"
  shows "op_sound env d (perform env q d)"
proof (cases q)
  case (Register i path source revision now)
  then show ?thesis using registering.sound [OF law inv, of "(i, path, source, revision, now)"] by simp
qed (use starting.sound [OF law inv] checkpoint.sound [OF law inv] heartbeat.sound [OF law inv]
    transition.sound [OF law inv, of "(True, _)"] transition.sound [OF law inv, of "(False, _)"]
    cancel.sound [OF law inv] acknowledge.sound [OF law inv] completing.sound [OF law inv]
    failing.sound [OF law inv] recovery.sound [OF law inv] coverage.sound [OF law inv]
    cloning.sound [OF law inv] refresh.sound [OF law inv]
    dropping.sound [OF law inv] parsed.sound [OF law inv] link.sound [OF law inv]
    derive.sound [OF law inv] synthesis.sound [OF law inv] validation.sound [OF law inv]
    publication.sound [OF law inv] cleaning.sound [OF law inv] inv
    in \<open>simp_all add: split_paired_all op_sound_Inr step_ok_def\<close>)

definition empty_db :: "'c \<Rightarrow> 'c db" where
  "empty_db x = \<lparr>repositories = [], generations = [], jobs = [], rest = x\<rparr>"

inductive reachable :: "'c env \<Rightarrow> 'c db \<Rightarrow> bool" for env :: "'c env" where
  fresh: "reachable env (empty_db x)"
| step: "reachable env d \<Longrightarrow> reachable env (fst (perform env q d))"

lemma reachable_inv: "reachable env d \<Longrightarrow> errors_roundtrip env \<Longrightarrow> db_inv env d"
proof (induction rule: reachable.induct)
  case (fresh x)
  show ?case
    by (simp add: db_inv_def empty_db_def pointer_ok_def one_active_def)
next
  case (step d q)
  from perform_sound [OF step.prems step.IH [OF step.prems], of q]
  show ?case by (simp add: op_sound_def step_ok_def)
qed

end
