(* ===== verification/ArchJobsRun.thy ===== *)
theory ArchJobsRun
  imports ArchJobsSystem "HOL-Library.Code_Target_Nat"
begin

text \<open>
  A concrete run of the job engine: one worker fails, another builds a generation stage by stage
  and publishes it, a third one publishes the next generation. The outside functions are
  instantiated by small concrete ones: time is the length of a timestamp, error lists have a real
  codec, and the other decoders read back what the run encodes and nothing else. As serde does,
  the coverage \<open>{}\<close> of a new generation is read as the default one, which validation rejects, so
  that the run has to record its coverage. The states of the run are where the properties are
  applied.
\<close>

section \<open>Outside functions\<close>

fun read_errors :: "string \<Rightarrow> string \<Rightarrow> string list option" where
  "read_errors part [] = (if part = [] then Some [] else None)"
| "read_errors part [a] = None"
| "read_errors part (a # b # s) =
     (if a = CHR ''c'' then read_errors (part @ [b]) s
      else if a = CHR ''.'' then map_option (\<lambda>es. part # es) (read_errors [] s) else None)"

definition write_error :: "string \<Rightarrow> string" where
  "write_error e = concat (map (\<lambda>c. [CHR ''c'', c]) e) @ ''..''"

definition write_errors :: "string list \<Rightarrow> string" where
  "write_errors es = concat (map write_error es)"

lemma read_write_error: "read_errors part (write_error e @ s) = map_option (\<lambda>es. (part @ e) # es) (read_errors [] s)"
  by (induction e arbitrary: part) (simp_all add: write_error_def)

lemma read_write_errors: "read_errors [] (write_errors es) = Some es"
  by (induction es) (simp_all add: write_errors_def read_write_error)

definition run_checkpoint :: job_checkpoint where
  "run_checkpoint = \<lparr>cursor_identity = None, source_unit_id = None, checkpoint_ordinal = None,
     counters = [(''inventory_complete'', 1)]\<rparr>"

definition run_identity :: generation_identity where
  "run_identity = \<lparr>id_revision = replicate 40 (CHR ''a''), id_source = ''s'',
     id_parser = ''parser-manifest:v1:a@1'', id_algorithm = ''g'', id_config = ''c''\<rparr>"

definition second_identity :: generation_identity where
  "second_identity = run_identity\<lparr>id_revision := replicate 40 (CHR ''b'')\<rparr>"

definition run_coverage :: coverage where
  "run_coverage = \<lparr>cov_state = CoverageComplete, parser_coverage = CoverageComplete,
     repository_coverage = CoverageComplete, temporal_coverage = CoverageComplete,
     discovered_source_units = 0, indexed_source_units = 0, discovered_bytes = 0, indexed_bytes = 0,
     cov_reasons = []\<rparr>"

definition receipt_of :: "string \<Rightarrow> generation_identity \<Rightarrow> validation_receipt" where
  "receipt_of g identity = \<lparr>receipt_version = 1, receipt_repository = ''r'', receipt_generation = g,
     receipt_identity = identity, receipt_schema = 2,
     snapshot = \<lparr>empty_inventory_proven = True, coverage_sha256 = ''sha256:0'', snapshot_tables = []\<rparr>\<rparr>"

definition run_receipt :: validation_receipt where
  "run_receipt = receipt_of ''g2'' run_identity"

definition catalogued :: job_checkpoint where
  "catalogued = catalog_checkpoint ''catalog'' (0, 0, 0) run_checkpoint"

text \<open>The JSON of the run's values.\<close>

definition run_checkpoints :: "(string \<times> job_checkpoint) list" where
  "run_checkpoints = [(''checkpoint'', run_checkpoint), (''catalogued'', catalogued),
     (''planned'', refresh_checkpoint ''plan'' 0)]"

definition run_receipts :: "(string \<times> validation_receipt) list" where
  "run_receipts = [(''receipt'', run_receipt), (''second receipt'', receipt_of ''g3'' second_identity)]"

definition run_coverages :: "(string \<times> coverage) list" where
  "run_coverages = [(''{}'', default_coverage), (''coverage'', run_coverage)]"

definition text_of :: "(string \<times> 'a) list \<Rightarrow> 'a \<Rightarrow> string" where
  "text_of t x = (case find (\<lambda>(_, y). y = x) t of None \<Rightarrow> ''other'' | Some (s, _) \<Rightarrow> s)"

definition run_env :: "unit env" where
  "run_env = \<lparr>instant = (\<lambda>t. Some (int (length t))), julianday = (\<lambda>t. Some (int (length t))),
     sql_detail = ''constraint failed'',
     decode_errors = (\<lambda>s. if s = ''[]'' then Some [] else read_errors [] s), encode_errors = write_errors,
     decode_checkpoint = map_of run_checkpoints, encode_checkpoint = text_of run_checkpoints,
     decode_receipt = map_of run_receipts, encode_receipt = text_of run_receipts,
     decode_coverage = map_of run_coverages, encode_coverage = text_of run_coverages,
     sha256_hex = (\<lambda>_. ''0''), clone_rest = (\<lambda>_ x. Inr x),
     stage_work = (\<lambda>_ _ _ x. Inr (run_checkpoint, x)),
     catalog_receipt = (\<lambda>_ _. Inr ''catalog''), catalog_counts = (\<lambda>_ _. (0, 0, 0)),
     integrity = (\<lambda>_ _. Inr (0, 0, 0, 0)), table_seals = (\<lambda>_ _. Inr []),
     reconcile_lifecycle = (\<lambda>_ _ x. Inr x), project_history = (\<lambda>_ _ _ _ x. Inr x),
     owned_rows = (\<lambda>_ _. (0, 0, 0, 0)), delete_owned = (\<lambda>_ x. x)\<rparr>"

lemma run_errors_roundtrip: "errors_roundtrip run_env"
proof -
  have "write_errors es \<noteq> ''[]''" for es
  proof (cases es)
    case (Cons e t)
    then show ?thesis by (cases e) (simp_all add: write_errors_def write_error_def)
  qed (simp add: write_errors_def)
  then show ?thesis by (simp add: errors_roundtrip_def run_env_def read_write_errors)
qed

section \<open>The run\<close>

definition run_input :: "string \<Rightarrow> string \<Rightarrow> string \<Rightarrow> string \<Rightarrow> stage_input" where
  "run_input j g w now = \<lparr>in_job = j, in_repository = ''r'', in_generation = g, in_owner = w,
     in_identity = run_identity, in_now = now\<rparr>"

fun run_from :: "unit request list \<Rightarrow> unit db \<Rightarrow> unit db" where
  "run_from [] d = d"
| "run_from (q # qs) d = run_from qs (fst (perform run_env q d))"

lemma run_reachable: "reachable run_env d \<Longrightarrow> reachable run_env (run_from qs d)"
  by (induction qs arbitrary: d) (simp_all add: reachable.step)

definition run_repository :: "string option \<Rightarrow> string \<Rightarrow> repository_row" where
  "run_repository ready now = \<lparr>repo_path = ''p'', repo_source = ''s'',
     current_revision = replicate 40 (CHR ''a''), ready_generation_id = ready, repo_updated_at = now\<rparr>"

definition run_generation :: "generation_status \<Rightarrow> string \<Rightarrow> string option \<Rightarrow> generation_row" where
  "run_generation s coverage published = \<lparr>gen_repository = ''r'', gen_schema = 2, gen_identity = run_identity,
     gen_status = s, coverage_json = coverage, source_unit_count = 0, fact_count = 0, rule_count = 0,
     created_at = ''t'', published_at = published\<rparr>"

definition failed_job :: job_row where
  "failed_job = \<lparr>job_repository = ''r'', job_generation = Some ''g1'', job_owner = ''w1'', job_stage = Idle,
     job_state = Failed, checkpoint_identity = None, checkpoint_json = ''{}'', completed_units = 0,
     total_units = None, cancellation_requested = False,
     errors_json = write_errors [''internal''], started_at = ''t'', updated_at = ''t'', finished_at = Some ''t''\<rparr>"

definition worker_job :: "job_stage \<Rightarrow> string option \<Rightarrow> string \<Rightarrow> job_row" where
  "worker_job s receipt json = \<lparr>job_repository = ''r'', job_generation = Some ''g2'', job_owner = ''w2'', job_stage = s,
     job_state = Running, checkpoint_identity = receipt, checkpoint_json = json, completed_units = 0,
     total_units = Some 0, cancellation_requested = False, errors_json = ''[]'', started_at = ''t'',
     updated_at = ''t'', finished_at = None\<rparr>"

definition run_db :: "string option \<Rightarrow> generation_row \<Rightarrow> job_row \<Rightarrow> unit db" where
  "run_db ready g j = \<lparr>repositories = [(''r'', run_repository ready ''t'')],
     generations = [(''g1'', run_generation GenFailed ''{}'' None), (''g2'', g)],
     jobs = [(''j1'', failed_job), (''j2'', j)], rest = ()\<rparr>"

definition worker_db :: "job_stage \<Rightarrow> string option \<Rightarrow> string \<Rightarrow> unit db" where
  "worker_db s receipt json = run_db None (run_generation Staging ''coverage'' None) (worker_job s receipt json)"

definition worker :: stage_input where "worker = run_input ''j2'' ''g2'' ''w2'' ''t''"

definition started_requests :: "unit request list" where
  "started_requests =
     [Register ''r'' ''p'' ''s'' (replicate 40 (CHR ''a'')) ''t'',
      Start (run_input ''j1'' ''g1'' ''w1'' ''t'') None, Fail ''j1'' ''w1'' Internal ''t'',
      Start worker (Some 0), RecordCoverage ''r'' ''g2'' run_coverage]"

definition building_requests :: "unit request list" where
  "building_requests =
     [EnterRefresh worker SynthesisOnly ''plan'' 0, LinkGeneration False worker,
      DeriveCandidates False worker, FinalizeSynthesis False worker, ValidateGeneration worker]"

definition started_db :: "unit db" where "started_db = worker_db Inventory None ''{}''"

definition validated_db :: "unit db" where
  "validated_db = worker_db Publish (Some ''validation:v1:0'') ''receipt''"

definition published_db :: "unit db" where
  "published_db = run_db (Some ''g2'') (run_generation Ready ''coverage'' (Some ''t''))
     (worker_job Cleanup (Some ''validation:v1:0'') ''receipt'')"

lemma run_codecs_read_back:
  "decode_coverage run_env ''{}'' = Some default_coverage"
  "decode_coverage run_env (encode_coverage run_env run_coverage) = Some run_coverage"
  "decode_receipt run_env (encode_receipt run_env run_receipt) = Some run_receipt"
  "decode_checkpoint run_env (encode_checkpoint run_env catalogued) = Some catalogued"
  by code_simp+

lemma run_started: "run_from started_requests (empty_db ()) = started_db"
  by code_simp

lemma run_validated: "run_from building_requests started_db = validated_db"
  by code_simp

definition published_status :: job_status where
  "published_status = \<lparr>status_schema = 1, status_job = Some ''j2'', status_repository = Some ''r'',
     status_generation = Some ''g2'', status_owner = Some ''w2'', status_stage = Cleanup,
     status_state = Running, status_completed = 0, status_total = Some 0,
     status_checkpoint = Some ''validation:v1:0'', status_cancellation = False,
     status_coverage = default_coverage, status_updated_at = Some ''t'', status_errors = []\<rparr>"

lemma run_publication: "publish_generation run_env worker validated_db = (published_db, Inr published_status)"
  by code_simp

lemma run_published: "fst (perform run_env (PublishGeneration worker) validated_db) = published_db"
  by (simp add: run_publication answer_def)

definition recovered_db :: "unit db" where
  "recovered_db = run_db None (run_generation Staging ''coverage'' None)
     ((worker_job Inventory None ''{}'')\<lparr>job_owner := ''w3'', job_state := Paused, updated_at := ''ttt''\<rparr>)"

definition recovered_status :: job_status where
  "recovered_status = published_status\<lparr>status_owner := Some ''w3'', status_stage := Inventory,
     status_state := Paused, status_checkpoint := None, status_updated_at := Some ''ttt''\<rparr>"

lemma run_recovery:
  "recover_stale_job run_env ''r'' ''w3'' ''tt'' ''ttt'' started_db = (recovered_db, Inr recovered_status)"
  by code_simp

lemma run_refused:
  "perform run_env (Heartbeat ''j2'' ''w1'' ''t'') started_db = (started_db, Inl (cas_error ''heartbeat'' ''j2''))"
  by code_simp

text \<open>The next generation: the second worker is done, the first one builds and publishes a newer revision.\<close>

definition second_worker :: stage_input where
  "second_worker = (run_input ''j3'' ''g3'' ''w1'' ''t'')\<lparr>in_identity := second_identity\<rparr>"

definition second_requests :: "unit request list" where
  "second_requests =
     [Complete ''j2'' ''w2'' ''t'', Register ''r'' ''p'' ''s'' (replicate 40 (CHR ''b'')) ''t'',
      Start second_worker (Some 0), RecordCoverage ''r'' ''g3'' run_coverage,
      EnterRefresh second_worker SynthesisOnly ''plan'' 0, LinkGeneration False second_worker,
      DeriveCandidates False second_worker, FinalizeSynthesis False second_worker,
      ValidateGeneration second_worker]"

definition second_job :: "job_stage \<Rightarrow> job_row" where
  "second_job s = (worker_job s (Some ''validation:v1:0'') ''second receipt'')\<lparr>job_generation := Some ''g3'',
     job_owner := ''w1''\<rparr>"

definition completed_job :: job_row where
  "completed_job = (worker_job Idle (Some ''validation:v1:0'') ''receipt'')\<lparr>job_state := Completed,
     finished_at := Some ''t''\<rparr>"

definition second_db :: "string \<Rightarrow> generation_status \<Rightarrow> generation_row \<Rightarrow> job_stage \<Rightarrow> unit db" where
  "second_db ready s g stage = \<lparr>repositories = [(''r'', (run_repository (Some ready) ''t'')
       \<lparr>current_revision := replicate 40 (CHR ''b'')\<rparr>)],
     generations = [(''g1'', run_generation GenFailed ''{}'' None),
       (''g2'', run_generation s ''coverage'' (Some ''t'')), (''g3'', g\<lparr>gen_identity := second_identity\<rparr>)],
     jobs = [(''j1'', failed_job), (''j2'', completed_job), (''j3'', second_job stage)], rest = ()\<rparr>"

definition second_validated_db :: "unit db" where
  "second_validated_db = second_db ''g2'' Ready (run_generation Staging ''coverage'' None) Publish"

definition superseding_db :: "unit db" where
  "superseding_db = second_db ''g3'' Superseded (run_generation Ready ''coverage'' (Some ''t'')) Cleanup"

definition second_status :: job_status where
  "second_status = published_status\<lparr>status_job := Some ''j3'', status_generation := Some ''g3'',
     status_owner := Some ''w1''\<rparr>"

lemma run_second_validated: "run_from second_requests published_db = second_validated_db"
  by code_simp

lemma run_second_publication:
  "publish_generation run_env second_worker second_validated_db = (superseding_db, Inr second_status)"
  by code_simp

text \<open>Its worker cleans up, keeping one superseded generation.\<close>

definition retaining_cleanup :: "cleanup_input" where
  "retaining_cleanup = \<lparr>clean_job = ''j3'', clean_owner = ''w1'', clean_apply = True,
     retain_superseded = 1, clean_now = ''t''\<rparr>"

definition cleaned_db :: "unit db" where
  "cleaned_db = superseding_db\<lparr>generations := tl (generations superseding_db),
     jobs := (''j1'', failed_job\<lparr>job_generation := None\<rparr>) # tl (jobs superseding_db)\<rparr>"

definition cleaned_report :: cleanup_report where
  "cleaned_report = \<lparr>dry_run = False, report_repository = ''r'',
     candidates = [\<lparr>clean_generation = ''g1'', clean_status = GenFailed, search_index_rows = 0,
       synthesis_cache_rows = 0, synthesis_attempt_rows = 0, synthesis_response_bytes = 0\<rparr>],
     truncated = False, deleted_generations = 1, deleted_search_index_rows = 0,
     deleted_synthesis_cache_rows = 0, deleted_synthesis_attempt_rows = 0,
     deleted_synthesis_response_bytes = 0, unavailable_resources = [''parser_cache'']\<rparr>"

lemma run_cleanup: "cleanup_generations run_env retaining_cleanup superseding_db = (cleaned_db, Inr cleaned_report)"
  by code_simp

lemma reachable_started: "reachable run_env started_db"
  using run_reachable [OF reachable.fresh, of started_requests "()"] by (simp add: run_started)

lemma reachable_validated: "reachable run_env validated_db"
  using run_reachable [OF reachable_started, of building_requests] by (simp add: run_validated)

lemma reachable_published: "reachable run_env published_db"
  using reachable.step [OF reachable_validated, of "PublishGeneration worker"] by (simp only: run_published)

lemma reachable_second_validated: "reachable run_env second_validated_db"
  using run_reachable [OF reachable_published, of second_requests] by (simp add: run_second_validated)

lemma reachable_superseding: "reachable run_env superseding_db"
  using reachable.step [OF reachable_second_validated, of "PublishGeneration second_worker"]
  by (simp add: run_second_publication answer_def)

end
