(* ===== verification/ArchJobsProps.thy ===== *)
theory ArchJobsProps
  imports ArchJobsRun
begin

text \<open>The properties of the job engine over every reachable state.\<close>

section \<open>Who may act\<close>

text \<open>The job a request acts on and the owner it names, for the requests that need a lease.\<close>

fun acting :: "'c request \<Rightarrow> (string \<times> string) option" where
  "acting (Checkpoint j w at nxt k c n t now) = Some (j, w)"
| "acting (Heartbeat j w now) = Some (j, w)"
| "acting (Pause j w now) = Some (j, w)"
| "acting (Resume j w now) = Some (j, w)"
| "acting (RequestCancel j w now) = Some (j, w)"
| "acting (AcknowledgeCancel j w now) = Some (j, w)"
| "acting (Complete j w now) = Some (j, w)"
| "acting (Fail j w code now) = Some (j, w)"
| "acting (EnterRefresh i mode plan n) = Some (in_job i, in_owner i)"
| "acting (DropNoOp i) = Some (in_job i, in_owner i)"
| "acting (CompleteParse i) = Some (in_job i, in_owner i)"
| "acting (LinkGeneration stop i) = Some (in_job i, in_owner i)"
| "acting (DeriveCandidates stop i) = Some (in_job i, in_owner i)"
| "acting (FinalizeSynthesis stop i) = Some (in_job i, in_owner i)"
| "acting (ValidateGeneration i) = Some (in_job i, in_owner i)"
| "acting (PublishGeneration i) = Some (in_job i, in_owner i)"
| "acting (CleanUp i) = Some (clean_job i, clean_owner i)"
| "acting _ = None"

definition owned_by :: "string \<Rightarrow> string \<Rightarrow> 'c db \<Rightarrow> bool" where
  "owned_by j w d \<longleftrightarrow> (\<exists>r. map_of (jobs d) j = Some r \<and> job_owner r = w)"

lemma fst_answer [simp]: "fst (answer f res) = fst res"
  by (simp add: answer_def)

lemma answer_Inr: "answer f res = (d', Inr x) \<Longrightarrow> \<exists>y. res = (d', Inr y)"
  by (cases res; cases "snd res") (auto simp: answer_def)

lemma autocommit_row_owned:
  assumes "autocommit (\<lambda>d. case update_row j p f (jobs d) of (t, changed) \<Rightarrow>
      and_then (reject_if (changed \<noteq> 1) e) (\<lambda>_. Inr (d\<lparr>jobs := t\<rparr>))) after d = (d', Inr x)"
    and "\<And>r. p r \<Longrightarrow> job_owner r = w"
  shows "owned_by j w d"
  using assms by (auto simp: autocommit_def update_row_def reject_if_def owned_by_def split: option.splits if_splits)

lemma receipt_stage_owned:
  assumes "receipt_stage env stop n a c receipt at nxt rc i d = (d', Inr st)"
  shows "owned_by (in_job i) (in_owner i) d"
proof (cases "owned_job env i {at, nxt} d")
  case None
  with assms show ?thesis by (auto simp: receipt_stage_def db_simps result_simps)
next
  case (Some r)
  then show ?thesis by (auto simp: owned_job_Some owned_by_def)
qed

lemma verified_owned:
  assumes "verify_validation_receipt env i d = Inr u"
  shows "owned_by (in_job i) (in_owner i) d"
proof (cases "map_of (jobs d) (in_job i)")
  case None
  with assms show ?thesis by (simp add: verify_validation_receipt_def)
next
  case (Some r)
  with assms have "job_owner r = in_owner i" by (auto simp: verify_validation_receipt_def split: if_splits)
  with Some show ?thesis by (simp add: owned_by_def)
qed

lemma acting_owns:
  assumes "acting q = Some (j, w)" and "perform env q d = (d', Inr x)"
  shows "owned_by j w d"
proof (cases q)
  case (DropNoOp i)
  with assms obtain u where "drop_no_op i d = (d', Inr u)" by (auto dest: answer_Inr)
  then show ?thesis
    using assms(1) DropNoOp
    by (auto simp: drop_no_op_def db_simps delete_row_def reject_if_def owned_by_def split: option.splits if_splits)
next
  case (EnterRefresh i mode plan n)
  with assms obtain u where "enter_refresh env i mode plan n d = (d', Inr u)" by (auto dest: answer_Inr)
  from autocommit_row_owned [OF this [unfolded enter_refresh_def]] assms(1) EnterRefresh
  show ?thesis by auto
next
  case (CompleteParse i)
  with assms obtain u where "complete_parse i d = (d', Inr u)" by (auto dest: answer_Inr)
  from autocommit_row_owned [OF this [unfolded complete_parse_def]] assms(1) CompleteParse
  show ?thesis by auto
next
  case (LinkGeneration stop i)
  with assms show ?thesis by (auto simp: link_generation_def dest!: answer_Inr receipt_stage_owned)
next
  case (DeriveCandidates stop i)
  with assms show ?thesis by (auto simp: derive_template_candidates_def dest!: answer_Inr receipt_stage_owned)
next
  case (FinalizeSynthesis stop i)
  with assms obtain st where "finalize_synthesis_catalog env stop i d = (d', Inr st)" by (auto dest: answer_Inr)
  then obtain r where "owned_job env i {Synthesize, Validate} d = Some r"
    by (cases "owned_job env i {Synthesize, Validate} d")
      (auto simp: finalize_synthesis_catalog_def db_simps result_simps)
  then show ?thesis using assms(1) FinalizeSynthesis by (auto simp: owned_job_Some owned_by_def)
next
  case (ValidateGeneration i)
  with assms obtain st where "validate_generation_for_publication env i d = (d', Inr st)" by (auto dest: answer_Inr)
  then show ?thesis using assms(1) ValidateGeneration
    by (auto simp: validate_generation_for_publication_def Let_def db_simps result_simps owned_by_def
        split: option.splits if_splits)
next
  case (PublishGeneration i)
  with assms show ?thesis
    by (auto simp: publish_generation_def db_simps result_simps dest!: answer_Inr verified_owned)
next
  case (CleanUp i)
  with assms show ?thesis
    by (auto simp: owned_by_def dest!: answer_Inr cleanup_generations_Inr authorize_cleanup_Inr)
next
  case (Fail j' w' code now)
  with assms show ?thesis
    by (auto simp: fail_job_def Let_def owned_by_def db_simps result_simps dest!: answer_Inr)
qed (use assms in \<open>auto simp: owned_by_def db_simps result_simps Let_def checkpoint_job_def checkpoint_guard_def
    heartbeat_job_def pause_job_def resume_job_def transition_state_def request_cancel_def
    acknowledge_cancel_def finish_job_def complete_job_def dest!: answer_Inr\<close>)

lemma perform_error:
  assumes "reachable env d" and "errors_roundtrip env" and "perform env q d = (d', Inl e)"
  shows "d' = d"
  using perform_sound [OF assms(2) reachable_inv [OF assms(1,2)], of q] assms(3)
  by (simp add: op_sound_def)

section \<open>Readers\<close>

lemma ready_rows_set:
  assumes "db_inv env d"
  shows "set (ready_rows i d) = set_option (ready_pointer i d)"
proof -
  have "k \<in> set (ready_rows i d) \<longleftrightarrow>
      (\<exists>g. map_of (generations d) k = Some g \<and> gen_repository g = i \<and> gen_status g = Ready)" for k
    using bmap_entry_iff [OF db_invD(2) [OF assms]] by (force simp: ready_rows_def)
  also have "(\<exists>g. map_of (generations d) k = Some g \<and> gen_repository g = i \<and> gen_status g = Ready) \<longleftrightarrow>
      ready_pointer i d = Some k" for k
  proof
    assume "\<exists>g. map_of (generations d) k = Some g \<and> gen_repository g = i \<and> gen_status g = Ready"
    then show "ready_pointer i d = Some k"
      using pointer_ok_generation [OF db_invD(4) [OF assms]] by (fastforce simp: ready_pointer_def)
  next
    assume "ready_pointer i d = Some k"
    then obtain repo where "map_of (repositories d) i = Some repo" "ready_generation_id repo = Some k"
      by (auto simp: ready_pointer_def bind_eq_Some_conv)
    from pointer_ok_repository [OF db_invD(4) [OF assms] this]
    show "\<exists>g. map_of (generations d) k = Some g \<and> gen_repository g = i \<and> gen_status g = Ready" by auto
  qed
  finally show ?thesis by (auto simp: set_eq_iff)
qed

lemma ready_rows_distinct: "db_inv env d \<Longrightarrow> distinct (ready_rows i d)"
  using bmap_ok_distinct [OF db_invD(2)] distinct_map_filter unfolding ready_rows_def by blast

lemma distinct_singleton: "distinct xs \<Longrightarrow> set xs = {k} \<Longrightarrow> xs = [k]"
  by (cases xs; cases "tl xs") auto

lemma ready_rows_pointer:
  assumes "db_inv env d"
  shows "ready_rows i d = (case ready_pointer i d of None \<Rightarrow> [] | Some k \<Rightarrow> [k])"
  using ready_rows_set [OF assms, of i] distinct_singleton [OF ready_rows_distinct [OF assms], of i]
  by (cases "ready_pointer i d") auto

definition active_jobs :: "string \<Rightarrow> 'c db \<Rightarrow> string list" where
  "active_jobs i d = map fst (filter (\<lambda>(_, r). job_repository r = i \<and> active_state (job_state r)) (jobs d))"

lemma active_jobs_one:
  assumes "db_inv env d"
  shows "length (active_jobs i d) \<le> 1"
proof -
  have "x = y" if "x \<in> set (active_jobs i d)" "y \<in> set (active_jobs i d)" for x y
    using that one_activeD [OF db_invD(5) [OF assms]] bmap_entry_iff [OF db_invD(3) [OF assms]]
    by (auto simp: active_jobs_def)
  moreover have "distinct (active_jobs i d)"
    using bmap_ok_distinct [OF db_invD(3) [OF assms]] distinct_map_filter unfolding active_jobs_def by blast
  ultimately show ?thesis
    using card_le_Suc0_iff_eq [of "set (active_jobs i d)"] by (simp add: distinct_card)
qed

text \<open>
  C15: Readers and workers always find one consistent picture. In every state the engine can
  reach, by any interleaving of requests of any owners, the ready generation of a repository is
  the one its pointer names and no other; a repository has at most one active job; and each job
  row is in order: an active job is at a stage and owns a generation of its repository, staging
  until its publication and ready afterwards, with the cancellation flag set exactly while it is
  cancelling, a finished one is idle, and progress never exceeds the total.
\<close>

theorem reachable_states_consistent:
  assumes "reachable env d" and "errors_roundtrip env"
  shows "ready_rows i d = (case ready_pointer i d of None \<Rightarrow> [] | Some k \<Rightarrow> [k]) \<and>
    length (active_jobs i d) \<le> 1 \<and>
    list_all (\<lambda>(j, r). job_ok env d r) (jobs d)"
proof -
  have inv: "db_inv env d" by (rule reachable_inv [OF assms])
  have "list_all (\<lambda>(j, r). job_ok env d r) (jobs d)"
    using db_invD(6) [OF inv] bmap_entry_iff [OF db_invD(3) [OF inv]] by (auto simp: list_all_iff)
  with ready_rows_pointer [OF inv] active_jobs_one [OF inv] show ?thesis by blast
qed

theorem reachable_states_consistent_witness:
  "ready_rows ''r'' published_db = [''g2''] \<and> length (active_jobs ''r'' published_db) \<le> 1 \<and>
     list_all (\<lambda>(j, r). job_ok run_env published_db r) (jobs published_db)"
  using reachable_states_consistent [OF reachable_published run_errors_roundtrip, of "''r''"]
  by (simp add: ready_pointer_def published_db_def run_db_def run_repository_def)

text \<open>
  C23: Jobs follow their life cycle. A request that is carried out in a reachable state leaves
  every job that existed either where the life-cycle relation allows (so its stage, its progress
  and its total never go back, a finished job keeps its state, owner and errors, a cancelling one
  can only end cancelled or failed), or removed, which happens to a running job in the inventory
  stage only.
\<close>

theorem jobs_follow_life_cycle:
  assumes "reachable env d" and "errors_roundtrip env" and "map_of (jobs d) j = Some r"
  shows "case map_of (jobs (fst (perform env q d))) j of
      Some r' \<Rightarrow> job_moves\<^sup>*\<^sup>* r r' \<and> job_keeps r r'
    | None \<Rightarrow> job_state r = Running \<and> job_stage r = Inventory"
proof -
  have "evolves d (fst (perform env q d))"
    using perform_sound [OF assms(2) reachable_inv [OF assms(1,2)], of q] by (simp add: op_sound_def step_ok_def)
  with assms(3) show ?thesis
    using job_moves_path_keeps by (fastforce simp: evolves_def split: option.splits)
qed

lemma started_job: "map_of (jobs started_db) ''j2'' = Some (worker_job Inventory None ''{}'')"
  by (simp add: started_db_def worker_db_def run_db_def)

theorem jobs_follow_life_cycle_witness:
  "case map_of (jobs recovered_db) ''j2'' of
      Some r' \<Rightarrow> job_moves\<^sup>*\<^sup>* (worker_job Inventory None ''{}'') r' \<and>
        job_keeps (worker_job Inventory None ''{}'') r'
    | None \<Rightarrow> False"
  using jobs_follow_life_cycle [OF reachable_started run_errors_roundtrip started_job,
      of "Recover ''r'' ''w3'' ''tt'' ''ttt''"]
  by (simp add: run_recovery recovered_db_def run_db_def)

text \<open>
  A request that is answered with an error has changed nothing, neither in a table of the
  engine nor elsewhere.
\<close>

theorem failed_requests_change_nothing:
  assumes "reachable env d" and "errors_roundtrip env" and "perform env q d = (d', Inl e)"
  shows "d' = d"
  using assms by (rule perform_error)

theorem failed_requests_change_nothing_witness:
  "fst (perform run_env (Heartbeat ''j2'' ''w1'' ''t'') started_db) = started_db"
  using failed_requests_change_nothing [OF reachable_started run_errors_roundtrip run_refused]
    run_refused by (simp del: perform.simps)

text \<open>
  C16: Taking over a stale job fences its old owner off. A recovery that is granted to somebody
  else than the owner of the active job found a heartbeat older than the cutoff; it hands the job
  over, paused unless it was being cancelled, and from then on every request of the old owner on
  that job is refused and changes nothing.
\<close>

theorem recovery_fences_old_owner:
  assumes "reachable env d" and "errors_roundtrip env"
    and "recover_stale_job env i w cutoff now d = (d', Inr st)"
    and "active_job_of i d = Some (j, r)" and "job_owner r \<noteq> w"
    and "acting q = Some (j, job_owner r)"
  shows "(\<exists>c b. instant env cutoff = Some c \<and> instant env (updated_at r) = Some b \<and> b < c) \<and>
    (\<exists>r'. map_of (jobs d') j = Some r' \<and> job_owner r' = w \<and>
       job_state r' = (if job_state r = Running then Paused else job_state r)) \<and>
    (\<exists>e. perform env q d' = (d', Inl e))"
proof -
  have inv: "db_inv env d" by (rule reachable_inv [OF assms(1,2)])
  have r: "map_of (jobs d) j = Some r"
    using assms(4) bmap_entry_iff [OF db_invD(3) [OF inv]] by (auto simp: active_job_of_def find_Some_iff dest!: nth_mem)
  have d': "d' = d\<lparr>jobs := bmap_insert j (r\<lparr>job_owner := w,
      job_state := (if job_state r = Running then Paused else job_state r), updated_at := now\<rparr>) (jobs d)\<rparr>"
    and beat: "\<exists>c b. instant env cutoff = Some c \<and> instant env (updated_at r) = Some b \<and> b < c"
    using assms(3,5) r
    by (auto simp: recover_stale_job_def assms(4) and_then_Inr db_simps result_simps validate_timestamp_def Let_def
        split: sum.splits option.splits)
  have "reachable env (fst (perform env (Recover i w cutoff now) d))" by (rule reachable.step [OF assms(1)])
  then have reach: "reachable env d'" using assms(3) by (simp add: answer_def)
  have "\<not> owned_by j (job_owner r) d'" using assms(5) by (auto simp: owned_by_def d')
  with acting_owns [OF assms(6)] have "\<exists>d'' e. perform env q d' = (d'', Inl e)"
    by (metis old.sum.exhaust surj_pair)
  with perform_error [OF reach assms(2)] have "\<exists>e. perform env q d' = (d', Inl e)" by blast
  then show ?thesis using beat by (simp add: d')
qed

lemma started_active: "active_job_of ''r'' started_db = Some (''j2'', worker_job Inventory None ''{}'')"
  by code_simp

theorem recovery_fences_old_owner_witness:
  "(\<exists>r'. map_of (jobs recovered_db) ''j2'' = Some r' \<and> job_owner r' = ''w3'' \<and> job_state r' = Paused) \<and>
   (\<exists>e. perform run_env (Heartbeat ''j2'' ''w2'' ''ttt'') recovered_db = (recovered_db, Inl e))"
  using recovery_fences_old_owner [OF reachable_started run_errors_roundtrip run_recovery started_active,
      of "Heartbeat ''j2'' ''w2'' ''ttt''"]
  by (simp add: worker_job_def del: perform.simps)

section \<open>What makes a generation ready\<close>

text \<open>Operations that leave the repositories, and with them the ready pointers, alone.\<close>

locale quiet_operation = job_operation run
  for run :: "'c env \<Rightarrow> 'i \<Rightarrow> 'c db \<Rightarrow> 'c db \<times> 'r result" +
  assumes quiet: "repositories (fst (run env i d)) = repositories d"
begin

lemma pointer_stays: "ready_pointer j (fst (run env i d)) = ready_pointer j d"
  by (simp add: ready_pointer_def quiet)

end

lemma transact_quiet:
  "(\<And>d' r. body d = Inr (d', r) \<Longrightarrow> repositories d' = repositories d) \<Longrightarrow>
     repositories (fst (transact body d)) = repositories d"
  by (rule transact_cases [where P = "\<lambda>e. repositories e = repositories d"]) auto

lemma autocommit_quiet:
  "(\<And>d'. stmt d = Inr d' \<Longrightarrow> repositories d' = repositories d) \<Longrightarrow>
     repositories (fst (autocommit stmt after d)) = repositories d"
  by (rule autocommit_cases [where P = "\<lambda>e. repositories e = repositories d"]) auto

lemma update_staging_quiet: "update_staging_generation j s d = Inr d' \<Longrightarrow> repositories d' = repositories d"
  using update_staging_Inr by fastforce

lemma hand_over_quiet: "hand_over env i a at nxt r receipt c d = Inr d' \<Longrightarrow> repositories d' = repositories d"
  by (auto simp: hand_over_def db_simps)

lemma receipt_stage_quiet:
  "repositories (fst (receipt_stage env stop n a c receipt at nxt rc i d)) = repositories d"
  unfolding receipt_stage_def
  by (rule transact_quiet, cases "owned_job env i {at, nxt} d")
    (auto simp: result_simps split: if_splits dest!: hand_over_quiet)

lemmas quiet_simps = db_simps result_simps Let_def update_row_def

interpretation q_starting: quiet_operation "\<lambda>env (i, n). start_job env i n"
  by unfold_locales (auto simp: start_job_def quiet_simps intro!: transact_quiet)

interpretation q_checkpoint: quiet_operation
  "\<lambda>env (j, w, at, nxt, identity, c, n, t, now). checkpoint_job env j w at nxt identity c n t now"
  by unfold_locales (auto simp: checkpoint_job_def quiet_simps intro!: autocommit_quiet)

interpretation q_heartbeat: quiet_operation "\<lambda>env (j, w, now). heartbeat_job env j w now"
  by unfold_locales (auto simp: heartbeat_job_def quiet_simps intro!: autocommit_quiet)

interpretation q_transition: quiet_operation
  "\<lambda>env (pausing, j, w, now). if pausing then pause_job env j w now else resume_job env j w now"
  by unfold_locales
    (auto simp: pause_job_def resume_job_def transition_state_def quiet_simps intro!: autocommit_quiet)

interpretation q_cancel: quiet_operation "\<lambda>env (j, w, now). request_cancel env j w now"
  by unfold_locales (auto simp: request_cancel_def quiet_simps intro!: autocommit_quiet)

interpretation q_acknowledge: quiet_operation "\<lambda>env (j, w, now). acknowledge_cancel env j w now"
  by unfold_locales
    (auto simp: acknowledge_cancel_def finish_job_def quiet_simps intro!: transact_quiet
      dest!: update_staging_quiet)

interpretation q_failing: quiet_operation "\<lambda>env (j, w, code, now). fail_job env j w code now"
  by unfold_locales
    (auto simp: fail_job_def quiet_simps intro!: transact_quiet dest!: update_staging_quiet)

interpretation q_completing: quiet_operation "\<lambda>env (j, w, now). complete_job env j w now"
  by unfold_locales (auto simp: complete_job_def quiet_simps intro!: transact_quiet)

interpretation q_recovery: quiet_operation "\<lambda>env (i, w, t, now). recover_stale_job env i w t now"
  by unfold_locales
    (auto simp: recover_stale_job_def quiet_simps split: sum.splits intro!: autocommit_quiet)

interpretation q_coverage: quiet_operation "\<lambda>env (i, k, c). record_coverage env i k c"
  by unfold_locales (auto simp: record_coverage_def intro!: autocommit_quiet split: prod.splits)

lemma copy_coverage_quiet [simp]: "repositories (copy_coverage k ready d) = repositories d"
  by (simp add: copy_coverage_def split: option.splits)

interpretation q_cloning: quiet_operation
  "\<lambda>env (plan, i, k). clone_unaffected_ready_facts env plan i k"
  by unfold_locales
    (auto simp: clone_unaffected_ready_facts_def result_simps split: option.splits intro!: transact_quiet)

interpretation q_refresh: quiet_operation "\<lambda>env (i, mode, plan, n). enter_refresh env i mode plan n"
  by unfold_locales
    (auto simp: enter_refresh_def quiet_simps split: option.splits if_splits intro!: autocommit_quiet)

interpretation q_dropping: quiet_operation "\<lambda>env i. drop_no_op i"
  by unfold_locales
    (auto simp: drop_no_op_def quiet_simps delete_row_def split: option.splits if_splits intro!: transact_quiet)

interpretation q_parsed: quiet_operation "\<lambda>env i. complete_parse i"
  by unfold_locales
    (auto simp: complete_parse_def quiet_simps split: option.splits if_splits intro!: autocommit_quiet)

interpretation q_link: quiet_operation "\<lambda>env (stop, i). link_generation env stop i"
  by unfold_locales (auto simp: link_generation_def receipt_stage_quiet)

interpretation q_derive: quiet_operation "\<lambda>env (stop, i). derive_template_candidates env stop i"
  by unfold_locales (auto simp: derive_template_candidates_def receipt_stage_quiet)

lemma synthesis_quiet: "repositories (fst (finalize_synthesis_catalog env stop i d)) = repositories d"
  unfolding finalize_synthesis_catalog_def
  by (rule transact_quiet, cases "owned_job env i {Synthesize, Validate} d")
    (auto simp: result_simps split: if_splits option.splits dest!: hand_over_quiet)

interpretation q_synthesis: quiet_operation "\<lambda>env (stop, i). finalize_synthesis_catalog env stop i"
  by unfold_locales (auto simp: synthesis_quiet)

interpretation q_validation: quiet_operation "\<lambda>env i. validate_generation_for_publication env i"
  by unfold_locales
    (auto simp: validate_generation_for_publication_def quiet_simps split: option.splits if_splits
      intro!: transact_quiet)

lemma delete_generations_quiet:
  "fold_result (delete_generation env i rid) cs d = Inr d' \<Longrightarrow> repositories d' = repositories d"
  by (erule fold_result_invariant [where I = "\<lambda>e. repositories e = repositories d"])
    (auto dest!: delete_generation_Inr)

lemma result_cases:
  assumes "\<And>e. res = (fst res, Inl e) \<Longrightarrow> P" and "\<And>x. res = (fst res, Inr x) \<Longrightarrow> P"
  shows P
  using assms by (cases res; cases "snd res") auto

lemma cleanup_quiet: "repositories (fst (cleanup_generations env i d)) = repositories d"
proof (rule result_cases [of "cleanup_generations env i d"])
  fix e assume "cleanup_generations env i d = (fst (cleanup_generations env i d), Inl e)"
  then have "fst (cleanup_generations env i d) = d"
    using transact_Inl unfolding cleanup_generations_def by fast
  then show ?thesis by simp
next
  fix report assume run: "cleanup_generations env i d = (fst (cleanup_generations env i d), Inr report)"
  from cleanup_generations_Inr [OF run] show ?thesis
    by (auto dest!: authorize_cleanup_Inr delete_generations_quiet split: if_splits)
qed

interpretation q_cleaning: quiet_operation "\<lambda>env i. cleanup_generations env i"
  by unfold_locales (simp add: cleanup_quiet)

lemma publish_generation_Inr:
  assumes "publish_generation env i d = (d', Inr st)"
  shows "validate_owned_generation env i = Inr () \<and> verify_validation_receipt env i d = Inr () \<and>
    load_job env (in_job i) d' = Inr st \<and>
    (if publication_is_already_committed i d then d' = d
     else \<exists>repo x d1 d2 d3. map_of (repositories d) (in_repository i) = Some repo \<and>
       cas_job ''publish'' (in_job i)
         (\<lambda>r. job_repository r = in_repository i \<and> job_generation r = Some (in_generation i) \<and>
               job_owner r = in_owner i \<and> job_state r = Running \<and> job_stage r = Publish \<and>
               \<not> cancellation_requested r \<and> not_before env (in_now i) (updated_at r))
         (\<lambda>r. r\<lparr>job_stage := Cleanup, updated_at := in_now i\<rparr>) (d\<lparr>rest := x\<rparr>) = Inr d1 \<and>
       supersede_prior i (ready_generation_id repo) d1 = Inr d2 \<and> make_ready i d2 = Inr d3 \<and>
       move_pointer env i (ready_generation_id repo) d3 = Inr d' \<and>
       (\<exists>y a b c. reconcile_lifecycle env i (ready_generation_id repo) (rest d) = Inr y \<and>
          project_history env i a b c y = Inr x))"
proof (cases "publication_is_already_committed i d")
  case False
  show ?thesis
  proof (cases "map_of (repositories d) (in_repository i)")
    case (Some repo)
    from assms False Some obtain x d1 d2 d3 y a b c where
      "validate_owned_generation env i = Inr ()" "load_job env (in_job i) d' = Inr st"
      "reconcile_lifecycle env i (ready_generation_id repo) (rest d) = Inr y"
      "project_history env i a b c y = Inr x"
      "verify_validation_receipt env i d = Inr ()"
      "cas_job ''publish'' (in_job i)
         (\<lambda>r. job_repository r = in_repository i \<and> job_generation r = Some (in_generation i) \<and>
               job_owner r = in_owner i \<and> job_state r = Running \<and> job_stage r = Publish \<and>
               \<not> cancellation_requested r \<and> not_before env (in_now i) (updated_at r))
         (\<lambda>r. r\<lparr>job_stage := Cleanup, updated_at := in_now i\<rparr>) (d\<lparr>rest := x\<rparr>) = Inr d1"
      "supersede_prior i (ready_generation_id repo) d1 = Inr d2" "make_ready i d2 = Inr d3"
      "move_pointer env i (ready_generation_id repo) d3 = Inr d'"
      unfolding publish_generation_def transact_Inr Let_def
      by (simp only: and_then_Inr if_False option.case sum.inject prod.inject)
        (elim exE conjE, hypsubst, rule that, (assumption | simp)+)
    with False Some show ?thesis by (simp only: if_False) blast
  qed (use assms False in \<open>simp add: publish_generation_def db_simps result_simps\<close>)
qed (use assms in \<open>auto simp: publish_generation_def db_simps result_simps\<close>)

end
