(* ===== verification/ArchPublication.thy ===== *)
theory ArchPublication
  imports ArchJobsProps
begin

text \<open>
  Publication and cleaning up: what readers see change, what stays, that a retry is harmless, and
  what may be deleted.
\<close>

section \<open>Publication\<close>

definition status_of :: "string \<Rightarrow> 'c db \<Rightarrow> generation_status option" where
  "status_of k d = map_option gen_status (map_of (generations d) k)"

lemma publish_fresh:
  assumes inv: "db_inv env d" and run: "publish_generation env i d = (d', Inr st)"
    and fresh: "\<not> publication_is_already_committed i d"
  shows "\<exists>repo x r g gs. map_of (repositories d) (in_repository i) = Some repo \<and>
       map_of (jobs d) (in_job i) = Some r \<and> job_stage r = Publish \<and> job_state r = Running \<and>
       map_of (generations d) (in_generation i) = Some g \<and> gen_status g = Staging \<and>
       gen_identity g = in_identity i \<and> gen_repository g = in_repository i \<and>
       (case ready_generation_id repo of None \<Rightarrow> gs = generations d
        | Some p \<Rightarrow> p \<noteq> in_generation i \<and> (\<exists>h. map_of (generations d) p = Some h \<and>
            gs = bmap_insert p (h\<lparr>gen_status := Superseded\<rparr>) (generations d))) \<and>
       d' = d\<lparr>rest := x,
          jobs := bmap_insert (in_job i) (r\<lparr>job_stage := Cleanup, updated_at := in_now i\<rparr>) (jobs d),
          generations := bmap_insert (in_generation i)
            (g\<lparr>gen_status := Ready, published_at := Some (in_now i)\<rparr>) gs,
          repositories := bmap_insert (in_repository i)
            (repo\<lparr>ready_generation_id := Some (in_generation i), repo_updated_at := in_now i\<rparr>) (repositories d)\<rparr> \<and>
       (\<exists>p y a b c. reconcile_lifecycle env i p (rest d) = Inr y \<and> project_history env i a b c y = Inr x)"
proof -
  from publish_generation_Inr [OF run] fresh obtain repo x d1 d2 d3 where
    repo: "map_of (repositories d) (in_repository i) = Some repo"
    and writes: "cas_job ''publish'' (in_job i)
         (\<lambda>r. job_repository r = in_repository i \<and> job_generation r = Some (in_generation i) \<and>
               job_owner r = in_owner i \<and> job_state r = Running \<and> job_stage r = Publish \<and>
               \<not> cancellation_requested r \<and> not_before env (in_now i) (updated_at r))
         (\<lambda>r. r\<lparr>job_stage := Cleanup, updated_at := in_now i\<rparr>) (d\<lparr>rest := x\<rparr>) = Inr d1"
      "supersede_prior i (ready_generation_id repo) d1 = Inr d2" "make_ready i d2 = Inr d3"
      "move_pointer env i (ready_generation_id repo) d3 = Inr d'"
    and events: "\<exists>p y a b c. reconcile_lifecycle env i p (rest d) = Inr y \<and> project_history env i a b c y = Inr x"
    by (simp only: if_False) blast
  from publication_commits [OF inv repo writes] repo events show ?thesis by blast
qed

lemma publish_retry:
  "publish_generation env i d = (d', Inr st) \<Longrightarrow> publication_is_already_committed i d \<Longrightarrow> d' = d"
  using publish_generation_Inr by fastforce

lemma ready_pointer_register:
  "ready_pointer k (fst (register_repository env i path source revision now d)) = ready_pointer k d"
  unfolding register_repository_def
  by (rule autocommit_cases [where P = "\<lambda>e. ready_pointer k e = ready_pointer k d"])
    (auto simp: ready_pointer_def registered_row_def result_simps)

lemma ready_pointer_rest [simp]: "ready_pointer k (d\<lparr>rest := x\<rparr>) = ready_pointer k d"
  by (simp add: ready_pointer_def)

lemma job_pointers:
  "ready_pointer k (fst (start_job env i n d)) = ready_pointer k d"
  "ready_pointer k (fst (checkpoint_job env j w at nxt identity c m t now d)) = ready_pointer k d"
  "ready_pointer k (fst (heartbeat_job env j w now d)) = ready_pointer k d"
  "ready_pointer k (fst (pause_job env j w now d)) = ready_pointer k d"
  "ready_pointer k (fst (resume_job env j w now d)) = ready_pointer k d"
  "ready_pointer k (fst (request_cancel env j w now d)) = ready_pointer k d"
  "ready_pointer k (fst (acknowledge_cancel env j w now d)) = ready_pointer k d"
  "ready_pointer k (fst (complete_job env j w now d)) = ready_pointer k d"
  "ready_pointer k (fst (fail_job env j w code now d)) = ready_pointer k d"
  "ready_pointer k (fst (recover_stale_job env j w at' now d)) = ready_pointer k d"
  using q_starting.pointer_stays [of k env "(i, n)" d]
    q_checkpoint.pointer_stays [of k env "(j, w, at, nxt, identity, c, m, t, now)" d]
    q_heartbeat.pointer_stays [of k env "(j, w, now)" d]
    q_transition.pointer_stays [of k env "(True, j, w, now)" d]
    q_transition.pointer_stays [of k env "(False, j, w, now)" d]
    q_cancel.pointer_stays [of k env "(j, w, now)" d] q_acknowledge.pointer_stays [of k env "(j, w, now)" d]
    q_completing.pointer_stays [of k env "(j, w, now)" d] q_failing.pointer_stays [of k env "(j, w, code, now)" d]
    q_recovery.pointer_stays [of k env "(j, w, at', now)" d]
  by simp_all

lemma stage_pointers:
  "ready_pointer k (fst (record_coverage env j g m d)) = ready_pointer k d"
  "ready_pointer k (fst (clone_unaffected_ready_facts env p j g d)) = ready_pointer k d"
  "ready_pointer k (fst (enter_refresh env i mode plan n d)) = ready_pointer k d"
  "ready_pointer k (fst (drop_no_op i d)) = ready_pointer k d"
  "ready_pointer k (fst (complete_parse i d)) = ready_pointer k d"
  "ready_pointer k (fst (link_generation env stop i d)) = ready_pointer k d"
  "ready_pointer k (fst (derive_template_candidates env stop i d)) = ready_pointer k d"
  "ready_pointer k (fst (finalize_synthesis_catalog env stop i d)) = ready_pointer k d"
  "ready_pointer k (fst (validate_generation_for_publication env i d)) = ready_pointer k d"
  "ready_pointer k (fst (cleanup_generations env c d)) = ready_pointer k d"
  using q_coverage.pointer_stays [of k env "(j, g, m)" d] q_cloning.pointer_stays [of k env "(p, j, g)" d]
    q_refresh.pointer_stays [of k env "(i, mode, plan, n)" d] q_dropping.pointer_stays [of k i d]
    q_parsed.pointer_stays [of k i d] q_link.pointer_stays [of k env "(stop, i)" d]
    q_derive.pointer_stays [of k env "(stop, i)" d] q_synthesis.pointer_stays [of k env "(stop, i)" d]
    q_validation.pointer_stays [of k env i d] q_cleaning.pointer_stays [of k env c d]
  by simp_all

text \<open>
  C20: Publishing is the only way a reader is given another generation. Whatever request is
  carried out in a reachable state, if it changes the ready generation of a repository, then it
  published a generation of that repository, and that is the one now ready.
\<close>

theorem only_publication_moves_pointer:
  assumes "reachable env d" and "errors_roundtrip env"
    and "ready_pointer k (fst (perform env q d)) \<noteq> ready_pointer k d"
  shows "\<exists>i. q = PublishGeneration i \<and> in_repository i = k \<and>
    ready_pointer k (fst (perform env q d)) = Some (in_generation i)"
proof (cases q)
  case (PublishGeneration i)
  have inv: "db_inv env d" by (rule reachable_inv [OF assms(1,2)])
  show ?thesis
  proof (rule result_cases [of "publish_generation env i d"])
    fix e assume "publish_generation env i d = (fst (publish_generation env i d), Inl e)"
    then have "fst (publish_generation env i d) = d"
      using transact_Inl unfolding publish_generation_def by fast
    then show ?thesis using assms(3) PublishGeneration by simp
  next
    fix st assume run: "publish_generation env i d = (fst (publish_generation env i d), Inr st)"
    with assms(3) PublishGeneration have "\<not> publication_is_already_committed i d"
      using publish_retry [OF run] by auto
    from publish_fresh [OF inv run this] assms(3) PublishGeneration show ?thesis
      by (auto simp: ready_pointer_def split: if_splits)
  qed
qed (use assms(3) in \<open>simp_all add: ready_pointer_register job_pointers stage_pointers\<close>)

lemma pointers_of_run:
  "ready_pointer ''r'' validated_db = None" "ready_pointer ''r'' published_db = Some ''g2''"
  by (simp_all add: ready_pointer_def validated_db_def worker_db_def published_db_def run_db_def run_repository_def)

theorem only_publication_moves_pointer_witness:
  "\<exists>i. PublishGeneration worker = PublishGeneration i \<and> in_repository i = ''r'' \<and>
     ready_pointer ''r'' published_db = Some (in_generation i)"
  using only_publication_moves_pointer [OF reachable_validated run_errors_roundtrip,
      of "''r''" "PublishGeneration worker"]
  unfolding run_published pointers_of_run by blast


lemma verify_Inr:
  assumes "verify_validation_receipt env i d = Inr u"
  shows "\<exists>r identity stored. map_of (jobs d) (in_job i) = Some r \<and> job_repository r = in_repository i \<and>
     job_generation r = Some (in_generation i) \<and> job_owner r = in_owner i \<and>
     job_state r \<in> {Running, Completed, Failed, Cancelled} \<and> job_stage r \<in> {Publish, Cleanup, Idle} \<and>
     checkpoint_identity r = Some identity \<and> length (checkpoint_json r) \<le> MAX_CHECKPOINT_BYTES \<and>
     validation_receipt_identity env (checkpoint_json r) = identity \<and>
     decode_receipt env (checkpoint_json r) = Some stored \<and>
     encode_validation_receipt env stored = Inr (checkpoint_json r) \<and>
     build_validation_receipt env i (empty_inventory_proven (snapshot stored)) d = Inr stored \<and>
     verify_persisted_counts env (in_generation i) (snapshot stored) d = Inr ()"
proof (cases "map_of (jobs d) (in_job i)")
  case (Some r)
  show ?thesis
  proof (cases "checkpoint_identity r")
    case None
    with assms Some show ?thesis by (simp add: verify_validation_receipt_def split: if_splits)
  next
    case id: (Some identity)
    with assms Some obtain stored where
      "decode_receipt env (checkpoint_json r) = Some stored"
      by (auto simp: verify_validation_receipt_def Let_def split: if_splits option.splits)
    with assms Some id show ?thesis
      by (auto simp: verify_validation_receipt_def Let_def result_simps split: if_splits)
  qed
qed (use assms in \<open>simp add: verify_validation_receipt_def\<close>)

text \<open>
  The coverage of a validated generation has been recorded: where \<open>{}\<close> is read as the default
  coverage, which is unavailable without a reason, it is refused.
\<close>

lemma unrecorded_coverage_refused:
  "decode_coverage env ''{}'' = Some default_coverage \<Longrightarrow> parse_coverage env ''{}'' label \<noteq> Inr c"
  by (simp add: parse_coverage_def default_coverage_def MAX_CHECKPOINT_BYTES_def)

lemma built_receipt_coverage:
  assumes "build_validation_receipt env i b d = Inr receipt" and "map_of (generations d) (in_generation i) = Some g"
  shows "\<exists>c. parse_coverage env (coverage_json g) ''generation'' = Inr c"
  using assms by (auto simp: build_validation_receipt_def result_simps Let_def split: if_splits)

text \<open>
  C14: A publication is one atomic exchange. When a generation is published that was not published
  before, it was staging and is now ready and named by the repository's pointer; the generation
  that was ready before it is superseded; every other generation and every other repository is as
  it was; the job moves from publish to cleanup; and the receipt that validation stored with the
  job was, at that moment, exactly the receipt a fresh validation of the generation gives. Nothing
  but the status and the publication time of the published row changes, and its coverage is one
  the inventory recorded: it passes the checks, so it is not the \<open>{}\<close> a generation starts with, if
  that is read as the default coverage.
\<close>

theorem publication_exchanges_generations:
  assumes "reachable env d" and "errors_roundtrip env"
    and "publish_generation env i d = (d', Inr st)" and "\<not> publication_is_already_committed i d"
  shows "status_of (in_generation i) d = Some Staging \<and> status_of (in_generation i) d' = Some Ready \<and>
    ready_pointer (in_repository i) d' = Some (in_generation i) \<and>
    (case ready_pointer (in_repository i) d of
       None \<Rightarrow> (\<forall>k. k = in_generation i \<or> map_of (generations d') k = map_of (generations d) k)
     | Some p \<Rightarrow> status_of p d' = Some Superseded \<and>
         (\<forall>k. k = in_generation i \<or> k = p \<or> map_of (generations d') k = map_of (generations d) k)) \<and>
    (\<forall>k. k = in_repository i \<or> map_of (repositories d') k = map_of (repositories d) k) \<and>
    (\<exists>r stored. map_of (jobs d) (in_job i) = Some r \<and> job_stage r = Publish \<and>
       map_of (jobs d') (in_job i) = Some (r\<lparr>job_stage := Cleanup, updated_at := in_now i\<rparr>) \<and>
       decode_receipt env (checkpoint_json r) = Some stored \<and>
       build_validation_receipt env i (empty_inventory_proven (snapshot stored)) d = Inr stored) \<and>
    (\<exists>g c. map_of (generations d) (in_generation i) = Some g \<and>
       map_of (generations d') (in_generation i) = Some (g\<lparr>gen_status := Ready, published_at := Some (in_now i)\<rparr>) \<and>
       parse_coverage env (coverage_json g) ''generation'' = Inr c \<and>
       (decode_coverage env ''{}'' = Some default_coverage \<longrightarrow> coverage_json g \<noteq> ''{}''))"
proof -
  have inv: "db_inv env d" by (rule reachable_inv [OF assms(1,2)])
  from publish_generation_Inr [OF assms(3)] have "verify_validation_receipt env i d = Inr ()" by blast
  from verify_Inr [OF this] obtain r stored where r: "map_of (jobs d) (in_job i) = Some r"
    "decode_receipt env (checkpoint_json r) = Some stored"
    "build_validation_receipt env i (empty_inventory_proven (snapshot stored)) d = Inr stored" by blast
  from publish_fresh [OF inv assms(3,4)] r(1) obtain repo x g gs where
    repo: "map_of (repositories d) (in_repository i) = Some repo" and "job_stage r = Publish"
    and g: "map_of (generations d) (in_generation i) = Some g" "gen_status g = Staging"
    and gs: "case ready_generation_id repo of None \<Rightarrow> gs = generations d
        | Some p \<Rightarrow> p \<noteq> in_generation i \<and> (\<exists>h. map_of (generations d) p = Some h \<and>
            gs = bmap_insert p (h\<lparr>gen_status := Superseded\<rparr>) (generations d))"
    and d': "d' = d\<lparr>rest := x,
          jobs := bmap_insert (in_job i) (r\<lparr>job_stage := Cleanup, updated_at := in_now i\<rparr>) (jobs d),
          generations := bmap_insert (in_generation i)
            (g\<lparr>gen_status := Ready, published_at := Some (in_now i)\<rparr>) gs,
          repositories := bmap_insert (in_repository i)
            (repo\<lparr>ready_generation_id := Some (in_generation i), repo_updated_at := in_now i\<rparr>) (repositories d)\<rparr>"
    by auto
  have "case ready_pointer (in_repository i) d of
       None \<Rightarrow> (\<forall>k. k = in_generation i \<or> map_of (generations d') k = map_of (generations d) k)
     | Some p \<Rightarrow> status_of p d' = Some Superseded \<and>
         (\<forall>k. k = in_generation i \<or> k = p \<or> map_of (generations d') k = map_of (generations d) k)"
  proof (cases "ready_generation_id repo")
    case None
    with gs show ?thesis by (simp add: ready_pointer_def repo d')
  next
    case (Some p)
    with gs show ?thesis by (auto simp: ready_pointer_def repo d' status_of_def split: if_splits)
  qed
  moreover from built_receipt_coverage [OF r(3) g(1)] obtain c where
    c: "parse_coverage env (coverage_json g) ''generation'' = Inr c" ..
  moreover have "decode_coverage env ''{}'' = Some default_coverage \<longrightarrow> coverage_json g \<noteq> ''{}''"
    using c unrecorded_coverage_refused by metis
  ultimately show ?thesis
    using r g by (simp add: status_of_def ready_pointer_def d' \<open>job_stage r = Publish\<close>)
qed

lemma not_yet_published: "\<not> publication_is_already_committed worker validated_db"
  by code_simp

lemma worker_names [simp]: "in_job worker = ''j2''" "in_repository worker = ''r''" "in_generation worker = ''g2''"
  by (simp_all add: worker_def run_input_def)

lemma second_not_yet_published: "\<not> publication_is_already_committed second_worker second_validated_db"
  by code_simp

lemma second_worker_names [simp]:
  "in_job second_worker = ''j3''" "in_repository second_worker = ''r''" "in_generation second_worker = ''g3''"
  by (simp_all add: second_worker_def run_input_def)

lemma second_pointer: "ready_pointer ''r'' second_validated_db = Some ''g2''"
  by (simp add: ready_pointer_def second_validated_db_def second_db_def run_repository_def)

lemma run_default_coverage: "decode_coverage run_env ''{}'' = Some default_coverage"
  by (rule run_codecs_read_back)

theorem publication_exchanges_generations_witness:
  "status_of ''g3'' second_validated_db = Some Staging \<and> status_of ''g3'' superseding_db = Some Ready \<and>
     status_of ''g2'' superseding_db = Some Superseded \<and>
     ready_pointer ''r'' superseding_db = Some ''g3'' \<and>
     (\<exists>g. map_of (generations second_validated_db) ''g3'' = Some g \<and> coverage_json g \<noteq> ''{}'') \<and>
     (\<exists>stored. build_validation_receipt run_env second_worker
        (empty_inventory_proven (snapshot stored)) second_validated_db = Inr stored)"
  using publication_exchanges_generations [OF reachable_second_validated run_errors_roundtrip
      run_second_publication second_not_yet_published]
  by (auto simp: second_pointer run_default_coverage)


text \<open>
  What a retry relies on: the lifecycle and the history writes of a publication add review, alias,
  continuity and temporal rows, none of which the integrity and the seal queries read.
\<close>

definition writes_only_events :: "'c env \<Rightarrow> stage_input \<Rightarrow> bool" where
  "writes_only_events env i \<longleftrightarrow>
     (\<forall>p x y. reconcile_lifecycle env i p x = Inr y \<longrightarrow> integrity env i y = integrity env i x \<and>
        table_seals env (in_generation i) y = table_seals env (in_generation i) x) \<and>
     (\<forall>a b c x y. project_history env i a b c x = Inr y \<longrightarrow> integrity env i y = integrity env i x \<and>
        table_seals env (in_generation i) y = table_seals env (in_generation i) x)"

lemma build_receipt_cong:
  assumes "map_of (generations d) (in_generation i) = Some g" and "map_of (generations d') (in_generation i) = Some g'"
    and "gen_repository g' = gen_repository g" "gen_identity g' = gen_identity g" "gen_schema g' = gen_schema g"
      "coverage_json g' = coverage_json g" "gen_status g' \<in> {Staging, Ready}"
    and "integrity env i (rest d') = integrity env i (rest d)"
    and "table_seals env (in_generation i) (rest d') = table_seals env (in_generation i) (rest d)"
    and "build_validation_receipt env i b d = Inr receipt"
  shows "build_validation_receipt env i b d' = Inr receipt"
  using assms by (auto simp: build_validation_receipt_def result_simps split: if_splits)

text \<open>
  Publishing can be retried safely. The same publication requested again, by a worker that
  did not see the answer, is accepted, gives the same answer, and changes nothing.
\<close>

theorem publication_can_be_retried:
  assumes "reachable env d" and "errors_roundtrip env" and "writes_only_events env i"
    and "publish_generation env i d = (d', Inr st)"
  shows "publish_generation env i d' = (d', Inr st)"
proof (cases "publication_is_already_committed i d")
  case True
  with publish_retry [OF assms(4)] assms(4) show ?thesis by simp
next
  case False
  have inv: "db_inv env d" by (rule reachable_inv [OF assms(1,2)])
  note parts = publish_generation_Inr [OF assms(4)]
  then have ok: "validate_owned_generation env i = Inr ()" "load_job env (in_job i) d' = Inr st"
    and "verify_validation_receipt env i d = Inr ()" by blast+
  from verify_Inr [OF this(3)] obtain r identity stored where
    r: "map_of (jobs d) (in_job i) = Some r" "job_repository r = in_repository i"
      "job_generation r = Some (in_generation i)" "job_owner r = in_owner i"
    and receipt: "checkpoint_identity r = Some identity" "length (checkpoint_json r) \<le> MAX_CHECKPOINT_BYTES"
      "validation_receipt_identity env (checkpoint_json r) = identity"
      "decode_receipt env (checkpoint_json r) = Some stored"
      "encode_validation_receipt env stored = Inr (checkpoint_json r)"
    and built: "build_validation_receipt env i (empty_inventory_proven (snapshot stored)) d = Inr stored"
    and counts: "verify_persisted_counts env (in_generation i) (snapshot stored) d = Inr ()" by blast
  from publish_fresh [OF inv assms(4) False] r(1) obtain repo x g gs where
    state: "job_state r = Running" and g: "map_of (generations d) (in_generation i) = Some g" "gen_identity g = in_identity i"
    and d': "d' = d\<lparr>rest := x,
          jobs := bmap_insert (in_job i) (r\<lparr>job_stage := Cleanup, updated_at := in_now i\<rparr>) (jobs d),
          generations := bmap_insert (in_generation i)
            (g\<lparr>gen_status := Ready, published_at := Some (in_now i)\<rparr>) gs,
          repositories := bmap_insert (in_repository i)
            (repo\<lparr>ready_generation_id := Some (in_generation i), repo_updated_at := in_now i\<rparr>) (repositories d)\<rparr>"
    and rest: "\<exists>p y a b c. reconcile_lifecycle env i p (rest d) = Inr y \<and> project_history env i a b c y = Inr x"
    unfolding r(1) option.inject by blast
  have same: "integrity env i (rest d') = integrity env i (rest d)"
    "table_seals env (in_generation i) (rest d') = table_seals env (in_generation i) (rest d)"
    using rest assms(3) by (auto simp: d' writes_only_events_def)
  have schema: "gen_schema g = ARCHAEOLOGY_STORAGE_SCHEMA_VERSION"
    using built g(1) by (auto simp: build_validation_receipt_def result_simps split: if_splits)
  have built': "build_validation_receipt env i (empty_inventory_proven (snapshot stored)) d' = Inr stored"
    by (rule build_receipt_cong [OF g(1) _ _ _ _ _ _ same built,
        where g' = "g\<lparr>gen_status := Ready, published_at := Some (in_now i)\<rparr>"]) (simp_all add: d')
  have counts': "verify_persisted_counts env (in_generation i) (snapshot stored) d' = Inr ()"
    using counts g(1) by (simp add: verify_persisted_counts_def d')
  have "verify_validation_receipt env i d' = Inr ()"
    using r receipt built' counts' state
    by (simp add: verify_validation_receipt_def d' Let_def and_then_Inr reject_if_Inr)
  moreover have "publication_is_already_committed i d'"
    using r g schema state by (simp add: publication_is_already_committed_def d')
  ultimately show ?thesis
    using ok by (simp add: publish_generation_def transact_Inr and_then_Inr)
qed

theorem publication_can_be_retried_witness:
  "publish_generation run_env worker published_db = (published_db, Inr published_status)"
  by (rule publication_can_be_retried [OF reachable_validated run_errors_roundtrip _ run_publication])
    (simp add: writes_only_events_def run_env_def)


section \<open>Cleaning up\<close>

lemma has_active_job_iff:
  "bmap_ok (jobs d) \<Longrightarrow> has_active_job k d \<longleftrightarrow>
     (\<exists>j r. map_of (jobs d) j = Some r \<and> job_generation r = Some k \<and> active_state (job_state r))"
  using bmap_entry_iff [of "jobs d"] by (auto simp: has_active_job_def list_ex_iff)

lemma has_active_job_touch:
  assumes "bmap_ok (jobs d)" and "map_of (jobs d) j = Some r"
  shows "has_active_job k (d\<lparr>jobs := bmap_insert j (r\<lparr>updated_at := t\<rparr>) (jobs d)\<rparr>) = has_active_job k d"
proof -
  have "bmap_ok (jobs (d\<lparr>jobs := bmap_insert j (r\<lparr>updated_at := t\<rparr>) (jobs d)\<rparr>))"
    using assms(1) by (simp add: bmap_insert_ok)
  from has_active_job_iff [OF this] has_active_job_iff [OF assms(1)] assms(2) show ?thesis
    by (auto split: if_splits) (metis option.inject)
qed

lemma delete_generations_Inr:
  "fold_result (delete_generation env i rid) cs d = Inr d' \<Longrightarrow>
     generations d' = filter (\<lambda>(k, _). k \<notin> clean_generation ` set cs) (generations d)"
proof (induction cs arbitrary: d)
  case (Cons c cs)
  from Cons.prems obtain e where e: "delete_generation env i rid c d = Inr e"
    "fold_result (delete_generation env i rid) cs e = Inr d'" by (auto simp: and_then_Inr)
  from Cons.IH [OF e(2)] delete_generation_Inr [OF e(1)] show ?case
    by (auto simp: intro!: filter_cong)
qed simp

lemma map_of_without: "map_of (filter (\<lambda>(k, _). k \<notin> A) t) k = (if k \<in> A then None else map_of t k)"
  by (induction t) auto

lemma candidate_selected:
  assumes "c \<in> set (fst (cleanup_candidates env rid owner retain lease d))"
  shows "\<exists>g. (clean_generation c, g) \<in> set (cleanup_selected rid owner retain lease d)"
  using assms
  by (auto simp: cleanup_candidates_def Let_def split: prod.splits dest!: in_set_takeD)

definition newer_superseded :: "'c db \<Rightarrow> string \<Rightarrow> generation_row \<Rightarrow> string set" where
  "newer_superseded d k g = {k'. \<exists>g'. map_of (generations d) k' = Some g' \<and> gen_status g' = Superseded \<and>
     gen_repository g' = gen_repository g \<and> (created_at g, k) < (created_at g', k')}"

lemma finite_newer: "finite (newer_superseded d k g)"
  by (rule finite_subset [OF _ finite_dom_map_of [of "generations d"]]) (auto simp: newer_superseded_def)

lemma status_rank_bound:
  assumes "bmap_ok (generations d)" and "gen_repository g = rid" and "gen_status g = Superseded"
  shows "status_rank (removable rid d) (k, g) \<le> Suc (card (newer_superseded d k g))"
proof -
  let ?rows = "filter (\<lambda>(k', g'). gen_status g' = Superseded \<and> (created_at g, k) < (created_at g', k'))
    (removable rid d)"
  have "distinct (map fst ?rows)"
    using bmap_ok_distinct [OF assms(1)] by (auto simp: removable_def intro: distinct_map_filter)
  then have "length ?rows = card (set (map fst ?rows))" using distinct_card [of "map fst ?rows"] by (simp only: length_map)
  also have "\<dots> \<le> card (newer_superseded d k g)"
    by (rule card_mono [OF finite_newer])
      (use assms(2) bmap_entry_iff [OF assms(1)] in \<open>auto simp: removable_def newer_superseded_def\<close>)
  finally show ?thesis using assms(3) by (simp add: status_rank_def case_prod_unfold)
qed

definition holds_ready_lease :: "cleanup_input \<Rightarrow> 'c db \<Rightarrow> bool" where
  "holds_ready_lease i d \<longleftrightarrow> (\<exists>r. map_of (jobs d) (clean_job i) = Some r \<and> job_owner r = clean_owner i \<and>
     job_generation r \<noteq> None \<and> ready_pointer (job_repository r) d = job_generation r)"

text \<open>
  C21: Cleaning up removes only what nobody needs. A cleanup that succeeds leaves the repositories
  alone, and the whole state when it is a dry run. A generation that is ready, that an active job
  owns, or that is superseded while the cleaning job does not own the ready generation, or while
  fewer than the retained number of superseded generations of its repository are newer, is kept as it is;
  when the cleanup applies, exactly the candidates it reports are gone.
\<close>

theorem cleanup_spares_what_is_needed:
  assumes "reachable env d" and "errors_roundtrip env"
    and "cleanup_generations env i d = (d', Inr report)"
  shows "repositories d' = repositories d \<and> (clean_apply i \<or> d' = d) \<and>
    (\<forall>k. map_of (generations d') k =
       (if clean_apply i \<and> k \<in> clean_generation ` set (candidates report) then None
        else map_of (generations d) k)) \<and>
    (\<forall>k g. map_of (generations d) k = Some g \<longrightarrow>
       gen_status g = Ready \<or> has_active_job k d \<or>
       gen_status g = Superseded \<and>
         (\<not> holds_ready_lease i d \<or> card (newer_superseded d k g) < retain_superseded i) \<longrightarrow>
       k \<notin> clean_generation ` set (candidates report))"
proof -
  have inv: "db_inv env d" by (rule reachable_inv [OF assms(1,2)])
  from cleanup_generations_Inr [OF assms(3)] obtain d1 rid lease where
    auth: "authorize_cleanup env i d = Inr (d1, rid, lease)"
    and cs: "candidates report = fst (cleanup_candidates env rid (clean_owner i) (retain_superseded i) lease d1)"
    and run: "if clean_apply i then fold_result (delete_generation env i rid) (candidates report) d1 = Inr d' else d' = d1"
    by blast
  from authorize_cleanup_Inr [OF auth] obtain r where
    r: "map_of (jobs d) (clean_job i) = Some r" "job_owner r = clean_owner i" "job_repository r = rid"
    and lease: "lease \<longleftrightarrow> job_generation r \<noteq> None \<and> ready_pointer rid d = job_generation r"
    and d1: "d1 = (if clean_apply i then d\<lparr>jobs := bmap_insert (clean_job i) (r\<lparr>updated_at := clean_now i\<rparr>) (jobs d)\<rparr> else d)"
    by blast
  have same: "generations d1 = generations d" "ready_pointer rid d1 = ready_pointer rid d" by (simp_all add: d1 ready_pointer_def)
  have active: "has_active_job k d1 = has_active_job k d" for k
    using has_active_job_touch [OF db_invD(3) [OF inv] r(1)] by (simp add: d1)
  have removable: "removable rid d1 = removable rid d"
    unfolding removable_def same active ..
  have spared: "k \<notin> clean_generation ` set (candidates report)"
    if g: "map_of (generations d) k = Some g"
      and live: "gen_status g = Ready \<or> has_active_job k d \<or> gen_status g = Superseded \<and>
         (\<not> holds_ready_lease i d \<or> card (newer_superseded d k g) < retain_superseded i)" for k g
  proof
    assume "k \<in> clean_generation ` set (candidates report)"
    then obtain h where sel: "(k, h) \<in> set (cleanup_selected rid (clean_owner i) (retain_superseded i) lease d1)"
      using candidate_selected unfolding cs by blast
    then have "(k, h) \<in> set (generations d)" by (auto simp: cleanup_selected_def Let_def removable_def same(1))
    with g have h: "h = g" using bmap_entry_iff [OF db_invD(2) [OF inv]] by auto
    from sel have listed: "(k, g) \<in> set (removable rid d)"
      and picked: "gen_status g = Superseded \<Longrightarrow> lease \<and> retain_superseded i < status_rank (removable rid d) (k, g)"
      unfolding cleanup_selected_def Let_def removable h by auto
    from listed have row: "gen_repository g = rid" "gen_status g \<noteq> Ready" "\<not> has_active_job k d"
      by (simp_all add: removable_def)
    from live row have sup: "gen_status g = Superseded"
      and few: "\<not> holds_ready_lease i d \<or> card (newer_superseded d k g) < retain_superseded i" by auto
    from picked [OF sup] have "holds_ready_lease i d"
      using lease r by (auto simp: holds_ready_lease_def)
    with few picked [OF sup] status_rank_bound [OF db_invD(2) [OF inv] row(1) sup, of k] show False by simp
  qed
  have gone: "map_of (generations d') k =
       (if clean_apply i \<and> k \<in> clean_generation ` set (candidates report) then None
        else map_of (generations d) k)" for k
  proof (cases "clean_apply i")
    case True
    with run have "fold_result (delete_generation env i rid) (candidates report) d1 = Inr d'" by simp
    from delete_generations_Inr [OF this] show ?thesis by (simp add: same map_of_without True)
  qed (use run d1 in simp)
  have "repositories d' = repositories d" using cleanup_quiet [of env i d] assms(3) by simp
  moreover have "clean_apply i \<or> d' = d" using run by (simp add: d1 split: if_splits)
  ultimately show ?thesis using spared gone by blast
qed

theorem cleanup_spares_what_is_needed_witness:
  "map_of (generations cleaned_db) ''g1'' = None \<and> status_of ''g2'' superseding_db = Some Superseded \<and>
   map_of (generations cleaned_db) ''g2'' = map_of (generations superseding_db) ''g2'' \<and>
   status_of ''g3'' superseding_db = Some Ready \<and>
   map_of (generations cleaned_db) ''g3'' = map_of (generations superseding_db) ''g3'' \<and>
   repositories cleaned_db = repositories superseding_db"
  using cleanup_spares_what_is_needed [OF reachable_superseding run_errors_roundtrip run_cleanup]
  by (simp add: retaining_cleanup_def cleaned_report_def status_of_def superseding_db_def second_db_def
      run_generation_def)

end
