(* ===== verification/ArchLiveness.thy ===== *)
theory ArchLiveness
  imports ArchPublication
begin

text \<open>A repository is never blocked: whoever holds its job, the job can be taken over and closed.\<close>

text \<open>Closing the staging generation of an active job cannot fail.\<close>

lemma update_staging_total:
  assumes inv: "db_inv env d" and r: "map_of (jobs d) j = Some r" and act: "active_state (job_state r)"
    and s: "s \<in> {GenFailed, GenCancelled}"
    and d1: "d1 = d\<lparr>jobs := bmap_insert j r' (jobs d)\<rparr>" and keep: "job_generation r' = job_generation r"
      "job_repository r' = job_repository r"
  shows "\<exists>gs. update_staging_generation j s d1 = Inr (d1\<lparr>generations := gs\<rparr>)"
proof -
  from job_ok_active [OF db_invD(6) [OF inv r] act] obtain k g where
    g: "job_generation r = Some k" "map_of (generations d) k = Some g" "gen_repository g = job_repository r"
      "gen_status g = (if job_stage r = Cleanup then Ready else Staging)"
    by (auto simp: owns_generation_def)
  show ?thesis
  proof (cases "gen_status g = Staging")
    case True
    then show ?thesis using g by (simp add: update_staging_generation_def d1 keep update_row_def) blast
  next
    case False
    with g have "gen_status g = Ready" by (simp split: if_splits)
    with pointer_ok_generation [OF db_invD(4) [OF inv] g(2)] g have "published_ready j d1"
      by (auto simp: published_ready_def d1 keep generation_of_def)
    with False g s have "update_staging_generation j s d1 = Inr d1"
      by (auto simp: update_staging_generation_def d1 keep update_row_def)
    moreover have "d1 = d1\<lparr>generations := generations d1\<rparr>" by simp
    ultimately show ?thesis by metis
  qed
qed

lemma fail_job_total:
  assumes law: "errors_roundtrip env" and inv: "db_inv env d" and r: "map_of (jobs d) j = Some r"
    and state: "job_state r \<in> {Running, Paused, Cancelling}" and time: "not_before env now (updated_at r)"
    and actor: "validate_actor env j (job_owner r) now = Inr ()"
    and errs: "decode_errors env (errors_json r) = Some es" "length es < MAX_ERRORS"
      "length (encode_errors env (es @ [error_code_name code])) \<le> MAX_ERRORS_JSON_BYTES"
  shows "\<exists>gs st. fail_job env j (job_owner r) code now d =
    (d\<lparr>jobs := bmap_insert j (r\<lparr>job_state := Failed, job_stage := Idle,
         errors_json := encode_errors env (es @ [error_code_name code]),
         finished_at := Some now, updated_at := now\<rparr>) (jobs d), generations := gs\<rparr>, Inr st)"
proof -
  let ?r = "r\<lparr>job_state := Failed, job_stage := Idle,
         errors_json := encode_errors env (es @ [error_code_name code]),
         finished_at := Some now, updated_at := now\<rparr>"
  let ?d = "d\<lparr>jobs := bmap_insert j ?r (jobs d)\<rparr>"
  have act: "active_state (job_state r)" using state by (auto simp: active_state_def)
  have "\<exists>gs. update_staging_generation j GenFailed ?d = Inr (?d\<lparr>generations := gs\<rparr>)"
    by (rule update_staging_total [OF inv r act, where r' = ?r]) simp_all
  then obtain gs where gs: "update_staging_generation j GenFailed ?d = Inr (?d\<lparr>generations := gs\<rparr>)" ..
  have "\<exists>st. load_job env j (?d\<lparr>generations := gs\<rparr>) = Inr st"
    using law by (simp add: load_job_def errors_roundtrip_def)
  then obtain st where st: "load_job env j (?d\<lparr>generations := gs\<rparr>) = Inr st" ..
  have cas: "cas_job ''fail'' j (\<lambda>q. job_owner q = job_owner r \<and> job_state q \<in> {Running, Paused, Cancelling} \<and>
      not_before env now (updated_at q))
    (\<lambda>q. q\<lparr>job_state := Failed, job_stage := Idle, errors_json := encode_errors env (es @ [error_code_name code]),
       finished_at := Some now, updated_at := now\<rparr>) d = Inr ?d"
    using r state time by (simp only: cas_job_Inr) blast
  have "fail_job env j (job_owner r) code now d = (?d\<lparr>generations := gs\<rparr>, Inr st)"
    using r state actor errs gs st cas
    by (simp add: fail_job_def transact_def Let_def reject_if_def)
  then show ?thesis by auto
qed

lemma active_jobs_empty:
  assumes "db_inv env d'" and "\<And>j r. map_of (jobs d') j = Some r \<Longrightarrow> job_repository r = i \<Longrightarrow> \<not> active_state (job_state r)"
  shows "active_jobs i d' = []"
  using assms(2) bmap_entry_iff [OF db_invD(3) [OF assms(1)]]
  by (auto simp: active_jobs_def filter_empty_conv)

text \<open>
  C22: No repository stays blocked. In a reachable state, whatever its active job was doing and
  whoever owns it, once its last heartbeat is older than the cutoff another owner can take it
  over and close it as failed: both requests are granted, afterwards the repository has no
  active job, so that the next one may start, and its ready generation is still the same.
\<close>

theorem stale_job_can_be_released:
  assumes "reachable env d" and "errors_roundtrip env"
    and "active_job_of i d = Some (j, r)" and "job_owner r \<noteq> w"
    and "validate_id ''repository'' i = Inr ()" and "validate_id ''job'' j = Inr ()" and "validate_id ''owner'' w = Inr ()"
    and "instant env (updated_at r) = Some b" and "instant env cutoff = Some c" and "instant env now = Some n"
    and "b < c" and "c \<le> n" and "not_before env now now"
    and "decode_errors env (errors_json r) = Some es" and "length es < MAX_ERRORS"
    and "length (encode_errors env (es @ [error_code_name code])) \<le> MAX_ERRORS_JSON_BYTES"
    and "d1 = fst (perform env (Recover i w cutoff now) d)"
  shows "\<exists>d2 st. perform env (Fail j w code now) d1 = (d2, Inr st) \<and> active_jobs i d2 = [] \<and>
    ready_pointer i d2 = ready_pointer i d"
proof -
  have inv: "db_inv env d" by (rule reachable_inv [OF assms(1,2)])
  have r: "map_of (jobs d) j = Some r" "job_repository r = i" "active_state (job_state r)"
    using assms(3) bmap_entry_iff [OF db_invD(3) [OF inv]]
    by (auto simp: active_job_of_def find_Some_iff dest!: nth_mem)
  let ?r = "r\<lparr>job_owner := w, job_state := (if job_state r = Running then Paused else job_state r), updated_at := now\<rparr>"
  have d1: "d1 = d\<lparr>jobs := bmap_insert j ?r (jobs d)\<rparr>"
    using assms(3-12) assms(17) r(1,2)
    by (simp add: recover_stale_job_def validate_timestamp_def reject_if_def autocommit_def Let_def cas_job_def
        update_row_def require_cas_def load_job_def)
  have reach: "reachable env d1" unfolding assms(17) by (rule reachable.step [OF assms(1)])
  have inv1: "db_inv env d1" by (rule reachable_inv [OF reach assms(2)])
  have r1: "map_of (jobs d1) j = Some ?r" by (simp add: d1)
  have state: "job_state ?r \<in> {Running, Paused, Cancelling}"
    using job_ok_active [OF db_invD(6) [OF inv r(1)] r(3)] by auto
  have actor: "validate_actor env j (job_owner ?r) now = Inr ()"
    using assms by (simp add: validate_actor_def validate_timestamp_def)
  from fail_job_total [OF assms(2) inv1 r1 state _ actor, of es code] assms(13-16) obtain gs st where
    fail: "fail_job env j w code now d1 = (d1\<lparr>jobs := bmap_insert j (?r\<lparr>job_state := Failed, job_stage := Idle,
         errors_json := encode_errors env (es @ [error_code_name code]),
         finished_at := Some now, updated_at := now\<rparr>) (jobs d1), generations := gs\<rparr>, Inr st)" (is "_ = (?d2, _)")
    by auto
  have "reachable env ?d2" using reachable.step [OF reach, of "Fail j w code now"] fail by simp
  then have "active_jobs i ?d2 = []"
  proof (rule active_jobs_empty [OF reachable_inv [OF _ assms(2)]])
    fix k q assume q: "map_of (jobs ?d2) k = Some q" "job_repository q = i"
    show "\<not> active_state (job_state q)"
    proof (cases "k = j")
      case True
      with q show ?thesis by (auto simp: active_state_def)
    next
      case False
      with q have "map_of (jobs d) k = Some q" by (simp add: d1)
      with one_activeD [OF db_invD(5) [OF inv] r(1) _ r(3)] q(2) r(2) False show ?thesis by blast
    qed
  qed
  moreover have "perform env (Fail j w code now) d1 = (?d2, Inr (Status st))"
    by (simp add: fail answer_def)
  moreover have "ready_pointer i ?d2 = ready_pointer i d" by (simp add: ready_pointer_def d1)
  ultimately show ?thesis by blast
qed

lemma run_codecs:
  "instant run_env t = Some (int (length t))" "julianday run_env t = Some (int (length t))"
  "decode_errors run_env ''[]'' = Some []" "encode_errors run_env es = write_errors es"
  by (simp_all add: run_env_def)

theorem stale_job_can_be_released_witness:
  "\<exists>d2 st. perform run_env (Fail ''j2'' ''w3'' OwnershipLost ''ttt'') recovered_db = (d2, Inr st) \<and>
     active_jobs ''r'' d2 = [] \<and> ready_pointer ''r'' d2 = ready_pointer ''r'' started_db"
  by (rule stale_job_can_be_released [OF reachable_started run_errors_roundtrip started_active,
        where cutoff = "''tt''" and now = "''ttt''" and es = "[]" and b = 1 and c = 2 and n = 3])
    (simp_all add: run_recovery worker_job_def validate_id_def MAX_ID_BYTES_def reject_if_def run_codecs
      not_before_def MAX_ERRORS_def MAX_ERRORS_JSON_BYTES_def write_errors_def write_error_def)

end
