(* ===== verification/DeterministicReview.thy ===== *)
theory DeterministicReview
  imports SecretPolicy Json "HOL-Library.Code_Target_Nat" "HOL-Library.Multiset"
begin

text \<open>
  \<open>commands/deterministic_review.rs\<close>: what a review is about (the resolved target and its
  units, one per changed file), what a unit's coverage means, and the qualification of the
  findings a model proposes against the source they talk about. The tables of the review runs
  are in \<open>ReviewStore\<close>.
\<close>

section \<open>Data\<close>

datatype unit_state = Reviewed | Reused | Skipped | Failed | Cancelled

datatype candidate_state = Qualified | Stale | Unresolved | Rejected

record review_target =
  target_schema :: nat
  target_identity :: string
  repository_root :: string
  diff_mode :: string
  requested_range :: string
  head_sha :: string
  base_sha :: "string option"
  source_fingerprint :: string

record review_unit =
  unit_id :: string
  unit_path :: string
  file_status :: string
  unit_fingerprint :: string
  diff_bytes :: nat
  prompt_budget_bytes :: nat
  coverage_state :: unit_state
  coverage_reason :: "string option"

record qualification_counts =
  qualified_count :: nat
  stale_count :: nat
  unresolved_count :: nat
  rejected_count :: nat

record qualification_diagnostic =
  candidate_index :: nat
  diag_state :: candidate_state
  diag_reason :: string
  diag_path :: "string option"
  original_line :: "int option"
  resolved_line :: "int option"

record review_budgets =
  max_concurrency :: nat
  prompt_bytes_per_unit :: nat
  output_bytes_per_attempt :: nat
  attempt_limit :: nat
  wall_time_seconds_per_attempt :: nat

record review_manifest =
  schema_version :: nat
  run_id :: string
  review_id :: "string option"
  manifest_target :: review_target
  executor_id :: string
  executor_version :: string
  policy_fingerprint :: string
  budgets :: review_budgets
  manifest_units :: "review_unit list"
  manifest_counts :: qualification_counts
  manifest_diagnostics :: "qualification_diagnostic list"
  coverage_complete :: bool
  target_stale :: bool
  run_cancelled :: bool
  created_at :: string
  completed_at :: "string option"

record qualified_candidates =
  findings :: "json list"
  counts :: qualification_counts
  diagnostics :: "qualification_diagnostic list"

record qualified_location =
  loc_path :: string
  loc_line :: int
  loc_anchor :: string
  suggestion_allowed :: bool
  loc_reason :: string

text \<open>
  The world a review runs in: the file system and the Git process, and SHA-256. A Git process
  that could not be spawned is \<open>None\<close>; otherwise its success and its output.
\<close>

record review_env =
  canonicalize :: "string \<Rightarrow> string option"
  is_dir :: "string \<Rightarrow> bool"
  is_file :: "string \<Rightarrow> bool"
  read_text :: "string \<Rightarrow> string option"
  read_bytes :: "string \<Rightarrow> string option"
  git_process :: "string \<Rightarrow> string list \<Rightarrow> (bool \<times> string) option"
  sha256_hex :: "string \<Rightarrow> string"

definition REVIEW_MANIFEST_SCHEMA_VERSION :: nat where "REVIEW_MANIFEST_SCHEMA_VERSION = 1"
definition UNIT_PROMPT_BYTES :: nat where "UNIT_PROMPT_BYTES = 80 * 1024"
definition REVIEW_MAX_CONCURRENCY :: nat where "REVIEW_MAX_CONCURRENCY = 3"
definition REVIEW_OUTPUT_BYTES :: nat where "REVIEW_OUTPUT_BYTES = 4 * 1024 * 1024"
definition REVIEW_ATTEMPT_LIMIT :: nat where "REVIEW_ATTEMPT_LIMIT = 1"
definition REVIEW_WALL_TIME_SECONDS :: nat where "REVIEW_WALL_TIME_SECONDS = 8 * 60"
definition MAX_FINDING_TITLE_BYTES :: nat where "MAX_FINDING_TITLE_BYTES = 240"
definition MAX_FINDING_SUMMARY_BYTES :: nat where "MAX_FINDING_SUMMARY_BYTES = 8 * 1024"
definition MAX_SUGGESTION_BYTES :: nat where "MAX_SUGGESTION_BYTES = 8 * 1024"

section \<open>Text\<close>

text \<open>\<open>str::lines\<close>: a line ends at a newline, with one carriage return before it dropped.\<close>

definition strip_return :: "string \<Rightarrow> string" where
  "strip_return l = (if l \<noteq> [] \<and> last l = CHR 0x0D then butlast l else l)"

definition str_lines :: "string \<Rightarrow> string list" where
  "str_lines s =
     (let ws = split_on (\<lambda>c. c = CHR 0x0A) s
      in map strip_return (butlast ws) @ (if last ws = [] then [] else [last ws]))"

definition take_chars :: "nat \<Rightarrow> string \<Rightarrow> string" where
  "take_chars n s = concat (take n (char_chunks s))"

text \<open>\<open>str::split_once\<close>.\<close>

definition split_once :: "string \<Rightarrow> string \<Rightarrow> (string \<times> string) option" where
  "split_once sep s =
     map_option (\<lambda>i. (take i s, drop (i + length sep) s)) (find_str sep s)"

section \<open>Git\<close>

definition validate_relative_path :: "string \<Rightarrow> unit result" where
  "validate_relative_path path =
     and_then (reject_if (path = [] \<or> CHR 0x00 \<in> set path \<or> is_absolute path) ''Unsafe review path'') (\<lambda>_.
       reject_if (\<not> list_all is_normal (components path)) ''Unsafe review path'')"

definition diff_prefix :: "string \<Rightarrow> string list result" where
  "diff_prefix r =
     (if r = ''WORKTREE'' then Inr [''diff'', ''--'']
      else if r = ''--staged'' \<or> r = ''--cached'' then Inr [''diff'', ''--cached'', ''--'']
      else if starts_with r ''-'' then Inl ''Unsupported Git diff option''
      else Inr [''diff'', r, ''--''])"

definition command_output :: "review_env \<Rightarrow> string \<Rightarrow> string list \<Rightarrow> string result" where
  "command_output env repo args =
     (case git_process env repo ([''-c'', ''core.quotepath=false''] @ args) of
        None \<Rightarrow> Inl ''Could not run Git for review planning''
      | Some (success, out) \<Rightarrow>
          if success then Inr (trim_end out)
          else Inl ''Git could not resolve the requested review target'')"

definition git_diff :: "review_env \<Rightarrow> string \<Rightarrow> string \<Rightarrow> string option \<Rightarrow> string result" where
  "git_diff env repo r path =
     and_then (diff_prefix r) (\<lambda>args.
       command_output env repo (args @ (case path of None \<Rightarrow> [] | Some p \<Rightarrow> [p])))"

definition name_status :: "string \<Rightarrow> (string \<times> string) option" where
  "name_status line =
     (let parts = split_on (\<lambda>c. c = CHR 0x09) line
      in if length parts < 2 then None
         else let status = (case char_chunks (parts ! 0) of [] \<Rightarrow> ''M'' | w # _ \<Rightarrow> w)
              in Some (status, if status \<in> {''R'', ''C''} \<and> 3 \<le> length parts then parts ! 2 else parts ! 1))"

definition changed_file_statuses :: "review_env \<Rightarrow> string \<Rightarrow> string \<Rightarrow> (string \<times> string) list result" where
  "changed_file_statuses env repo r =
     and_then (diff_prefix r) (\<lambda>args.
     and_then (command_output env repo (take 1 args @ [''--name-status''] @ drop 1 args)) (\<lambda>out.
       Inr (List.map_filter name_status (str_lines out))))"

definition is_generated_path :: "string \<Rightarrow> bool" where
  "is_generated_path path =
     (let normalized = map to_ascii_lower path
      in contains_str normalized ''/generated/'' \<or> starts_with normalized ''generated/''
         \<or> ends_with normalized ''.min.js'' \<or> ends_with normalized ''.lock'')"

definition digest :: "review_env \<Rightarrow> string \<Rightarrow> string" where
  "digest env bytes = sha256_hex env bytes"

definition join_path :: "string \<Rightarrow> string \<Rightarrow> string" where
  "join_path p q =
     (if is_absolute q then q else if p = [] \<or> last p = CHR ''/'' then p @ q else p @ ''/'' @ q)"

definition repository_rules_fingerprint :: "review_env \<Rightarrow> string \<Rightarrow> string" where
  "repository_rules_fingerprint env repo =
     digest env (concat (map (\<lambda>name.
       case read_bytes env (join_path repo name) of
         None \<Rightarrow> []
       | Some bytes \<Rightarrow> name @ NUL @ take (16 * 1024) bytes @ NUL)
       [''AGENTS.md'', ''agents.md'', ''CLAUDE.md'']))"

section \<open>The target\<close>

definition range_refs :: "string \<Rightarrow> (string \<times> string) option" where
  "range_refs r = (case split_once ''...'' r of None \<Rightarrow> split_once ''..'' r | Some x \<Rightarrow> Some x)"

definition base_ref :: "string \<Rightarrow> string option" where
  "base_ref r =
     (let v = (case range_refs r of Some (base, _) \<Rightarrow> base | None \<Rightarrow> r)
      in if v \<noteq> [] \<and> v \<notin> {''--staged'', ''--cached'', ''WORKTREE''} then Some v else None)"

definition diff_mode_of :: "string \<Rightarrow> string" where
  "diff_mode_of r =
     (if r \<in> {''--staged'', ''--cached''} then ''staged''
      else if r = ''WORKTREE'' then ''worktree''
      else if contains_str r ''..'' then ''range''
      else ''worktree'')"

definition rev_parse :: "review_env \<Rightarrow> string \<Rightarrow> string \<Rightarrow> string result" where
  "rev_parse env repo v =
     command_output env repo [''rev-parse'', ''--verify'', v @ ''^{commit}'']"

definition option_result :: "('a \<Rightarrow> 'b result) \<Rightarrow> 'a option \<Rightarrow> 'b option result" where
  "option_result f x =
     (case x of None \<Rightarrow> Inr None | Some y \<Rightarrow> and_then (f y) (\<lambda>z. Inr (Some z)))"

definition resolve_target :: "review_env \<Rightarrow> string \<Rightarrow> string \<Rightarrow> review_target result" where
  "resolve_target env repo_path diff_range =
     (case canonicalize env repo_path of
        None \<Rightarrow> Inl ''Review repository is unavailable''
      | Some repo \<Rightarrow>
          and_then (reject_if (\<not> is_dir env repo) ''Review repository is not a directory'') (\<lambda>_.
          let r = trim diff_range
          in and_then (reject_if (r = [] \<or> (starts_with r ''-'' \<and> r \<noteq> ''--staged'' \<and> r \<noteq> ''--cached''))
                         ''Review range is empty or resembles an unsupported Git option'') (\<lambda>_.
             and_then (rev_parse env repo ''HEAD'') (\<lambda>current_head.
             and_then (option_result (rev_parse env repo) (base_ref r)) (\<lambda>base.
             and_then (option_result (rev_parse env repo) (map_option snd (range_refs r))) (\<lambda>head.
             and_then (git_diff env repo r None) (\<lambda>raw_diff.
             let head = (case head of None \<Rightarrow> current_head | Some h \<Rightarrow> h);
                 fingerprint = digest env raw_diff;
                 mode = diff_mode_of r;
                 identity = digest env (repo @ NUL @ mode @ NUL @ r @ NUL @ head @ NUL
                   @ (case base of None \<Rightarrow> [] | Some b \<Rightarrow> b) @ NUL @ fingerprint)
             in Inr \<lparr>target_schema = REVIEW_MANIFEST_SCHEMA_VERSION, target_identity = identity,
                  repository_root = repo, diff_mode = mode, requested_range = r, head_sha = head,
                  base_sha = base, source_fingerprint = fingerprint\<rparr>)))))))"

definition target_is_current :: "review_env \<Rightarrow> review_target \<Rightarrow> bool" where
  "target_is_current env t =
     (case resolve_target env (repository_root t) (requested_range t) of
        Inl _ \<Rightarrow> False
      | Inr current \<Rightarrow> source_fingerprint current = source_fingerprint t)"

section \<open>Units\<close>

definition scope_identity :: "review_env \<Rightarrow> review_target \<Rightarrow> string" where
  "scope_identity env t =
     digest env (repository_root t @ NUL @ diff_mode t @ NUL @ requested_range t @ NUL @ head_sha t
       @ NUL @ (case base_sha t of None \<Rightarrow> [] | Some b \<Rightarrow> b))"

definition planned_coverage :: "string \<Rightarrow> string \<Rightarrow> unit_state \<times> string option" where
  "planned_coverage path diff =
     (if is_generated_path path then (Skipped, Some ''generated_file_policy'')
      else if contains_str diff ''Binary files '' \<or> contains_str diff ''GIT binary patch''
      then (Skipped, Some ''binary_file_policy'')
      else (Failed, Some ''execution_pending''))"

definition fingerprint_of :: "review_env \<Rightarrow> review_target \<Rightarrow> string \<Rightarrow> string \<Rightarrow> string \<Rightarrow> string \<Rightarrow> string \<Rightarrow> string" where
  "fingerprint_of env t agent review_context status path diff =
     digest env (show_nat REVIEW_MANIFEST_SCHEMA_VERSION @ NUL @ scope_identity env t @ NUL @ path @ NUL
       @ status @ NUL @ agent @ NUL @ repository_rules_fingerprint env (repository_root t) @ '':''
       @ digest env review_context @ '':'' @ digest env diff)"

definition plan_unit :: "review_env \<Rightarrow> review_target \<Rightarrow> string \<Rightarrow> string \<Rightarrow> string \<times> string \<Rightarrow> review_unit result" where
  "plan_unit env t agent review_context = (\<lambda>(status, path).
     and_then (validate_relative_path path) (\<lambda>_.
     and_then (git_diff env (repository_root t) (requested_range t) (Some path)) (\<lambda>diff.
     let fingerprint = fingerprint_of env t agent review_context status path diff
     in case planned_coverage path diff of (state, reason) \<Rightarrow>
       Inr \<lparr>unit_id = ''unit-'' @ take 20 fingerprint, unit_path = path, file_status = status,
            unit_fingerprint = fingerprint, diff_bytes = length diff,
            prompt_budget_bytes = UNIT_PROMPT_BYTES, coverage_state = state, coverage_reason = reason\<rparr>)))"

definition plan_units_with_context ::
  "review_env \<Rightarrow> review_target \<Rightarrow> string \<Rightarrow> string \<Rightarrow> review_unit list result" where
  "plan_units_with_context env t agent review_context =
     and_then (changed_file_statuses env (repository_root t) (requested_range t)) (\<lambda>statuses.
     and_then (map_result (plan_unit env t agent review_context) statuses) (\<lambda>units.
       Inr (sort_key unit_path units)))"

definition plan_units :: "review_env \<Rightarrow> review_target \<Rightarrow> string \<Rightarrow> review_unit list result" where
  "plan_units env t agent = plan_units_with_context env t agent []"

definition read_target_diff :: "review_env \<Rightarrow> review_target \<Rightarrow> string result" where
  "read_target_diff env t = git_diff env (repository_root t) (requested_range t) None"

definition read_unit_diff :: "review_env \<Rightarrow> review_target \<Rightarrow> string \<Rightarrow> string result" where
  "read_unit_diff env t path =
     and_then (validate_relative_path path) (\<lambda>_.
       git_diff env (repository_root t) (requested_range t) (Some path))"

section \<open>Coverage\<close>

definition covered :: "review_unit \<Rightarrow> bool" where
  "covered u \<longleftrightarrow> coverage_state u \<in> {Reviewed, Reused}"

definition no_counts :: qualification_counts where
  "no_counts = \<lparr>qualified_count = 0, stale_count = 0, unresolved_count = 0, rejected_count = 0\<rparr>"

definition new_manifest ::
  "review_env \<Rightarrow> string \<Rightarrow> review_target \<Rightarrow> string \<Rightarrow> review_unit list \<Rightarrow> string \<Rightarrow> review_manifest" where
  "new_manifest env run t executor units now =
     \<lparr>schema_version = REVIEW_MANIFEST_SCHEMA_VERSION, run_id = run, review_id = None,
      manifest_target = t, executor_id = executor, executor_version = ''cli-v1'',
      policy_fingerprint =
        digest env (show_nat REVIEW_MANIFEST_SCHEMA_VERSION @ NUL @ executor @ NUL
          @ show_nat UNIT_PROMPT_BYTES @ NUL @ repository_rules_fingerprint env (repository_root t)),
      budgets = \<lparr>max_concurrency = REVIEW_MAX_CONCURRENCY, prompt_bytes_per_unit = UNIT_PROMPT_BYTES,
        output_bytes_per_attempt = REVIEW_OUTPUT_BYTES, attempt_limit = REVIEW_ATTEMPT_LIMIT,
        wall_time_seconds_per_attempt = REVIEW_WALL_TIME_SECONDS\<rparr>,
      manifest_units = units, manifest_counts = no_counts, manifest_diagnostics = [],
      coverage_complete = list_all covered units, target_stale = False, run_cancelled = False,
      created_at = now, completed_at = None\<rparr>"

definition settle_unit :: "bool \<Rightarrow> review_unit \<Rightarrow> review_unit" where
  "settle_unit truncated u =
     (if coverage_state u = Skipped then u
      else if truncated
      then u\<lparr>coverage_state := Failed, coverage_reason := Some ''aggregate_prompt_truncated''\<rparr>
      else u\<lparr>coverage_state := Reviewed, coverage_reason := None\<rparr>)"

definition complete_coverage :: "review_manifest \<Rightarrow> bool \<Rightarrow> review_manifest" where
  "complete_coverage m truncated =
     (let units = map (settle_unit truncated) (manifest_units m)
      in m\<lparr>manifest_units := units, coverage_complete := list_all covered units\<rparr>)"

section \<open>Qualifying candidates\<close>

definition rejected :: "string \<Rightarrow> candidate_state \<times> string" where
  "rejected reason = (Rejected, reason)"

definition stale :: "string \<Rightarrow> candidate_state \<times> string" where
  "stale reason = (Stale, reason)"

definition validate_text_field :: "json \<Rightarrow> string \<Rightarrow> nat \<Rightarrow> (candidate_state \<times> string) + unit" where
  "validate_text_field candidate field max_bytes =
     (let v = (case get_str field candidate of None \<Rightarrow> [] | Some s \<Rightarrow> s)
      in reject_if (trim v = [] \<or> max_bytes < length v \<or> CHR 0x00 \<in> set v)
           (rejected (''invalid_or_oversized_'' @ field)))"

definition confidence_ok :: "json \<Rightarrow> bool" where
  "confidence_ok candidate \<longleftrightarrow>
     (case get_key ''confidence'' candidate of
        None \<Rightarrow> True
      | Some v \<Rightarrow> (case as_f64 v of None \<Rightarrow> False | Some q \<Rightarrow> 0 \<le> q \<and> q \<le> 1))"

definition path_under :: "string \<Rightarrow> string \<Rightarrow> bool" where
  "path_under base p \<longleftrightarrow> take (length (components base)) (components p) = components base"

definition nonempty_trimmed :: "string option \<Rightarrow> string option" where
  "nonempty_trimmed s =
     (case s of None \<Rightarrow> None | Some v \<Rightarrow> if trim v = [] then None else Some (trim v))"

text \<open>The trimmed text of a line, unless there is no such line or nothing on it.\<close>

definition line_text :: "string list \<Rightarrow> int \<Rightarrow> string option" where
  "line_text lines line =
     (if nat (line - 1) < length lines then nonempty_trimmed (Some (lines ! nat (line - 1))) else None)"

definition anchor_lines :: "string list \<Rightarrow> string \<Rightarrow> int list" where
  "anchor_lines lines anchor =
     map (\<lambda>(i, _). int i + 1) (filter (\<lambda>(_, l). trim l = anchor) (enumerate 0 lines))"

definition resolve_anchor ::
  "string list \<Rightarrow> int \<Rightarrow> string \<Rightarrow> string option \<Rightarrow> (candidate_state \<times> string) + int \<times> string \<times> string" where
  "resolve_anchor lines line current declared =
     (case declared of
        None \<Rightarrow> Inr (line, take_chars 500 current, ''source_anchor_inferred_from_immutable_target'')
      | Some anchor \<Rightarrow>
          if anchor = current then Inr (line, take_chars 500 anchor, ''source_anchor_verified'')
          else (case anchor_lines lines anchor of
              [only] \<Rightarrow> Inr (only, take_chars 500 anchor, ''source_anchor_relocated_uniquely'')
            | [] \<Rightarrow> Inl (stale ''source_anchor_mismatch'')
            | _ \<Rightarrow> Inl (Unresolved, ''source_anchor_ambiguous'')))"

definition suggestion_fits :: "json \<Rightarrow> string \<Rightarrow> bool" where
  "suggestion_fits candidate path \<longleftrightarrow>
     (case get_str ''suggestion'' candidate of
        None \<Rightarrow> True | Some v \<Rightarrow> length v \<le> MAX_SUGGESTION_BYTES \<and> CHR 0x00 \<notin> set v) \<and>
     (case get_str ''suggestionFilePath'' candidate of None \<Rightarrow> True | Some p \<Rightarrow> p = path)"

text \<open>What the candidate says about itself, before any source is read.\<close>

definition well_formed_candidate ::
  "string list \<Rightarrow> json \<Rightarrow> string option \<Rightarrow> (candidate_state \<times> string) + string" where
  "well_formed_candidate changed candidate path =
     and_then (reject_if (as_object candidate = None) (rejected ''candidate_not_object'')) (\<lambda>_.
     case path of
       None \<Rightarrow> Inl (rejected ''missing_file_path'')
     | Some p \<Rightarrow>
         and_then (reject_if (\<not> is_ok (validate_relative_path p)) (rejected ''unsafe_file_path'')) (\<lambda>_.
         and_then (reject_if (is_sensitive_path p) (rejected ''protected_file_path'')) (\<lambda>_.
         and_then (reject_if (p \<notin> set changed) (rejected ''file_not_in_review_target'')) (\<lambda>_.
         and_then (validate_text_field candidate ''title'' MAX_FINDING_TITLE_BYTES) (\<lambda>_.
         and_then (validate_text_field candidate ''summary'' MAX_FINDING_SUMMARY_BYTES) (\<lambda>_.
         and_then (reject_if ((case get_str ''severity'' candidate of None \<Rightarrow> [] | Some s \<Rightarrow> s)
                     \<notin> {''critical'', ''high'', ''medium'', ''low''}) (rejected ''invalid_severity'')) (\<lambda>_.
         and_then (reject_if (\<not> confidence_ok candidate) (rejected ''invalid_confidence'')) (\<lambda>_.
           Inr p))))))))"

definition qualify_one ::
  "review_env \<Rightarrow> string \<Rightarrow> string list \<Rightarrow> json \<Rightarrow> string option \<Rightarrow> int option \<Rightarrow>
   (candidate_state \<times> string) + qualified_location" where
  "qualify_one env repo changed candidate path line =
     and_then (well_formed_candidate changed candidate path) (\<lambda>p.
     case canonicalize env (join_path repo p) of
       None \<Rightarrow> Inl (Unresolved, ''file_unavailable'')
     | Some file \<Rightarrow>
         and_then (reject_if (\<not> path_under repo file \<or> \<not> is_file env file)
                     (rejected ''path_escape_or_non_file'')) (\<lambda>_.
         case read_text env file of
           None \<Rightarrow> Inl (Unresolved, ''source_not_text'')
         | Some source \<Rightarrow>
             (case line of
                None \<Rightarrow> Inl (Unresolved, ''missing_line'')
              | Some n \<Rightarrow>
                  and_then (reject_if (n \<le> 0) (stale ''line_out_of_bounds'')) (\<lambda>_.
                  let lines = str_lines source
                  in case line_text lines n of
                       None \<Rightarrow> Inl (stale ''line_out_of_bounds_or_empty'')
                     | Some current \<Rightarrow>
                         and_then (resolve_anchor lines n current
                                     (nonempty_trimmed (get_str ''sourceAnchor'' candidate)))
                           (\<lambda>(resolved, anchor, reason).
                             Inr \<lparr>loc_path = p, loc_line = resolved, loc_anchor = anchor,
                               suggestion_allowed = suggestion_fits candidate p, loc_reason = reason\<rparr>)))))"

definition json_int :: "int \<Rightarrow> json" where
  "json_int n = Number (if 0 \<le> n then PosInt (nat n) else NegInt n)"

definition remove_key :: "string \<Rightarrow> (string, json) bmap \<Rightarrow> (string, json) bmap" where
  "remove_key k m = filter (\<lambda>(k', _). k' \<noteq> k) m"

definition with_location :: "int option \<Rightarrow> qualified_location \<Rightarrow> json \<Rightarrow> json" where
  "with_location line q candidate =
     (case candidate of
        Object m \<Rightarrow>
          let m1 = bmap_insert ''filePath'' (String (loc_path q)) m;
              m2 = bmap_insert ''line'' (json_int (loc_line q)) m1;
              m3 = bmap_insert ''sourceAnchor'' (String (loc_anchor q)) m2;
              m4 = bmap_insert ''qualification''
                     (object_of [(''state'', String ''qualified''),
                        (''policy_version'', json_int (int REVIEW_MANIFEST_SCHEMA_VERSION)),
                        (''original_line'', json_of_option json_int line),
                        (''resolved_line'', json_int (loc_line q))]) m3
          in Object (if suggestion_allowed q then m4 else remove_key ''suggestion'' m4)
      | v \<Rightarrow> v)"

definition candidate_path :: "json \<Rightarrow> string option" where
  "candidate_path candidate = nonempty_trimmed (get_str ''filePath'' candidate)"

definition candidate_line :: "json \<Rightarrow> int option" where
  "candidate_line candidate = Option.bind (get_key ''line'' candidate) as_i64"

definition qualify_candidate ::
  "review_env \<Rightarrow> string \<Rightarrow> string list \<Rightarrow> nat \<times> json \<Rightarrow> json option \<times> qualification_diagnostic" where
  "qualify_candidate env repo changed = (\<lambda>(i, candidate).
     let path = candidate_path candidate; line = candidate_line candidate
     in case qualify_one env repo changed candidate path line of
          Inr q \<Rightarrow>
            (Some (with_location line q candidate),
             \<lparr>candidate_index = i, diag_state = Qualified,
              diag_reason = (if suggestion_allowed q then loc_reason q
                             else loc_reason q @ ''_suggestion_removed''),
              diag_path = path, original_line = line, resolved_line = Some (loc_line q)\<rparr>)
        | Inl (state, reason) \<Rightarrow>
            (None, \<lparr>candidate_index = i, diag_state = state, diag_reason = reason,
              diag_path = path, original_line = line, resolved_line = None\<rparr>))"

fun increment_count :: "candidate_state \<Rightarrow> qualification_counts \<Rightarrow> qualification_counts" where
  "increment_count Qualified c = c\<lparr>qualified_count := qualified_count c + 1\<rparr>"
| "increment_count Stale c = c\<lparr>stale_count := stale_count c + 1\<rparr>"
| "increment_count Unresolved c = c\<lparr>unresolved_count := unresolved_count c + 1\<rparr>"
| "increment_count Rejected c = c\<lparr>rejected_count := rejected_count c + 1\<rparr>"

definition count_states :: "candidate_state list \<Rightarrow> qualification_counts" where
  "count_states states = fold increment_count states no_counts"

definition plain_diagnostic ::
  "candidate_state \<Rightarrow> string \<Rightarrow> nat \<times> json \<Rightarrow> qualification_diagnostic" where
  "plain_diagnostic state reason = (\<lambda>(i, candidate).
     \<lparr>candidate_index = i, diag_state = state, diag_reason = reason,
      diag_path = get_str ''filePath'' candidate, original_line = candidate_line candidate,
      resolved_line = None\<rparr>)"

definition invalidate_candidates ::
  "json list \<Rightarrow> candidate_state \<Rightarrow> string \<Rightarrow> qualified_candidates" where
  "invalidate_candidates candidates state reason =
     \<lparr>findings = [], counts = count_states (map (\<lambda>_. state) candidates),
      diagnostics = map (plain_diagnostic state reason) (enumerate 0 candidates)\<rparr>"

definition reject_all :: "json list \<Rightarrow> string \<Rightarrow> qualified_candidates" where
  "reject_all candidates reason =
     \<lparr>findings = [], counts = no_counts\<lparr>rejected_count := length candidates\<rparr>,
      diagnostics = map (plain_diagnostic Rejected reason) (enumerate 0 candidates)\<rparr>"

definition qualify_candidates ::
  "review_env \<Rightarrow> string \<Rightarrow> string list \<Rightarrow> json list \<Rightarrow> qualified_candidates" where
  "qualify_candidates env repo_path changed candidates =
     (case canonicalize env repo_path of
        None \<Rightarrow> reject_all candidates ''repository_unavailable''
      | Some repo \<Rightarrow>
          let rs = map (qualify_candidate env repo changed) (enumerate 0 candidates)
          in \<lparr>findings = List.map_filter fst rs, counts = count_states (map (diag_state \<circ> snd) rs),
              diagnostics = map snd rs\<rparr>)"

section \<open>What qualification promises\<close>

text \<open>A finding is grounded when it names a line that is there, in a file under review.\<close>

definition grounded :: "review_env \<Rightarrow> string \<Rightarrow> string list \<Rightarrow> json \<Rightarrow> bool" where
  "grounded env repo changed f \<longleftrightarrow>
     (\<exists>path file source line.
        get_str ''filePath'' f = Some path \<and> path \<in> set changed \<and>
        validate_relative_path path = Inr () \<and> \<not> is_sensitive_path path \<and>
        canonicalize env (join_path repo path) = Some file \<and> path_under repo file \<and> is_file env file \<and>
        read_text env file = Some source \<and>
        get_key ''line'' f = Some (json_int line) \<and> 1 \<le> line \<and> line \<le> int (length (str_lines source)) \<and>
        trim (str_lines source ! nat (line - 1)) \<noteq> [] \<and>
        get_str ''sourceAnchor'' f = Some (take_chars 500 (trim (str_lines source ! nat (line - 1))))) \<and>
     (\<exists>s. get_str ''severity'' f = Some s \<and> s \<in> {''critical'', ''high'', ''medium'', ''low''}) \<and>
     (\<exists>t. get_str ''title'' f = Some t \<and> trim t \<noteq> [] \<and> length t \<le> MAX_FINDING_TITLE_BYTES)"

lemma count_states_sum:
  "qualified_count (count_states ss) + stale_count (count_states ss) + unresolved_count (count_states ss)
     + rejected_count (count_states ss) = length ss"
proof -
  have "qualified_count (fold increment_count ss c) + stale_count (fold increment_count ss c)
      + unresolved_count (fold increment_count ss c) + rejected_count (fold increment_count ss c)
    = qualified_count c + stale_count c + unresolved_count c + rejected_count c + length ss" for c
  proof (induction ss arbitrary: c)
    case (Cons s ss)
    show ?case using Cons [of "increment_count s c"] by (cases s) simp_all
  qed simp
  then show ?thesis by (simp add: count_states_def no_counts_def)
qed

lemma count_states_qualified: "qualified_count (count_states ss) = length (filter (\<lambda>s. s = Qualified) ss)"
proof -
  have "qualified_count (fold increment_count ss c) = qualified_count c + length (filter (\<lambda>s. s = Qualified) ss)" for c
  proof (induction ss arbitrary: c)
    case (Cons s ss)
    show ?case using Cons [of "increment_count s c"] by (cases s) simp_all
  qed simp
  then show ?thesis by (simp add: count_states_def no_counts_def)
qed


lemma map_of_remove_key: "map_of (remove_key k m) x = (if x = k then None else map_of m x)"
  by (induction m) (auto simp: remove_key_def)

lemma get_key_with_location:
  "k \<noteq> ''suggestion'' \<Longrightarrow> k \<noteq> ''qualification'' \<Longrightarrow>
     get_key k (with_location line q (Object m)) =
       (if k = ''filePath'' then Some (String (loc_path q))
        else if k = ''line'' then Some (json_int (loc_line q))
        else if k = ''sourceAnchor'' then Some (String (loc_anchor q))
        else map_of m k)"
  by (simp add: with_location_def Let_def map_of_remove_key)

lemma well_formed_Inr:
  "well_formed_candidate changed candidate path = Inr p \<longleftrightarrow>
     (\<exists>m. candidate = Object m) \<and> path = Some p \<and> validate_relative_path p = Inr () \<and>
     \<not> is_sensitive_path p \<and> p \<in> set changed \<and>
     validate_text_field candidate ''title'' MAX_FINDING_TITLE_BYTES = Inr () \<and>
     validate_text_field candidate ''summary'' MAX_FINDING_SUMMARY_BYTES = Inr () \<and>
     (case get_str ''severity'' candidate of None \<Rightarrow> [] | Some s \<Rightarrow> s)
       \<in> {''critical'', ''high'', ''medium'', ''low''} \<and>
     confidence_ok candidate"
  by (cases candidate; cases path; simp add: well_formed_candidate_def result_simps is_ok_iff; metis)

lemma validate_text_field_Inr:
  "validate_text_field c k n = Inr u \<Longrightarrow>
     \<exists>t. get_str k c = Some t \<and> trim t \<noteq> [] \<and> length t \<le> n \<and> CHR 0x00 \<notin> set t"
  by (cases "get_str k c") (auto simp: validate_text_field_def result_simps trim_def trim_start_def trim_end_def)

lemma line_text_Some:
  "line_text lines n = Some t \<longleftrightarrow> nat (n - 1) < length lines \<and> t = trim (lines ! nat (n - 1)) \<and> t \<noteq> []"
  by (auto simp: line_text_def nonempty_trimmed_def split: if_splits)

lemma anchor_lines_set:
  "n \<in> set (anchor_lines lines a) \<longleftrightarrow> 1 \<le> n \<and> n \<le> int (length lines) \<and> trim (lines ! nat (n - 1)) = a"
proof
  assume "n \<in> set (anchor_lines lines a)"
  then show "1 \<le> n \<and> n \<le> int (length lines) \<and> trim (lines ! nat (n - 1)) = a"
    by (auto simp: anchor_lines_def in_set_enumerate_eq)
next
  assume "1 \<le> n \<and> n \<le> int (length lines) \<and> trim (lines ! nat (n - 1)) = a"
  then have "(nat (n - 1), lines ! nat (n - 1)) \<in> set (filter (\<lambda>(_, l). trim l = a) (enumerate 0 lines))"
    and "n = int (nat (n - 1)) + 1"
    by (auto simp: in_set_enumerate_eq)
  then show "n \<in> set (anchor_lines lines a)"
    unfolding anchor_lines_def by (metis (mono_tags, lifting) case_prod_conv image_eqI set_map)
qed

text \<open>Whatever branch resolved the anchor, the line it names carries it.\<close>

lemma resolve_anchor_Inr:
  assumes "resolve_anchor lines n (trim (lines ! nat (n - 1))) declared = Inr (k, a, why)"
    and "1 \<le> n" and "nat (n - 1) < length lines" and "declared \<noteq> Some []" and "trim (lines ! nat (n - 1)) \<noteq> []"
  shows "1 \<le> k \<and> k \<le> int (length lines) \<and> trim (lines ! nat (k - 1)) \<noteq> [] \<and>
    a = take_chars 500 (trim (lines ! nat (k - 1))) \<and>
    (case declared of None \<Rightarrow> k = n | Some d \<Rightarrow> trim (lines ! nat (k - 1)) = d)"
proof (cases declared)
  case None
  with assms show ?thesis by (auto simp: resolve_anchor_def)
next
  case (Some d)
  show ?thesis
  proof (cases "d = trim (lines ! nat (n - 1))")
    case True
    with assms Some show ?thesis by (auto simp: resolve_anchor_def)
  next
    case False
    with assms(1) Some have "anchor_lines lines d = [k]" and a: "a = take_chars 500 d"
      by (auto simp: resolve_anchor_def split: list.splits)
    then have "k \<in> set (anchor_lines lines d)" by simp
    with a assms(4) Some show ?thesis by (auto simp: anchor_lines_set)
  qed
qed

lemma nonempty_trimmed_not_Nil: "nonempty_trimmed s \<noteq> Some []"
  by (auto simp: nonempty_trimmed_def split: option.splits)

lemma qualify_one_Inr:
  assumes "qualify_one env repo changed candidate path line = Inr q"
  shows "\<exists>fl source n. well_formed_candidate changed candidate path = Inr (loc_path q) \<and>
    canonicalize env (join_path repo (loc_path q)) = Some fl \<and> path_under repo fl \<and> is_file env fl \<and>
    read_text env fl = Some source \<and> line = Some n \<and> 1 \<le> n \<and>
    1 \<le> loc_line q \<and> loc_line q \<le> int (length (str_lines source)) \<and>
    trim (str_lines source ! nat (loc_line q - 1)) \<noteq> [] \<and>
    loc_anchor q = take_chars 500 (trim (str_lines source ! nat (loc_line q - 1))) \<and>
    suggestion_allowed q = suggestion_fits candidate (loc_path q)"
proof -
  from assms obtain p where p: "well_formed_candidate changed candidate path = Inr p"
    by (auto simp: qualify_one_def and_then_Inr)
  from assms p obtain fl where fl: "canonicalize env (join_path repo p) = Some fl"
    by (cases "canonicalize env (join_path repo p)") (auto simp: qualify_one_def)
  from assms p fl obtain source where source: "read_text env fl = Some source"
    and here: "path_under repo fl" "is_file env fl"
    by (cases "read_text env fl") (auto simp: qualify_one_def result_simps)
  from assms p fl source here obtain n where n: "line = Some n"
    by (cases line) (auto simp: qualify_one_def result_simps)
  from assms p fl source here n have pos: "1 \<le> n"
    by (auto simp: qualify_one_def result_simps)
  from assms p fl source here n pos obtain t where t: "line_text (str_lines source) n = Some t"
    by (cases "line_text (str_lines source) n") (auto simp: qualify_one_def result_simps Let_def)
  from assms p fl source here n pos t obtain k a why where
    k: "resolve_anchor (str_lines source) n t (nonempty_trimmed (get_str ''sourceAnchor'' candidate)) = Inr (k, a, why)"
    and q: "q = \<lparr>loc_path = p, loc_line = k, loc_anchor = a, suggestion_allowed = suggestion_fits candidate p,
       loc_reason = why\<rparr>"
    by (auto simp: qualify_one_def result_simps Let_def)
  from t have t': "nat (n - 1) < length (str_lines source)" "t = trim (str_lines source ! nat (n - 1))" "t \<noteq> []"
    by (auto simp: line_text_Some)
  from resolve_anchor_Inr [OF k [unfolded t'(2)] pos t'(1) nonempty_trimmed_not_Nil] t'
  show ?thesis using p fl source here n pos by (auto simp: q)
qed

lemma qualified_grounded:
  assumes "qualify_one env repo changed candidate path line = Inr q"
  shows "grounded env repo changed (with_location line q candidate)"
proof -
  from qualify_one_Inr [OF assms] obtain fl source where
    wf: "well_formed_candidate changed candidate path = Inr (loc_path q)"
    and at: "canonicalize env (join_path repo (loc_path q)) = Some fl" "path_under repo fl" "is_file env fl"
      "read_text env fl = Some source" "1 \<le> loc_line q" "loc_line q \<le> int (length (str_lines source))"
      "trim (str_lines source ! nat (loc_line q - 1)) \<noteq> []"
      "loc_anchor q = take_chars 500 (trim (str_lines source ! nat (loc_line q - 1)))" by blast
  from wf obtain m where m: "candidate = Object m" by (auto simp: well_formed_Inr)
  have keep: "get_str k (with_location line q candidate) = get_str k candidate"
    if "k \<in> {''severity'', ''title'', ''summary''}" for k
    using that by (auto simp: get_str_def m get_key_with_location)
  have own: "get_str ''filePath'' (with_location line q candidate) = Some (loc_path q)"
    "get_key ''line'' (with_location line q candidate) = Some (json_int (loc_line q))"
    "get_str ''sourceAnchor'' (with_location line q candidate) = Some (loc_anchor q)"
    by (simp_all add: get_str_def m get_key_with_location)
  have sev: "\<exists>s. get_str ''severity'' candidate = Some s \<and> s \<in> {''critical'', ''high'', ''medium'', ''low''}"
    using wf by (cases "get_str ''severity'' candidate") (auto simp: well_formed_Inr)
  have title: "\<exists>t. get_str ''title'' candidate = Some t \<and> trim t \<noteq> [] \<and> length t \<le> MAX_FINDING_TITLE_BYTES"
    using wf validate_text_field_Inr unfolding well_formed_Inr by blast
  show ?thesis
    unfolding grounded_def own keep [of "''severity''", simplified] keep [of "''title''", simplified]
    using wf at sev title unfolding well_formed_Inr by blast
qed


text \<open>A refusal is never labelled qualified.\<close>

definition refuses :: "(candidate_state \<times> string) + 'a \<Rightarrow> bool" where
  "refuses r \<longleftrightarrow> (\<forall>why. r \<noteq> Inl (Qualified, why))"

lemma refuses_and_then: "refuses r \<Longrightarrow> (\<And>x. refuses (f x)) \<Longrightarrow> refuses (and_then r f)"
  by (cases r) (auto simp: refuses_def)

lemma refuses_simps [simp]:
  "refuses (Inr x)" "refuses (Inl (s, w)) \<longleftrightarrow> s \<noteq> Qualified" "refuses (reject_if b (s, w)) \<longleftrightarrow> \<not> b \<or> s \<noteq> Qualified"
  by (auto simp: refuses_def reject_if_def)

lemma refuses_anchor: "refuses (resolve_anchor ls n t d)"
  by (simp add: resolve_anchor_def stale_def split: option.splits list.splits)

lemma refuses_well_formed: "refuses (well_formed_candidate changed candidate path)"
  by (cases path)
    (simp_all add: well_formed_candidate_def validate_text_field_def Let_def rejected_def refuses_and_then)

lemma refuses_qualify_one: "refuses (qualify_one env repo changed candidate path line)"
  by (simp add: qualify_one_def Let_def rejected_def stale_def refuses_and_then refuses_well_formed
      refuses_anchor split: option.split prod.split)

lemma qualify_one_not_qualified:
  "qualify_one env repo changed candidate path line \<noteq> Inl (Qualified, why)"
  using refuses_qualify_one by (simp add: refuses_def)

lemma index_enumerate:
  assumes "\<And>i c. f (g (i, c)) = i"
  shows "map f (map g (enumerate n cs)) = [n..<n + length cs]"
proof -
  have eq: "map f (map g (enumerate n cs)) = map fst (enumerate n cs)"
    by (auto simp: assms simp del: map_fst_enumerate)
  show ?thesis unfolding eq map_fst_enumerate ..
qed

lemma set_findings:
  "f \<in> set (findings (qualify_candidates env repo_path changed candidates)) \<longleftrightarrow>
     (\<exists>repo c q. canonicalize env repo_path = Some repo \<and> c \<in> set candidates \<and>
        qualify_one env repo changed c (candidate_path c) (candidate_line c) = Inr q \<and>
        f = with_location (candidate_line c) q c)"
proof (cases "canonicalize env repo_path")
  case (Some repo)
  have one: "fst (qualify_candidate env repo changed x) = Some g \<longleftrightarrow>
      (\<exists>q. qualify_one env repo changed (snd x) (candidate_path (snd x)) (candidate_line (snd x)) = Inr q \<and>
         g = with_location (candidate_line (snd x)) q (snd x))" for x g
    by (cases x) (auto simp: qualify_candidate_def Let_def split: sum.splits)
  have snds: "(\<exists>x \<in> set (enumerate 0 candidates). P (snd x)) \<longleftrightarrow> (\<exists>c \<in> set candidates. P c)" for P
  proof -
    have "set candidates = snd ` set (enumerate 0 candidates)"
      by (metis map_snd_enumerate set_map)
    then show ?thesis by auto
  qed
  have "f \<in> set (findings (qualify_candidates env repo_path changed candidates)) \<longleftrightarrow>
      (\<exists>x \<in> set (enumerate 0 candidates). fst (qualify_candidate env repo changed x) = Some f)"
    by (simp add: qualify_candidates_def Some Let_def set_map_filter_Some)
  with snds [of "\<lambda>c. \<exists>q. qualify_one env repo changed c (candidate_path c) (candidate_line c) = Inr q \<and>
      f = with_location (candidate_line c) q c"] Some
  show ?thesis unfolding one by auto
qed (simp add: qualify_candidates_def reject_all_def)

text \<open>
  No finding leaves qualification without ground. Every finding that is kept names a path
  under review that is relative, unprotected and resolves inside the repository to a readable
  file, a line of that file with text on it, and as its anchor the text of that line; it has an
  accepted severity and a bounded title. The counts account for every candidate, the qualified
  ones being the findings, and the diagnostics are numbered in the order of the candidates.
\<close>

theorem qualified_findings_are_grounded:
  "let r = qualify_candidates env repo_path changed cs
   in list_all (\<lambda>f. \<exists>repo. canonicalize env repo_path = Some repo \<and> grounded env repo changed f) (findings r) \<and>
      qualified_count (counts r) = length (findings r) \<and>
      qualified_count (counts r) + stale_count (counts r) + unresolved_count (counts r)
        + rejected_count (counts r) = length cs \<and>
      map candidate_index (diagnostics r) = [0..<length cs]"
proof -
  define r where "r = qualify_candidates env repo_path changed cs"
  have ground: "list_all (\<lambda>f. \<exists>repo. canonicalize env repo_path = Some repo \<and> grounded env repo changed f) (findings r)"
    using qualified_grounded by (auto simp: r_def set_findings list_all_iff)
  have "qualified_count (counts r) = length (findings r) \<and>
      qualified_count (counts r) + stale_count (counts r) + unresolved_count (counts r)
        + rejected_count (counts r) = length cs \<and>
      map candidate_index (diagnostics r) = [0..<length cs]"
  proof (cases "canonicalize env repo_path")
    case None
    have "map candidate_index (map (plain_diagnostic Rejected why) (enumerate 0 cs)) = [0..<0 + length cs]" for why
      by (rule index_enumerate) (simp add: plain_diagnostic_def)
    then show ?thesis using None by (simp add: r_def qualify_candidates_def reject_all_def no_counts_def)
  next
    case (Some repo)
    let ?rs = "map (qualify_candidate env repo changed) (enumerate 0 cs)"
    have index: "candidate_index (snd (qualify_candidate env repo changed (i, c))) = i"
      and state: "fst (qualify_candidate env repo changed (i, c)) \<noteq> None \<longleftrightarrow>
        diag_state (snd (qualify_candidate env repo changed (i, c))) = Qualified" for i c
      using qualify_one_not_qualified
      by (auto simp: qualify_candidate_def Let_def split: sum.splits)
    have "map (candidate_index \<circ> snd) ?rs = [0..<0 + length cs]"
      by (rule index_enumerate [where f = "candidate_index \<circ> snd"]) (simp add: index)
    moreover have "length (List.map_filter fst ?rs) = length (filter (\<lambda>s. s = Qualified) (map (diag_state \<circ> snd) ?rs))"
    proof -
      have "length (List.map_filter fst (map (qualify_candidate env repo changed) ics)) =
          length (filter (\<lambda>s. s = Qualified) (map (diag_state \<circ> snd) (map (qualify_candidate env repo changed) ics)))" for ics
        by (induction ics) (auto simp: List.map_filter_simps state [symmetric] split: option.splits)
      then show ?thesis .
    qed
    ultimately show ?thesis
      using count_states_sum [of "map (diag_state \<circ> snd) ?rs"]
      by (simp add: r_def qualify_candidates_def Some Let_def count_states_qualified comp_assoc)
  qed
  with ground show ?thesis by (simp add: r_def Let_def)
qed


section \<open>A small world\<close>

definition sample_world :: "string \<Rightarrow> review_env" where
  "sample_world text =
     \<lparr>canonicalize = (\<lambda>p. Some p), is_dir = (\<lambda>_. True), is_file = (\<lambda>_. True),
      read_text = (\<lambda>_. Some text), read_bytes = (\<lambda>_. None), git_process = (\<lambda>_ args. Some (True,
        if ''--name-status'' \<in> set args then ''M'' @ [CHR 0x09] @ ''a'' else ''@@'')),
      sha256_hex = (\<lambda>_. ''0'')\<rparr>"

definition review_sample_target :: review_target where
  "review_sample_target = \<lparr>target_schema = 1, target_identity = ''0'', repository_root = ''/r'', diff_mode = ''worktree'',
     requested_range = ''WORKTREE'', head_sha = ''@@'', base_sha = None, source_fingerprint = ''0''\<rparr>"

definition sample_unit :: "unit_state \<Rightarrow> string option \<Rightarrow> review_unit" where
  "sample_unit s reason = \<lparr>unit_id = ''unit-0'', unit_path = ''a'', file_status = ''M'', unit_fingerprint = ''0'',
     diff_bytes = 2, prompt_budget_bytes = UNIT_PROMPT_BYTES, coverage_state = s, coverage_reason = reason\<rparr>"

section \<open>What planning promises\<close>

lemma plan_unit_Inr:
  assumes "plan_unit env t agent ctx (status, path) = Inr u"
  shows "\<exists>diff. validate_relative_path path = Inr () \<and>
    git_diff env (repository_root t) (requested_range t) (Some path) = Inr diff \<and>
    unit_path u = path \<and> file_status u = status \<and>
    (coverage_state u, coverage_reason u) = planned_coverage path diff \<and>
    unit_fingerprint u = fingerprint_of env t agent ctx status path diff \<and>
    unit_id u = ''unit-'' @ take 20 (unit_fingerprint u)"
proof -
  from assms obtain diff where diff: "validate_relative_path path = Inr ()"
      "git_diff env (repository_root t) (requested_range t) (Some path) = Inr diff"
    by (auto simp: plan_unit_def and_then_Inr)
  with assms show ?thesis
    by (cases "planned_coverage path diff") (auto simp: plan_unit_def Let_def)
qed

text \<open>
  The plan of a review covers the whole change. It has one unit for every file Git reports
  as changed, in path order, each for a safe relative path; a unit is skipped exactly when its
  path is generated or its diff is binary, every other one waits as failed, so that a new
  manifest is complete only when nothing changed.
\<close>

theorem planned_units_cover_the_change:
  assumes "plan_units_with_context env t agent ctx = Inr units"
  shows "(\<exists>statuses. changed_file_statuses env (repository_root t) (requested_range t) = Inr statuses \<and>
      mset (map (\<lambda>u. (file_status u, unit_path u)) units) = mset statuses) \<and>
    sorted (map unit_path units) \<and>
    list_all (\<lambda>u. validate_relative_path (unit_path u) = Inr () \<and>
      (\<exists>diff. git_diff env (repository_root t) (requested_range t) (Some (unit_path u)) = Inr diff \<and>
         coverage_state u = (if is_generated_path (unit_path u) \<or> contains_str diff ''Binary files ''
             \<or> contains_str diff ''GIT binary patch'' then Skipped else Failed))) units \<and>
    (coverage_complete (new_manifest env run t agent units now) \<longleftrightarrow> units = [])"
proof -
  from assms obtain statuses us where
    st: "changed_file_statuses env (repository_root t) (requested_range t) = Inr statuses"
    and us: "map_result (plan_unit env t agent ctx) statuses = Inr us" and units: "units = sort_key unit_path us"
    by (auto simp: plan_units_with_context_def and_then_Inr)
  have nth: "plan_unit env t agent ctx (statuses ! i) = Inr (us ! i)" if "i < length statuses" for i
    using map_result_Inr_nth [OF us that] .
  have len: "length us = length statuses" by (rule map_result_Inr_length [OF us])
  have "map (\<lambda>u. (file_status u, unit_path u)) us = statuses"
  proof (rule nth_equalityI)
    fix i assume "i < length (map (\<lambda>u. (file_status u, unit_path u)) us)"
    then show "map (\<lambda>u. (file_status u, unit_path u)) us ! i = statuses ! i"
      using nth [of i] plan_unit_Inr [of env t agent ctx "fst (statuses ! i)" "snd (statuses ! i)" "us ! i"]
      by (auto simp: len)
  qed (simp add: len)
  then have ms: "mset (map (\<lambda>u. (file_status u, unit_path u)) units) = mset statuses"
    by (metis mset_map mset_sort units)
  have each: "validate_relative_path (unit_path u) = Inr () \<and>
      (\<exists>diff. git_diff env (repository_root t) (requested_range t) (Some (unit_path u)) = Inr diff \<and>
         coverage_state u = (if is_generated_path (unit_path u) \<or> contains_str diff ''Binary files ''
             \<or> contains_str diff ''GIT binary patch'' then Skipped else Failed))" if u: "u \<in> set units" for u
  proof -
    from u obtain i where i: "i < length statuses" "us ! i = u" by (auto simp: units in_set_conv_nth len)
    from plan_unit_Inr [of env t agent ctx "fst (statuses ! i)" "snd (statuses ! i)" u] nth [OF i(1)] i(2)
    obtain diff where "validate_relative_path (unit_path u) = Inr ()"
      "git_diff env (repository_root t) (requested_range t) (Some (unit_path u)) = Inr diff"
      "(coverage_state u, coverage_reason u) = planned_coverage (unit_path u) diff" by auto
    then show ?thesis by (auto simp: planned_coverage_def split: if_splits)
  qed
  have "coverage_complete (new_manifest env run t agent units now) \<longleftrightarrow> units = []"
  proof (cases units)
    case (Cons u us')
    with each [of u] have "\<not> covered u" by (auto simp: covered_def split: if_splits)
    then show ?thesis by (simp add: new_manifest_def Cons)
  qed (simp add: new_manifest_def)
  then show ?thesis using st ms each by (auto simp: list_all_iff units)
qed

lemma sample_resolved: "resolve_target (sample_world ''x=1'') ''/r'' ''WORKTREE'' = Inr review_sample_target"
  by code_simp

lemma sample_plan:
  "plan_units_with_context (sample_world ''x=1'') review_sample_target ''claude'' ''c''
     = Inr [sample_unit Failed (Some ''execution_pending'')]"
  by code_simp

theorem planned_units_cover_the_change_witness:
  "mset [(''M'', ''a'')] = mset (map (\<lambda>u. (file_status u, unit_path u)) [sample_unit Failed (Some ''execution_pending'')]) \<and>
     validate_relative_path ''a'' = Inr () \<and>
     \<not> coverage_complete (new_manifest (sample_world ''x=1'') ''run'' review_sample_target ''claude''
         [sample_unit Failed (Some ''execution_pending'')] ''t'')"
  using planned_units_cover_the_change [OF sample_plan, of "''run''" "''t''"]
  by (simp add: sample_unit_def)

section \<open>Qualifying twice\<close>

text \<open>
  A review qualifies the findings of the specialists before the coordinator sees them, and what
  is left of them again at the end.
\<close>

lemma as_i64_json_int: "1 \<le> n \<Longrightarrow> n < 2 ^ 63 \<Longrightarrow> as_i64 (json_int n) = Some n"
  by (simp add: json_int_def nat_less_iff)

lemma take_chars_short: "length (char_chunks s) \<le> n \<Longrightarrow> take_chars n s = s"
  by (simp add: take_chars_def)

lemma char_chunks_take_chars: "char_chunks (take_chars n s) = take n (char_chunks s)"
  unfolding take_chars_def by (rule char_chunks_take)

lemma candidate_path_trimmed: "candidate_path c = Some p \<Longrightarrow> trim p = p \<and> p \<noteq> []"
  by (auto simp: candidate_path_def nonempty_trimmed_def split: option.splits if_splits)

text \<open>Everything that is read before the anchor comes out the same the second time.\<close>

lemma requalify:
  assumes q: "qualify_one env repo changed c (candidate_path c) (candidate_line c) = Inr q"
    and f: "f = with_location (candidate_line c) q c" and small: "loc_line q < 2 ^ 63"
  shows "\<exists>fl source lines t. canonicalize env (join_path repo (loc_path q)) = Some fl \<and>
    read_text env fl = Some source \<and> lines = str_lines source \<and>
    t = trim (lines ! nat (loc_line q - 1)) \<and> t \<noteq> [] \<and> loc_anchor q = take_chars 500 t \<and>
    1 \<le> loc_line q \<and> loc_line q \<le> int (length lines) \<and>
    qualify_one env repo changed f (candidate_path f) (candidate_line f) =
      and_then (resolve_anchor lines (loc_line q) t (nonempty_trimmed (Some (take_chars 500 t))))
        (\<lambda>(resolved, anchor, reason). Inr \<lparr>loc_path = loc_path q, loc_line = resolved, loc_anchor = anchor,
           suggestion_allowed = suggestion_fits f (loc_path q), loc_reason = reason\<rparr>)"
proof -
  from qualify_one_Inr [OF q] obtain fl source where
    wf: "well_formed_candidate changed c (candidate_path c) = Inr (loc_path q)"
    and at: "canonicalize env (join_path repo (loc_path q)) = Some fl" "path_under repo fl" "is_file env fl"
      "read_text env fl = Some source" "1 \<le> loc_line q" "loc_line q \<le> int (length (str_lines source))"
      "trim (str_lines source ! nat (loc_line q - 1)) \<noteq> []"
      "loc_anchor q = take_chars 500 (trim (str_lines source ! nat (loc_line q - 1)))" by blast
  from wf obtain m where m: "c = Object m" and p: "candidate_path c = Some (loc_path q)" by (auto simp: well_formed_Inr)
  have keep: "get_key k f = get_key k c" if "k \<in> {''severity'', ''title'', ''summary'', ''confidence''}" for k
    using that by (auto simp: f m get_key_with_location)
  have own: "get_str ''filePath'' f = Some (loc_path q)" "get_key ''line'' f = Some (json_int (loc_line q))"
    "get_str ''sourceAnchor'' f = Some (loc_anchor q)"
    by (simp_all add: get_str_def f m get_key_with_location)
  have path: "candidate_path f = Some (loc_path q)"
    using candidate_path_trimmed [OF p] by (simp add: candidate_path_def own nonempty_trimmed_def)
  have line: "candidate_line f = Some (loc_line q)"
    using at(5) small by (simp add: candidate_line_def own as_i64_json_int)
  have "well_formed_candidate changed f (Some (loc_path q)) = Inr (loc_path q)"
    using wf unfolding well_formed_Inr validate_text_field_def confidence_ok_def get_str_def
      keep [of "''severity''", simplified] keep [of "''title''", simplified] keep [of "''summary''", simplified]
      keep [of "''confidence''", simplified]
    by (auto simp: f m with_location_def Let_def)
  moreover have "line_text (str_lines source) (loc_line q) = Some (trim (str_lines source ! nat (loc_line q - 1)))"
    using at(5-7) by (simp add: line_text_Some)
  ultimately have "qualify_one env repo changed f (candidate_path f) (candidate_line f) =
      and_then (resolve_anchor (str_lines source) (loc_line q) (trim (str_lines source ! nat (loc_line q - 1)))
          (nonempty_trimmed (Some (take_chars 500 (trim (str_lines source ! nat (loc_line q - 1)))))))
        (\<lambda>(resolved, anchor, reason). Inr \<lparr>loc_path = loc_path q, loc_line = resolved, loc_anchor = anchor,
           suggestion_allowed = suggestion_fits f (loc_path q), loc_reason = reason\<rparr>)"
    using at by (simp add: qualify_one_def path line own Let_def)
  with at show ?thesis by blast
qed

text \<open>
  A finding that was qualified qualifies again, at the same place and with the same anchor,
  as long as the source is unchanged and its line is not long: an anchor of fewer than 500
  characters is the whole text of its line.
\<close>

theorem short_line_requalifies:
  assumes "qualify_one env repo changed c (candidate_path c) (candidate_line c) = Inr q"
    and "f = with_location (candidate_line c) q c" and "loc_line q < 2 ^ 63"
    and "length (char_chunks (loc_anchor q)) < 500"
  shows "\<exists>q'. qualify_one env repo changed f (candidate_path f) (candidate_line f) = Inr q' \<and>
    loc_path q' = loc_path q \<and> loc_line q' = loc_line q \<and> loc_anchor q' = loc_anchor q"
proof -
  from requalify [OF assms(1-3)] obtain lines t where
    t: "t = trim (lines ! nat (loc_line q - 1))" "t \<noteq> []" "loc_anchor q = take_chars 500 t"
    and again: "qualify_one env repo changed f (candidate_path f) (candidate_line f) =
      and_then (resolve_anchor lines (loc_line q) t (nonempty_trimmed (Some (take_chars 500 t))))
        (\<lambda>(resolved, anchor, reason). Inr \<lparr>loc_path = loc_path q, loc_line = resolved, loc_anchor = anchor,
           suggestion_allowed = suggestion_fits f (loc_path q), loc_reason = reason\<rparr>)" by blast
  have "length (char_chunks t) \<le> 500"
    using assms(4) t(3) by (simp add: char_chunks_take_chars)
  then have "take_chars 500 t = t" by (rule take_chars_short)
  moreover have "trim t = t" using t(1) by simp
  ultimately show ?thesis using t again by (simp add: nonempty_trimmed_def resolve_anchor_def)
qed

text \<open>
  A finding on a long line is lost. When the text of the line a finding was qualified on has
  more than 500 characters, the stored anchor is cut, and unless some line has exactly the cut
  text, the second qualification of the unchanged source calls the finding stale.
\<close>

theorem long_line_finding_is_lost:
  assumes "qualify_one env repo changed c (candidate_path c) (candidate_line c) = Inr q"
    and "f = with_location (candidate_line c) q c" and "loc_line q < 2 ^ 63"
    and "canonicalize env (join_path repo (loc_path q)) = Some path" and "read_text env path = Some source"
    and "500 < length (char_chunks (trim (str_lines source ! nat (loc_line q - 1))))"
    and "trim (loc_anchor q) \<notin> trim ` set (str_lines source)"
  shows "qualify_one env repo changed f (candidate_path f) (candidate_line f) = Inl (Stale, ''source_anchor_mismatch'')"
proof -
  from requalify [OF assms(1-3)] assms(4,5) obtain t where
    t: "t = trim (str_lines source ! nat (loc_line q - 1))" "t \<noteq> []" "loc_anchor q = take_chars 500 t"
    and again: "qualify_one env repo changed f (candidate_path f) (candidate_line f) =
      and_then (resolve_anchor (str_lines source) (loc_line q) t (nonempty_trimmed (Some (take_chars 500 t))))
        (\<lambda>(resolved, anchor, reason). Inr \<lparr>loc_path = loc_path q, loc_line = resolved, loc_anchor = anchor,
           suggestion_allowed = suggestion_fits f (loc_path q), loc_reason = reason\<rparr>)" by auto
  let ?a = "trim (take_chars 500 t)"
  have long: "500 < length (char_chunks t)" using assms(6) t(1) by simp
  have "\<not> white (hd (char_chunks t))" using trimmed_ends(1) t(1,2) by blast
  then have "\<not> white (hd (char_chunks (take_chars 500 t)))" by (simp add: char_chunks_take_chars)
  moreover have "take_chars 500 t \<noteq> []"
    using t(2) by (metis char_chunks_Nil_iff char_chunks_take_chars take_eq_Nil zero_neq_numeral)
  ultimately have ne: "?a \<noteq> []" by (rule trim_nonempty [rotated])
  have "length (char_chunks ?a) \<le> length (char_chunks (take_chars 500 t))" by (rule char_chunks_trim_le)
  with long have cut: "?a \<noteq> t" by (auto simp: char_chunks_take_chars)
  have "n \<notin> set (anchor_lines (str_lines source) ?a)" for n
  proof
    assume "n \<in> set (anchor_lines (str_lines source) ?a)"
    then have "trim (str_lines source ! nat (n - 1)) = ?a" "nat (n - 1) < length (str_lines source)"
      by (auto simp: anchor_lines_set)
    then have "?a \<in> trim ` set (str_lines source)" by (metis image_eqI nth_mem)
    with assms(7) t(3) show False by simp
  qed
  then have "anchor_lines (str_lines source) ?a = []" by (metis list.set_intros(1) neq_Nil_conv)
  then show ?thesis using again ne cut by (simp add: nonempty_trimmed_def resolve_anchor_def stale_def)
qed


definition sample_candidate :: json where
  "sample_candidate = object_of [(''filePath'', String ''a''), (''line'', Number (PosInt 1)),
     (''severity'', String ''high''), (''summary'', String ''s''), (''title'', String ''t'')]"

definition sample_location :: "string \<Rightarrow> qualified_location" where
  "sample_location anchor = \<lparr>loc_path = ''a'', loc_line = 1, loc_anchor = anchor, suggestion_allowed = True,
     loc_reason = ''source_anchor_inferred_from_immutable_target''\<rparr>"

lemma sample_facts:
  "well_formed_candidate [''a''] sample_candidate (candidate_path sample_candidate) = Inr ''a''"
  "candidate_line sample_candidate = Some 1" "join_path ''/r'' ''a'' = ''/r/a''" "path_under ''/r'' ''/r/a''"
  "get_str ''sourceAnchor'' sample_candidate = None" "suggestion_fits sample_candidate ''a''"
  by code_simp+

text \<open>On a source of one line the sample is qualified at that line.\<close>

lemma sample_qualified:
  assumes "str_lines text = [l]" and "trim l = l" and "l \<noteq> []"
  shows "qualify_one (sample_world text) ''/r'' [''a''] sample_candidate
    (candidate_path sample_candidate) (candidate_line sample_candidate) = Inr (sample_location (take_chars 500 l))"
  by (simp add: qualify_one_def sample_facts sample_world_def assms Let_def line_text_def nonempty_trimmed_def
      resolve_anchor_def sample_location_def)

lemma char_chunks_letters: "char_chunks (replicate n (CHR ''a'')) = replicate n ''a''"
  by (induction n) (simp_all add: Let_def continuation_bytes_def)

lemma letters:
  assumes "0 < n"
  shows "str_lines (replicate n (CHR ''a'')) = [replicate n (CHR ''a'')]"
    and "trim (replicate n (CHR ''a'')) = replicate n (CHR ''a'')"
    and "take_chars k (replicate n (CHR ''a'')) = replicate (min k n) (CHR ''a'')"
proof -
  have "\<not> white ''a''" by code_simp
  then show "trim (replicate n (CHR ''a'')) = replicate n (CHR ''a'')"
    using assms by (intro trim_id) (simp_all add: char_chunks_letters)
  have "list_all (\<lambda>c. c \<noteq> CHR 0x0A) (replicate n (CHR ''a''))" by (simp add: list_all_iff)
  then have "split_on (\<lambda>c. c = CHR 0x0A) (replicate n (CHR ''a'')) = [replicate n (CHR ''a'')]"
    by (rule split_on_none)
  then show "str_lines (replicate n (CHR ''a'')) = [replicate n (CHR ''a'')]"
    using assms by (simp add: str_lines_def)
  have "concat (replicate m ''a'') = replicate m (CHR ''a'')" for m by (induction m) simp_all
  then show "take_chars k (replicate n (CHR ''a'')) = replicate (min k n) (CHR ''a'')"
    by (simp add: take_chars_def char_chunks_letters)
qed

theorem short_line_requalifies_witness:
  "let q = sample_location (replicate 3 (CHR ''a'')); f = with_location (Some 1) q sample_candidate in
   \<exists>q'. qualify_one (sample_world (replicate 3 (CHR ''a''))) ''/r'' [''a''] f (candidate_path f) (candidate_line f) = Inr q' \<and>
     loc_path q' = ''a'' \<and> loc_line q' = 1 \<and> loc_anchor q' = replicate 3 (CHR ''a'')"
proof -
  have "qualify_one (sample_world (replicate 3 (CHR ''a''))) ''/r'' [''a''] sample_candidate
    (candidate_path sample_candidate) (candidate_line sample_candidate) =
      Inr (sample_location (replicate 3 (CHR ''a'')))"
    using sample_qualified [OF letters(1,2)] letters(3) [of 3 500] by simp
  from short_line_requalifies [OF this refl] show ?thesis
    by (simp add: sample_location_def char_chunks_letters sample_facts Let_def)
qed

theorem long_line_finding_is_lost_witness:
  "let q = sample_location (replicate 500 (CHR ''a'')); f = with_location (Some 1) q sample_candidate in
   qualify_one (sample_world (replicate 501 (CHR ''a''))) ''/r'' [''a''] f (candidate_path f) (candidate_line f)
     = Inl (Stale, ''source_anchor_mismatch'')"
proof -
  have q: "qualify_one (sample_world (replicate 501 (CHR ''a''))) ''/r'' [''a''] sample_candidate
    (candidate_path sample_candidate) (candidate_line sample_candidate) =
      Inr (sample_location (replicate 500 (CHR ''a'')))"
    using sample_qualified [OF letters(1,2)] letters(3) [of 501 500] by simp
  have "length (replicate 500 (CHR ''a'')) \<noteq> length (replicate 501 (CHR ''a''))" by simp
  then have ne: "replicate 500 (CHR ''a'') \<noteq> replicate 501 (CHR ''a'')" by metis
  have "canonicalize (sample_world t) p = Some p" "read_text (sample_world t) p = Some t" for t p
    by (simp_all add: sample_world_def)
  with long_line_finding_is_lost [OF q refl] ne show ?thesis
    by (simp add: sample_location_def letters char_chunks_letters sample_facts Let_def)
qed

end
