(* ===== verification/ReviewStore.thy ===== *)
theory ReviewStore
  imports DeterministicReview
begin

text \<open>
  The tables of \<open>commands/deterministic_review.rs\<close>: the runs with their manifests, the units with
  their checkpoints, the attempts and the qualification rows; claiming, persisting, checkpointing,
  reusing and paging.
\<close>

section \<open>Rows\<close>

record run_row =
  run_schema :: nat
  run_review :: "string option"
  run_repository :: string
  run_target :: string
  run_source :: string
  run_executor :: string
  run_policy :: string
  run_status :: string
  run_manifest :: string
  run_created :: string
  run_updated :: string

record unit_row =
  row_path :: string
  row_fingerprint :: string
  row_coverage :: string
  row_reason :: "string option"
  row_checkpoint :: "string option"
  row_updated :: string

record attempt_row =
  attempt_id :: string
  attempt_executor :: string
  attempt_status :: string
  attempt_reason :: "string option"
  attempt_bytes :: int
  attempt_started :: string
  attempt_completed :: string

record qualification_row =
  qual_state :: string
  qual_reason :: string
  qual_path :: "string option"
  qual_original :: "int option"
  qual_resolved :: "int option"

record review_db =
  runs :: "(string, run_row) bmap"
  units :: "(string \<times> string, unit_row) bmap"
  attempts :: "(string \<times> string \<times> nat, attempt_row) bmap"
  qualifications :: "(string \<times> nat, qualification_row) bmap"
  reviews :: "string list"

text \<open>
  \<open>serde_json\<close>, and the row SQLite returns first when rows are ordered by their time, newest
  first (which one of equally new rows is not specified).
\<close>

record store_env =
  manifest_text :: "review_manifest \<Rightarrow> string"
  read_manifest :: "string \<Rightarrow> review_manifest option"
  json_text :: "json \<Rightarrow> string"
  read_json :: "string \<Rightarrow> json option"
  newest :: "(string \<times> string) list \<Rightarrow> string option"

definition JSON_ERROR :: string where "JSON_ERROR = ''expected value''"

section \<open>Statements\<close>

definition in_transaction :: "(review_db \<Rightarrow> (review_db \<times> 'r) result) \<Rightarrow> review_db \<Rightarrow> review_db \<times> 'r result" where
  "in_transaction body d = (case body d of Inl e \<Rightarrow> (d, Inl e) | Inr (d', r) \<Rightarrow> (d', Inr r))"

primrec coverage_name :: "unit_state \<Rightarrow> string" where
  "coverage_name Reviewed = ''reviewed''"
| "coverage_name Reused = ''reused''"
| "coverage_name Skipped = ''skipped''"
| "coverage_name Failed = ''failed''"
| "coverage_name Cancelled = ''cancelled''"

primrec qualification_name :: "candidate_state \<Rightarrow> string" where
  "qualification_name Qualified = ''qualified''"
| "qualification_name Stale = ''stale''"
| "qualification_name Unresolved = ''unresolved''"
| "qualification_name Rejected = ''rejected''"

definition active_run :: "run_row \<Rightarrow> bool" where
  "active_run r \<longleftrightarrow> run_status r \<in> {''planning'', ''running''}"

text \<open>The unique index over the active runs, and SQLite's messages.\<close>

definition same_run_key :: "run_row \<Rightarrow> run_row \<Rightarrow> bool" where
  "same_run_key r r' \<longleftrightarrow>
     run_target r = run_target r' \<and> run_executor r = run_executor r' \<and> run_policy r = run_policy r'"

definition index_violated :: "string \<Rightarrow> run_row \<Rightarrow> review_db \<Rightarrow> bool" where
  "index_violated k r d \<longleftrightarrow>
     active_run r \<and> list_ex (\<lambda>(k', r'). k' \<noteq> k \<and> active_run r' \<and> same_run_key r r') (runs d)"

definition UNIQUE_ERROR :: string where
  "UNIQUE_ERROR = ''UNIQUE constraint failed: deterministic_review_runs.target_identity, deterministic_review_runs.executor_id, deterministic_review_runs.policy_fingerprint''"

definition CHECK_ERROR :: string where "CHECK_ERROR = ''CHECK constraint failed: schema_version = 1''"
definition FOREIGN_KEY_ERROR :: string where "FOREIGN_KEY_ERROR = ''FOREIGN KEY constraint failed''"

section \<open>Persisting a manifest\<close>

definition manifest_row :: "store_env \<Rightarrow> review_manifest \<Rightarrow> string \<Rightarrow> string \<Rightarrow> run_row option \<Rightarrow> run_row" where
  "manifest_row se m status now old =
     (case old of
        None \<Rightarrow>
          \<lparr>run_schema = schema_version m, run_review = review_id m,
           run_repository = repository_root (manifest_target m),
           run_target = target_identity (manifest_target m),
           run_source = source_fingerprint (manifest_target m), run_executor = executor_id m,
           run_policy = policy_fingerprint m, run_status = status, run_manifest = manifest_text se m,
           run_created = created_at m, run_updated = now\<rparr>
      | Some r \<Rightarrow>
          r\<lparr>run_review := review_id m, run_status := status, run_manifest := manifest_text se m,
            run_updated := now\<rparr>)"

definition upsert_run :: "store_env \<Rightarrow> review_manifest \<Rightarrow> string \<Rightarrow> string \<Rightarrow> review_db \<Rightarrow> review_db result" where
  "upsert_run se m status now d =
     (let r = manifest_row se m status now (map_of (runs d) (run_id m))
      in and_then (reject_if (schema_version m \<noteq> 1) CHECK_ERROR) (\<lambda>_.
         and_then (reject_if (index_violated (run_id m) r d) UNIQUE_ERROR) (\<lambda>_.
         and_then (reject_if (case review_id m of None \<Rightarrow> False | Some v \<Rightarrow> v \<notin> set (reviews d)) FOREIGN_KEY_ERROR) (\<lambda>_.
           Inr (d\<lparr>runs := bmap_insert (run_id m) r (runs d)\<rparr>)))))"

definition upsert_unit :: "string \<Rightarrow> string \<Rightarrow> review_unit \<Rightarrow> review_db \<Rightarrow> review_db" where
  "upsert_unit run now u d =
     (let row = (case map_of (units d) (run, unit_id u) of
           None \<Rightarrow>
             \<lparr>row_path = unit_path u, row_fingerprint = unit_fingerprint u,
              row_coverage = coverage_name (coverage_state u), row_reason = coverage_reason u,
              row_checkpoint = None, row_updated = now\<rparr>
         | Some r \<Rightarrow>
             r\<lparr>row_coverage := coverage_name (coverage_state u), row_reason := coverage_reason u,
               row_updated := now\<rparr>)
      in d\<lparr>units := bmap_insert (run, unit_id u) row (units d)\<rparr>)"

definition upsert_diagnostic :: "string \<Rightarrow> qualification_diagnostic \<Rightarrow> review_db \<Rightarrow> review_db" where
  "upsert_diagnostic run q d =
     d\<lparr>qualifications := bmap_insert (run, candidate_index q)
        \<lparr>qual_state = qualification_name (diag_state q), qual_reason = diag_reason q, qual_path = diag_path q,
         qual_original = original_line q, qual_resolved = resolved_line q\<rparr> (qualifications d)\<rparr>"

definition persist_manifest ::
  "store_env \<Rightarrow> review_manifest \<Rightarrow> string \<Rightarrow> string \<Rightarrow> review_db \<Rightarrow> review_db \<times> unit result" where
  "persist_manifest se m status now =
     in_transaction (\<lambda>d.
       and_then (upsert_run se m status now d) (\<lambda>d1.
       let d2 = fold (upsert_unit (run_id m) now) (manifest_units m) d1;
           d3 = fold (upsert_diagnostic (run_id m)) (manifest_diagnostics m) d2
       in Inr (d3, ())))"

section \<open>Claiming\<close>

definition abandon_stale_runs :: "string \<Rightarrow> string \<Rightarrow> review_db \<Rightarrow> review_db" where
  "abandon_stale_runs now stale_before d =
     d\<lparr>runs := map (\<lambda>(k, r). (k, if active_run r \<and> run_updated r < stale_before
                                   then r\<lparr>run_status := ''abandoned'', run_updated := now\<rparr> else r)) (runs d)\<rparr>"

definition terminal_status :: "string list" where
  "terminal_status = [''completed'', ''completed_with_limitations'', ''failed'', ''cancelled'', ''abandoned'']"

definition unlinked_terminal :: "string \<Rightarrow> run_row \<Rightarrow> bool" where
  "unlinked_terminal updated_before r \<longleftrightarrow>
     run_review r = None \<and> run_status r \<in> set terminal_status \<and> run_updated r < updated_before"

text \<open>Deleting a run cascades to everything that refers to it.\<close>

definition cleanup_unlinked_terminal_manifests :: "string \<Rightarrow> review_db \<Rightarrow> review_db" where
  "cleanup_unlinked_terminal_manifests updated_before d =
     (let gone = (\<lambda>k. case map_of (runs d) k of None \<Rightarrow> False | Some r \<Rightarrow> unlinked_terminal updated_before r)
      in d\<lparr>runs := filter (\<lambda>(k, _). \<not> gone k) (runs d), units := filter (\<lambda>((k, _), _). \<not> gone k) (units d),
           attempts := filter (\<lambda>((k, _), _). \<not> gone k) (attempts d),
           qualifications := filter (\<lambda>((k, _), _). \<not> gone k) (qualifications d)\<rparr>)"

definition ALREADY_RUNNING :: string where
  "ALREADY_RUNNING = ''An identical deterministic review is already running''"

definition claim_manifest ::
  "store_env \<Rightarrow> review_manifest \<Rightarrow> string \<Rightarrow> string \<Rightarrow> string \<Rightarrow> review_db \<Rightarrow> review_db \<times> unit result" where
  "claim_manifest se m now stale_before expired_before d =
     (let d1 = abandon_stale_runs now stale_before d;
          d2 = cleanup_unlinked_terminal_manifests expired_before d1
      in case persist_manifest se m ''planning'' now d2 of
           (d3, Inr u) \<Rightarrow> (d3, Inr u)
         | (d3, Inl e) \<Rightarrow> (d3, Inl (if contains_str e ''UNIQUE constraint failed'' then ALREADY_RUNNING else e)))"

section \<open>Checkpoints and attempts\<close>

definition checkpoint_value :: "review_manifest \<Rightarrow> review_unit \<Rightarrow> json list \<Rightarrow> json" where
  "checkpoint_value m u outputs =
     object_of [(''schema_version'', json_int (int REVIEW_MANIFEST_SCHEMA_VERSION)),
       (''fingerprint'', String (unit_fingerprint u)), (''executor_id'', String (executor_id m)),
       (''policy_fingerprint'', String (policy_fingerprint m)), (''normalized_outputs'', Array outputs)]"

definition persist_unit_checkpoint ::
  "store_env \<Rightarrow> review_manifest \<Rightarrow> review_unit \<Rightarrow> json list \<Rightarrow> string \<Rightarrow> review_db \<Rightarrow> review_db" where
  "persist_unit_checkpoint se m u outputs now d =
     (case map_of (units d) (run_id m, unit_id u) of
        None \<Rightarrow> d
      | Some r \<Rightarrow>
          d\<lparr>units := bmap_insert (run_id m, unit_id u)
             (r\<lparr>row_coverage := ''reviewed'', row_reason := None,
                row_checkpoint := Some (json_text se (checkpoint_value m u outputs)), row_updated := now\<rparr>)
             (units d)\<rparr>)"

definition checkpoint_matches :: "review_manifest \<Rightarrow> review_unit \<Rightarrow> run_row \<Rightarrow> unit_row \<Rightarrow> bool" where
  "checkpoint_matches m u run row \<longleftrightarrow>
     row_fingerprint row = unit_fingerprint u \<and> row_coverage row \<in> {''reviewed'', ''reused''} \<and>
     run_schema run = schema_version m \<and> run_executor run = executor_id m \<and>
     run_policy run = policy_fingerprint m \<and> row_checkpoint row \<noteq> None"

definition checkpoint_rows :: "review_manifest \<Rightarrow> review_unit \<Rightarrow> review_db \<Rightarrow> (string \<times> string) list" where
  "checkpoint_rows m u d =
     List.map_filter (\<lambda>((run, _), row).
       case map_of (runs d) run of
         None \<Rightarrow> None
       | Some r \<Rightarrow> if checkpoint_matches m u r row
                    then map_option (\<lambda>c. (row_updated row, c)) (row_checkpoint row) else None) (units d)"

definition load_checkpoint_outputs ::
  "store_env \<Rightarrow> review_manifest \<Rightarrow> review_unit \<Rightarrow> review_db \<Rightarrow> json list option result" where
  "load_checkpoint_outputs se m u d =
     (case newest se (checkpoint_rows m u d) of
        None \<Rightarrow> Inr None
      | Some raw \<Rightarrow>
          (case read_json se raw of
             None \<Rightarrow> Inl JSON_ERROR
           | Some v \<Rightarrow>
               if Option.bind (get_key ''schema_version'' v) as_u64 \<noteq> Some REVIEW_MANIFEST_SCHEMA_VERSION
                  \<or> get_str ''fingerprint'' v \<noteq> Some (unit_fingerprint u)
               then Inr None
               else case get_array ''normalized_outputs'' v of
                      None \<Rightarrow> Inl ''Review checkpoint is missing normalized outputs''
                    | Some outputs \<Rightarrow> Inr (Some outputs)))"

definition record_attempt ::
  "review_manifest \<Rightarrow> string \<Rightarrow> nat \<Rightarrow> string \<Rightarrow> string option \<Rightarrow> nat \<Rightarrow> string \<Rightarrow> (string \<times> string) option \<Rightarrow>
   string \<Rightarrow> string \<Rightarrow> review_db \<Rightarrow> review_db \<times> unit result" where
  "record_attempt m uid number status reason bytes started terminal new_id now =
     in_transaction (\<lambda>d.
       and_then (case terminal of
           None \<Rightarrow> Inr d
         | Some (state, why) \<Rightarrow>
             (case map_of (units d) (run_id m, uid) of
                None \<Rightarrow> Inl ''Review attempt references an unknown unit''
              | Some r \<Rightarrow>
                  Inr (d\<lparr>units := bmap_insert (run_id m, uid)
                    (r\<lparr>row_coverage := state, row_reason := Some why, row_updated := now\<rparr>) (units d)\<rparr>))) (\<lambda>d1.
       and_then (reject_if (map_of (runs d1) (run_id m) = None) FOREIGN_KEY_ERROR) (\<lambda>_.
       let row = (case map_of (attempts d1) (run_id m, uid, number) of
             None \<Rightarrow>
               \<lparr>attempt_id = new_id, attempt_executor = executor_id m, attempt_status = status,
                attempt_reason = reason, attempt_bytes = int (min bytes (2 ^ 63 - 1)),
                attempt_started = started, attempt_completed = now\<rparr>
           | Some r \<Rightarrow>
               r\<lparr>attempt_status := status, attempt_reason := reason,
                 attempt_bytes := int (min bytes (2 ^ 63 - 1)), attempt_completed := now\<rparr>)
       in Inr (d1\<lparr>attempts := bmap_insert (run_id m, uid, number) row (attempts d1)\<rparr>, ()))))"

section \<open>Reading manifests\<close>

definition load_manifest_for_review :: "store_env \<Rightarrow> string \<Rightarrow> review_db \<Rightarrow> review_manifest option result" where
  "load_manifest_for_review se review d =
     (case newest se (List.map_filter (\<lambda>(_, r). if run_review r = Some review then Some (run_updated r, run_manifest r)
                        else None) (runs d)) of
        None \<Rightarrow> Inr None
      | Some text \<Rightarrow>
          (case read_manifest se text of None \<Rightarrow> Inl JSON_ERROR | Some m \<Rightarrow> Inr (Some m)))"

definition page_rows :: "string \<Rightarrow> string option \<Rightarrow> review_db \<Rightarrow> (string \<times> run_row) list" where
  "page_rows repo review d =
     rev (sort_key (\<lambda>(k, r). (run_updated r, k))
       (filter (\<lambda>(_, r). run_repository r = repo \<and> run_review r \<noteq> None \<and>
                  (review = None \<or> run_review r = review)) (runs d)))"

definition clamp :: "nat \<Rightarrow> nat \<Rightarrow> nat \<Rightarrow> nat" where
  "clamp lo hi n = max lo (min hi n)"

text \<open>
  A page of manifests and the offset of the next one; the errors of the database and the items'
  projection to JSON are left out.
\<close>

definition public_manifest_page ::
  "store_env \<Rightarrow> string \<Rightarrow> string option \<Rightarrow> nat \<Rightarrow> nat \<Rightarrow> review_db \<Rightarrow> review_manifest list \<times> nat option" where
  "public_manifest_page se repo review limit offset d =
     (let lim = clamp 1 100 limit;
          rows = take (lim + 1) (drop offset (page_rows repo review d));
          manifests = List.map_filter (\<lambda>(_, r). read_manifest se (run_manifest r)) rows
      in (take lim manifests, if lim < length manifests then Some (offset + lim) else None))"

section \<open>Reuse\<close>

text \<open>What \<open>ORDER BY updated_at DESC LIMIT 1\<close> promises.\<close>

definition picks_newest :: "store_env \<Rightarrow> bool" where
  "picks_newest se \<longleftrightarrow>
     (\<forall>xs. (newest se xs = None \<longleftrightarrow> xs = []) \<and>
        (\<forall>c. newest se xs = Some c \<longrightarrow> (\<exists>t. (t, c) \<in> set xs \<and> (\<forall>x \<in> set xs. fst x \<le> t))))"

lemma picks_newest_Some:
  "picks_newest se \<Longrightarrow> newest se xs = Some c \<Longrightarrow> \<exists>t. (t, c) \<in> set xs \<and> (\<forall>x \<in> set xs. fst x \<le> t)"
  unfolding picks_newest_def by blast

lemma checkpoint_value_keys:
  "Option.bind (get_key ''schema_version'' (checkpoint_value m u outputs)) as_u64 = Some REVIEW_MANIFEST_SCHEMA_VERSION"
  "get_str ''fingerprint'' (checkpoint_value m u outputs) = Some (unit_fingerprint u)"
  "get_array ''normalized_outputs'' (checkpoint_value m u outputs) = Some outputs"
  by (simp_all add: checkpoint_value_def get_str_def get_array_def get_key_object_of json_int_def
      REVIEW_MANIFEST_SCHEMA_VERSION_def)

subsection \<open>A concrete store\<close>

text \<open>A store with one run of one unit; the text of every manifest is readable but \<open>''?''\<close>.\<close>

definition sample_manifest :: review_manifest where
  "sample_manifest =
     \<lparr>schema_version = 1, run_id = ''run'', review_id = None, manifest_target = review_sample_target,
      executor_id = ''claude'', executor_version = ''cli-v1'', policy_fingerprint = ''0'',
      budgets = \<lparr>max_concurrency = 1, prompt_bytes_per_unit = 1, output_bytes_per_attempt = 1,
        attempt_limit = 1, wall_time_seconds_per_attempt = 1\<rparr>,
      manifest_units = [sample_unit Failed (Some ''execution_pending'')], manifest_counts = no_counts,
      manifest_diagnostics = [], coverage_complete = False, target_stale = False, run_cancelled = False,
      created_at = ''t'', completed_at = None\<rparr>"

definition sample_outputs :: "json list" where "sample_outputs = [String ''ok'']"

definition sample_store :: store_env where
  "sample_store =
     \<lparr>manifest_text = (\<lambda>_. ''m''), read_manifest = (\<lambda>t. if t = ''?'' then None else Some sample_manifest),
      json_text = (\<lambda>_. ''c''),
      read_json = (\<lambda>_. Some (checkpoint_value sample_manifest (sample_unit Reviewed None) sample_outputs)),
      newest = (\<lambda>xs. if xs = [] then None else Some (snd (last (sort_key fst xs))))\<rparr>"

definition sample_run_row :: "string \<Rightarrow> string \<Rightarrow> run_row" where
  "sample_run_row status manifest =
     (manifest_row sample_store sample_manifest status ''t'' None)\<lparr>run_review := Some ''v'', run_manifest := manifest\<rparr>"

definition sample_row :: "string option \<Rightarrow> unit_row" where
  "sample_row checkpoint =
     \<lparr>row_path = ''a'', row_fingerprint = ''0'', row_coverage = ''reviewed'', row_reason = None,
      row_checkpoint = checkpoint, row_updated = ''t''\<rparr>"

definition sample_db :: "string \<Rightarrow> string option \<Rightarrow> review_db" where
  "sample_db manifest checkpoint =
     \<lparr>runs = [(''run'', sample_run_row ''running'' manifest)], units = [((''run'', ''unit-0''), sample_row checkpoint)],
      attempts = [], qualifications = [], reviews = [''v'']\<rparr>"

lemma sample_store_newest: "picks_newest sample_store"
proof -
  have "\<exists>t. (t, snd (last (sort_key fst xs))) \<in> set xs \<and> (\<forall>x \<in> set xs. fst x \<le> t)" if "xs \<noteq> []"
    for xs :: "(string \<times> string) list"
  proof -
    let ?ys = "sort_key fst xs"
    have ys: "?ys \<noteq> []" using that by (metis set_empty2 set_sort)
    have "x \<in> set ?ys \<Longrightarrow> fst x \<le> fst (last ?ys)" for x
    proof -
      assume "x \<in> set ?ys"
      then obtain i where i: "i < length ?ys" "x = ?ys ! i" unfolding in_set_conv_nth by blast
      have "map fst ?ys ! i \<le> map fst ?ys ! (length ?ys - 1)"
        by (intro sorted_nth_mono sorted_sort_key) (use i(1) in auto)
      then show "fst x \<le> fst (last ?ys)" using i ys by (simp add: last_conv_nth)
    qed
    moreover have "last ?ys \<in> set ?ys" using ys by (rule last_in_set)
    ultimately show ?thesis by (metis prod.collapse set_sort)
  qed
  then show ?thesis by (simp add: picks_newest_def sample_store_def)
qed

lemmas sample_review_facts =
  sample_db_def sample_row_def sample_run_row_def sample_manifest_def sample_unit_def review_sample_target_def
  manifest_row_def bmap_ok_def

lemma checkpoint_rows_set:
  "(t, c) \<in> set (checkpoint_rows m u d) \<longleftrightarrow>
     (\<exists>run uid row r. ((run, uid), row) \<in> set (units d) \<and> map_of (runs d) run = Some r \<and>
        checkpoint_matches m u r row \<and> row_checkpoint row = Some c \<and> row_updated row = t)"
proof
  assume "(t, c) \<in> set (checkpoint_rows m u d)"
  then show "\<exists>run uid row r. ((run, uid), row) \<in> set (units d) \<and> map_of (runs d) run = Some r \<and>
        checkpoint_matches m u r row \<and> row_checkpoint row = Some c \<and> row_updated row = t"
    by (auto simp: checkpoint_rows_def set_map_filter_Some split: option.splits if_splits) blast
next
  assume "\<exists>run uid row r. ((run, uid), row) \<in> set (units d) \<and> map_of (runs d) run = Some r \<and>
        checkpoint_matches m u r row \<and> row_checkpoint row = Some c \<and> row_updated row = t"
  then obtain run uid row r where "((run, uid), row) \<in> set (units d)" "map_of (runs d) run = Some r"
    "checkpoint_matches m u r row" "row_checkpoint row = Some c" "row_updated row = t" by blast
  then show "(t, c) \<in> set (checkpoint_rows m u d)"
    unfolding checkpoint_rows_def set_map_filter_Some mem_Collect_eq
    by (intro bexI [of _ "((run, uid), row)"]) simp_all
qed

text \<open>
  C29: Only matching work is reused. Outputs that are loaded for a unit come from the stored
  checkpoint of a unit with the same fingerprint that was reviewed or reused in a run of the same
  schema, executor and policy, and the checkpoint itself names that fingerprint and those outputs.
\<close>

theorem reused_outputs_match:
  assumes "picks_newest se" and "load_checkpoint_outputs se m u d = Inr (Some outputs)"
  shows "\<exists>run uid row r raw v. ((run, uid), row) \<in> set (units d) \<and> map_of (runs d) run = Some r \<and>
    row_fingerprint row = unit_fingerprint u \<and> row_coverage row \<in> {''reviewed'', ''reused''} \<and>
    run_schema r = schema_version m \<and> run_executor r = executor_id m \<and> run_policy r = policy_fingerprint m \<and>
    row_checkpoint row = Some raw \<and> read_json se raw = Some v \<and>
    get_str ''fingerprint'' v = Some (unit_fingerprint u) \<and> get_array ''normalized_outputs'' v = Some outputs"
proof -
  from assms(2) obtain raw v where raw: "newest se (checkpoint_rows m u d) = Some raw"
    and v: "read_json se raw = Some v" "get_str ''fingerprint'' v = Some (unit_fingerprint u)"
      "get_array ''normalized_outputs'' v = Some outputs"
    by (auto simp: load_checkpoint_outputs_def split: option.splits if_splits)
  from picks_newest_Some [OF assms(1) raw] obtain t where "(t, raw) \<in> set (checkpoint_rows m u d)" by blast
  then obtain run uid row r where "((run, uid), row) \<in> set (units d)" "map_of (runs d) run = Some r"
    "checkpoint_matches m u r row" "row_checkpoint row = Some raw"
    unfolding checkpoint_rows_set by blast
  with v show ?thesis unfolding checkpoint_matches_def by blast
qed

theorem reused_outputs_match_witness:
  "load_checkpoint_outputs sample_store sample_manifest (sample_unit Failed None) (sample_db ''m'' (Some ''c''))
     = Inr (Some sample_outputs) \<and>
   (\<exists>v. get_array ''normalized_outputs'' v = Some sample_outputs)"
proof -
  have "load_checkpoint_outputs sample_store sample_manifest (sample_unit Failed None) (sample_db ''m'' (Some ''c''))
     = Inr (Some sample_outputs)"
    by (simp add: load_checkpoint_outputs_def checkpoint_rows_def checkpoint_matches_def sample_review_facts
        sample_store_def checkpoint_value_keys List.map_filter_simps)
  from this reused_outputs_match [OF sample_store_newest this] show ?thesis by blast
qed

text \<open>
  A checkpoint is read back. What is stored for a unit of a run is what any later run with
  the same schema, executor and policy loads for a unit of the same fingerprint, provided the
  checkpoint is the newest one.
\<close>

theorem checkpoint_reads_back:
  assumes "picks_newest se" and "bmap_ok (units d)"
    and "read_json se (json_text se (checkpoint_value m u outputs)) = Some (checkpoint_value m u outputs)"
    and "map_of (runs d) (run_id m) = Some r" and "map_of (units d) (run_id m, unit_id u) = Some row"
    and "run_schema r = schema_version m'" and "run_executor r = executor_id m'" and "run_policy r = policy_fingerprint m'"
    and "row_fingerprint row = unit_fingerprint u" and "unit_fingerprint u' = unit_fingerprint u"
    and "list_all (\<lambda>(t, c). t < now) (checkpoint_rows m' u' d)"
  shows "load_checkpoint_outputs se m' u' (persist_unit_checkpoint se m u outputs now d) = Inr (Some outputs)"
proof -
  let ?text = "json_text se (checkpoint_value m u outputs)"
  let ?row = "row\<lparr>row_coverage := ''reviewed'', row_reason := None, row_checkpoint := Some ?text, row_updated := now\<rparr>"
  let ?d = "d\<lparr>units := bmap_insert (run_id m, unit_id u) ?row (units d)\<rparr>"
  have d': "persist_unit_checkpoint se m u outputs now d = ?d"
    by (simp add: persist_unit_checkpoint_def assms(5))
  have ok: "bmap_ok (units ?d)" using assms(2) by (simp add: bmap_insert_ok)
  have "checkpoint_matches m' u' r ?row" using assms(6-10) by (simp add: checkpoint_matches_def)
  then have mine: "(now, ?text) \<in> set (checkpoint_rows m' u' ?d)"
    unfolding checkpoint_rows_set bmap_entry_iff [OF ok] using assms(4) by force
  have others: "c = ?text" if "(t, c) \<in> set (checkpoint_rows m' u' ?d)" "now \<le> t" for t c
  proof -
    from that(1) obtain run uid q p where q: "map_of (units ?d) (run, uid) = Some q" "map_of (runs d) run = Some p"
      "checkpoint_matches m' u' p q" "row_checkpoint q = Some c" "row_updated q = t"
      unfolding checkpoint_rows_set bmap_entry_iff [OF ok] by auto
    show ?thesis
    proof (cases "(run, uid) = (run_id m, unit_id u)")
      case False
      with q have "((run, uid), q) \<in> set (units d)" using bmap_entry_iff [OF assms(2)] by auto
      with q have "(t, c) \<in> set (checkpoint_rows m' u' d)" unfolding checkpoint_rows_set by blast
      with assms(11) that(2) show ?thesis by (auto simp: list_all_iff)
    qed (use q in auto)
  qed
  have "newest se (checkpoint_rows m' u' ?d) \<noteq> None"
    using mine assms(1) unfolding picks_newest_def by (metis empty_iff empty_set)
  then obtain c where c: "newest se (checkpoint_rows m' u' ?d) = Some c" by blast
  from picks_newest_Some [OF assms(1) this] obtain t where "(t, c) \<in> set (checkpoint_rows m' u' ?d)" "now \<le> t"
    using mine by force
  with others have "c = ?text" by blast
  with c show ?thesis
    by (simp add: d' load_checkpoint_outputs_def assms(3,10) checkpoint_value_keys)
qed

theorem checkpoint_reads_back_witness:
  "load_checkpoint_outputs sample_store sample_manifest (sample_unit Failed None)
     (persist_unit_checkpoint sample_store sample_manifest (sample_unit Reviewed None) sample_outputs ''u''
       (sample_db ''m'' None)) = Inr (Some sample_outputs)"
  by (rule checkpoint_reads_back [OF sample_store_newest, where r = "sample_run_row ''running'' ''m''" and row = "sample_row None"])
    (simp_all add: sample_review_facts sample_store_def checkpoint_rows_def checkpoint_matches_def List.map_filter_simps)

section \<open>What persisting changes\<close>

lemma upsert_unit_runs [simp]: "runs (upsert_unit run now u d) = runs d"
  by (simp add: upsert_unit_def Let_def)

lemma upsert_units_runs [simp]: "runs (fold (upsert_unit run now) us d) = runs d"
  by (induction us arbitrary: d) simp_all

lemma upsert_diagnostics_other [simp]:
  "runs (fold (upsert_diagnostic run) qs d) = runs d" "units (fold (upsert_diagnostic run) qs d) = units d"
  by (induction qs arbitrary: d) (simp_all add: upsert_diagnostic_def)

definition unit_written :: "string \<Rightarrow> review_unit \<Rightarrow> unit_row option \<Rightarrow> unit_row" where
  "unit_written now u old =
     (case old of
        None \<Rightarrow>
          \<lparr>row_path = unit_path u, row_fingerprint = unit_fingerprint u,
           row_coverage = coverage_name (coverage_state u), row_reason = coverage_reason u,
           row_checkpoint = None, row_updated = now\<rparr>
      | Some r \<Rightarrow>
          r\<lparr>row_coverage := coverage_name (coverage_state u), row_reason := coverage_reason u, row_updated := now\<rparr>)"

lemma upsert_unit_lookup:
  "map_of (units (upsert_unit run now u d)) k =
     (if k = (run, unit_id u) then Some (unit_written now u (map_of (units d) k)) else map_of (units d) k)"
  by (simp add: upsert_unit_def unit_written_def Let_def)

lemma upsert_units_other:
  "fst k \<noteq> run \<or> snd k \<notin> unit_id ` set us \<Longrightarrow> map_of (units (fold (upsert_unit run now) us d)) k = map_of (units d) k"
  by (induction us arbitrary: d) (auto simp: upsert_unit_lookup)

lemma upsert_units_own:
  "u \<in> set us \<Longrightarrow> distinct (map unit_id us) \<Longrightarrow>
     map_of (units (fold (upsert_unit run now) us d)) (run, unit_id u) =
       Some (unit_written now u (map_of (units d) (run, unit_id u)))"
proof (induction us arbitrary: d)
  case (Cons v us)
  show ?case
  proof (cases "u = v")
    case True
    with Cons.prems upsert_units_other [of "(run, unit_id v)" run us now "upsert_unit run now v d"]
    show ?thesis by (simp add: upsert_unit_lookup)
  next
    case False
    with Cons.prems(1) have "unit_id u \<in> unit_id ` set us" by auto
    with Cons.prems(2) have "unit_id u \<noteq> unit_id v" by auto
    with Cons.prems Cons.IH [of "upsert_unit run now v d"] False show ?thesis by (simp add: upsert_unit_lookup)
  qed
qed simp

lemma persist_Inr:
  assumes "persist_manifest se m status now d = (d', Inr u)"
  shows "upsert_run se m status now d =
      Inr (d\<lparr>runs := bmap_insert (run_id m) (manifest_row se m status now (map_of (runs d) (run_id m))) (runs d)\<rparr>) \<and>
    runs d' = bmap_insert (run_id m) (manifest_row se m status now (map_of (runs d) (run_id m))) (runs d) \<and>
    units d' = units (fold (upsert_unit (run_id m) now) (manifest_units m)
      (d\<lparr>runs := bmap_insert (run_id m) (manifest_row se m status now (map_of (runs d) (run_id m))) (runs d)\<rparr>)) \<and>
    \<not> index_violated (run_id m) (manifest_row se m status now (map_of (runs d) (run_id m))) d"
proof -
  from assms obtain d1 where d1: "upsert_run se m status now d = Inr d1"
    and d': "d' = fold (upsert_diagnostic (run_id m)) (manifest_diagnostics m)
        (fold (upsert_unit (run_id m) now) (manifest_units m) d1)"
    by (auto simp: persist_manifest_def in_transaction_def and_then_Inr Let_def split: sum.splits)
  then show ?thesis by (auto simp: upsert_run_def Let_def result_simps)
qed

text \<open>
  Writing a manifest never loses a checkpoint. After a manifest was persisted, the coverage
  of each of its units is what the manifest says, every unit row that was there is still there
  with its checkpoint and its fingerprint, and the units of other runs are untouched; so a unit
  whose coverage is withdrawn is no longer offered for reuse.
\<close>

theorem persisting_keeps_checkpoints:
  assumes "persist_manifest se m status now d = (d', Inr v)" and "distinct (map unit_id (manifest_units m))"
  shows "(\<forall>k row. map_of (units d) k = Some row \<longrightarrow>
      (\<exists>row'. map_of (units d') k = Some row' \<and> row_checkpoint row' = row_checkpoint row \<and>
         row_fingerprint row' = row_fingerprint row \<and> (fst k = run_id m \<or> row' = row))) \<and>
    (\<forall>u \<in> set (manifest_units m). \<exists>row. map_of (units d') (run_id m, unit_id u) = Some row \<and>
      row_coverage row = coverage_name (coverage_state u) \<and>
      (coverage_state u \<notin> {Reviewed, Reused} \<longrightarrow> (\<forall>m' u' r. \<not> checkpoint_matches m' u' r row)))"
proof (intro conjI allI ballI impI)
  note units' = persist_Inr [OF assms(1), THEN conjunct2, THEN conjunct2, THEN conjunct1]
  fix k row assume row: "map_of (units d) k = Some row"
  show "\<exists>row'. map_of (units d') k = Some row' \<and> row_checkpoint row' = row_checkpoint row \<and>
         row_fingerprint row' = row_fingerprint row \<and> (fst k = run_id m \<or> row' = row)"
  proof (cases "fst k = run_id m \<and> snd k \<in> unit_id ` set (manifest_units m)")
    case True
    then obtain u where u: "u \<in> set (manifest_units m)" "k = (run_id m, unit_id u)" by (cases k) auto
    from upsert_units_own [OF u(1) assms(2)] row u(2) units' show ?thesis by (auto simp: unit_written_def)
  next
    case False
    then have "fst k \<noteq> run_id m \<or> snd k \<notin> unit_id ` set (manifest_units m)" by blast
    from upsert_units_other [OF this] row units' show ?thesis by simp
  qed
next
  note units' = persist_Inr [OF assms(1), THEN conjunct2, THEN conjunct2, THEN conjunct1]
  fix u assume u: "u \<in> set (manifest_units m)"
  have cov: "row_coverage (unit_written now u old) = coverage_name (coverage_state u)" for old
    by (simp add: unit_written_def split: option.splits)
  have "\<not> checkpoint_matches m' u' r (unit_written now u old)" if "coverage_state u \<notin> {Reviewed, Reused}" for m' u' r old
    using that by (cases "coverage_state u") (simp_all add: checkpoint_matches_def cov)
  with upsert_units_own [OF u assms(2)] units' cov
  show "\<exists>row. map_of (units d') (run_id m, unit_id u) = Some row \<and> row_coverage row = coverage_name (coverage_state u) \<and>
      (coverage_state u \<notin> {Reviewed, Reused} \<longrightarrow> (\<forall>m' u' r. \<not> checkpoint_matches m' u' r row))" by auto
qed

theorem persisting_keeps_checkpoints_witness:
  "\<exists>d' row. persist_manifest sample_store (sample_manifest\<lparr>review_id := Some ''v''\<rparr>) ''failed'' ''u'' (sample_db ''m'' (Some ''c''))
       = (d', Inr ()) \<and>
     map_of (units d') (''run'', ''unit-0'') = Some row \<and> row_checkpoint row = Some ''c'' \<and>
     row_coverage row = ''failed''"
proof -
  let ?m = "sample_manifest\<lparr>review_id := Some ''v''\<rparr>" and ?d = "sample_db ''m'' (Some ''c'')"
  obtain d' where d': "persist_manifest sample_store ?m ''failed'' ''u'' ?d = (d', Inr ())"
    by (simp add: persist_manifest_def in_transaction_def upsert_run_def index_violated_def active_run_def
        sample_review_facts Let_def result_simps)
  have "map_of (units ?d) (''run'', ''unit-0'') = Some (sample_row (Some ''c''))" by (simp add: sample_db_def)
  moreover have "distinct (map unit_id (manifest_units ?m))" "run_id ?m = ''run''"
    "sample_unit Failed (Some ''execution_pending'') \<in> set (manifest_units ?m)"
    by (simp_all add: sample_manifest_def)
  ultimately show ?thesis
    using persisting_keeps_checkpoints [OF d'] d' by (force simp: sample_unit_def sample_row_def)
qed

section \<open>Exclusive claims\<close>

lemma set_bmap_insert_subset: "set (bmap_insert k v m) \<subseteq> insert (k, v) (set m)"
  by (induction k v m rule: bmap_insert.induct) auto

lemma length_map_filter_le: "length (List.map_filter f xs) \<le> length xs"
  by (induction xs) (auto simp: List.map_filter_simps split: option.splits)

lemma map_of_filter_keys: "map_of (filter (\<lambda>(k, _). p k) t) x = (if p x then map_of t x else None)"
  by (induction t) auto

lemma abandon_lookup:
  "map_of (runs (abandon_stale_runs now before d)) k =
     map_option (\<lambda>r. if active_run r \<and> run_updated r < before
                      then r\<lparr>run_status := ''abandoned'', run_updated := now\<rparr> else r) (map_of (runs d) k)"
  by (simp add: abandon_stale_runs_def map_of_map)

lemma cleanup_lookup:
  "map_of (runs (cleanup_unlinked_terminal_manifests before d)) k =
     (case map_of (runs d) k of
        None \<Rightarrow> None | Some r \<Rightarrow> if unlinked_terminal before r then None else Some r)"
  by (auto simp: cleanup_unlinked_terminal_manifests_def Let_def map_of_filter_keys split: option.splits)

lemma claim_busy:
  assumes "bmap_ok (runs d)" and "map_of (runs d) (run_id m) = None" and "schema_version m = 1"
    and "list_ex (\<lambda>(k, q). active_run q \<and> \<not> run_updated q < before \<and>
       run_target q = target_identity (manifest_target m) \<and> run_executor q = executor_id m \<and>
       run_policy q = policy_fingerprint m) (runs d)"
  shows "snd (claim_manifest se m now before expired d) = Inl ALREADY_RUNNING"
proof -
  let ?d2 = "cleanup_unlinked_terminal_manifests expired (abandon_stale_runs now before d)"
  let ?row = "manifest_row se m ''planning'' now None"
  have fresh: "map_of (runs ?d2) (run_id m) = None" by (simp add: cleanup_lookup abandon_lookup assms(2))
  have active: "active_run ?row" by (simp add: manifest_row_def active_run_def)
  from assms(4) obtain k q where q: "(k, q) \<in> set (runs d)" "active_run q" "\<not> run_updated q < before"
    "same_run_key ?row q"
    by (auto simp: list_ex_iff same_run_key_def manifest_row_def)
  have k: "map_of (runs d) k = Some q" using q(1) bmap_entry_iff [OF assms(1)] by blast
  then have other: "k \<noteq> run_id m" using assms(2) by auto
  have "\<not> unlinked_terminal expired q" using q(2) by (auto simp: unlinked_terminal_def active_run_def terminal_status_def)
  then have "map_of (runs ?d2) k = Some q" using k q(3) by (simp add: cleanup_lookup abandon_lookup)
  then have "(k, q) \<in> set (runs ?d2)" by (rule map_of_SomeD)
  with q(2,4) other active have "index_violated (run_id m) ?row ?d2" by (auto simp: index_violated_def list_ex_iff)
  with assms(3) have "persist_manifest se m ''planning'' now ?d2 = (?d2, Inl UNIQUE_ERROR)"
    by (simp add: persist_manifest_def in_transaction_def upsert_run_def Let_def fresh)
  moreover have "contains_str UNIQUE_ERROR ''UNIQUE constraint failed''" by (simp add: UNIQUE_ERROR_def)
  ultimately show ?thesis by (simp add: claim_manifest_def)
qed

lemma claim_Inr:
  assumes "claim_manifest se m now before expired d = (d', Inr v)" and "map_of (runs d) (run_id m) = None"
  shows "runs d' = bmap_insert (run_id m) (manifest_row se m ''planning'' now None)
      (runs (cleanup_unlinked_terminal_manifests expired (abandon_stale_runs now before d)))" and "schema_version m = 1"
proof -
  let ?d2 = "cleanup_unlinked_terminal_manifests expired (abandon_stale_runs now before d)"
  from assms(1) have p: "persist_manifest se m ''planning'' now ?d2 = (d', Inr ())"
    by (auto simp: claim_manifest_def split: prod.splits sum.splits)
  have "map_of (runs ?d2) (run_id m) = None" by (simp add: cleanup_lookup abandon_lookup assms(2))
  with persist_Inr [OF p] show "runs d' = bmap_insert (run_id m) (manifest_row se m ''planning'' now None) (runs ?d2)" by simp
  from p show "schema_version m = 1"
    by (auto simp: persist_manifest_def in_transaction_def upsert_run_def Let_def result_simps and_then_Inr split: sum.splits)
qed

lemma cleanup_ok:
  "bmap_ok (runs d) \<Longrightarrow> bmap_ok (runs (cleanup_unlinked_terminal_manifests expired (abandon_stale_runs now before d)))"
  by (auto simp: bmap_ok_def cleanup_unlinked_terminal_manifests_def abandon_stale_runs_def Let_def sorted_wrt_map
      case_prod_unfold intro: sorted_wrt_filter)

text \<open>
  C31: Claims are exclusive. A run that is claimed is in planning and no other active run has its
  target, executor and policy; and while another such run is active whose last sign of life is
  not older than the cutoff, the claim is refused.
\<close>

theorem claims_are_exclusive:
  assumes "claim_manifest se m now before expired d = (d', r)" and "bmap_ok (runs d)"
    and "map_of (runs d) (run_id m) = None"
  shows "(case r of
       Inr _ \<Rightarrow> (\<exists>row. map_of (runs d') (run_id m) = Some row \<and> run_status row = ''planning'' \<and>
         list_all (\<lambda>(k, q). k = run_id m \<or> \<not> active_run q \<or> \<not> same_run_key row q) (runs d'))
     | Inl _ \<Rightarrow> map_of (runs d') (run_id m) = None) \<and>
    (schema_version m = 1 \<and>
     list_ex (\<lambda>(k, q). active_run q \<and> \<not> run_updated q < before \<and>
       run_target q = target_identity (manifest_target m) \<and> run_executor q = executor_id m \<and>
       run_policy q = policy_fingerprint m) (runs d) \<longrightarrow>
     r = Inl ALREADY_RUNNING)"
proof (intro conjI impI)
  let ?d2 = "cleanup_unlinked_terminal_manifests expired (abandon_stale_runs now before d)"
  let ?row = "manifest_row se m ''planning'' now None"
  have fresh: "map_of (runs ?d2) (run_id m) = None" by (simp add: cleanup_lookup abandon_lookup assms(3))
  have active: "active_run ?row" by (simp add: manifest_row_def active_run_def)
  show "case r of
       Inr _ \<Rightarrow> (\<exists>row. map_of (runs d') (run_id m) = Some row \<and> run_status row = ''planning'' \<and>
         list_all (\<lambda>(k, q). k = run_id m \<or> \<not> active_run q \<or> \<not> same_run_key row q) (runs d'))
     | Inl _ \<Rightarrow> map_of (runs d') (run_id m) = None"
  proof (cases "persist_manifest se m ''planning'' now ?d2")
    case (Pair d3 res)
    show ?thesis
    proof (cases res)
      case (Inl e)
      then have "d3 = ?d2" using Pair by (auto simp: persist_manifest_def in_transaction_def split: sum.splits)
      with Inl Pair assms(1) fresh show ?thesis by (auto simp: claim_manifest_def)
    next
      case (Inr u)
      from persist_Inr [OF Pair [unfolded Inr]] fresh
      have d3: "runs d3 = bmap_insert (run_id m) ?row (runs ?d2)" and free: "\<not> index_violated (run_id m) ?row ?d2"
        by simp_all
      have "k = run_id m \<or> \<not> active_run q \<or> \<not> same_run_key ?row q" if "(k, q) \<in> set (runs d3)" for k q
        using that free active set_bmap_insert_subset [of "run_id m" ?row "runs ?d2"]
        by (auto simp: d3 index_violated_def list_ex_iff)
      then have "list_all (\<lambda>(k, q). k = run_id m \<or> \<not> active_run q \<or> \<not> same_run_key ?row q) (runs d3)"
        by (auto simp: list_all_iff)
      moreover have "map_of (runs d3) (run_id m) = Some ?row" by (simp add: d3)
      moreover have "run_status ?row = ''planning''" by (simp add: manifest_row_def)
      ultimately have "\<exists>row. map_of (runs d3) (run_id m) = Some row \<and> run_status row = ''planning'' \<and>
         list_all (\<lambda>(k, q). k = run_id m \<or> \<not> active_run q \<or> \<not> same_run_key row q) (runs d3)" by blast
      moreover have "d' = d3" "r = Inr u" using Inr Pair assms(1) by (simp_all add: claim_manifest_def)
      ultimately show ?thesis by simp
    qed
  qed
  assume "schema_version m = 1 \<and>
     list_ex (\<lambda>(k, q). active_run q \<and> \<not> run_updated q < before \<and>
       run_target q = target_identity (manifest_target m) \<and> run_executor q = executor_id m \<and>
       run_policy q = policy_fingerprint m) (runs d)"
  with claim_busy [OF assms(2,3), of before se now expired] assms(1) show "r = Inl ALREADY_RUNNING" by simp
qed

theorem claims_are_exclusive_witness:
  "snd (claim_manifest sample_store (sample_manifest\<lparr>run_id := ''other''\<rparr>) ''u'' ''a'' ''a'' (sample_db ''m'' None))
     = Inl ALREADY_RUNNING"
proof -
  let ?m = "sample_manifest\<lparr>run_id := ''other''\<rparr>" and ?d = "sample_db ''m'' None"
  obtain d' r where r: "claim_manifest sample_store ?m ''u'' ''a'' ''a'' ?d = (d', r)" by fastforce
  have busy: "bmap_ok (runs ?d)" "map_of (runs ?d) (run_id ?m) = None"
    "schema_version ?m = 1 \<and> list_ex (\<lambda>(k, q). active_run q \<and> \<not> run_updated q < ''a'' \<and>
       run_target q = target_identity (manifest_target ?m) \<and> run_executor q = executor_id ?m \<and>
       run_policy q = policy_fingerprint ?m) (runs ?d)"
    by (simp_all add: sample_review_facts active_run_def)
  from claims_are_exclusive [OF r busy(1,2), THEN conjunct2] busy(3) r show ?thesis by simp
qed

section \<open>Paging\<close>

lemma page_next:
  "snd (public_manifest_page se repo review limit offset d) = Some n \<Longrightarrow>
     n = offset + clamp 1 100 limit \<and> offset < length (page_rows repo review d)"
proof -
  let ?rows = "take (clamp 1 100 limit + 1) (drop offset (page_rows repo review d))"
  have "length (List.map_filter (\<lambda>(_, r). read_manifest se (run_manifest r)) ?rows) \<le> length ?rows"
    by (rule length_map_filter_le)
  moreover assume "snd (public_manifest_page se repo review limit offset d) = Some n"
  ultimately show ?thesis
    by (auto simp: public_manifest_page_def Let_def split: if_splits)
qed

text \<open>A client that follows the offsets.\<close>

function read_pages ::
  "store_env \<Rightarrow> string \<Rightarrow> string option \<Rightarrow> nat \<Rightarrow> nat \<Rightarrow> review_db \<Rightarrow> review_manifest list" where
  "read_pages se repo review limit offset d =
     (case public_manifest_page se repo review limit offset d of
        (items, None) \<Rightarrow> items
      | (items, Some n) \<Rightarrow> items @ read_pages se repo review limit n d)"
  by pat_completeness auto
termination
proof (relation "measure (\<lambda>(se, repo, review, limit, offset, d). length (page_rows repo review d) - offset)", simp, goal_cases)
  case (1 se repo review limit offset d items next_offset n)
  then have "snd (public_manifest_page se repo review limit offset d) = Some n" by (metis snd_conv)
  from page_next [OF this] show ?case by (auto simp: clamp_def)
qed

declare read_pages.simps [simp del]

lemma map_filter_all:
  "list_all (\<lambda>x. f x \<noteq> None) xs \<Longrightarrow> List.map_filter f xs = map (\<lambda>x. the (f x)) xs"
  by (induction xs) (auto simp: List.map_filter_simps)

text \<open>
  C30: Following the offsets ends and lists everything. When every stored manifest can be read, a
  client that starts at the beginning and follows the next offset of each page sees the manifests
  of the repository, newest first, each exactly once.
\<close>

theorem pages_list_everything:
  assumes "list_all (\<lambda>(_, r). read_manifest se (run_manifest r) \<noteq> None) (page_rows repo review d)"
  shows "read_pages se repo review limit 0 d =
    map (\<lambda>(_, r). the (read_manifest se (run_manifest r))) (page_rows repo review d)"
proof -
  let ?rows = "page_rows repo review d" and ?f = "\<lambda>(_, r). read_manifest se (run_manifest r)"
  let ?l = "clamp 1 100 limit"
  have all: "List.map_filter ?f (take n (drop k xs)) = map (\<lambda>x. the (?f x)) (take n (drop k xs))"
    if "list_all (\<lambda>x. ?f x \<noteq> None) xs" for n k and xs :: "(string \<times> run_row) list"
    using that by (intro map_filter_all) (metis (mono_tags, lifting) in_set_dropD in_set_takeD list_all_iff)
  have good: "list_all (\<lambda>x. ?f x \<noteq> None) ?rows" using assms by (simp add: list_all_iff case_prod_unfold)
  have page: "public_manifest_page se repo review limit n d =
      (map (\<lambda>x. the (?f x)) (take ?l (drop n ?rows)),
       if n + ?l < length ?rows then Some (n + ?l) else None)" for n
    by (auto simp: public_manifest_page_def Let_def all [OF good] take_map min_def)
  have "read_pages se repo review limit n d = map (\<lambda>x. the (?f x)) (drop n ?rows)" for n
  proof (induction "length ?rows - n" arbitrary: n rule: less_induct)
    case less
    show ?case
    proof (cases "n + ?l < length ?rows")
      case True
      have "0 < ?l" by (simp add: clamp_def)
      with True have "read_pages se repo review limit (n + ?l) d = map (\<lambda>x. the (?f x)) (drop (n + ?l) ?rows)"
        by (intro less) simp
      moreover have "take ?l (drop n ?rows) @ drop (n + ?l) ?rows = drop n ?rows"
        by (metis add.commute append_take_drop_id drop_drop)
      ultimately show ?thesis
        using True by (subst read_pages.simps) (simp add: page flip: map_append)
    next
      case False
      then show ?thesis by (subst read_pages.simps) (simp add: page)
    qed
  qed
  from this [of 0] show ?thesis by (simp add: case_prod_unfold)
qed

theorem pages_list_everything_witness:
  "read_pages sample_store ''/r'' None 1 0 (sample_db ''m'' None) = [sample_manifest]"
proof -
  have rows: "page_rows ''/r'' None (sample_db ''m'' None) = [(''run'', sample_run_row ''running'' ''m'')]"
    by (simp add: page_rows_def sample_review_facts)
  have "list_all (\<lambda>(_, r). read_manifest sample_store (run_manifest r) \<noteq> None) (page_rows ''/r'' None (sample_db ''m'' None))"
    unfolding rows by (simp add: sample_store_def sample_run_row_def)
  from pages_list_everything [OF this, of 1] show ?thesis
    unfolding rows by (simp add: sample_store_def sample_run_row_def)
qed

text \<open>
  One unreadable manifest ends the list. If among the rows fetched for a page one cannot be
  parsed, the page announces no next one, however many rows follow.
\<close>

theorem unreadable_manifest_ends_paging:
  assumes "list_ex (\<lambda>(_, r). read_manifest se (run_manifest r) = None)
    (take (clamp 1 100 limit + 1) (drop offset (page_rows repo review d)))"
  shows "snd (public_manifest_page se repo review limit offset d) = None"
proof -
  let ?rows = "take (clamp 1 100 limit + 1) (drop offset (page_rows repo review d))"
  have "length (List.map_filter f xs) < length xs" if "list_ex (\<lambda>x. f x = None) xs" for f :: "string \<times> run_row \<Rightarrow> review_manifest option" and xs
    using that
  proof (induction xs)
    case (Cons x xs)
    show ?case
    proof (cases "f x")
      case None
      then show ?thesis using length_map_filter_le [of f xs] by (simp add: List.map_filter_simps)
    next
      case (Some y)
      with Cons show ?thesis by (simp add: List.map_filter_simps)
    qed
  qed simp
  from this [of "\<lambda>(_, r). read_manifest se (run_manifest r)" ?rows] assms
  have "length (List.map_filter (\<lambda>(_, r). read_manifest se (run_manifest r)) ?rows) < length ?rows"
    by (simp add: case_prod_unfold)
  also have "\<dots> \<le> clamp 1 100 limit + 1" by simp
  finally show ?thesis by (simp add: public_manifest_page_def Let_def)
qed

theorem unreadable_manifest_ends_paging_witness:
  "let d = (sample_db ''m'' None)\<lparr>runs := [(''a'', sample_run_row ''completed'' ''m''), (''b'', sample_run_row ''completed'' ''?''),
     (''c'', sample_run_row ''completed'' ''m'')]\<rparr>
   in public_manifest_page sample_store ''/r'' None 1 0 d = ([sample_manifest], None) \<and>
      length (page_rows ''/r'' None d) = 3"
proof -
  let ?d = "(sample_db ''m'' None)\<lparr>runs := [(''a'', sample_run_row ''completed'' ''m''), (''b'', sample_run_row ''completed'' ''?''),
     (''c'', sample_run_row ''completed'' ''m'')]\<rparr>"
  have rows: "page_rows ''/r'' None ?d =
    [(''c'', sample_run_row ''completed'' ''m''), (''b'', sample_run_row ''completed'' ''?''), (''a'', sample_run_row ''completed'' ''m'')]"
    by (simp add: page_rows_def sample_review_facts)
  have "list_ex (\<lambda>(_, r). read_manifest sample_store (run_manifest r) = None)
    (take (clamp 1 100 1 + 1) (drop 0 (page_rows ''/r'' None ?d)))"
    unfolding rows by (simp add: sample_store_def sample_run_row_def clamp_def)
  from unreadable_manifest_ends_paging [OF this]
  have "snd (public_manifest_page sample_store ''/r'' None 1 0 ?d) = None" .
  then show ?thesis
    unfolding public_manifest_page_def rows Let_def
    by (simp add: sample_store_def sample_run_row_def clamp_def List.map_filter_simps)
qed

end
