(* ===== verification/ReviewMerge.thy ===== *)
theory ReviewMerge
  imports ReviewStore
begin

text \<open>
  The pure parts of the review engine, \<open>commands/review.rs\<close>: the registry of running reviews, the
  plan of a review (its tier and specialists), what is kept of a reviewer's answer, the score, and
  the merging of findings into one list.
\<close>

section \<open>Running reviews\<close>

text \<open>
  \<open>ACTIVE_REVIEW_CANCELLATIONS\<close>: the repositories under review, each with its cancellation flag.
  The guard a registration returns removes its entry when it is dropped.
\<close>

type_synonym registry = "(string, bool) bmap"

definition register_review_cancellation :: "string \<Rightarrow> registry \<Rightarrow> registry result" where
  "register_review_cancellation root_path active =
     and_then (reject_if (map_of active root_path \<noteq> None) ''A review is already active for this repository'')
       (\<lambda>_. Inr (bmap_insert root_path False active))"

definition drop_guard :: "string \<Rightarrow> registry \<Rightarrow> registry" where
  "drop_guard root_path active = filter (\<lambda>(k, _). k \<noteq> root_path) active"

definition mark_review_cancellations :: "registry \<Rightarrow> registry \<times> nat" where
  "mark_review_cancellations active = (map (\<lambda>(k, _). (k, True)) active, length active)"

definition cancel_cli_review :: "review_env \<Rightarrow> string \<Rightarrow> registry \<Rightarrow> registry \<times> json result" where
  "cancel_cli_review env repo_path active =
     (case canonicalize env repo_path of
        None \<Rightarrow> (active, Inl ''Review repository is unavailable'')
      | Some key \<Rightarrow>
          if map_of active key = None
          then (active, Inr (object_of [(''cancelled'', Bool False), (''reason'', String ''no_active_review'')]))
          else (bmap_insert key True active, Inr (object_of [(''cancelled'', Bool True)])))"

section \<open>The plan\<close>

text \<open>A specialist, without the checks its prompt lists.\<close>

record specialist =
  specialist_id :: string
  specialist_name :: string
  specialist_focus :: string

definition PRODUCT_SAFETY_SPECIALIST :: specialist where
  "PRODUCT_SAFETY_SPECIALIST =
     \<lparr>specialist_id = ''product-safety'', specialist_name = ''Product Safety'',
      specialist_focus = ''User-facing regressions, broken flows, data loss, confusing states, and behavior changes that violate the described goal.''\<rparr>"

definition SECURITY_BOUNDARY_SPECIALIST :: specialist where
  "SECURITY_BOUNDARY_SPECIALIST =
     \<lparr>specialist_id = ''security-boundary'', specialist_name = ''Security Boundary'',
      specialist_focus = ''Auth, authorization, secret handling, trust boundaries, injection, shell/network execution, and unsafe IPC or persistence boundaries.''\<rparr>"

definition AGENT_HANDOFF_SPECIALIST :: specialist where
  "AGENT_HANDOFF_SPECIALIST =
     \<lparr>specialist_id = ''agent-handoff'', specialist_name = ''Agent Handoff'',
      specialist_focus = ''Agent-written-code failure modes: over-editing, silent scope drift, missing verification, fake-green summaries, brittle fixes, and incomplete handoff.''\<rparr>"

definition ASSUMPTION_INTEGRITY_SPECIALIST :: specialist where
  "ASSUMPTION_INTEGRITY_SPECIALIST =
     \<lparr>specialist_id = ''assumption-integrity'', specialist_name = ''Assumption Integrity'',
      specialist_focus = ''Agent-made assumptions, contradictions between stated intent and code, implicit invariants, and unverified claims that can snowball into wrong follow-up work.''\<rparr>"

definition GENERAL_REVIEW_SPECIALIST :: specialist where
  "GENERAL_REVIEW_SPECIALIST =
     \<lparr>specialist_id = ''general'', specialist_name = ''General Code Review'',
      specialist_focus = ''Correctness, security, regression risk, broken contracts, and changed behavior that can realistically break the described goal.''\<rparr>"

record review_plan =
  plan_tier :: string
  plan_mode :: string
  changed_lines :: nat
  sensitive_paths :: "string list"
  specialists :: "specialist list"
  uses_coordinator :: bool

definition changed_line_count :: "string \<Rightarrow> nat" where
  "changed_line_count diff =
     length (filter (\<lambda>line. (starts_with line ''+'' \<and> \<not> starts_with line ''+++ '')
       \<or> (starts_with line ''-'' \<and> \<not> starts_with line ''--- '')) (str_lines diff))"

definition sensitive_terms :: "string list" where
  "sensitive_terms =
     [''auth'', ''login'', ''session'', ''token'', ''secret'', ''credential'', ''password'', ''permission'',
      ''rbac'', ''acl'', ''migration'', ''schema'', ''sql'', ''ipc'', ''invoke'', ''command'', ''shell'', ''exec'',
      ''network'', ''webhook'', ''billing'', ''payment'']"

definition is_sensitive_review_path :: "string \<Rightarrow> bool" where
  "is_sensitive_review_path path \<longleftrightarrow> list_ex (contains_str (lower_str path)) sensitive_terms"

definition build_review_plan :: "string \<Rightarrow> string list \<Rightarrow> review_plan" where
  "build_review_plan diff changed =
     (let lines = changed_line_count diff;
          sensitive = filter is_sensitive_review_path changed
      in if lines \<le> 10 \<and> sensitive = []
         then \<lparr>plan_tier = ''trivial'', plan_mode = ''assumption-first'', changed_lines = lines,
               sensitive_paths = sensitive,
               specialists = [ASSUMPTION_INTEGRITY_SPECIALIST, GENERAL_REVIEW_SPECIALIST],
               uses_coordinator = False\<rparr>
         else if lines \<le> 100 \<and> sensitive = []
         then \<lparr>plan_tier = ''lite'', plan_mode = ''specialist-lite'', changed_lines = lines,
               sensitive_paths = sensitive,
               specialists = [ASSUMPTION_INTEGRITY_SPECIALIST, PRODUCT_SAFETY_SPECIALIST, AGENT_HANDOFF_SPECIALIST],
               uses_coordinator = False\<rparr>
         else \<lparr>plan_tier = (if sensitive = [] then ''full'' else ''full-sensitive''),
               plan_mode = ''specialist-full'', changed_lines = lines, sensitive_paths = sensitive,
               specialists = [ASSUMPTION_INTEGRITY_SPECIALIST, PRODUCT_SAFETY_SPECIALIST,
                 SECURITY_BOUNDARY_SPECIALIST, AGENT_HANDOFF_SPECIALIST],
               uses_coordinator = True\<rparr>)"

definition structural_extensions :: "string list" where
  "structural_extensions =
     [''c'', ''cc'', ''cpp'', ''cs'', ''cxx'', ''go'', ''java'', ''js'', ''jsx'', ''mjs'', ''cjs'', ''kt'', ''kts'',
      ''php'', ''py'', ''rb'', ''rs'', ''swift'', ''ts'', ''tsx'']"

definition changed_files_need_structural_context :: "string list \<Rightarrow> bool" where
  "changed_files_need_structural_context changed \<longleftrightarrow>
     list_ex (\<lambda>f. case file_extension f of
                None \<Rightarrow> False | Some e \<Rightarrow> lower_str e \<in> set structural_extensions) changed"

section \<open>A reviewer's answer\<close>

definition findings_from :: "json \<Rightarrow> json list" where
  "findings_from parsed = items_at ''findings'' parsed"

definition checkpoint_projection :: "json \<Rightarrow> string \<Rightarrow> json" where
  "checkpoint_projection parsed file_path =
     object_of
       [(''findings'', Array (filter (\<lambda>f. get_str ''filePath'' f = Some file_path) (findings_from parsed))),
        (''summary'', String (case get_str ''summary'' parsed of None \<Rightarrow> ''Checkpointed review unit'' | Some s \<Rightarrow> s)),
        (''score'', json_of_option (\<lambda>q. Number (Float q)) (Option.bind (get_key ''score'' parsed) as_f64)),
        (''specialist'', get_or Null ''specialist'' parsed)]"

definition severity_penalty :: "json \<Rightarrow> rat" where
  "severity_penalty f =
     (let severity = (case get_str ''severity'' f of None \<Rightarrow> ''low'' | Some s \<Rightarrow> s)
      in if severity = ''critical'' then 20 else if severity = ''high'' then 10
         else if severity = ''medium'' then 5 else if severity = ''low'' then 2 else 1)"

text \<open>The penalties are small integers, so the float arithmetic is exact.\<close>

definition score_from_findings :: "json \<Rightarrow> json list \<Rightarrow> rat" where
  "score_from_findings parsed fs =
     (case Option.bind (get_key ''score'' parsed) as_f64 of
        Some q \<Rightarrow> q
      | None \<Rightarrow> max 0 (foldl (\<lambda>s f. s - severity_penalty f) 100 fs))"

section \<open>Merging findings\<close>

definition str_or_empty :: "string \<Rightarrow> json \<Rightarrow> string" where
  "str_or_empty k f = (case get_str k f of None \<Rightarrow> [] | Some s \<Rightarrow> s)"

definition finding_file :: "json \<Rightarrow> string" where
  "finding_file f = lower_str (str_or_empty ''filePath'' f)"

definition finding_dedupe_key :: "json \<Rightarrow> string" where
  "finding_dedupe_key f =
     finding_file f @ '':'' @ (case candidate_line f of None \<Rightarrow> [] | Some n \<Rightarrow> show_int n) @ '':''
       @ lower_str (trim (str_or_empty ''title'' f))"

definition STOPWORDS :: "string list" where
  "STOPWORDS =
     [''the'', ''a'', ''an'', ''in'', ''on'', ''of'', ''to'', ''and'', ''or'', ''for'', ''with'', ''via'', ''is'', ''are'',
      ''into'', ''from'', ''by'', ''at'', ''that'', ''this'', ''when'', ''can'']"

definition strip_plural :: "string \<Rightarrow> string" where
  "strip_plural t = (if 3 < length t \<and> ends_with t ''s'' then take (length t - 1) t else t)"

definition finding_title_tokens :: "json \<Rightarrow> string bset" where
  "finding_title_tokens f =
     bset_of (map strip_plural (filter (\<lambda>t. 2 \<le> length t \<and> t \<notin> set STOPWORDS)
       (split_on (\<lambda>c. \<not> is_ascii_alphanumeric c) (lower_str (str_or_empty ''title'' f)))))"

text \<open>
  The quotient of two set sizes. Rounding is monotone and takes \<open>3 / 10\<close> and \<open>13 / 20\<close> to the
  literals the code compares with, so the comparisons below are exact.
\<close>

definition token_jaccard :: "string bset \<Rightarrow> string bset \<Rightarrow> rat" where
  "token_jaccard a b =
     (if a = [] \<or> b = [] then 0
      else of_nat (length (filter (\<lambda>t. t \<in> set b) a)) / of_nat (length (a @ filter (\<lambda>t. t \<notin> set a) b)))"

text \<open>Both lines are those of qualified findings, positive, so their difference cannot overflow.\<close>

definition is_duplicate_finding :: "json \<Rightarrow> json \<Rightarrow> bool" where
  "is_duplicate_finding a b \<longleftrightarrow>
     finding_file a = finding_file b \<and>
     (let line_delta = (case (candidate_line a, candidate_line b) of
            (Some la, Some lb) \<Rightarrow> abs (la - lb) | _ \<Rightarrow> 2 ^ 63 - 1);
          similarity = token_jaccard (finding_title_tokens a) (finding_title_tokens b)
      in (line_delta \<le> 2 \<and> 3 / 10 \<le> similarity) \<or> (line_delta \<le> 10 \<and> 13 / 20 \<le> similarity))"

definition severity_rank :: "string \<Rightarrow> int" where
  "severity_rank s =
     (if s = ''critical'' then 4 else if s = ''high'' then 3 else if s = ''medium'' then 2
      else if s = ''low'' then 1 else 0)"

definition finding_severity :: "json \<Rightarrow> int" where
  "finding_severity f = (case get_str ''severity'' f of None \<Rightarrow> 0 | Some s \<Rightarrow> severity_rank s)"

definition finding_confidence :: "json \<Rightarrow> rat" where
  "finding_confidence f = (case Option.bind (get_key ''confidence'' f) as_f64 of None \<Rightarrow> 0 | Some q \<Rightarrow> q)"

text \<open>
  The first pass: one finding per key, the first one of the highest severity; findings with
  nothing to key on are all kept.
\<close>

definition note_finding :: "json \<Rightarrow> (string, json) bmap \<times> json list \<Rightarrow> (string, json) bmap \<times> json list" where
  "note_finding f = (\<lambda>(by_key, unkeyed).
     let key = finding_dedupe_key f
     in if key = ''::'' then (by_key, unkeyed @ [f])
        else if (case map_of by_key key of None \<Rightarrow> True | Some g \<Rightarrow> finding_severity g < finding_severity f)
        then (bmap_insert key f by_key, unkeyed) else (by_key, unkeyed))"

definition better_statement :: "json \<Rightarrow> json \<Rightarrow> bool" where
  "better_statement f g \<longleftrightarrow>
     finding_severity g < finding_severity f \<or>
     (finding_severity f = finding_severity g \<and> finding_confidence g < finding_confidence f)"

text \<open>The second pass: a finding joins the first kept one that it duplicates.\<close>

fun absorb :: "json \<Rightarrow> json list \<Rightarrow> json list" where
  "absorb f [] = [f]"
| "absorb f (k # kept) =
     (if is_duplicate_finding k f then (if better_statement f k then f else k) # kept
      else k # absorb f kept)"

text \<open>The order in which a hash map gives out its values is the parameter \<open>arrange\<close>.\<close>

definition dedupe_findings :: "(json list \<Rightarrow> json list) \<Rightarrow> json list \<Rightarrow> json list" where
  "dedupe_findings arrange fs =
     (case fold note_finding fs ([], []) of (by_key, unkeyed) \<Rightarrow>
        let kept = fold absorb (arrange (map snd by_key @ unkeyed)) []
        in sort_key (\<lambda>f. - finding_severity f) kept)"

section \<open>What the plan promises\<close>

lemma plan_specialists:
  "specialists (build_review_plan diff changed) \<noteq> []"
  "distinct (map specialist_id (specialists (build_review_plan diff changed)))"
  by (simp_all add: build_review_plan_def Let_def PRODUCT_SAFETY_SPECIALIST_def SECURITY_BOUNDARY_SPECIALIST_def
      AGENT_HANDOFF_SPECIALIST_def ASSUMPTION_INTEGRITY_SPECIALIST_def GENERAL_REVIEW_SPECIALIST_def)

lemma plan_coordinator:
  "uses_coordinator (build_review_plan diff changed) \<longleftrightarrow>
     100 < changed_line_count diff \<or> list_ex is_sensitive_review_path changed"
  by (auto simp: build_review_plan_def Let_def list_ex_iff filter_empty_conv)

section \<open>What merging promises\<close>

lemma absorb_set: "set (absorb f kept) \<subseteq> insert f (set kept)"
  by (induction f kept rule: absorb.induct) auto

text \<open>Absorbing neither drops nor lowers what a list covers: the severity of each file's findings.\<close>

definition covers :: "json \<Rightarrow> json list \<Rightarrow> bool" where
  "covers f out \<longleftrightarrow> (\<exists>g \<in> set out. finding_file g = finding_file f \<and> finding_severity f \<le> finding_severity g)"

lemma covers_self: "f \<in> set out \<Longrightarrow> covers f out"
  by (auto simp: covers_def)

lemma covers_trans: "covers f out \<Longrightarrow> (\<And>g. g \<in> set out \<Longrightarrow> covers g out') \<Longrightarrow> covers f out'"
  by (force simp: covers_def)

lemma covers_Cons: "covers f out \<Longrightarrow> covers f (g # out)"
  by (auto simp: covers_def)

lemma better_statement_severity: "\<not> better_statement f g \<Longrightarrow> finding_severity f \<le> finding_severity g"
  by (auto simp: better_statement_def)

lemma absorb_covers: "g \<in> insert f (set kept) \<Longrightarrow> covers g (absorb f kept)"
proof (induction f kept rule: absorb.induct)
  case (1 f)
  then show ?case by (simp add: covers_def)
next
  case (2 f k kept)
  show ?case
  proof (cases "is_duplicate_finding k f")
    case True
    then have same: "finding_file k = finding_file f" by (simp add: is_duplicate_finding_def)
    show ?thesis
    proof (cases "better_statement f k")
      case better: True
      with 2(2) True same show ?thesis by (auto simp: covers_def better_statement_def)
    next
      case False
      with 2(2) True same better_statement_severity [OF False] show ?thesis by (auto simp: covers_def)
    qed
  next
    case False
    then show ?thesis using 2 covers_Cons covers_self by (auto simp del: absorb.simps(1))
  qed
qed

lemma fold_absorb_covers: "g \<in> set kept \<union> set fs \<Longrightarrow> covers g (fold absorb fs kept)"
proof (induction fs arbitrary: kept g)
  case Nil
  then show ?case by (simp add: covers_self)
next
  case (Cons f fs)
  show ?case
  proof (cases "g \<in> set fs")
    case True
    then show ?thesis using Cons.IH by simp
  next
    case False
    with Cons.prems have "covers g (absorb f kept)" by (intro absorb_covers) auto
    then have "covers g (fold absorb fs (absorb f kept))" by (rule covers_trans) (rule Cons.IH, simp)
    then show ?thesis by simp
  qed
qed

lemma fold_absorb_set: "set (fold absorb fs kept) \<subseteq> set kept \<union> set fs"
proof (induction fs arbitrary: kept)
  case (Cons f fs)
  then show ?case using absorb_set [of f kept] by fastforce
qed simp


lemma key_same_file:
  assumes "finding_dedupe_key f = finding_dedupe_key g"
    and "CHR '':'' \<notin> set (finding_file f)" and "CHR '':'' \<notin> set (finding_file g)"
  shows "finding_file f = finding_file g"
proof -
  have "takeWhile (\<lambda>c. c \<noteq> CHR '':'') (finding_dedupe_key h) = finding_file h" if "CHR '':'' \<notin> set (finding_file h)" for h
  proof -
    have "takeWhile (\<lambda>c. c \<noteq> CHR '':'') (finding_file h @ CHR '':'' # rest) = finding_file h" for rest
      using that by (subst takeWhile_append2) auto
    then show ?thesis by (simp add: finding_dedupe_key_def)
  qed
  then show ?thesis using assms by metis
qed

text \<open>What the first pass has kept of the findings it has seen.\<close>

definition noted :: "json list \<Rightarrow> (string, json) bmap \<times> json list \<Rightarrow> bool" where
  "noted seen p \<longleftrightarrow>
     (\<forall>k g. map_of (fst p) k = Some g \<longrightarrow> g \<in> set seen \<and> finding_dedupe_key g = k) \<and> bmap_ok (fst p) \<and>
     set (snd p) \<subseteq> set seen \<and>
     (\<forall>f \<in> set seen. f \<in> set (snd p) \<or>
        (\<exists>g. map_of (fst p) (finding_dedupe_key f) = Some g \<and> finding_severity f \<le> finding_severity g))"

lemma note_finding_noted:
  assumes "noted seen p"
  shows "noted (seen @ [f]) (note_finding f p)"
proof (cases p)
  case (Pair m un)
  with assms have m: "\<And>k g. map_of m k = Some g \<Longrightarrow> g \<in> set seen \<and> finding_dedupe_key g = k" "bmap_ok m" "set un \<subseteq> set seen"
    "\<And>f. f \<in> set seen \<Longrightarrow> f \<in> set un \<or>
        (\<exists>g. map_of m (finding_dedupe_key f) = Some g \<and> finding_severity f \<le> finding_severity g)"
    by (auto simp: noted_def)
  consider (plain) "finding_dedupe_key f = ''::''"
    | (put) "finding_dedupe_key f \<noteq> ''::''"
        "case map_of m (finding_dedupe_key f) of None \<Rightarrow> True | Some g \<Rightarrow> finding_severity g < finding_severity f"
    | (skip) g where "finding_dedupe_key f \<noteq> ''::''" "map_of m (finding_dedupe_key f) = Some g"
        "finding_severity f \<le> finding_severity g"
    by (cases "map_of m (finding_dedupe_key f)") force+
  then show ?thesis
  proof cases
    case plain
    with Pair m show ?thesis by (simp add: note_finding_def noted_def) blast
  next
    case put
    then have out: "note_finding f p = (bmap_insert (finding_dedupe_key f) f m, un)" by (simp add: note_finding_def Pair)
    have "h \<in> set un \<or> (\<exists>g. map_of (bmap_insert (finding_dedupe_key f) f m) (finding_dedupe_key h) = Some g \<and>
        finding_severity h \<le> finding_severity g)" if "h \<in> set (seen @ [f])" for h
    proof (cases "finding_dedupe_key h = finding_dedupe_key f")
      case True
      then show ?thesis using that m(4) [of h] put(2) by (auto split: option.splits)
    next
      case False
      then show ?thesis using that m(4) [of h] by auto
    qed
    with m show ?thesis by (auto simp: out noted_def bmap_insert_ok split: if_splits)
  next
    case skip
    then have out: "note_finding f p = (m, un)" by (simp add: note_finding_def Pair)
    show ?thesis unfolding noted_def out fst_conv snd_conv
    proof (intro conjI allI impI ballI)
      fix h assume "h \<in> set (seen @ [f])"
      then show "h \<in> set un \<or> (\<exists>g. map_of m (finding_dedupe_key h) = Some g \<and> finding_severity h \<le> finding_severity g)"
        using m(4) [of h] skip by auto
    qed (use m in auto)
  qed
qed

lemma fold_note_noted: "noted seen p \<Longrightarrow> noted (seen @ fs) (fold note_finding fs p)"
proof (induction fs arbitrary: seen p)
  case (Cons f fs)
  from Cons.IH [OF note_finding_noted [OF Cons.prems]] show ?case by simp
qed simp

lemma noted_all: "noted fs (fold note_finding fs ([], []))"
  using fold_note_noted [of "[]" "([], [])" fs] by (simp add: noted_def)

lemma dedupe_members:
  assumes "\<And>xs. mset (arrange xs) = mset xs"
  shows "set (dedupe_findings arrange fs) \<subseteq> set fs"
proof -
  obtain m un where mu: "fold note_finding fs ([], []) = (m, un)" by fastforce
  with noted_all [of fs] have "bmap_ok m" "\<And>k g. map_of m k = Some g \<Longrightarrow> g \<in> set fs" "set un \<subseteq> set fs"
    by (auto simp: noted_def)
  then have "set (map snd m @ un) \<subseteq> set fs" using bmap_entry_iff [of m] by fastforce
  moreover have "set (arrange (map snd m @ un)) = set (map snd m @ un)" using assms by (metis set_mset_mset)
  ultimately have "set (fold absorb (arrange (map snd m @ un)) []) \<subseteq> set fs"
    using fold_absorb_set [of "arrange (map snd m @ un)" "[]"] by (metis Un_empty_left empty_set subset_trans)
  then show ?thesis by (simp add: dedupe_findings_def mu)
qed

text \<open>
  Merging findings hides no severity. Whatever order the hash map gives, the merged list
  holds only findings it was given, the gravest first, and for every finding one of the same file
  that is at least as grave.
\<close>

theorem merging_keeps_severity:
  assumes "\<And>xs. mset (arrange xs) = mset xs" and "list_all (\<lambda>f. CHR '':'' \<notin> set (finding_file f)) fs"
  shows "set (dedupe_findings arrange fs) \<subseteq> set fs \<and>
    sorted_wrt (\<lambda>f g. finding_severity g \<le> finding_severity f) (dedupe_findings arrange fs) \<and>
    list_all (\<lambda>f. \<exists>g \<in> set (dedupe_findings arrange fs).
       finding_file g = finding_file f \<and> finding_severity f \<le> finding_severity g) fs"
proof (intro conjI)
  obtain m un where mu: "fold note_finding fs ([], []) = (m, un)" by fastforce
  define given where "given = map snd m @ un"
  have out: "dedupe_findings arrange fs = sort_key (\<lambda>f. - finding_severity f) (fold absorb (arrange given) [])"
    by (simp add: dedupe_findings_def mu given_def)
  have noted: "noted fs (m, un)" using noted_all [of fs] by (simp add: mu)
  have members: "set (arrange given) = set given" using assms(1) by (metis set_mset_mset)
  show "set (dedupe_findings arrange fs) \<subseteq> set fs" using assms(1) by (rule dedupe_members)
  have "sorted (map (\<lambda>f. - finding_severity f) (dedupe_findings arrange fs))" unfolding out by simp
  then show "sorted_wrt (\<lambda>f g. finding_severity g \<le> finding_severity f) (dedupe_findings arrange fs)"
    by (simp add: sorted_map)
  have "covers f (dedupe_findings arrange fs)" if f: "f \<in> set fs" for f
  proof -
    have "covers f given"
    proof (cases "f \<in> set un")
      case False
      with noted f obtain g where g: "map_of m (finding_dedupe_key f) = Some g" "finding_severity f \<le> finding_severity g"
        "g \<in> set fs" "finding_dedupe_key g = finding_dedupe_key f" by (auto simp: noted_def)
      have "finding_file g = finding_file f"
        using g(4) assms(2) f g(3) by (intro key_same_file) (auto simp: list_all_iff)
      moreover have "g \<in> set given" using g(1) map_of_SomeD by (force simp: given_def)
      ultimately show ?thesis using g(2) by (auto simp: covers_def)
    qed (simp add: covers_self given_def)
    moreover have "covers g (fold absorb (arrange given) [])" if "g \<in> set given" for g
      using that members by (intro fold_absorb_covers) simp
    ultimately have "covers f (fold absorb (arrange given) [])" by (rule covers_trans)
    then show ?thesis by (simp add: covers_def out)
  qed
  then show "list_all (\<lambda>f. \<exists>g \<in> set (dedupe_findings arrange fs).
       finding_file g = finding_file f \<and> finding_severity f \<le> finding_severity g) fs"
    by (auto simp: list_all_iff covers_def)
qed

text \<open>The order of the hash map decides how many findings remain: being a duplicate is not transitive.\<close>

definition titled_finding :: "string \<Rightarrow> json" where
  "titled_finding title =
     object_of [(''filePath'', String ''a''), (''line'', json_int 1), (''severity'', String ''high''), (''title'', String title)]"

lemma merging_depends_on_order:
  "map (\<lambda>arrange. length (dedupe_findings arrange
     [titled_finding ''aa bb cc dd'', titled_finding ''bb aa'', titled_finding ''cc dd''])) [\<lambda>xs. xs, rev] = [1, 2]"
  by code_simp

theorem merging_keeps_severity_witness:
  "covers (titled_finding ''cc dd'')
     (dedupe_findings rev [titled_finding ''aa bb cc dd'', titled_finding ''bb aa'', titled_finding ''cc dd''])"
proof -
  let ?fs = "[titled_finding ''aa bb cc dd'', titled_finding ''bb aa'', titled_finding ''cc dd'']"
  have "list_all (\<lambda>f. CHR '':'' \<notin> set (finding_file f)) ?fs"
    by (simp add: titled_finding_def finding_file_def str_or_empty_def get_str_def get_key_object_of lower_str_def
        to_ascii_lower_def is_ascii_uppercase_def)
  from merging_keeps_severity [of rev, OF _ this] show ?thesis by (simp add: covers_def)
qed

end
