(* ===== verification/ReviewRun.thy ===== *)
theory ReviewRun
  imports ReviewMerge
begin

text \<open>
  A review from its request to its report, \<open>run_cli_review_core\<close> of \<open>commands/review.rs\<close>: the
  target is resolved and claimed, checkpoints are reused, the specialists answer for the units
  that are left, complete units are checkpointed, candidates are qualified before and after the
  coordinator, and the manifest is saved with the review. The repository is observed four times,
  each time as it is then. The prompts, and what only they read, are left out.
\<close>

section \<open>The environment of a run\<close>

record review_request =
  request_repo :: string
  request_range :: string
  request_agent :: "string option"
  request_planning_context :: string

text \<open>
  The answers of the repository, the clock, the agents and the review tables; \<open>value_order\<close> is
  the order in which a hash map gives out its values.
\<close>

record run_env =
  nested_worker :: bool
  plan_world :: review_env
  qualify_world :: review_env
  current_world :: review_env
  final_world :: review_env
  run_store :: store_env
  running_reviews :: registry
  new_run_id :: string
  created_time :: string
  claim_time :: string
  stale_cutoff :: string
  expiry_cutoff :: string
  running_time :: string
  started_time :: "nat \<Rightarrow> string"
  attempt_uuid :: "nat \<Rightarrow> nat \<Rightarrow> string"
  attempt_time :: "nat \<Rightarrow> nat \<Rightarrow> string"
  checkpoint_time :: "nat \<Rightarrow> string"
  completed_time :: string
  saved_time :: string
  context_stored :: bool
  context_built :: "unit result"
  specialists_joined :: "unit result"
  specialist_reply :: "nat \<Rightarrow> (json \<times> string) result"
  coordinator_reply :: "json list \<Rightarrow> (json \<times> string) result"
  value_order :: "json list \<Rightarrow> json list"
  new_review :: "string result"
  findings_saved :: "json list \<Rightarrow> unit result"
  review_updated :: "unit result"
  activity_logged :: "unit result"

text \<open>An operation on the tables that failed stops the run; what it wrote stays.\<close>

fun continue_with :: "'s \<times> 'a result \<Rightarrow> ('a \<Rightarrow> 's \<Rightarrow> 's \<times> 'b result) \<Rightarrow> 's \<times> 'b result" where
  "continue_with (s, Inl e) f = (s, Inl e)"
| "continue_with (s, Inr x) f = f x s"

primrec run_all :: "('a \<Rightarrow> 's \<Rightarrow> 's \<times> unit result) \<Rightarrow> 'a list \<Rightarrow> 's \<Rightarrow> 's \<times> unit result" where
  "run_all f [] s = (s, Inr ())"
| "run_all f (x # xs) s = continue_with (f x s) (\<lambda>_. run_all f xs)"

section \<open>Before the first agent\<close>

definition NESTED_REVIEW :: string where
  "NESTED_REVIEW = ''Independent review workers cannot launch nested CodeVetter reviews; return findings to the author''"

definition EMPTY_DIFF :: string where
  "EMPTY_DIFF = ''Empty diff '' @ [CHR 0xE2, CHR 0x80, CHR 0x94] @ '' nothing to review''"

definition prepare_review :: "run_env \<Rightarrow> review_request \<Rightarrow> (review_manifest \<times> string) result" where
  "prepare_review env req =
     and_then (reject_if (nested_worker env) NESTED_REVIEW) (\<lambda>_.
     let agent = (case request_agent req of None \<Rightarrow> ''claude'' | Some a \<Rightarrow> a)
     in and_then (reject_if (agent \<notin> {''claude'', ''gemini'', ''codex''})
                    (''Unsupported review executor `'' @ agent @ ''`. Choose `claude`, `gemini`, or `codex`.'')) (\<lambda>_.
        and_then (resolve_target (plan_world env) (request_repo req) (request_range req)) (\<lambda>t.
        and_then (plan_units_with_context (plan_world env) t agent (request_planning_context req)) (\<lambda>us.
        let m = new_manifest (plan_world env) (new_run_id env) t agent us (created_time env)
        in and_then (read_target_diff (plan_world env) t) (\<lambda>diff.
           and_then (reject_if (trim diff = []) EMPTY_DIFF) (\<lambda>_. Inr (m, diff)))))))"

definition changed_paths :: "review_manifest \<Rightarrow> string list" where
  "changed_paths m = map unit_path (manifest_units m)"

text \<open>Whether an exact structural context exists; building one may fail.\<close>

definition ensure_review_context :: "run_env \<Rightarrow> string list \<Rightarrow> bool result" where
  "ensure_review_context env changed =
     (if context_stored env then Inr True
      else if \<not> changed_files_need_structural_context changed then Inr False
      else and_then (context_built env) (\<lambda>_. Inr True))"

text \<open>A unit, the outputs it starts with, and whether the specialists still have to see it.\<close>

definition reuse_unit ::
  "store_env \<Rightarrow> review_manifest \<Rightarrow> review_db \<Rightarrow> review_unit \<Rightarrow> (review_unit \<times> json list \<times> bool) result" where
  "reuse_unit se m d u =
     (if coverage_state u = Skipped then Inr (u, [], False)
      else and_then (load_checkpoint_outputs se m u d) (\<lambda>found.
        case found of
          None \<Rightarrow> Inr (u, [], True)
        | Some outputs \<Rightarrow>
            Inr (u\<lparr>coverage_state := Reused, coverage_reason := Some ''fingerprint_checkpoint_match''\<rparr>, outputs, False)))"

record review_state =
  state_manifest :: review_manifest
  unit_outputs :: "json list list"
  specialist_outputs :: "json list"
  state_db :: review_db

definition reuse_checkpoints ::
  "store_env \<Rightarrow> review_manifest \<Rightarrow> review_db \<Rightarrow> (review_state \<times> nat list) result" where
  "reuse_checkpoints se m d =
     and_then (map_result (reuse_unit se m d) (manifest_units m)) (\<lambda>rs.
       Inr (\<lparr>state_manifest = m\<lparr>manifest_units := map fst rs\<rparr>, unit_outputs = map (fst \<circ> snd) rs,
              specialist_outputs = concat (map (fst \<circ> snd) rs), state_db = d\<rparr>,
            map fst (filter (\<lambda>(_, _, _, pending). pending) (enumerate 0 rs))))"

text \<open>Every specialist sees all the pending units at once.\<close>

definition specialist_jobs :: "review_plan \<Rightarrow> nat list \<Rightarrow> (specialist \<times> nat list) list" where
  "specialist_jobs plan pending =
     (if pending = [] then [] else map (\<lambda>s. (s, pending)) (specialists plan))"

section \<open>The specialists' answers\<close>

definition with_member :: "string \<Rightarrow> json \<Rightarrow> json \<Rightarrow> json" where
  "with_member k v j = (case insert_key k v j of None \<Rightarrow> j | Some j' \<Rightarrow> j')"

definition label_answer :: "specialist \<Rightarrow> json \<Rightarrow> json" where
  "label_answer s parsed =
     with_member ''specialist''
       (object_of [(''id'', String (specialist_id s)), (''name'', String (specialist_name s)),
                   (''focus'', String (specialist_focus s))]) parsed"

definition set_unit :: "nat \<Rightarrow> review_unit \<Rightarrow> review_manifest \<Rightarrow> review_manifest" where
  "set_unit i u m = m\<lparr>manifest_units := (manifest_units m)[i := u]\<rparr>"

definition accept_for_unit ::
  "run_env \<Rightarrow> nat \<Rightarrow> json \<Rightarrow> string \<Rightarrow> nat \<Rightarrow> review_state \<Rightarrow> review_state \<times> unit result" where
  "accept_for_unit env idx parsed raw i st =
     (let m = state_manifest st; u = manifest_units m ! i;
          outs = (unit_outputs st)[i := unit_outputs st ! i @ [checkpoint_projection parsed (unit_path u)]]
      in case record_attempt m (unit_id u) (idx + 1) ''completed'' None (length raw) (started_time env idx) None
                (attempt_uuid env idx i) (attempt_time env idx i) (state_db st) of
           (d, r) \<Rightarrow> (st\<lparr>unit_outputs := outs, state_db := d\<rparr>, r))"

definition reject_for_unit ::
  "run_env \<Rightarrow> nat \<Rightarrow> string \<Rightarrow> nat \<Rightarrow> review_state \<Rightarrow> review_state \<times> unit result" where
  "reject_for_unit env idx message i st =
     (let cancelled = contains_str message ''review was cancelled'';
          name = (if cancelled then ''cancelled'' else ''failed'');
          why = (if cancelled then ''user_cancelled'' else ''executor_failed'');
          m = state_manifest st;
          u = (manifest_units m ! i)\<lparr>coverage_state := (if cancelled then Cancelled else Failed), coverage_reason := Some why\<rparr>;
          m' = set_unit i u m
      in case record_attempt m' (unit_id u) (idx + 1) name (Some (take_chars 2048 message)) 0 (started_time env idx)
                (Some (name, why)) (attempt_uuid env idx i) (attempt_time env idx i) (state_db st) of
           (d, r) \<Rightarrow> (st\<lparr>state_manifest := m', state_db := d\<rparr>, r))"

definition record_answer ::
  "run_env \<Rightarrow> nat \<times> specialist \<times> nat list \<Rightarrow> review_state \<Rightarrow> review_state \<times> unit result" where
  "record_answer env = (\<lambda>(idx, s, units) st.
     case specialist_reply env idx of
       Inr (parsed, raw) \<Rightarrow>
         continue_with (run_all (accept_for_unit env idx (label_answer s parsed) raw) units st)
           (\<lambda>_ st'. (st'\<lparr>specialist_outputs := specialist_outputs st' @ [label_answer s parsed]\<rparr>, Inr ()))
     | Inl message \<Rightarrow>
         let m = state_manifest st;
             m' = (if contains_str message ''review was cancelled'' then m\<lparr>run_cancelled := True\<rparr> else m)
         in run_all (reject_for_unit env idx message) units (st\<lparr>state_manifest := m'\<rparr>))"

text \<open>A unit every specialist has answered for is reviewed, and its outputs are checkpointed.\<close>

definition checkpoint_unit :: "run_env \<Rightarrow> nat \<Rightarrow> nat \<Rightarrow> review_state \<Rightarrow> review_state" where
  "checkpoint_unit env n i st =
     (let m = state_manifest st; u = manifest_units m ! i; outs = unit_outputs st ! i
      in if length outs = n \<and> coverage_state u \<noteq> Reused
         then let u' = u\<lparr>coverage_state := Reviewed, coverage_reason := None\<rparr>; m' = set_unit i u' m
              in st\<lparr>state_manifest := m',
                    state_db := persist_unit_checkpoint (run_store env) m' u' outs (checkpoint_time env i) (state_db st)\<rparr>
         else st)"

definition execute_specialists ::
  "run_env \<Rightarrow> review_plan \<Rightarrow> nat list \<Rightarrow> review_state \<Rightarrow> review_state \<times> unit result" where
  "execute_specialists env plan pending st =
     continue_with (st, specialists_joined env) (\<lambda>_ st1.
     continue_with (run_all (record_answer env) (enumerate 0 (specialist_jobs plan pending)) st1) (\<lambda>_ st2.
       (fold (checkpoint_unit env (length (specialists plan))) [0..<length (unit_outputs st2)] st2, Inr ())))"

section \<open>Qualification, coordination and merging\<close>

definition shift_index :: "nat \<Rightarrow> qualification_diagnostic \<Rightarrow> qualification_diagnostic" where
  "shift_index offset q = q\<lparr>candidate_index := candidate_index q + offset\<rparr>"

definition add_counts :: "qualification_counts \<Rightarrow> qualification_counts \<Rightarrow> qualification_counts" where
  "add_counts a b =
     \<lparr>qualified_count = qualified_count a + qualified_count b, stale_count = stale_count a + stale_count b,
      unresolved_count = unresolved_count a + unresolved_count b, rejected_count = rejected_count a + rejected_count b\<rparr>"

definition prequalify_output ::
  "review_env \<Rightarrow> string \<Rightarrow> string list \<Rightarrow> json \<Rightarrow>
   json list \<times> qualification_counts \<times> qualification_diagnostic list \<Rightarrow>
   json list \<times> qualification_counts \<times> qualification_diagnostic list" where
  "prequalify_output world repo_path changed output = (\<lambda>(outs, c, ds).
     let r = qualify_candidates world repo_path changed (findings_from output)
     in (outs @ [with_member ''findings'' (Array (findings r)) output], add_counts c (counts r),
         ds @ map (shift_index (length ds)) (diagnostics r)))"

definition prequalify ::
  "review_env \<Rightarrow> string \<Rightarrow> string list \<Rightarrow> json list \<Rightarrow>
   json list \<times> qualification_counts \<times> qualification_diagnostic list" where
  "prequalify world repo_path changed outputs =
     fold (prequalify_output world repo_path changed) outputs ([], no_counts, [])"

definition merged_answer :: "run_env \<Rightarrow> json list \<Rightarrow> string \<Rightarrow> (string \<times> json) list \<Rightarrow> (string \<times> json) list \<Rightarrow> json" where
  "merged_answer env outputs summary talk coordinator =
     (let merged = dedupe_findings (value_order env) (concat (map findings_from outputs))
      in object_of
        ([(''findings'', Array merged), (''score'', Number (Float (score_from_findings (object_of []) merged))),
          (''summary'', String summary), (''talk'', object_of talk)] @ coordinator))"

definition fallback_answer :: "run_env \<Rightarrow> review_plan \<Rightarrow> json list \<Rightarrow> string \<Rightarrow> json" where
  "fallback_answer env plan outputs message =
     merged_answer env outputs
       (''Risk-tiered review ('' @ plan_tier plan
          @ '') completed with deterministic merge because coordinator failed: '' @ message)
       [(''files_read'', Array []), (''files_modified'', Array []),
        (''actions_summary'', String ''Merged specialist review outputs after coordinator failure''),
        (''unfinished_work'', String ''Review the merged findings manually; coordinator pass failed.''),
        (''key_decisions'', String (''Tier '' @ plan_tier plan @ '' used '' @ show_nat (length (specialists plan))
           @ '' specialist pass(es).'')),
        (''recommended_next_steps'', String ''Re-run review if coordinator rationale is needed.'')]
       [(''coordinator'', object_of [(''status'', String ''failed''), (''error'', String message)])]"

definition NEWLINES :: string where "NEWLINES = [CHR 0x0A, CHR 0x0A]"

definition direct_answer :: "run_env \<Rightarrow> review_plan \<Rightarrow> json list \<Rightarrow> json" where
  "direct_answer env plan outputs =
     (let summaries = join NEWLINES (List.map_filter (get_str ''summary'') outputs);
          done_text = ''Risk-tiered review ('' @ plan_tier plan @ '') completed.''
      in merged_answer env outputs (if summaries = [] then done_text else done_text @ NEWLINES @ summaries)
           [(''files_read'', Array []), (''files_modified'', Array []),
            (''actions_summary'', String (''Ran '' @ show_nat (length (specialists plan)) @ '' review pass(es) for ''
               @ plan_tier plan @ '' tier.'')),
            (''unfinished_work'', Null),
            (''key_decisions'', String (''Review mode '' @ plan_mode plan @ '' used deterministic dedupe.'')),
            (''recommended_next_steps'',
               String ''Fix selected findings, then re-run review or attach runtime evidence.'')] [])"

text \<open>The answer, the coordinator's failure, and whether the review is cancelled.\<close>

definition coordinate ::
  "run_env \<Rightarrow> review_plan \<Rightarrow> bool \<Rightarrow> bool \<Rightarrow> json list \<Rightarrow> json \<times> string option \<times> bool" where
  "coordinate env plan prompted cancelled outputs =
     (if uses_coordinator plan \<and> prompted \<and> \<not> cancelled
      then (case coordinator_reply env outputs of
              Inr (parsed, _) \<Rightarrow>
                (with_member ''coordinator'' (object_of [(''status'', String ''completed'')]) parsed, None, False)
            | Inl message \<Rightarrow>
                (fallback_answer env plan outputs message, Some message, contains_str message ''review was cancelled''))
      else (direct_answer env plan outputs, None, cancelled))"

definition target_mutated :: string where "target_mutated = ''target_mutated_during_review''"

definition outdate_unit :: "review_unit \<Rightarrow> review_unit" where
  "outdate_unit u =
     (if coverage_state u = Skipped then u else u\<lparr>coverage_state := Failed, coverage_reason := Some target_mutated\<rparr>)"

definition outdate_diagnostic :: "qualification_diagnostic \<Rightarrow> qualification_diagnostic" where
  "outdate_diagnostic q = q\<lparr>diag_state := Stale, diag_reason := target_mutated, resolved_line := None\<rparr>"

definition final_qualification ::
  "run_env \<Rightarrow> review_request \<Rightarrow> review_manifest \<Rightarrow> json list \<Rightarrow> qualified_candidates" where
  "final_qualification env req m candidates =
     (if target_stale m then invalidate_candidates candidates Stale target_mutated
      else if run_cancelled m
      then invalidate_candidates candidates Rejected ''review_cancelled_before_final_qualification''
      else qualify_candidates (final_world env) (request_repo req) (changed_paths m) candidates)"

definition conclude_manifest ::
  "run_env \<Rightarrow> review_request \<Rightarrow> review_manifest \<Rightarrow> json \<Rightarrow> qualification_counts \<Rightarrow>
   qualification_diagnostic list \<Rightarrow> review_manifest \<times> json list" where
  "conclude_manifest env req m0 parsed pre_counts pre_diagnostics =
     (let changed_since = \<not> target_is_current (current_world env) (manifest_target m0);
          m = m0\<lparr>target_stale := changed_since\<rparr>;
          ds = (if changed_since then map outdate_diagnostic pre_diagnostics else pre_diagnostics);
          cs = (if changed_since then no_counts\<lparr>stale_count := length ds\<rparr> else pre_counts);
          q = final_qualification env req m (findings_from parsed);
          us = (if changed_since then map outdate_unit (manifest_units m) else manifest_units m)
      in (m\<lparr>manifest_counts := add_counts cs (counts q),
            manifest_diagnostics := ds @ map (shift_index (length ds)) (diagnostics q),
            manifest_units := us, coverage_complete := (\<not> changed_since \<and> list_all covered us)\<rparr>,
          dedupe_findings (value_order env) (findings q)))"

section \<open>The report\<close>

definition coordinator_status :: "review_plan \<Rightarrow> string option \<Rightarrow> bool \<Rightarrow> string" where
  "coordinator_status plan failed cancelled =
     (if \<not> uses_coordinator plan then ''not_required'' else if failed \<noteq> None then ''failed''
      else if cancelled then ''not_run'' else ''completed'')"

definition readiness_limitations :: "review_manifest \<Rightarrow> bool \<Rightarrow> string option \<Rightarrow> string list" where
  "readiness_limitations m has_context failed =
     (if changed_files_need_structural_context (changed_paths m) \<and> \<not> has_context
      then [''Exact structural graph context was unavailable''] else [])
     @ (if \<not> coverage_complete m
        then [show_nat (length (filter (\<lambda>u. \<not> covered u) (manifest_units m))) @ '' of ''
                @ show_nat (length (manifest_units m)) @ '' review units did not complete''] else [])
     @ (case failed of None \<Rightarrow> [] | Some message \<Rightarrow> [''Coordinator failed: '' @ take_chars 320 message])
     @ (if target_stale m then [''The target changed during review''] else [])
     @ (if run_cancelled m then [''The review was cancelled''] else [])"

record review_report =
  reported_review :: string
  reported_score :: rat
  reported_findings :: "json list"
  reported_summary :: string
  reported_status :: string
  reported_limitations :: "string list"
  reported_coordinator :: string
  reported_manifest :: review_manifest

definition final_status :: "review_manifest \<Rightarrow> string" where
  "final_status m =
     (if run_cancelled m then ''cancelled'' else if target_stale m then ''stale''
      else if coverage_complete m then ''completed'' else ''completed_with_limitations'')"

text \<open>
  The review row comes first and its findings after it, outside a transaction, then the manifest;
  of the tables of reviews only the identities are kept.
\<close>

definition save_review ::
  "run_env \<Rightarrow> review_plan \<Rightarrow> review_manifest \<Rightarrow> json list \<Rightarrow> json \<Rightarrow> string option \<Rightarrow> bool \<Rightarrow> review_db \<Rightarrow>
   review_db \<times> review_report result" where
  "save_review env plan m fs parsed failed has_context d =
     (let limitations = readiness_limitations m has_context failed
      in continue_with (d, new_review env) (\<lambda>review d.
         continue_with (d\<lparr>reviews := review # reviews d\<rparr>, findings_saved env fs) (\<lambda>_ d.
         continue_with (d, review_updated env) (\<lambda>_ d.
         let m' = m\<lparr>review_id := Some review, completed_at := Some (completed_time env)\<rparr>
         in continue_with (persist_manifest (run_store env) m' (final_status m') (saved_time env) d) (\<lambda>_ d.
            continue_with (d, activity_logged env) (\<lambda>_ d.
              (d, Inr \<lparr>reported_review = review, reported_score = score_from_findings parsed fs,
                 reported_findings = fs,
                 reported_summary = (case get_str ''summary'' parsed of None \<Rightarrow> ''Review completed'' | Some s \<Rightarrow> s),
                 reported_status = (if limitations = [] then ''completed'' else ''incomplete''),
                 reported_limitations = limitations,
                 reported_coordinator = coordinator_status plan failed (run_cancelled m),
                 reported_manifest = m'\<rparr>)))))))"

section \<open>The whole run\<close>

definition conclude_review ::
  "run_env \<Rightarrow> review_request \<Rightarrow> review_plan \<Rightarrow> bool \<Rightarrow> bool \<Rightarrow> review_state \<Rightarrow> review_db \<times> review_report result" where
  "conclude_review env req plan prompted has_context st =
     (let m = state_manifest st
      in if specialist_outputs st = []
         then continue_with
           (persist_manifest (run_store env) m (if run_cancelled m then ''cancelled'' else ''failed'')
              (saved_time env) (state_db st))
           (\<lambda>_ d. (d, Inl ''No review unit completed successfully''))
         else case prequalify (qualify_world env) (request_repo req) (changed_paths m) (specialist_outputs st) of
           (outs, cs, ds) \<Rightarrow>
             case coordinate env plan prompted (run_cancelled m) outs of
               (parsed, failed, cancelled) \<Rightarrow>
                 case conclude_manifest env req (m\<lparr>run_cancelled := cancelled\<rparr>) parsed cs ds of
                   (m', fs) \<Rightarrow> save_review env plan m' fs parsed failed has_context (state_db st))"

definition start_review ::
  "run_env \<Rightarrow> review_request \<Rightarrow> review_db \<Rightarrow> review_db \<times> (review_state \<times> nat list \<times> review_plan \<times> bool) result" where
  "start_review env req d =
     continue_with (d, prepare_review env req) (\<lambda>(m, diff) d.
     continue_with (claim_manifest (run_store env) m (claim_time env) (stale_cutoff env) (expiry_cutoff env) d) (\<lambda>_ d.
     continue_with (d, register_review_cancellation (repository_root (manifest_target m)) (running_reviews env)) (\<lambda>_ d.
     continue_with (d, ensure_review_context env (changed_paths m)) (\<lambda>has_context d.
     continue_with (d, reuse_checkpoints (run_store env) m d) (\<lambda>(st, pending) d.
     continue_with (persist_manifest (run_store env) (state_manifest st) ''running'' (running_time env) d) (\<lambda>_ d.
       (d, Inr (st\<lparr>state_db := d\<rparr>, pending, build_review_plan diff (changed_paths m), has_context))))))))"

definition run_cli_review_core ::
  "run_env \<Rightarrow> review_request \<Rightarrow> review_db \<Rightarrow> review_db \<times> review_report result" where
  "run_cli_review_core env req d =
     continue_with (start_review env req d) (\<lambda>(st, pending, plan, has_context) _.
       case execute_specialists env plan pending st of
         (st', Inl message) \<Rightarrow> (state_db st', Inl message)
       | (st', Inr _) \<Rightarrow> conclude_review env req plan (specialist_jobs plan pending \<noteq> []) has_context st')"

end
