(* ===== verification/ReviewRunProps.thy ===== *)
theory ReviewRunProps
  imports ReviewRun
begin

text \<open>
  What a review guarantees: its report is grounded, completed means complete, reviewed units are
  backed by every specialist's answer, an outdated review is not reused. The lemmas follow a run
  stage by stage: the manifest keeps its skeleton, the answers fill the pending units, the
  checkpoints settle them, and the tables change in the rows of the run only.
\<close>

section \<open>Following a run\<close>

lemma continue_Inr:
  "continue_with p f = (s', Inr y) \<longleftrightarrow> (\<exists>s x. p = (s, Inr x) \<and> f x s = (s', Inr y))"
  by (cases p; cases "snd p") auto

lemma continue_pair: "continue_with (s, r) f = (case r of Inl e \<Rightarrow> (s, Inl e) | Inr x \<Rightarrow> f x s)"
  by (cases r) auto

lemma run_Inr:
  assumes "run_cli_review_core env req d = (d', Inr rep)"
  obtains d1 st pending plan has_context st2 outs cs ds parsed failed cancelled m fs where
    "start_review env req d = (d1, Inr (st, pending, plan, has_context))"
    "execute_specialists env plan pending st = (st2, Inr ())"
    "specialist_outputs st2 \<noteq> []"
    "prequalify (qualify_world env) (request_repo req) (changed_paths (state_manifest st2)) (specialist_outputs st2) = (outs, cs, ds)"
    "coordinate env plan (specialist_jobs plan pending \<noteq> []) (run_cancelled (state_manifest st2)) outs = (parsed, failed, cancelled)"
    "conclude_manifest env req ((state_manifest st2)\<lparr>run_cancelled := cancelled\<rparr>) parsed cs ds = (m, fs)"
    "save_review env plan m fs parsed failed has_context (state_db st2) = (d', Inr rep)"
proof -
  from assms obtain d1 st pending plan has_context where start: "start_review env req d = (d1, Inr (st, pending, plan, has_context))"
    and rest: "(case execute_specialists env plan pending st of
         (st', Inl message) \<Rightarrow> (state_db st', Inl message)
       | (st', Inr _) \<Rightarrow> conclude_review env req plan (specialist_jobs plan pending \<noteq> []) has_context st') = (d', Inr rep)"
    unfolding run_cli_review_core_def continue_Inr by auto
  from rest obtain st2 where exec: "execute_specialists env plan pending st = (st2, Inr ())"
    and con: "conclude_review env req plan (specialist_jobs plan pending \<noteq> []) has_context st2 = (d', Inr rep)"
    by (auto split: prod.splits sum.splits)
  from con have outs: "specialist_outputs st2 \<noteq> []"
    by (auto simp: conclude_review_def Let_def continue_Inr split: if_splits)
  obtain o1 cs ds where pre: "prequalify (qualify_world env) (request_repo req) (changed_paths (state_manifest st2))
      (specialist_outputs st2) = (o1, cs, ds)" by (cases rule: prod_cases3)
  obtain parsed failed cancelled where co: "coordinate env plan (specialist_jobs plan pending \<noteq> [])
      (run_cancelled (state_manifest st2)) o1 = (parsed, failed, cancelled)" by (cases rule: prod_cases3)
  obtain m fs where cm: "conclude_manifest env req ((state_manifest st2)\<lparr>run_cancelled := cancelled\<rparr>) parsed cs ds = (m, fs)"
    by (cases "conclude_manifest env req ((state_manifest st2)\<lparr>run_cancelled := cancelled\<rparr>) parsed cs ds")
  from con outs have "save_review env plan m fs parsed failed has_context (state_db st2) = (d', Inr rep)"
    by (simp add: conclude_review_def Let_def pre co cm)
  with start exec outs pre co cm show thesis by (rule that)
qed

lemma start_Inr:
  assumes "start_review env req d = (d1, Inr (st, pending, plan, has_context))"
  obtains m diff d2 st0 where
    "prepare_review env req = Inr (m, diff)"
    "claim_manifest (run_store env) m (claim_time env) (stale_cutoff env) (expiry_cutoff env) d = (d2, Inr ())"
    "ensure_review_context env (changed_paths m) = Inr has_context"
    "reuse_checkpoints (run_store env) m d2 = Inr (st0, pending)"
    "persist_manifest (run_store env) (state_manifest st0) ''running'' (running_time env) d2 = (d1, Inr ())"
    "st = st0\<lparr>state_db := d1\<rparr>" "plan = build_review_plan diff (changed_paths m)"
  using assms unfolding start_review_def continue_Inr by (auto simp: continue_Inr)

lemma save_Inr:
  assumes "save_review env plan m fs parsed failed has_context d = (d', Inr rep)"
  obtains review where "reported_manifest rep = m\<lparr>review_id := Some review, completed_at := Some (completed_time env)\<rparr>"
    "persist_manifest (run_store env) (reported_manifest rep) (final_status m) (saved_time env)
       (d\<lparr>reviews := review # reviews d\<rparr>) = (d', Inr ())"
    "reported_findings rep = fs" "reported_limitations rep = readiness_limitations m has_context failed"
    "reported_status rep = (if reported_limitations rep = [] then ''completed'' else ''incomplete'')"
    "reported_coordinator rep = coordinator_status plan failed (run_cancelled m)"
    "reported_score rep = score_from_findings parsed fs"
proof -
  from assms obtain review d2 where new: "new_review env = Inr review"
    and p: "persist_manifest (run_store env) (m\<lparr>review_id := Some review, completed_at := Some (completed_time env)\<rparr>)
       (final_status (m\<lparr>review_id := Some review, completed_at := Some (completed_time env)\<rparr>)) (saved_time env)
       (d\<lparr>reviews := review # reviews d\<rparr>) = (d', Inr ())"
    and rep: "rep = \<lparr>reported_review = review, reported_score = score_from_findings parsed fs,
                 reported_findings = fs,
                 reported_summary = (case get_str ''summary'' parsed of None \<Rightarrow> ''Review completed'' | Some s \<Rightarrow> s),
                 reported_status = (if readiness_limitations m has_context failed = [] then ''completed'' else ''incomplete''),
                 reported_limitations = readiness_limitations m has_context failed,
                 reported_coordinator = coordinator_status plan failed (run_cancelled m),
                 reported_manifest = m\<lparr>review_id := Some review, completed_at := Some (completed_time env)\<rparr>\<rparr>"
    unfolding save_review_def Let_def continue_Inr by auto
  have "final_status (m\<lparr>review_id := Some review, completed_at := Some (completed_time env)\<rparr>) = final_status m"
    by (simp add: final_status_def)
  with p show thesis by (intro that [of review]) (simp_all add: rep)
qed

lemma changed_paths_update [simp]:
  "changed_paths (m\<lparr>run_cancelled := b\<rparr>) = changed_paths m" "changed_paths (m\<lparr>target_stale := b\<rparr>) = changed_paths m"
  "changed_paths (m\<lparr>review_id := r\<rparr>) = changed_paths m" "changed_paths (m\<lparr>completed_at := c\<rparr>) = changed_paths m"
  by (simp_all add: changed_paths_def)

lemma dedupe_subset:
  "(\<And>xs. mset (arrange xs) = mset xs) \<Longrightarrow> list_all P fs \<Longrightarrow> list_all P (dedupe_findings arrange fs)"
  using dedupe_members [of arrange fs] by (auto simp: list_all_iff)

lemma conclude_facts:
  assumes "conclude_manifest env req m0 parsed cs ds = (m, fs)"
  shows "target_stale m \<longleftrightarrow> \<not> target_is_current (current_world env) (manifest_target m0)"
    "run_cancelled m = run_cancelled m0" "changed_paths m = changed_paths m0"
    "manifest_units m = (if target_stale m then map outdate_unit (manifest_units m0) else manifest_units m0)"
    "coverage_complete m \<longleftrightarrow> \<not> target_stale m \<and> list_all covered (manifest_units m)"
    "run_id m = run_id m0" "manifest_target m = manifest_target m0"
    "fs = dedupe_findings (value_order env)
       (findings (final_qualification env req (m0\<lparr>target_stale := target_stale m\<rparr>) (findings_from parsed)))"
proof -
  have paths: "map unit_path (map outdate_unit us) = map unit_path us" for us
    by (simp add: outdate_unit_def)
  show "target_stale m \<longleftrightarrow> \<not> target_is_current (current_world env) (manifest_target m0)"
    "run_cancelled m = run_cancelled m0" "changed_paths m = changed_paths m0"
    "manifest_units m = (if target_stale m then map outdate_unit (manifest_units m0) else manifest_units m0)"
    "coverage_complete m \<longleftrightarrow> \<not> target_stale m \<and> list_all covered (manifest_units m)"
    "run_id m = run_id m0" "manifest_target m = manifest_target m0"
    "fs = dedupe_findings (value_order env)
       (findings (final_qualification env req (m0\<lparr>target_stale := target_stale m\<rparr>) (findings_from parsed)))"
    using assms paths by (auto simp: conclude_manifest_def Let_def changed_paths_def)
qed

section \<open>What the specialists' answers change\<close>

text \<open>A manifest without what a run decides: the coverage of its units and the cancellation.\<close>

definition skeleton :: "review_manifest \<Rightarrow> review_manifest" where
  "skeleton m =
     m\<lparr>run_cancelled := False,
       manifest_units := map (\<lambda>u. u\<lparr>coverage_state := Failed, coverage_reason := None\<rparr>) (manifest_units m)\<rparr>"

lemma map_skeleton: "map f (manifest_units (skeleton m)) = map (\<lambda>u. f (u\<lparr>coverage_state := Failed, coverage_reason := None\<rparr>)) (manifest_units m)"
  by (simp add: skeleton_def)

lemma skeleton_facts:
  assumes "skeleton m = skeleton m'"
  shows "run_id m = run_id m'" "executor_id m = executor_id m'" "policy_fingerprint m = policy_fingerprint m'"
    "manifest_target m = manifest_target m'" "schema_version m = schema_version m'" "changed_paths m = changed_paths m'"
    "map unit_id (manifest_units m) = map unit_id (manifest_units m')"
    "map unit_fingerprint (manifest_units m) = map unit_fingerprint (manifest_units m')"
    "length (manifest_units m) = length (manifest_units m')"
proof -
  from assms show "run_id m = run_id m'" "executor_id m = executor_id m'" "policy_fingerprint m = policy_fingerprint m'"
    "manifest_target m = manifest_target m'" "schema_version m = schema_version m'"
    by (cases m; cases m'; simp add: skeleton_def)+
  show "changed_paths m = changed_paths m'"
    using arg_cong [OF assms, of "\<lambda>m. map unit_path (manifest_units m)"] by (simp add: map_skeleton changed_paths_def)
  show "map unit_id (manifest_units m) = map unit_id (manifest_units m')"
    using arg_cong [OF assms, of "\<lambda>m. map unit_id (manifest_units m)"] by (simp add: map_skeleton)
  show "map unit_fingerprint (manifest_units m) = map unit_fingerprint (manifest_units m')"
    using arg_cong [OF assms, of "\<lambda>m. map unit_fingerprint (manifest_units m)"] by (simp add: map_skeleton)
  then show "length (manifest_units m) = length (manifest_units m')" by (rule map_eq_imp_length_eq)
qed

lemma skeleton_nth:
  assumes "skeleton m = skeleton m'" and "i < length (manifest_units m')"
  shows "unit_id (manifest_units m ! i) = unit_id (manifest_units m' ! i)"
    "unit_path (manifest_units m ! i) = unit_path (manifest_units m' ! i)"
    "unit_fingerprint (manifest_units m ! i) = unit_fingerprint (manifest_units m' ! i)"
  using skeleton_facts [OF assms(1)] assms(2) unfolding changed_paths_def by (metis nth_map)+

lemma skeleton_set_unit:
  "skeleton (set_unit i ((manifest_units m ! i)\<lparr>coverage_state := c, coverage_reason := r\<rparr>) m) = skeleton m"
proof -
  let ?g = "\<lambda>u. u\<lparr>coverage_state := Failed, coverage_reason := None\<rparr>"
  have "map ?g ((manifest_units m)[i := (manifest_units m ! i)\<lparr>coverage_state := c, coverage_reason := r\<rparr>]) = map ?g (manifest_units m)"
    by (cases "i < length (manifest_units m)") (simp_all add: map_update list_update_same_conv list_update_beyond)
  then show ?thesis by (simp add: skeleton_def set_unit_def)
qed

lemma skeleton_cancelled [simp]: "skeleton (m\<lparr>run_cancelled := b\<rparr>) = skeleton m"
  by (simp add: skeleton_def)

lemma run_all_invariant:
  "I s \<Longrightarrow> (\<And>x s. x \<in> set xs \<Longrightarrow> I s \<Longrightarrow> I (fst (f x s))) \<Longrightarrow> I (fst (run_all f xs s))"
proof (induction xs arbitrary: s)
  case (Cons x xs)
  obtain s1 r where one: "f x s = (s1, r)" by fastforce
  with Cons.prems(2) [of x s] Cons.prems(1) have "I s1" by simp
  then show ?case using Cons.IH [of s1] Cons.prems(2) by (cases r) (simp_all add: one)
qed simp

lemma run_all_Inr_step:
  "run_all f (x # xs) s = (s', Inr ()) \<longleftrightarrow> (\<exists>s1. f x s = (s1, Inr ()) \<and> run_all f xs s1 = (s', Inr ()))"
  by (simp add: continue_Inr)

text \<open>Answers touch the rows of the run's own units only, and remove none.\<close>

definition touches_only :: "string \<Rightarrow> string set \<Rightarrow> review_db \<Rightarrow> review_db \<Rightarrow> bool" where
  "touches_only run ids d d' \<longleftrightarrow>
     (\<forall>k. fst k \<noteq> run \<or> snd k \<notin> ids \<longrightarrow> map_of (units d') k = map_of (units d) k) \<and>
     (\<forall>k. map_of (units d) k \<noteq> None \<longrightarrow> map_of (units d') k \<noteq> None)"

lemma touches_only_refl [simp]: "touches_only run ids d d"
  by (simp add: touches_only_def)

lemma touches_only_trans: "touches_only run ids d d' \<Longrightarrow> touches_only run ids d' d'' \<Longrightarrow> touches_only run ids d d''"
  by (simp add: touches_only_def)

lemma touches_only_units: "units d' = units d \<Longrightarrow> touches_only run ids d d'"
  by (simp add: touches_only_def)

lemma record_attempt_touches:
  assumes "uid \<in> ids" and "run = run_id m"
  shows "touches_only run ids d (fst (record_attempt m uid number status reason bytes started terminal new_id now d))"
proof (cases terminal)
  case None
  then show ?thesis
    by (auto simp: touches_only_def record_attempt_def in_transaction_def reject_if_def Let_def split: sum.splits)
next
  case (Some t)
  then show ?thesis using assms
    by (cases t; cases "map_of (units d) (run_id m, uid)")
      (auto simp: touches_only_def record_attempt_def in_transaction_def reject_if_def Let_def split: sum.splits)
qed

lemma checkpoint_touches:
  "unit_id u \<in> ids \<Longrightarrow> run = run_id m \<Longrightarrow> touches_only run ids d (persist_unit_checkpoint se m u outs now d)"
  by (auto simp: touches_only_def persist_unit_checkpoint_def split: option.splits)

lemma persist_touches:
  assumes "persist_manifest se m status now d = (d', Inr v)"
  shows "touches_only (run_id m) (set (map unit_id (manifest_units m))) d d'"
proof -
  note units' = persist_Inr [OF assms, THEN conjunct2, THEN conjunct2, THEN conjunct1]
  have "map_of (units d) k \<noteq> None \<Longrightarrow> map_of (units (fold (upsert_unit run now) us d)) k \<noteq> None" for k run us and d :: review_db
    by (induction us arbitrary: d) (auto simp: upsert_unit_lookup)
  then show ?thesis using upsert_units_other unfolding touches_only_def units' by (simp add: image_iff)
qed

text \<open>
  The state after some answers: the pending units have the projections of the accepted answers and
  are not settled yet, everything else is as it was.
\<close>

definition answered :: "nat list \<Rightarrow> json list \<Rightarrow> review_state \<Rightarrow> review_state \<Rightarrow> bool" where
  "answered pending acc st st' \<longleftrightarrow>
     skeleton (state_manifest st') = skeleton (state_manifest st) \<and>
     specialist_outputs st' = specialist_outputs st @ acc \<and>
     length (unit_outputs st') = length (unit_outputs st) \<and>
     (\<forall>i < length (unit_outputs st). unit_outputs st' ! i = unit_outputs st ! i @
        (if i \<in> set pending then map (\<lambda>p. checkpoint_projection p (unit_path (manifest_units (state_manifest st) ! i))) acc else [])) \<and>
     (\<forall>i < length (unit_outputs st). if i \<in> set pending
        then \<not> covered (manifest_units (state_manifest st') ! i)
        else manifest_units (state_manifest st') ! i = manifest_units (state_manifest st) ! i) \<and>
     touches_only (run_id (state_manifest st)) (set (map unit_id (manifest_units (state_manifest st)))) (state_db st) (state_db st')"

lemma accept_units:
  assumes "run_all (accept_for_unit env idx p raw) is st = (st', Inr ())"
    and "distinct is" and "set is \<subseteq> {..<length (unit_outputs st)}"
    and "length (unit_outputs st) = length (manifest_units (state_manifest st))"
  shows "state_manifest st' = state_manifest st \<and> specialist_outputs st' = specialist_outputs st \<and>
    length (unit_outputs st') = length (unit_outputs st) \<and>
    (\<forall>i < length (unit_outputs st). unit_outputs st' ! i = unit_outputs st ! i @
       (if i \<in> set is then [checkpoint_projection p (unit_path (manifest_units (state_manifest st) ! i))] else [])) \<and>
    touches_only (run_id (state_manifest st)) (set (map unit_id (manifest_units (state_manifest st)))) (state_db st) (state_db st')"
  using assms
proof (induction "is" arbitrary: st)
  case (Cons j js)
  from Cons.prems(1) obtain st1 where one: "accept_for_unit env idx p raw j st = (st1, Inr ())"
    and rest: "run_all (accept_for_unit env idx p raw) js st1 = (st', Inr ())" unfolding run_all_Inr_step by blast
  from Cons.prems have j: "j < length (unit_outputs st)" "j \<notin> set js" by auto
  from one obtain d where d: "record_attempt (state_manifest st) (unit_id (manifest_units (state_manifest st) ! j)) (idx + 1)
      ''completed'' None (length raw) (started_time env idx) None (attempt_uuid env idx j) (attempt_time env idx j) (state_db st)
      = (d, Inr ())"
    and st1: "st1 = st\<lparr>unit_outputs := (unit_outputs st)[j := unit_outputs st ! j @
        [checkpoint_projection p (unit_path (manifest_units (state_manifest st) ! j))]], state_db := d\<rparr>"
    by (auto simp: accept_for_unit_def Let_def split: prod.splits)
  have "touches_only (run_id (state_manifest st)) (set (map unit_id (manifest_units (state_manifest st)))) (state_db st) d"
    using record_attempt_touches [OF _ refl, of "unit_id (manifest_units (state_manifest st) ! j)"
      "set (map unit_id (manifest_units (state_manifest st)))" "state_manifest st"] d j(1) Cons.prems(4)
    by (metis fst_conv length_map nth_map nth_mem)
  moreover have "state_manifest st' = state_manifest st1 \<and> specialist_outputs st' = specialist_outputs st1 \<and>
    length (unit_outputs st') = length (unit_outputs st1) \<and>
    (\<forall>i < length (unit_outputs st1). unit_outputs st' ! i = unit_outputs st1 ! i @
       (if i \<in> set js then [checkpoint_projection p (unit_path (manifest_units (state_manifest st1) ! i))] else [])) \<and>
    touches_only (run_id (state_manifest st1)) (set (map unit_id (manifest_units (state_manifest st1)))) (state_db st1) (state_db st')"
    using Cons.prems by (intro Cons.IH [OF rest]) (auto simp: st1)
  ultimately show ?case using j by (auto simp: st1 nth_list_update dest: touches_only_trans)
qed simp

lemma reject_units:
  assumes "run_all (reject_for_unit env idx message) is st = (st', Inr ())"
    and "distinct is" and "set is \<subseteq> {..<length (manifest_units (state_manifest st))}"
  shows "skeleton (state_manifest st') = skeleton (state_manifest st) \<and>
    specialist_outputs st' = specialist_outputs st \<and> unit_outputs st' = unit_outputs st \<and>
    (\<forall>i < length (manifest_units (state_manifest st)). if i \<in> set is
       then \<not> covered (manifest_units (state_manifest st') ! i)
       else manifest_units (state_manifest st') ! i = manifest_units (state_manifest st) ! i) \<and>
    touches_only (run_id (state_manifest st)) (set (map unit_id (manifest_units (state_manifest st)))) (state_db st) (state_db st')"
  using assms
proof (induction "is" arbitrary: st)
  case (Cons j js)
  from Cons.prems(1) obtain st1 where one: "reject_for_unit env idx message j st = (st1, Inr ())"
    and rest: "run_all (reject_for_unit env idx message) js st1 = (st', Inr ())" unfolding run_all_Inr_step by blast
  from Cons.prems have j: "j < length (manifest_units (state_manifest st))" "j \<notin> set js" by auto
  define c where "c = (if contains_str message ''review was cancelled'' then Cancelled else Failed)"
  define why where "why = (if contains_str message ''review was cancelled'' then ''user_cancelled'' else ''executor_failed'')"
  define u where "u = (manifest_units (state_manifest st) ! j)\<lparr>coverage_state := c, coverage_reason := Some why\<rparr>"
  define m1 where "m1 = set_unit j u (state_manifest st)"
  from one obtain d number name b t nid nw where d: "record_attempt m1 (unit_id u) number name
      (Some (take_chars 2048 message)) b t (Some (name, why)) nid nw (state_db st) = (d, Inr ())"
    and st1: "st1 = st\<lparr>state_manifest := m1, state_db := d\<rparr>"
    by (auto simp: reject_for_unit_def Let_def m1_def u_def c_def why_def split: prod.splits)
  have sk: "skeleton m1 = skeleton (state_manifest st)" unfolding m1_def u_def by (rule skeleton_set_unit)
  have uid: "unit_id u \<in> set (map unit_id (manifest_units (state_manifest st)))" using j by (simp add: u_def)
  have touch: "touches_only (run_id (state_manifest st)) (set (map unit_id (manifest_units (state_manifest st)))) (state_db st) d"
    using record_attempt_touches [OF uid skeleton_facts(1) [OF sk, symmetric]] d by (metis fst_conv)
  have "skeleton (state_manifest st') = skeleton (state_manifest st1) \<and>
    specialist_outputs st' = specialist_outputs st1 \<and> unit_outputs st' = unit_outputs st1 \<and>
    (\<forall>i < length (manifest_units (state_manifest st1)). if i \<in> set js
       then \<not> covered (manifest_units (state_manifest st') ! i)
       else manifest_units (state_manifest st') ! i = manifest_units (state_manifest st1) ! i) \<and>
    touches_only (run_id (state_manifest st1)) (set (map unit_id (manifest_units (state_manifest st1)))) (state_db st1) (state_db st')"
    using Cons.prems skeleton_facts(9) [OF sk] by (intro Cons.IH [OF rest]) (auto simp: st1)
  then have ih: "skeleton (state_manifest st') = skeleton m1" "specialist_outputs st' = specialist_outputs st"
    "unit_outputs st' = unit_outputs st"
    "\<And>i. i < length (manifest_units (state_manifest st)) \<Longrightarrow> if i \<in> set js
       then \<not> covered (manifest_units (state_manifest st') ! i)
       else manifest_units (state_manifest st') ! i = manifest_units m1 ! i"
    "touches_only (run_id (state_manifest st)) (set (map unit_id (manifest_units (state_manifest st)))) d (state_db st')"
    using skeleton_facts [OF sk] by (simp_all add: st1)
  have "if i \<in> set (j # js) then \<not> covered (manifest_units (state_manifest st') ! i)
       else manifest_units (state_manifest st') ! i = manifest_units (state_manifest st) ! i"
    if "i < length (manifest_units (state_manifest st))" for i
    using ih(4) [OF that] that j by (auto simp: m1_def set_unit_def nth_list_update u_def c_def covered_def split: if_splits)
  then show ?case using ih touches_only_trans [OF touch ih(5)] sk by simp
qed simp

definition accepted_answer :: "run_env \<Rightarrow> nat \<times> specialist \<times> nat list \<Rightarrow> json option" where
  "accepted_answer env = (\<lambda>(idx, s, _).
     case specialist_reply env idx of Inl _ \<Rightarrow> None | Inr (parsed, _) \<Rightarrow> Some (label_answer s parsed))"

lemma record_answer_answered:
  assumes "record_answer env (idx, s, pending) st = (st', Inr ())"
    and "distinct pending" and "set pending \<subseteq> {..<length (unit_outputs st)}"
    and "length (unit_outputs st) = length (manifest_units (state_manifest st))"
    and "list_all (\<lambda>i. \<not> covered (manifest_units (state_manifest st) ! i)) pending"
  shows "answered pending (case accepted_answer env (idx, s, pending) of None \<Rightarrow> [] | Some p \<Rightarrow> [p]) st st'"
proof (cases "specialist_reply env idx")
  case (Inl message)
  define m where "m = (if contains_str message ''review was cancelled''
      then (state_manifest st)\<lparr>run_cancelled := True\<rparr> else state_manifest st)"
  have run: "run_all (reject_for_unit env idx message) pending (st\<lparr>state_manifest := m\<rparr>) = (st', Inr ())"
    using assms(1) Inl by (simp add: record_answer_def m_def Let_def)
  have sk: "skeleton m = skeleton (state_manifest st)" by (simp add: m_def)
  have us: "manifest_units m = manifest_units (state_manifest st)" "run_id m = run_id (state_manifest st)"
    by (simp_all add: m_def)
  from reject_units [OF run] assms(2-4) us sk show ?thesis
    by (auto simp: answered_def accepted_answer_def Inl)
next
  case (Inr r)
  then obtain parsed raw where r: "specialist_reply env idx = Inr (parsed, raw)" by (cases r) auto
  from assms(1) r obtain st1 where
    run: "run_all (accept_for_unit env idx (label_answer s parsed) raw) pending st = (st1, Inr ())"
    and st': "st' = st1\<lparr>specialist_outputs := specialist_outputs st1 @ [label_answer s parsed]\<rparr>"
    by (auto simp: record_answer_def continue_Inr)
  have "\<not> covered (manifest_units (state_manifest st) ! i)" if "i \<in> set pending" for i
    using assms(5) that by (simp add: list_all_iff)
  with accept_units [OF run assms(2,3,4)] st' r show ?thesis
    by (auto simp: answered_def accepted_answer_def)
qed

lemma answered_trans:
  assumes "answered pending a st st1" and "answered pending b st1 st2"
    and "length (unit_outputs st) = length (manifest_units (state_manifest st))"
  shows "answered pending (a @ b) st st2"
proof -
  have sk: "skeleton (state_manifest st1) = skeleton (state_manifest st)" using assms(1) by (simp add: answered_def)
  have path: "unit_path (manifest_units (state_manifest st1) ! i) = unit_path (manifest_units (state_manifest st) ! i)"
    if "i < length (unit_outputs st)" for i
    using skeleton_nth(2) [OF sk] that assms(3) by simp
  show ?thesis
    using assms(1,2) path skeleton_facts(1,7) [OF sk] unfolding answered_def
    by (auto dest: touches_only_trans)
qed

lemma answered_self: "list_all (\<lambda>i. \<not> covered (manifest_units (state_manifest st) ! i)) pending \<Longrightarrow> answered pending [] st st"
  by (simp add: answered_def list_all_iff)

lemma record_answers:
  assumes "run_all (record_answer env) jobs st = (st', Inr ())"
    and "list_all (\<lambda>(_, _, us). us = pending) jobs"
    and "distinct pending" and "set pending \<subseteq> {..<length (unit_outputs st)}"
    and "length (unit_outputs st) = length (manifest_units (state_manifest st))"
    and "list_all (\<lambda>i. \<not> covered (manifest_units (state_manifest st) ! i)) pending"
  shows "answered pending (List.map_filter (accepted_answer env) jobs) st st'"
  using assms
proof (induction jobs arbitrary: st)
  case Nil
  then show ?case by (simp add: answered_self)
next
  case (Cons job jobs)
  from Cons.prems(2) obtain idx s where job: "job = (idx, s, pending)" by (cases job) auto
  from Cons.prems(1) obtain st1 where one: "record_answer env (idx, s, pending) st = (st1, Inr ())"
    and rest: "run_all (record_answer env) jobs st1 = (st', Inr ())" unfolding run_all_Inr_step job by blast
  have a: "answered pending (case accepted_answer env job of None \<Rightarrow> [] | Some p \<Rightarrow> [p]) st st1"
    unfolding job using record_answer_answered [OF one] Cons.prems by blast
  then have len: "length (unit_outputs st1) = length (unit_outputs st)"
    "length (manifest_units (state_manifest st1)) = length (manifest_units (state_manifest st))"
    using skeleton_facts(9) unfolding answered_def by blast+
  have unc: "list_all (\<lambda>i. \<not> covered (manifest_units (state_manifest st1) ! i)) pending"
    using a Cons.prems(4) unfolding answered_def list_all_iff by (meson lessThan_iff subsetD)
  have "answered pending (List.map_filter (accepted_answer env) jobs) st1 st'"
    using Cons.prems(2-5) unc by (intro Cons.IH [OF rest]) (simp_all add: len)
  from answered_trans [OF a this Cons.prems(5)] show ?case
    by (cases "accepted_answer env job") (simp_all add: List.map_filter_simps)
qed

subsection \<open>Checkpoints of complete units\<close>

definition stored_checkpoint :: "run_env \<Rightarrow> review_manifest \<Rightarrow> nat \<Rightarrow> json list \<Rightarrow> review_db \<Rightarrow> bool" where
  "stored_checkpoint env m i outs d \<longleftrightarrow>
     (\<exists>row. map_of (units d) (run_id m, unit_id (manifest_units m ! i)) = Some row \<and>
        row_checkpoint row = Some (json_text (run_store env) (checkpoint_value m (manifest_units m ! i) outs)))"

lemma checkpoint_value_cong:
  "unit_fingerprint u = unit_fingerprint u' \<Longrightarrow> executor_id m = executor_id m' \<Longrightarrow>
     policy_fingerprint m = policy_fingerprint m' \<Longrightarrow> checkpoint_value m u outs = checkpoint_value m' u' outs"
  by (simp add: checkpoint_value_def)

lemma stored_checkpoint_skeleton:
  assumes "skeleton m = skeleton m'" and "i < length (manifest_units m')"
  shows "stored_checkpoint env m i outs d \<longleftrightarrow> stored_checkpoint env m' i outs d"
  using skeleton_facts [OF assms(1)] skeleton_nth [OF assms]
  by (simp add: stored_checkpoint_def checkpoint_value_def)

text \<open>What is known of the units before index \<open>k\<close> when the units are settled in order.\<close>

definition unit_settled ::
  "run_env \<Rightarrow> nat \<Rightarrow> review_state \<Rightarrow> nat \<Rightarrow> review_manifest \<Rightarrow> review_db \<Rightarrow> nat \<Rightarrow> bool" where
  "unit_settled env n st k m d i \<longleftrightarrow>
     (let u = manifest_units (state_manifest st) ! i; u' = manifest_units m ! i
      in if i < k \<and> length (unit_outputs st ! i) = n \<and> coverage_state u \<noteq> Reused
         then coverage_state u' = Reviewed \<and> stored_checkpoint env (state_manifest st) i (unit_outputs st ! i) d
         else u' = u)"

definition settled :: "run_env \<Rightarrow> nat \<Rightarrow> review_state \<Rightarrow> nat \<Rightarrow> review_state \<Rightarrow> bool" where
  "settled env n st k st' \<longleftrightarrow>
     skeleton (state_manifest st') = skeleton (state_manifest st) \<and>
     run_cancelled (state_manifest st') = run_cancelled (state_manifest st) \<and>
     unit_outputs st' = unit_outputs st \<and> specialist_outputs st' = specialist_outputs st \<and>
     (\<forall>i < length (unit_outputs st). unit_settled env n st k (state_manifest st') (state_db st') i) \<and>
     touches_only (run_id (state_manifest st)) (set (map unit_id (manifest_units (state_manifest st)))) (state_db st) (state_db st')"

lemma checkpoint_unit_settles:
  assumes "settled env n st k st'" and k: "k < length (unit_outputs st)"
    and len: "length (unit_outputs st) = length (manifest_units (state_manifest st))"
    and dist: "distinct (map unit_id (manifest_units (state_manifest st)))"
    and rows: "\<And>u. u \<in> set (manifest_units (state_manifest st)) \<Longrightarrow>
      map_of (units (state_db st)) (run_id (state_manifest st), unit_id u) \<noteq> None"
  shows "settled env n st (Suc k) (checkpoint_unit env n k st')"
proof -
  let ?m = "state_manifest st" and ?m' = "state_manifest st'"
  have sk: "skeleton ?m' = skeleton ?m" and outs: "unit_outputs st' = unit_outputs st"
    and at: "\<And>i. i < length (unit_outputs st) \<Longrightarrow> unit_settled env n st k ?m' (state_db st') i"
    and touch: "touches_only (run_id ?m) (set (map unit_id (manifest_units ?m))) (state_db st) (state_db st')"
    using assms(1) by (simp_all add: settled_def)
  have same: "manifest_units ?m' ! k = manifest_units ?m ! k" using at [OF k] by (simp add: unit_settled_def Let_def)
  show ?thesis
  proof (cases "length (unit_outputs st ! k) = n \<and> coverage_state (manifest_units ?m ! k) \<noteq> Reused")
    case False
    then have "checkpoint_unit env n k st' = st'" by (auto simp: checkpoint_unit_def Let_def outs same)
    moreover have "unit_settled env n st (Suc k) ?m' (state_db st') i" if "i < length (unit_outputs st)" for i
      using at [OF that] False by (cases "i = k") (auto simp: unit_settled_def Let_def less_Suc_eq split: if_splits)
    ultimately show ?thesis using assms(1) unfolding settled_def by simp
  next
    case True
    define u where "u = (manifest_units ?m' ! k)\<lparr>coverage_state := Reviewed, coverage_reason := None\<rparr>"
    define m1 where "m1 = set_unit k u ?m'"
    define d1 where "d1 = persist_unit_checkpoint (run_store env) m1 u (unit_outputs st ! k) (checkpoint_time env k) (state_db st')"
    have st1: "checkpoint_unit env n k st' = st'\<lparr>state_manifest := m1, state_db := d1\<rparr>"
      using True by (simp add: checkpoint_unit_def Let_def outs same u_def m1_def d1_def)
    have sk1: "skeleton m1 = skeleton ?m" unfolding m1_def u_def skeleton_set_unit by (rule sk)
    note eqs = skeleton_facts [OF sk1]
    have uid: "unit_id u = unit_id (manifest_units ?m ! k)" "unit_fingerprint u = unit_fingerprint (manifest_units ?m ! k)"
      by (simp_all add: u_def same)
    have kin: "manifest_units ?m ! k \<in> set (manifest_units ?m)" using k len by simp
    have "map_of (units (state_db st')) (run_id ?m, unit_id (manifest_units ?m ! k)) \<noteq> None"
      using rows [OF kin] touch by (simp add: touches_only_def)
    then obtain row where row: "map_of (units (state_db st')) (run_id m1, unit_id u) = Some row" using eqs(1) uid by auto
    have d1: "map_of (units d1) key = (if key = (run_id ?m, unit_id (manifest_units ?m ! k))
        then Some (row\<lparr>row_coverage := ''reviewed'', row_reason := None,
               row_checkpoint := Some (json_text (run_store env) (checkpoint_value m1 u (unit_outputs st ! k))),
               row_updated := checkpoint_time env k\<rparr>) else map_of (units (state_db st')) key)" for key
      using row eqs(1) uid by (simp add: d1_def persist_unit_checkpoint_def)
    have mine: "stored_checkpoint env ?m k (unit_outputs st ! k) d1"
      using checkpoint_value_cong [OF uid(2) eqs(2,3)] by (simp add: stored_checkpoint_def d1)
    have other: "stored_checkpoint env ?m i (unit_outputs st ! i) d1"
      if "stored_checkpoint env ?m i (unit_outputs st ! i) (state_db st')" "i < k" for i
    proof -
      have "unit_id (manifest_units ?m ! i) \<noteq> unit_id (manifest_units ?m ! k)"
        using nth_eq_iff_index_eq [OF dist, of i k] that(2) k len by simp
      with that(1) show ?thesis by (simp add: stored_checkpoint_def d1)
    qed
    have touch1: "touches_only (run_id ?m) (set (map unit_id (manifest_units ?m))) (state_db st') d1"
      using kin eqs(1) uid unfolding d1_def by (intro checkpoint_touches) auto
    have units1: "manifest_units m1 ! i = (if i = k then u else manifest_units ?m' ! i)" if "i < length (unit_outputs st)" for i
      using that len skeleton_facts(9) [OF sk] by (simp add: m1_def set_unit_def nth_list_update)
    have "unit_settled env n st (Suc k) m1 d1 i" if i: "i < length (unit_outputs st)" for i
    proof (cases "i = k")
      case True
      then show ?thesis using \<open>length (unit_outputs st ! k) = n \<and> _\<close> mine units1 [OF i] by (simp add: unit_settled_def Let_def u_def)
    next
      case False
      then show ?thesis using at [OF i] units1 [OF i] other [of i]
        by (auto simp: unit_settled_def Let_def less_Suc_eq split: if_splits)
    qed
    moreover have "run_cancelled m1 = run_cancelled ?m" using assms(1) by (simp add: m1_def set_unit_def settled_def)
    ultimately show ?thesis
      using assms(1) sk1 touches_only_trans [OF touch touch1] unfolding settled_def st1 by simp
  qed
qed

lemma settled_start: "settled env n st 0 st"
  by (simp add: settled_def unit_settled_def Let_def)

lemma checkpoint_units_settle:
  assumes "k \<le> length (unit_outputs st)"
    and "length (unit_outputs st) = length (manifest_units (state_manifest st))"
    and "distinct (map unit_id (manifest_units (state_manifest st)))"
    and "\<And>u. u \<in> set (manifest_units (state_manifest st)) \<Longrightarrow>
      map_of (units (state_db st)) (run_id (state_manifest st), unit_id u) \<noteq> None"
  shows "settled env n st k (fold (checkpoint_unit env n) [0..<k] st)"
  using assms
proof (induction k)
  case 0
  then show ?case by (simp add: settled_start)
next
  case (Suc k)
  then have "settled env n st k (fold (checkpoint_unit env n) [0..<k] st)" by simp
  from checkpoint_unit_settles [OF this] Suc.prems show ?case by simp
qed

subsection \<open>The execution as a whole\<close>

lemma reuse_unit_Inr:
  assumes "reuse_unit se m d u = Inr (u', outs, waits)"
  shows "u'\<lparr>coverage_state := Failed, coverage_reason := None\<rparr> = u\<lparr>coverage_state := Failed, coverage_reason := None\<rparr> \<and>
    (if waits then u' = u \<and> outs = [] \<and> coverage_state u \<noteq> Skipped
     else u' = u \<and> outs = [] \<and> coverage_state u = Skipped \<or> coverage_state u' = Reused)"
proof (cases "coverage_state u = Skipped")
  case True
  with assms show ?thesis by (simp add: reuse_unit_def)
next
  case False
  with assms obtain found where "load_checkpoint_outputs se m u d = Inr found"
    by (auto simp: reuse_unit_def and_then_Inr)
  with assms False have "u' = (case found of None \<Rightarrow> u
      | Some _ \<Rightarrow> u\<lparr>coverage_state := Reused, coverage_reason := Some ''fingerprint_checkpoint_match''\<rparr>)"
    "outs = (case found of None \<Rightarrow> [] | Some os \<Rightarrow> os)" "waits = (found = None)"
    by (simp_all add: reuse_unit_def split: option.splits)
  with False show ?thesis by (cases found) simp_all
qed

lemma in_pending:
  "i \<in> set (map fst (filter (\<lambda>(_, _, _, waits). waits) (enumerate 0 rs))) \<longleftrightarrow> i < length rs \<and> snd (snd (rs ! i))"
proof
  assume "i \<in> set (map fst (filter (\<lambda>(_, _, _, waits). waits) (enumerate 0 rs)))"
  then show "i < length rs \<and> snd (snd (rs ! i))" by (auto simp: in_set_enumerate_eq)
next
  assume i: "i < length rs \<and> snd (snd (rs ! i))"
  then have "(i, rs ! i) \<in> set (filter (\<lambda>(_, _, _, waits). waits) (enumerate 0 rs))"
    by (cases "rs ! i") (auto simp: in_set_enumerate_eq)
  then show "i \<in> set (map fst (filter (\<lambda>(_, _, _, waits). waits) (enumerate 0 rs)))" by force
qed

lemma distinct_pending: "distinct (map fst (filter P (enumerate 0 rs)))"
  by (rule distinct_map_filter) (simp add: map_fst_enumerate)

lemma reuse_facts:
  assumes "reuse_checkpoints se m d = Inr (st, pending)"
  shows "skeleton (state_manifest st) = skeleton m" "run_cancelled (state_manifest st) = run_cancelled m"
    "length (unit_outputs st) = length (manifest_units m)"
    "distinct pending" "set pending \<subseteq> {..<length (unit_outputs st)}" "state_db st = d"
    "\<And>i. i < length (manifest_units m) \<Longrightarrow>
       if i \<in> set pending then unit_outputs st ! i = [] \<and> manifest_units (state_manifest st) ! i = manifest_units m ! i
       else unit_outputs st ! i = [] \<and> coverage_state (manifest_units (state_manifest st) ! i) = Skipped \<or>
            coverage_state (manifest_units (state_manifest st) ! i) = Reused"
proof -
  from assms obtain rs where rs: "map_result (reuse_unit se m d) (manifest_units m) = Inr rs"
    and st: "st = \<lparr>state_manifest = m\<lparr>manifest_units := map fst rs\<rparr>, unit_outputs = map (fst \<circ> snd) rs,
              specialist_outputs = concat (map (fst \<circ> snd) rs), state_db = d\<rparr>"
    and pending: "pending = map fst (filter (\<lambda>(_, _, _, waits). waits) (enumerate 0 rs))"
    by (auto simp: reuse_checkpoints_def and_then_Inr)
  have len: "length rs = length (manifest_units m)" by (rule map_result_Inr_length [OF rs])
  have nth: "reuse_unit se m d (manifest_units m ! i) = Inr (fst (rs ! i), fst (snd (rs ! i)), snd (snd (rs ! i)))"
    if "i < length (manifest_units m)" for i
    using map_result_Inr_nth [OF rs that] by simp
  note one = reuse_unit_Inr [OF nth]
  have "map (\<lambda>u. u\<lparr>coverage_state := Failed, coverage_reason := None\<rparr>) (map fst rs) =
      map (\<lambda>u. u\<lparr>coverage_state := Failed, coverage_reason := None\<rparr>) (manifest_units m)"
    by (rule nth_equalityI) (use one len in auto)
  then show "skeleton (state_manifest st) = skeleton m" by (simp add: st skeleton_def)
  show "run_cancelled (state_manifest st) = run_cancelled m" "state_db st = d"
    "length (unit_outputs st) = length (manifest_units m)" by (simp_all add: st len)
  show "distinct pending" unfolding pending by (rule distinct_pending)
  show "set pending \<subseteq> {..<length (unit_outputs st)}" using in_pending [of _ rs] by (auto simp: st pending)
  show "if i \<in> set pending then unit_outputs st ! i = [] \<and> manifest_units (state_manifest st) ! i = manifest_units m ! i
       else unit_outputs st ! i = [] \<and> coverage_state (manifest_units (state_manifest st) ! i) = Skipped \<or>
            coverage_state (manifest_units (state_manifest st) ! i) = Reused"
    if i: "i < length (manifest_units m)" for i
  proof -
    have "i \<in> set pending \<longleftrightarrow> snd (snd (rs ! i))" using in_pending [of i rs] i len by (simp add: pending)
    then show ?thesis using one [OF i] i len by (auto simp: st split: if_splits)
  qed
qed

text \<open>The answers of the specialists that answered, labelled, in the order of the plan.\<close>

definition specialist_answers :: "run_env \<Rightarrow> review_plan \<Rightarrow> json list" where
  "specialist_answers env plan =
     List.map_filter (\<lambda>(k, s). case specialist_reply env k of Inl _ \<Rightarrow> None | Inr (p, _) \<Rightarrow> Some (label_answer s p))
       (enumerate 0 (specialists plan))"

lemma accepted_answers:
  "List.map_filter (accepted_answer env) (enumerate 0 (specialist_jobs plan pending)) =
     (if pending = [] then [] else specialist_answers env plan)"
proof -
  have "List.map_filter (accepted_answer env) (enumerate n (map (\<lambda>s. (s, pending)) ss)) =
      List.map_filter (\<lambda>(k, s). case specialist_reply env k of Inl _ \<Rightarrow> None | Inr (p, _) \<Rightarrow> Some (label_answer s p))
        (enumerate n ss)" for n ss
    by (induction ss arbitrary: n) (auto simp: List.map_filter_simps accepted_answer_def split: sum.splits)
  then show ?thesis by (simp add: specialist_jobs_def specialist_answers_def List.map_filter_simps)
qed

lemma map_filter_full: "length (List.map_filter f xs) = length xs \<longleftrightarrow> list_all (\<lambda>x. f x \<noteq> None) xs"
proof (induction xs)
  case (Cons x xs)
  then show ?case using length_map_filter_le [of f xs] by (cases "f x") (auto simp: List.map_filter_simps)
qed simp

lemma all_answered:
  assumes "length (specialist_answers env plan) = length (specialists plan)"
  shows "list_all (\<lambda>k. is_ok (specialist_reply env k)) [0..<length (specialists plan)]"
proof -
  from assms have "list_all (\<lambda>(k, s). is_ok (specialist_reply env k)) (enumerate 0 (specialists plan))"
    using map_filter_full [of "\<lambda>(k, s). case specialist_reply env k of Inl _ \<Rightarrow> None | Inr (p, _) \<Rightarrow> Some (label_answer s p)"
      "enumerate 0 (specialists plan)"]
    by (auto simp: specialist_answers_def list_all_iff split: sum.splits)
  then have "list_all (\<lambda>k. is_ok (specialist_reply env k)) (map fst (enumerate 0 (specialists plan)))"
    by (simp add: list_all_iff case_prod_unfold del: map_fst_enumerate)
  then show ?thesis by simp
qed

lemma execute_facts:
  assumes "execute_specialists env plan pending st = (st', Inr ())"
    and "distinct pending" and "set pending \<subseteq> {..<length (unit_outputs st)}"
    and "length (unit_outputs st) = length (manifest_units (state_manifest st))"
    and "distinct (map unit_id (manifest_units (state_manifest st)))"
    and "list_all (\<lambda>i. \<not> covered (manifest_units (state_manifest st) ! i)) pending"
    and "\<And>u. u \<in> set (manifest_units (state_manifest st)) \<Longrightarrow>
      map_of (units (state_db st)) (run_id (state_manifest st), unit_id u) \<noteq> None"
  obtains st1 where "answered pending (if pending = [] then [] else specialist_answers env plan) st st1"
    "settled env (length (specialists plan)) st1 (length (unit_outputs st)) st'"
proof -
  from assms(1) obtain st1 where run: "run_all (record_answer env) (enumerate 0 (specialist_jobs plan pending)) st = (st1, Inr ())"
    and st': "st' = fold (checkpoint_unit env (length (specialists plan))) [0..<length (unit_outputs st1)] st1"
    by (auto simp: execute_specialists_def continue_Inr)
  have "list_all (\<lambda>(_, _, us). us = pending) (enumerate 0 (specialist_jobs plan pending))"
  proof -
    have "list_all (\<lambda>(_, _, us). us = pending) (enumerate n (map (\<lambda>s. (s, pending)) ss))" for n ss
      by (induction ss arbitrary: n) simp_all
    from this [of 0 "specialists plan"] show ?thesis by (simp add: specialist_jobs_def)
  qed
  from record_answers [OF run this assms(2,3,4,6)]
  have a: "answered pending (if pending = [] then [] else specialist_answers env plan) st st1" by (simp add: accepted_answers)
  then have sk: "skeleton (state_manifest st1) = skeleton (state_manifest st)"
    and len: "length (unit_outputs st1) = length (unit_outputs st)"
    and touch: "touches_only (run_id (state_manifest st)) (set (map unit_id (manifest_units (state_manifest st)))) (state_db st) (state_db st1)"
    by (simp_all add: answered_def)
  note eqs = skeleton_facts [OF sk]
  have ids: "unit_id ` set (manifest_units (state_manifest st1)) = unit_id ` set (manifest_units (state_manifest st))"
    using eqs(7) by (metis set_map)
  have rows: "map_of (units (state_db st1)) (run_id (state_manifest st1), unit_id u) \<noteq> None"
    if u: "u \<in> set (manifest_units (state_manifest st1))" for u
  proof -
    from u ids obtain v where "v \<in> set (manifest_units (state_manifest st))" "unit_id v = unit_id u" by (metis imageE imageI)
    with assms(7) touch show ?thesis unfolding touches_only_def eqs(1) by metis
  qed
  have "settled env (length (specialists plan)) st1 (length (unit_outputs st1)) st'"
    unfolding st' using assms(4,5) eqs(7,9) len rows by (intro checkpoint_units_settle) auto
  with a len show thesis by (intro that [of st1]) simp_all
qed

lemma execute_skeleton:
  "skeleton (state_manifest (fst (execute_specialists env plan pending st))) = skeleton (state_manifest st)"
proof -
  let ?I = "\<lambda>s. skeleton (state_manifest s) = skeleton (state_manifest st)"
  have settle: "?I s \<Longrightarrow> ?I (checkpoint_unit env n i s)" for n i s
    by (simp add: checkpoint_unit_def Let_def skeleton_set_unit)
  have fold: "?I s \<Longrightarrow> ?I (fold (checkpoint_unit env n) is s)" for n "is" s
    by (induction "is" arbitrary: s) (simp_all add: settle)
  have accept: "?I s \<Longrightarrow> ?I (fst (accept_for_unit env idx p raw i s))" for idx p raw i s
    by (simp add: accept_for_unit_def Let_def split: prod.splits)
  have reject: "?I s \<Longrightarrow> ?I (fst (reject_for_unit env idx msg i s))" for idx msg i s
    by (simp add: reject_for_unit_def Let_def skeleton_set_unit split: prod.splits)
  have one: "?I (fst (record_answer env job s))" if "?I s" for job s
  proof (cases job)
    case (fields idx sp us)
    show ?thesis
    proof (cases "specialist_reply env idx")
      case (Inl message)
      have "?I (fst (run_all (reject_for_unit env idx message) us (s\<lparr>state_manifest :=
          if contains_str message ''review was cancelled'' then (state_manifest s)\<lparr>run_cancelled := True\<rparr>
          else state_manifest s\<rparr>)))"
        using that by (intro run_all_invariant [where I = ?I] reject) auto
      then show ?thesis by (simp add: fields Inl record_answer_def Let_def)
    next
      case (Inr r)
      obtain parsed raw where r: "r = (parsed, raw)" by fastforce
      obtain s1 res where run: "run_all (accept_for_unit env idx (label_answer sp parsed) raw) us s = (s1, res)" by fastforce
      have "?I (fst (run_all (accept_for_unit env idx (label_answer sp parsed) raw) us s))"
        by (rule run_all_invariant [where I = ?I, OF that]) (rule accept)
      then have "?I s1" by (simp add: run)
      then show ?thesis by (cases res) (simp_all add: fields Inr r record_answer_def run)
    qed
  qed
  obtain s1 res where run: "run_all (record_answer env) (enumerate 0 (specialist_jobs plan pending)) st = (s1, res)" by fastforce
  have "?I (fst (run_all (record_answer env) (enumerate 0 (specialist_jobs plan pending)) st))"
    by (rule run_all_invariant [where I = ?I, OF refl]) (rule one)
  then have "?I s1" by (simp add: run)
  then show ?thesis
    by (cases "specialists_joined env"; cases res) (simp_all add: execute_specialists_def run fold)
qed

lemma prepare_Inr:
  assumes "prepare_review env req = Inr (m, diff)"
  obtains t agent us where "m = new_manifest (plan_world env) (new_run_id env) t agent us (created_time env)"
    "plan_units_with_context (plan_world env) t agent (request_planning_context req) = Inr us"
    "resolve_target (plan_world env) (request_repo req) (request_range req) = Inr t"
    "\<And>u. u \<in> set us \<Longrightarrow> coverage_state u = Skipped \<or> coverage_state u = Failed"
proof -
  from assms obtain t agent us where m: "m = new_manifest (plan_world env) (new_run_id env) t agent us (created_time env)"
    and us: "plan_units_with_context (plan_world env) t agent (request_planning_context req) = Inr us"
    and t: "resolve_target (plan_world env) (request_repo req) (request_range req) = Inr t"
    by (auto simp: prepare_review_def and_then_Inr Let_def)
  from us obtain statuses vs where vs: "map_result (plan_unit (plan_world env) t agent (request_planning_context req)) statuses = Inr vs"
    "us = sort_key unit_path vs" by (auto simp: plan_units_with_context_def and_then_Inr)
  have planned: "\<exists>i < length statuses. plan_unit (plan_world env) t agent (request_planning_context req) (statuses ! i) = Inr u"
    if "u \<in> set us" for u
  proof -
    from that vs(2) obtain i where "i < length vs" "u = vs ! i" by (auto simp: in_set_conv_nth)
    with map_result_Inr_nth [OF vs(1), of i] map_result_Inr_length [OF vs(1)] show ?thesis by auto
  qed
  have "coverage_state u = Skipped \<or> coverage_state u = Failed" if u: "u \<in> set us" for u
  proof -
    from planned [OF u] obtain i where "plan_unit (plan_world env) t agent (request_planning_context req)
        (fst (statuses ! i), snd (statuses ! i)) = Inr u" by auto
    from plan_unit_Inr [OF this] obtain dt
      where "(coverage_state u, coverage_reason u) = planned_coverage (snd (statuses ! i)) dt" by blast
    then show ?thesis by (auto simp: planned_coverage_def split: if_splits)
  qed
  with m us t show thesis by (rule that)
qed

text \<open>A run that ends with a report, from its manifest to its last write.\<close>

lemma run_story:
  assumes "run_cli_review_core env req d = (d', Inr rep)"
  obtains m diff d1 d2 st pending plan has_context st2 fs parsed failed cancelled review m' where
    "prepare_review env req = Inr (m, diff)" "plan = build_review_plan diff (changed_paths m)"
    "claim_manifest (run_store env) m (claim_time env) (stale_cutoff env) (expiry_cutoff env) d = (d1, Inr ())"
    "ensure_review_context env (changed_paths m) = Inr has_context"
    "reuse_checkpoints (run_store env) m d1 = Inr (st, pending)"
    "persist_manifest (run_store env) (state_manifest st) ''running'' (running_time env) d1 = (d2, Inr ())"
    "execute_specialists env plan pending (st\<lparr>state_db := d2\<rparr>) = (st2, Inr ())"
    "skeleton (state_manifest st2) = skeleton m"
    "target_stale m' \<longleftrightarrow> \<not> target_is_current (current_world env) (manifest_target m)"
    "run_cancelled m' = cancelled" "changed_paths m' = changed_paths m" "manifest_target m' = manifest_target m"
    "run_id m' = run_id m"
    "manifest_units m' = (if target_stale m' then map outdate_unit (manifest_units (state_manifest st2)) else manifest_units (state_manifest st2))"
    "coverage_complete m' \<longleftrightarrow> \<not> target_stale m' \<and> list_all covered (manifest_units m')"
    "reported_manifest rep = m'\<lparr>review_id := Some review, completed_at := Some (completed_time env)\<rparr>"
    "persist_manifest (run_store env) (reported_manifest rep) (final_status m') (saved_time env)
       ((state_db st2)\<lparr>reviews := review # reviews (state_db st2)\<rparr>) = (d', Inr ())"
    "reported_limitations rep = readiness_limitations m' has_context failed"
    "reported_status rep = (if reported_limitations rep = [] then ''completed'' else ''incomplete'')"
    "reported_coordinator rep = coordinator_status plan failed cancelled"
    "failed \<noteq> None \<Longrightarrow> uses_coordinator plan" "fs = reported_findings rep"
  using assms
proof (rule run_Inr)
  fix d2 st0 pending plan has_context st2 outs cs ds parsed failed cancelled m' fs
  assume start: "start_review env req d = (d2, Inr (st0, pending, plan, has_context))"
    and exec: "execute_specialists env plan pending st0 = (st2, Inr ())"
    and co: "coordinate env plan (specialist_jobs plan pending \<noteq> []) (run_cancelled (state_manifest st2)) outs = (parsed, failed, cancelled)"
    and cm: "conclude_manifest env req ((state_manifest st2)\<lparr>run_cancelled := cancelled\<rparr>) parsed cs ds = (m', fs)"
    and save: "save_review env plan m' fs parsed failed has_context (state_db st2) = (d', Inr rep)"
  from start obtain m diff d1 st where a: "prepare_review env req = Inr (m, diff)"
    "claim_manifest (run_store env) m (claim_time env) (stale_cutoff env) (expiry_cutoff env) d = (d1, Inr ())"
    "ensure_review_context env (changed_paths m) = Inr has_context"
    "reuse_checkpoints (run_store env) m d1 = Inr (st, pending)"
    "persist_manifest (run_store env) (state_manifest st) ''running'' (running_time env) d1 = (d2, Inr ())"
    and st0: "st0 = st\<lparr>state_db := d2\<rparr>" and plan: "plan = build_review_plan diff (changed_paths m)"
    by (rule start_Inr)
  have sk: "skeleton (state_manifest st2) = skeleton m"
    using execute_skeleton [of env plan pending st0] exec reuse_facts(1) [OF a(4)] by (simp add: st0)
  have failed: "failed \<noteq> None \<Longrightarrow> uses_coordinator plan" using co by (auto simp: coordinate_def split: if_splits)
  note facts = conclude_facts [OF cm]
  note eqs = skeleton_facts [OF sk]
  from save show thesis
  proof (rule save_Inr)
    fix review
    assume r: "reported_manifest rep = m'\<lparr>review_id := Some review, completed_at := Some (completed_time env)\<rparr>"
      "persist_manifest (run_store env) (reported_manifest rep) (final_status m') (saved_time env)
         ((state_db st2)\<lparr>reviews := review # reviews (state_db st2)\<rparr>) = (d', Inr ())"
      "reported_findings rep = fs" "reported_limitations rep = readiness_limitations m' has_context failed"
      "reported_status rep = (if reported_limitations rep = [] then ''completed'' else ''incomplete'')"
      "reported_coordinator rep = coordinator_status plan failed (run_cancelled m')"
    have t: "target_stale m' \<longleftrightarrow> \<not> target_is_current (current_world env) (manifest_target m)"
      "run_cancelled m' = cancelled" "changed_paths m' = changed_paths m" "manifest_target m' = manifest_target m" "run_id m' = run_id m"
      "manifest_units m' = (if target_stale m' then map outdate_unit (manifest_units (state_manifest st2)) else manifest_units (state_manifest st2))"
      "coverage_complete m' \<longleftrightarrow> \<not> target_stale m' \<and> list_all covered (manifest_units m')"
      using facts eqs by simp_all
    show thesis
      by (rule that [OF a(1) plan a(2-5) exec [unfolded st0] sk t r(1,2) r(4,5) r(6) [unfolded t(2)] failed r(3) [symmetric]])
  qed
qed

text \<open>
  C9: Whatever a review reports is grounded in the repository as it is at the end. Each reported
  finding names a file of the change, inside the repository, and a line of it whose text is the
  finding's anchor; a review whose target changed meanwhile, or that was cancelled, reports none.
\<close>

theorem review_findings_are_grounded:
  assumes "run_cli_review_core env req d = (d', Inr rep)" and "\<And>xs. mset (value_order env xs) = mset xs"
  shows "list_all (\<lambda>f. \<exists>repo. canonicalize (final_world env) (request_repo req) = Some repo \<and>
      grounded (final_world env) repo (changed_paths (reported_manifest rep)) f) (reported_findings rep) \<and>
    (target_stale (reported_manifest rep) \<or> run_cancelled (reported_manifest rep) \<longrightarrow> reported_findings rep = []) \<and>
    (target_stale (reported_manifest rep) \<longleftrightarrow>
      \<not> target_is_current (current_world env) (manifest_target (reported_manifest rep)))"
  using assms(1)
proof (rule run_Inr)
  fix st2 outs cs ds parsed failed cancelled m fs d1 st pending plan has_context
  assume cm: "conclude_manifest env req ((state_manifest st2)\<lparr>run_cancelled := cancelled\<rparr>) parsed cs ds = (m, fs)"
    and "save_review env plan m fs parsed failed has_context (state_db st2) = (d', Inr rep)"
  then obtain review where rep: "reported_manifest rep = m\<lparr>review_id := Some review, completed_at := Some (completed_time env)\<rparr>"
    "reported_findings rep = fs" by (auto elim: save_Inr)
  note facts = conclude_facts [OF cm]
  have paths: "changed_paths (reported_manifest rep) = changed_paths (state_manifest st2)"
    using facts(3) by (simp add: rep)
  let ?q = "final_qualification env req ((state_manifest st2)\<lparr>run_cancelled := cancelled, target_stale := target_stale m\<rparr>)
    (findings_from parsed)"
  have fs: "fs = dedupe_findings (value_order env) (findings ?q)" using facts(8) by simp
  have "list_all (\<lambda>f. \<exists>repo. canonicalize (final_world env) (request_repo req) = Some repo \<and>
      grounded (final_world env) repo (changed_paths (reported_manifest rep)) f) (findings ?q)"
    using qualified_grounded
    by (auto simp: final_qualification_def invalidate_candidates_def list_all_iff set_findings paths)
  then have "list_all (\<lambda>f. \<exists>repo. canonicalize (final_world env) (request_repo req) = Some repo \<and>
      grounded (final_world env) repo (changed_paths (reported_manifest rep)) f) fs"
    unfolding fs by (rule dedupe_subset [OF assms(2)])
  moreover have "fs = []" if "target_stale m \<or> cancelled"
  proof -
    have "findings ?q = []" using that by (auto simp: final_qualification_def invalidate_candidates_def)
    then show ?thesis using dedupe_members [of "value_order env" "[]"] assms(2) unfolding fs by simp
  qed
  ultimately show ?thesis using facts(1,2,7) by (simp add: rep)
qed

text \<open>
  C11: A review is reported as completed exactly when nothing is missing: every unit was reviewed
  or reused, the target is the one that was resolved, nobody cancelled and the coordinator did
  not fail.
\<close>

theorem completed_review_is_complete:
  assumes "run_cli_review_core env req d = (d', Inr rep)"
  shows "(reported_status rep = ''completed'' \<longleftrightarrow>
      list_all covered (manifest_units (reported_manifest rep)) \<and>
      target_is_current (current_world env) (manifest_target (reported_manifest rep)) \<and>
      \<not> run_cancelled (reported_manifest rep) \<and> reported_coordinator rep \<noteq> ''failed'') \<and>
    (coverage_complete (reported_manifest rep) \<longleftrightarrow>
      list_all covered (manifest_units (reported_manifest rep)) \<and> \<not> target_stale (reported_manifest rep))"
proof (rule run_story)
  fix m diff d1 d2 st pending plan has_context st2 fs parsed failed cancelled review m'
  assume ctx: "ensure_review_context env (changed_paths m) = Inr has_context"
    and t: "target_stale m' \<longleftrightarrow> \<not> target_is_current (current_world env) (manifest_target m)"
      "run_cancelled m' = cancelled" "changed_paths m' = changed_paths m" "manifest_target m' = manifest_target m"
      "coverage_complete m' \<longleftrightarrow> \<not> target_stale m' \<and> list_all covered (manifest_units m')"
    and r: "reported_manifest rep = m'\<lparr>review_id := Some review, completed_at := Some (completed_time env)\<rparr>"
      "reported_limitations rep = readiness_limitations m' has_context failed"
      "reported_status rep = (if reported_limitations rep = [] then ''completed'' else ''incomplete'')"
      "reported_coordinator rep = coordinator_status plan failed cancelled"
    and failed: "failed \<noteq> None \<Longrightarrow> uses_coordinator plan"
  have "\<not> (changed_files_need_structural_context (changed_paths m') \<and> \<not> has_context)"
    using ctx by (auto simp: ensure_review_context_def t(3) and_then_Inr split: if_splits)
  moreover have "failed = None \<longleftrightarrow> reported_coordinator rep \<noteq> ''failed''"
    using failed by (auto simp: r(4) coordinator_status_def)
  ultimately have "reported_limitations rep = [] \<longleftrightarrow>
      coverage_complete m' \<and> reported_coordinator rep \<noteq> ''failed'' \<and> \<not> target_stale m' \<and> \<not> run_cancelled m'"
    by (auto simp: r(2) readiness_limitations_def split: option.splits)
  then show ?thesis using t r(1,3) by auto
qed (rule assms)

section \<open>What coverage stands for\<close>

lemma prepared_uncovered:
  "prepare_review env req = Inr (m, diff) \<Longrightarrow> u \<in> set (manifest_units m) \<Longrightarrow>
     coverage_state u = Skipped \<or> coverage_state u = Failed"
  by (erule prepare_Inr) (auto simp: new_manifest_def)

lemma prepared_manifest:
  "prepare_review env req = Inr (m, diff) \<Longrightarrow>
     run_id m = new_run_id env \<and> schema_version m = 1 \<and> \<not> run_cancelled m \<and> review_id m = None"
  by (erule prepare_Inr) (simp add: new_manifest_def REVIEW_MANIFEST_SCHEMA_VERSION_def)

text \<open>The states after the answers and after the checkpoints.\<close>

lemma executed_states:
  assumes prep: "prepare_review env req = Inr (m, diff)"
    and reuse: "reuse_checkpoints (run_store env) m d1 = Inr (st, pending)"
    and running: "persist_manifest (run_store env) (state_manifest st) ''running'' (running_time env) d1 = (d2, Inr ())"
    and exec: "execute_specialists env plan pending (st\<lparr>state_db := d2\<rparr>) = (st2, Inr ())"
    and dist: "distinct (map unit_id (manifest_units m))"
  shows "\<exists>st1. answered pending (if pending = [] then [] else specialist_answers env plan) (st\<lparr>state_db := d2\<rparr>) st1 \<and>
    settled env (length (specialists plan)) st1 (length (unit_outputs st)) st2"
proof -
  note rf = reuse_facts [OF reuse]
  note eqs = skeleton_facts [OF rf(1)]
  have dist': "distinct (map unit_id (manifest_units (state_manifest st)))" using dist eqs(7) by simp
  have unc: "\<not> covered (manifest_units (state_manifest st) ! j)" if "j \<in> set pending" for j
  proof -
    have j: "j < length (manifest_units m)" using rf(3,5) that by auto
    with rf(7) [OF j] that prepared_uncovered [OF prep, of "manifest_units m ! j"] show ?thesis by (auto simp: covered_def)
  qed
  have rows: "map_of (units d2) (run_id (state_manifest st), unit_id u) \<noteq> None"
    if "u \<in> set (manifest_units (state_manifest st))" for u
    using upsert_units_own [OF that dist'] persist_Inr [OF running] by simp
  show ?thesis
    by (rule execute_facts [OF exec]) (use rf eqs dist' unc rows in \<open>auto simp: list_all_iff\<close>)
qed

text \<open>What a settled unit is, once all have answered.\<close>

lemma executed_unit:
  assumes prep: "prepare_review env req = Inr (m, diff)"
    and reuse: "reuse_checkpoints (run_store env) m d1 = Inr (st, pending)"
    and running: "persist_manifest (run_store env) (state_manifest st) ''running'' (running_time env) d1 = (d2, Inr ())"
    and exec: "execute_specialists env plan pending (st\<lparr>state_db := d2\<rparr>) = (st2, Inr ())"
    and dist: "distinct (map unit_id (manifest_units m))" and some: "specialists plan \<noteq> []"
    and i: "i < length (manifest_units m)" and reviewed: "coverage_state (manifest_units (state_manifest st2) ! i) = Reviewed"
  shows "list_all (\<lambda>k. is_ok (specialist_reply env k)) [0..<length (specialists plan)] \<and>
    stored_checkpoint env (state_manifest st2) i
      (map (\<lambda>p. checkpoint_projection p (unit_path (manifest_units m ! i))) (specialist_answers env plan)) (state_db st2)"
proof -
  note rf = reuse_facts [OF reuse]
  let ?st = "st\<lparr>state_db := d2\<rparr>"
  note eqs = skeleton_facts [OF rf(1)]
  from executed_states [OF prep reuse running exec dist]
  obtain st1 where a: "answered pending (if pending = [] then [] else specialist_answers env plan) ?st st1"
    and s: "settled env (length (specialists plan)) st1 (length (unit_outputs ?st)) st2" by auto
  have i': "i < length (unit_outputs ?st)" using i rf(3) by simp
  have len1: "length (unit_outputs st1) = length (unit_outputs ?st)" using a by (simp add: answered_def)
  have sk1: "skeleton (state_manifest st1) = skeleton (state_manifest st)" using a by (simp add: answered_def)
  have sk2: "skeleton (state_manifest st2) = skeleton (state_manifest st1)" using s by (simp add: settled_def)
  have path: "unit_path (manifest_units (state_manifest st) ! i) = unit_path (manifest_units m ! i)"
    by (rule skeleton_nth(2) [OF rf(1) i])
  have outs: "unit_outputs st1 ! i = unit_outputs st ! i @
      (if i \<in> set pending then map (\<lambda>p. checkpoint_projection p (unit_path (manifest_units m ! i))) (specialist_answers env plan) else [])"
    using a i' path by (auto simp: answered_def)
  have kept: "if i \<in> set pending then \<not> covered (manifest_units (state_manifest st1) ! i)
        else manifest_units (state_manifest st1) ! i = manifest_units (state_manifest st) ! i"
    using a i' by (simp add: answered_def)
  have us: "unit_settled env (length (specialists plan)) st1 (length (unit_outputs ?st)) (state_manifest st2) (state_db st2) i"
    using s i' len1 by (simp add: settled_def)
  have pend: "i \<in> set pending"
  proof (rule ccontr)
    assume no: "i \<notin> set pending"
    with kept outs rf(7) [OF i] us reviewed some show False
      by (auto simp: unit_settled_def Let_def split: if_splits)
  qed
  have full: "length (specialist_answers env plan) = length (specialists plan)"
    and stored: "stored_checkpoint env (state_manifest st1) i (unit_outputs st1 ! i) (state_db st2)"
    using us pend kept outs rf(7) [OF i] reviewed
    by (auto simp: unit_settled_def Let_def covered_def split: if_splits)
  have "i < length (manifest_units (state_manifest st1))" using skeleton_facts(9) [OF sk1] eqs(9) i by simp
  from stored_checkpoint_skeleton [OF sk2 this] stored outs pend rf(7) [OF i]
  have "stored_checkpoint env (state_manifest st2) i
      (map (\<lambda>p. checkpoint_projection p (unit_path (manifest_units m ! i))) (specialist_answers env plan)) (state_db st2)"
    by simp
  with all_answered [OF full] show ?thesis by blast
qed

text \<open>
  C10: A reviewed unit was reviewed. Every specialist of the plan answered, and the unit's row
  holds the checkpoint of exactly what each of them said about the unit's file, in the order of
  the plan.
\<close>

theorem reviewed_units_are_backed:
  assumes "run_cli_review_core env req d = (d', Inr rep)" and "prepare_review env req = Inr (m, diff)"
    and "distinct (map unit_id (manifest_units m))"
  shows "let plan = build_review_plan diff (changed_paths m) in
    list_all (\<lambda>u. coverage_state u = Reviewed \<longrightarrow>
      list_all (\<lambda>k. is_ok (specialist_reply env k)) [0..<length (specialists plan)] \<and>
      (\<exists>row. map_of (units d') (run_id m, unit_id u) = Some row \<and> row_coverage row = ''reviewed'' \<and>
         row_checkpoint row = Some (json_text (run_store env) (checkpoint_value m u
           (map (\<lambda>p. checkpoint_projection p (unit_path u)) (specialist_answers env plan))))))
      (manifest_units (reported_manifest rep))"
  using assms(1)
proof (rule run_story)
  fix m0 diff0 d1 d2 st pending plan has_context st2 fs parsed failed cancelled review m'
  assume s: "prepare_review env req = Inr (m0, diff0)" "plan = build_review_plan diff0 (changed_paths m0)"
    "reuse_checkpoints (run_store env) m0 d1 = Inr (st, pending)"
    "persist_manifest (run_store env) (state_manifest st) ''running'' (running_time env) d1 = (d2, Inr ())"
    "execute_specialists env plan pending (st\<lparr>state_db := d2\<rparr>) = (st2, Inr ())"
    "skeleton (state_manifest st2) = skeleton m0" "run_id m' = run_id m0"
    "manifest_units m' = (if target_stale m' then map outdate_unit (manifest_units (state_manifest st2)) else manifest_units (state_manifest st2))"
    "reported_manifest rep = m'\<lparr>review_id := Some review, completed_at := Some (completed_time env)\<rparr>"
    "persist_manifest (run_store env) (reported_manifest rep) (final_status m') (saved_time env)
       ((state_db st2)\<lparr>reviews := review # reviews (state_db st2)\<rparr>) = (d', Inr ())"
  have m0: "m0 = m" "diff0 = diff" using s(1) assms(2) by simp_all
  note eqs = skeleton_facts [OF s(6) [unfolded m0]]
  have units': "manifest_units (reported_manifest rep) = manifest_units m'" and rid: "run_id (reported_manifest rep) = run_id m"
    using s(7,9) m0 by simp_all
  have ids: "map unit_id (manifest_units m') = map unit_id (manifest_units m)"
    using eqs(7) by (simp add: s(8) outdate_unit_def comp_def if_distrib cong: if_cong)
  have one: "list_all (\<lambda>k. is_ok (specialist_reply env k)) [0..<length (specialists plan)] \<and>
      (\<exists>row. map_of (units d') (run_id m, unit_id u) = Some row \<and> row_coverage row = ''reviewed'' \<and>
         row_checkpoint row = Some (json_text (run_store env) (checkpoint_value m u
           (map (\<lambda>p. checkpoint_projection p (unit_path u)) (specialist_answers env plan)))))"
    if u: "u \<in> set (manifest_units m')" "coverage_state u = Reviewed" for u
  proof -
    have fresh: "\<not> target_stale m'"
      using u by (auto simp: s(8) outdate_unit_def split: if_splits)
    with u obtain i where i: "i < length (manifest_units m)" "manifest_units (state_manifest st2) ! i = u"
      using eqs(9) by (auto simp: s(8) in_set_conv_nth)
    have some: "specialists plan \<noteq> []" using plan_specialists(1) by (simp add: s(2))
    from executed_unit [OF assms(2) s(3-5) [unfolded m0] assms(3) some i(1)] u(2) i(2)
    have ok: "list_all (\<lambda>k. is_ok (specialist_reply env k)) [0..<length (specialists plan)]"
      and stored: "stored_checkpoint env (state_manifest st2) i
        (map (\<lambda>p. checkpoint_projection p (unit_path (manifest_units m ! i))) (specialist_answers env plan)) (state_db st2)"
      by simp_all
    have "unit_path (manifest_units m ! i) = unit_path u"
      using skeleton_nth(2) [OF s(6) [unfolded m0] i(1)] i(2) by simp
    with stored i(2) eqs(1-3) obtain row where row: "map_of (units (state_db st2)) (run_id m, unit_id u) = Some row"
      "row_checkpoint row = Some (json_text (run_store env) (checkpoint_value m u
           (map (\<lambda>p. checkpoint_projection p (unit_path u)) (specialist_answers env plan))))"
      by (auto simp: stored_checkpoint_def checkpoint_value_def)
    have "distinct (map unit_id (manifest_units (reported_manifest rep)))" using ids assms(3) units' by simp
    from persisting_keeps_checkpoints [OF s(10) this] u row units' rid
    obtain row' where "map_of (units d') (run_id m, unit_id u) = Some row'" "row_checkpoint row' = row_checkpoint row"
      "row_coverage row' = coverage_name (coverage_state u)" by fastforce
    with ok row(2) u(2) show ?thesis by simp
  qed
  show ?thesis
    unfolding Let_def list_all_iff units' s(2) [unfolded m0, symmetric] using one by (simp add: list_all_iff)
qed

lemma upsert_units_written:
  "uid \<in> unit_id ` set us \<Longrightarrow>
     \<exists>v old. v \<in> set us \<and> map_of (units (fold (upsert_unit run now) us d)) (run, uid) = Some (unit_written now v old)"
proof (induction us arbitrary: d)
  case (Cons v us)
  show ?case
  proof (cases "uid \<in> unit_id ` set us")
    case True
    from Cons.IH [OF this, of "upsert_unit run now v d"] show ?thesis by auto
  next
    case False
    with Cons.prems have "uid = unit_id v" by auto
    with False upsert_units_other [of "(run, uid)" run us now "upsert_unit run now v d"] show ?thesis
      by (auto simp: upsert_unit_lookup)
  qed
qed simp

lemma claim_units:
  assumes "claim_manifest se m now before expired d = (d', Inr v)" and "fst k = run_id m" and "snd k \<notin> unit_id ` set (manifest_units m)"
    and "map_of (units d) k = None"
  shows "map_of (units d') k = None"
proof -
  let ?d = "cleanup_unlinked_terminal_manifests expired (abandon_stale_runs now before d)"
  from assms(1) have "persist_manifest se m ''planning'' now ?d = (d', Inr ())"
    by (auto simp: claim_manifest_def split: prod.splits sum.splits)
  from persist_touches [OF this] assms(2,3) have "map_of (units d') k = map_of (units ?d) k"
    unfolding touches_only_def set_map by blast
  moreover have "set (units ?d) \<subseteq> set (units d)"
    by (auto simp: cleanup_unlinked_terminal_manifests_def abandon_stale_runs_def Let_def)
  ultimately show ?thesis using assms(4) by (metis (no_types, lifting) map_of_eq_None_iff image_mono subsetD)
qed

text \<open>No row of the run but those of its units.\<close>

lemma run_rows:
  assumes "prepare_review env req = Inr (m, diff)" and "list_all (\<lambda>((run, _), _). run \<noteq> new_run_id env) (units d)"
    and "claim_manifest (run_store env) m (claim_time env) (stale_cutoff env) (expiry_cutoff env) d = (d1, Inr ())"
    and "reuse_checkpoints (run_store env) m d1 = Inr (st, pending)"
    and "persist_manifest (run_store env) (state_manifest st) ''running'' (running_time env) d1 = (d2, Inr ())"
    and exec: "execute_specialists env plan pending (st\<lparr>state_db := d2\<rparr>) = (st2, Inr ())"
    and "distinct (map unit_id (manifest_units m))" and "uid \<notin> unit_id ` set (manifest_units m)"
  shows "map_of (units (state_db st2)) (new_run_id env, uid) = None"
proof -
  note rf = reuse_facts [OF assms(4)]
  note eqs = skeleton_facts [OF rf(1)]
  have run: "run_id m = new_run_id env" using prepared_manifest [OF assms(1)] by simp
  have ids: "unit_id ` set (manifest_units (state_manifest st)) = unit_id ` set (manifest_units m)"
    using eqs(7) by (metis set_map)
  from executed_states [OF assms(1,4,5) exec assms(7)]
  obtain st1 where a: "answered pending (if pending = [] then [] else specialist_answers env plan) (st\<lparr>state_db := d2\<rparr>) st1"
    and s: "settled env (length (specialists plan)) st1 (length (unit_outputs st)) st2" by blast
  have sk: "skeleton (state_manifest st1) = skeleton (state_manifest st)" using a by (simp add: answered_def)
  have ids1: "unit_id ` set (manifest_units (state_manifest st1)) = unit_id ` set (manifest_units m)"
    using skeleton_facts(7) [OF sk] ids by (metis set_map)
  have "map_of (units d) (new_run_id env, uid) = None"
    using assms(2) by (auto simp: map_of_eq_None_iff list_all_iff)
  then have "map_of (units d1) (new_run_id env, uid) = None"
    using claim_units [OF assms(3), of "(new_run_id env, uid)"] run assms(8) by simp
  then have "map_of (units d2) (new_run_id env, uid) = None"
    using persist_touches [OF assms(5)] assms(8) ids by (simp add: touches_only_def)
  then have "map_of (units (state_db st1)) (new_run_id env, uid) = None"
    using a assms(8) ids by (simp add: answered_def touches_only_def)
  then show ?thesis using s assms(8) ids1 by (simp add: settled_def touches_only_def)
qed

text \<open>
  C13: An outdated review leaves nothing to reuse. When the target changed during the review, no
  row of the run matches any later request for checkpointed work.
\<close>

theorem stale_review_is_not_reused:
  assumes "run_cli_review_core env req d = (d', Inr rep)" and "prepare_review env req = Inr (m, diff)"
    and "distinct (map unit_id (manifest_units m))"
    and "list_all (\<lambda>((run, _), _). run \<noteq> new_run_id env) (units d)"
    and "target_stale (reported_manifest rep)" and "map_of (units d') (new_run_id env, uid) = Some row"
  shows "\<not> checkpoint_matches later u run row"
  using assms(1)
proof (rule run_story)
  fix m0 diff0 d1 d2 st pending plan has_context st2 fs parsed failed cancelled review m'
  assume s: "prepare_review env req = Inr (m0, diff0)" "plan = build_review_plan diff0 (changed_paths m0)"
    "claim_manifest (run_store env) m0 (claim_time env) (stale_cutoff env) (expiry_cutoff env) d = (d1, Inr ())"
    "reuse_checkpoints (run_store env) m0 d1 = Inr (st, pending)"
    "persist_manifest (run_store env) (state_manifest st) ''running'' (running_time env) d1 = (d2, Inr ())"
    "execute_specialists env plan pending (st\<lparr>state_db := d2\<rparr>) = (st2, Inr ())"
    "skeleton (state_manifest st2) = skeleton m0" "run_id m' = run_id m0"
    "manifest_units m' = (if target_stale m' then map outdate_unit (manifest_units (state_manifest st2)) else manifest_units (state_manifest st2))"
    "reported_manifest rep = m'\<lparr>review_id := Some review, completed_at := Some (completed_time env)\<rparr>"
    "persist_manifest (run_store env) (reported_manifest rep) (final_status m') (saved_time env)
       ((state_db st2)\<lparr>reviews := review # reviews (state_db st2)\<rparr>) = (d', Inr ())"
  have m0: "m0 = m" using s(1) assms(2) by simp
  have run: "run_id (reported_manifest rep) = new_run_id env"
    using prepared_manifest [OF s(1)] s(8,10) by simp
  have outdated: "manifest_units (reported_manifest rep) = map outdate_unit (manifest_units (state_manifest st2))"
    using s(9,10) assms(5) by simp
  have ids: "unit_id ` set (manifest_units (reported_manifest rep)) = unit_id ` set (manifest_units m)"
  proof -
    have "map unit_id (manifest_units (reported_manifest rep)) = map unit_id (manifest_units m)"
      unfolding outdated skeleton_facts(7) [OF s(7), unfolded m0, symmetric] by (simp add: outdate_unit_def)
    then show ?thesis by (metis set_map)
  qed
  show ?thesis
  proof (cases "uid \<in> unit_id ` set (manifest_units m)")
    case True
    note units' = persist_Inr [OF s(11), THEN conjunct2, THEN conjunct2, THEN conjunct1]
    from True ids assms(6) obtain v old where v: "v \<in> set (manifest_units (reported_manifest rep))" and row: "row = unit_written (saved_time env) v old"
      unfolding units' run using upsert_units_written by (metis option.inject)
    from v have "\<not> covered v" by (auto simp: outdated outdate_unit_def covered_def)
    then have "row_coverage row \<notin> {''reviewed'', ''reused''}"
      by (cases "coverage_state v") (auto simp: row unit_written_def covered_def split: option.splits)
    then show ?thesis by (simp add: checkpoint_matches_def)
  next
    case False
    from run_rows [OF s(1) assms(4) s(3-6)] False assms(3) m0
    have "map_of (units (state_db st2)) (new_run_id env, uid) = None" by simp
    then have "map_of (units d') (new_run_id env, uid) = None"
      using persist_touches [OF s(11)] False ids by (simp add: touches_only_def)
    with assms(6) show ?thesis by simp
  qed
qed

text \<open>Whatever fails after the claim and before the first agent changes nothing any more.\<close>

lemma persist_manifest_Inl: "persist_manifest se m status now d = (d', Inl e) \<Longrightarrow> d' = d"
  by (auto simp: persist_manifest_def in_transaction_def split: sum.splits)

lemma start_review_Inl:
  assumes "prepare_review env req = Inr (m, diff)"
    and "claim_manifest (run_store env) m (claim_time env) (stale_cutoff env) (expiry_cutoff env) d = (d1, Inr ())"
    and "start_review env req d = (d', Inl e)"
  shows "d' = d1"
proof -
  let ?reg = "register_review_cancellation (repository_root (manifest_target m)) (running_reviews env)"
    and ?ctx = "ensure_review_context env (changed_paths m)" and ?reuse = "reuse_checkpoints (run_store env) m d1"
  show ?thesis
  proof (cases ?reg)
    case reg: (Inr u)
    show ?thesis
    proof (cases ?ctx)
      case ctx: (Inr c)
      show ?thesis
      proof (cases ?reuse)
        case reuse: (Inr sp)
        then obtain st pending where sp: "sp = (st, pending)" by (cases sp)
        obtain d2 res where p: "persist_manifest (run_store env) (state_manifest st) ''running'' (running_time env) d1 = (d2, res)"
          by (cases "persist_manifest (run_store env) (state_manifest st) ''running'' (running_time env) d1")
        show ?thesis
        proof (cases res)
          case (Inl e')
          with p have "d2 = d1" using persist_manifest_Inl by simp
          with assms reg ctx reuse sp p Inl show ?thesis by (simp add: start_review_def)
        qed (use assms reg ctx reuse sp p in \<open>simp add: start_review_def\<close>)
      qed (use assms reg ctx in \<open>simp add: start_review_def\<close>)
    qed (use assms reg in \<open>simp add: start_review_def\<close>)
  qed (use assms in \<open>simp add: start_review_def\<close>)
qed

text \<open>
  C32: A review that stops early blocks its own retry. If the review fails after its claim and
  before its first agent, for whatever reason (it cannot be registered, its context cannot be
  built, its checkpoints cannot be read, it cannot be saved as running), the claim is not given back: its run
  stays in planning, written last at the claim, and a claim of the same review with a cutoff that
  does not lie after that is refused as already running.
\<close>

theorem aborted_review_blocks_retry:
  assumes "prepare_review env req = Inr (m, diff)"
    and "claim_manifest (run_store env) m (claim_time env) (stale_cutoff env) (expiry_cutoff env) d = (d1, Inr ())"
    and "start_review env req d = (d', Inl e)"
    and "bmap_ok (runs d)" and "\<not> claim_time env < before"
    and "executor_id m' = executor_id m" and "policy_fingerprint m' = policy_fingerprint m"
    and "target_identity (manifest_target m') = target_identity (manifest_target m)" and "schema_version m' = 1"
    and "run_id m' \<notin> fst ` set (runs d)" and "run_id m' \<noteq> run_id m"
    and "map_of (runs d) (run_id m) = None"
  shows "run_cli_review_core env req d = (d1, Inl e) \<and>
    (\<exists>row. map_of (runs d1) (run_id m) = Some row \<and> run_status row = ''planning'' \<and>
       run_updated row = claim_time env \<and> run_target row = target_identity (manifest_target m) \<and>
       run_executor row = executor_id m \<and> run_policy row = policy_fingerprint m) \<and>
    snd (claim_manifest se m' now before expired d1) = Inl ALREADY_RUNNING"
proof (intro conjI)
  have "start_review env req d = (d1, Inl e)"
    using start_review_Inl [OF assms(1-3)] assms(3) by simp
  then show "run_cli_review_core env req d = (d1, Inl e)" by (simp add: run_cli_review_core_def)
  let ?d = "cleanup_unlinked_terminal_manifests (expiry_cutoff env) (abandon_stale_runs (claim_time env) (stale_cutoff env) d)"
  let ?row = "manifest_row (run_store env) m ''planning'' (claim_time env) None"
  note runs1 = claim_Inr(1) [OF assms(2,12)]
  show "\<exists>row. map_of (runs d1) (run_id m) = Some row \<and> run_status row = ''planning'' \<and>
       run_updated row = claim_time env \<and> run_target row = target_identity (manifest_target m) \<and>
       run_executor row = executor_id m \<and> run_policy row = policy_fingerprint m"
    by (simp add: runs1 manifest_row_def)
  have "map_of (runs d) (run_id m') = None" using assms(10) by (simp add: map_of_eq_None_iff)
  then have fresh: "map_of (runs d1) (run_id m') = None"
    using assms(11) by (simp add: runs1 cleanup_lookup abandon_lookup)
  have ok: "bmap_ok (runs d1)" unfolding runs1 by (intro bmap_insert_ok cleanup_ok assms(4))
  have "(run_id m, ?row) \<in> set (runs d1)" by (rule map_of_SomeD) (simp add: runs1)
  moreover have "active_run ?row \<and> \<not> run_updated ?row < before \<and>
       run_target ?row = target_identity (manifest_target m') \<and> run_executor ?row = executor_id m' \<and>
       run_policy ?row = policy_fingerprint m'"
    using assms(5-8) by (simp add: manifest_row_def active_run_def)
  ultimately have "list_ex (\<lambda>(k, q). active_run q \<and> \<not> run_updated q < before \<and>
       run_target q = target_identity (manifest_target m') \<and> run_executor q = executor_id m' \<and>
       run_policy q = policy_fingerprint m') (runs d1)" by (auto simp: list_ex_iff)
  with claim_busy [OF ok fresh assms(9)] show "snd (claim_manifest se m' now before expired d1) = Inl ALREADY_RUNNING" .
qed

text \<open>
  Without a coordinator the score is that of the candidates before the final qualification: what
  the final one refuses, because the target changed or the review was cancelled, still counts.
\<close>

lemma score_precedes_final_qualification:
  assumes "\<not> uses_coordinator plan"
  shows "score_from_findings (fst (coordinate env plan prompted cancelled outs)) fs =
    score_from_findings (object_of []) (dedupe_findings (value_order env) (concat (map findings_from outs)))"
  using assms
  by (simp add: coordinate_def direct_answer_def merged_answer_def Let_def get_key_object_of
      score_from_findings_def [of "object_of _"])

section \<open>A concrete run\<close>

text \<open>One unit, two specialists that answer nothing but a summary, no coordinator.\<close>

definition quiet_answer :: json where "quiet_answer = object_of [(''summary'', String ''ok'')]"

definition quiet_env :: "(nat \<Rightarrow> (json \<times> string) result) \<Rightarrow> string \<Rightarrow> run_env" where
  "quiet_env replies later =
     \<lparr>nested_worker = False, plan_world = sample_world ''x=1'', qualify_world = sample_world ''x=1'',
      current_world = (sample_world ''x=1'')\<lparr>sha256_hex := \<lambda>_. later\<rparr>, final_world = sample_world ''x=1'',
      run_store = sample_store\<lparr>json_text := \<lambda>_. ''c''\<rparr>, running_reviews = [], new_run_id = ''r'', created_time = ''t0'',
      claim_time = ''t1'', stale_cutoff = ''s'', expiry_cutoff = ''a'', running_time = ''t2'', started_time = \<lambda>_. ''t3'',
      attempt_uuid = \<lambda>_ _. ''u'', attempt_time = \<lambda>_ _. ''t4'', checkpoint_time = \<lambda>_. ''t5'', completed_time = ''t6'',
      saved_time = ''t7'', context_stored = True, context_built = Inr (), specialists_joined = Inr (),
      specialist_reply = replies, coordinator_reply = \<lambda>_. Inl ''none'', value_order = \<lambda>xs. xs,
      new_review = Inr ''v1'', findings_saved = \<lambda>_. Inr (), review_updated = Inr (), activity_logged = Inr ()\<rparr>"

definition quiet_request :: review_request where
  "quiet_request = \<lparr>request_repo = ''/r'', request_range = ''WORKTREE'', request_agent = None, request_planning_context = ''c''\<rparr>"

definition empty_db :: review_db where
  "empty_db = \<lparr>runs = [], units = [], attempts = [], qualifications = [], reviews = []\<rparr>"

definition quiet_run :: "string \<Rightarrow> review_db \<times> review_report result" where
  "quiet_run later = run_cli_review_core (quiet_env (\<lambda>_. Inr (quiet_answer, ''{}'')) later) quiet_request empty_db"

lemma quiet_run_reviewed:
  "(case quiet_run ''0'' of
      (d, Inr rep) \<Rightarrow> reported_status rep = ''completed'' \<and> reported_findings rep = [] \<and>
        map coverage_state (manifest_units (reported_manifest rep)) = [Reviewed] \<and>
        map (run_status \<circ> snd) (runs d) = [''completed'']
    | _ \<Rightarrow> False)"
  by code_simp

lemma quiet_run_stale:
  "(case quiet_run ''1'' of
      (d, Inr rep) \<Rightarrow> target_stale (reported_manifest rep) \<and>
        map (\<lambda>(k, row). (k, row_coverage row)) (units d) = [((''r'', ''unit-0''), ''failed'')]
    | _ \<Rightarrow> False)"
  by code_simp

lemma quiet_prepared:
  "(case prepare_review (quiet_env replies later) quiet_request of
      Inr (m, _) \<Rightarrow> map unit_id (manifest_units m) = [''unit-0''] \<and> run_id m = ''r'' \<and> schema_version m = 1 \<and>
        repository_root (manifest_target m) = ''/r''
    | _ \<Rightarrow> False)"
  by code_simp

lemma quiet_prepare_obtains:
  obtains m diff where "prepare_review (quiet_env replies later) quiet_request = Inr (m, diff)"
    "map unit_id (manifest_units m) = [''unit-0'']" "run_id m = ''r''" "schema_version m = 1"
    "repository_root (manifest_target m) = ''/r''"
  using quiet_prepared [of replies later] by (auto split: sum.splits)

theorem review_findings_are_grounded_witness:
  "case quiet_run ''1'' of (d, Inr rep) \<Rightarrow> reported_findings rep = [] | _ \<Rightarrow> False"
proof -
  from quiet_run_stale obtain d rep where run: "quiet_run ''1'' = (d, Inr rep)" and stale: "target_stale (reported_manifest rep)"
    by (auto split: prod.splits sum.splits)
  have "reported_findings rep = []"
    using review_findings_are_grounded [OF run [unfolded quiet_run_def]] stale by (simp add: quiet_env_def)
  with run show ?thesis by simp
qed

theorem completed_review_is_complete_witness:
  "case quiet_run ''0'' of (d, Inr rep) \<Rightarrow> list_all covered (manifest_units (reported_manifest rep)) | _ \<Rightarrow> False"
proof -
  from quiet_run_reviewed obtain d rep where run: "quiet_run ''0'' = (d, Inr rep)" and done_run: "reported_status rep = ''completed''"
    by (auto split: prod.splits sum.splits)
  with completed_review_is_complete [OF run [unfolded quiet_run_def]] show ?thesis by simp
qed

theorem reviewed_units_are_backed_witness:
  "case quiet_run ''0'' of
      (d, Inr rep) \<Rightarrow> (\<exists>row. map_of (units d) (''r'', unit_id (hd (manifest_units (reported_manifest rep)))) = Some row \<and>
        row_coverage row = ''reviewed'' \<and> row_checkpoint row = Some ''c'')
    | _ \<Rightarrow> False"
proof -
  from quiet_run_reviewed obtain d rep u where run: "quiet_run ''0'' = (d, Inr rep)"
    and u: "manifest_units (reported_manifest rep) = [u]" "coverage_state u = Reviewed"
    by (auto split: prod.splits sum.splits)
  obtain m diff where prep: "prepare_review (quiet_env (\<lambda>_. Inr (quiet_answer, ''{}'')) ''0'') quiet_request = Inr (m, diff)"
    "map unit_id (manifest_units m) = [''unit-0'']" "run_id m = ''r''" by (rule quiet_prepare_obtains)
  have "distinct (map unit_id (manifest_units m))" by (simp add: prep(2))
  from reviewed_units_are_backed [OF run [unfolded quiet_run_def] prep(1) this] u
  have "\<exists>row. map_of (units d) (''r'', unit_id u) = Some row \<and> row_coverage row = ''reviewed'' \<and> row_checkpoint row = Some ''c''"
    by (auto simp: Let_def prep(3) quiet_env_def sample_store_def)
  with run u show ?thesis by simp
qed

theorem stale_review_is_not_reused_witness:
  "case quiet_run ''1'' of
      (d, Inr rep) \<Rightarrow> (\<exists>row. map_of (units d) (''r'', ''unit-0'') = Some row \<and>
        \<not> checkpoint_matches sample_manifest (sample_unit Failed None) (sample_run_row ''stale'' ''m'') row)
    | _ \<Rightarrow> False"
proof -
  from quiet_run_stale obtain d rep where run: "quiet_run ''1'' = (d, Inr rep)" and stale: "target_stale (reported_manifest rep)"
    and rows: "map (\<lambda>(k, row). (k, row_coverage row)) (units d) = [((''r'', ''unit-0''), ''failed'')]"
    by (auto split: prod.splits sum.splits)
  from rows obtain row where row: "units d = [((''r'', ''unit-0''), row)]" by auto
  let ?env = "quiet_env (\<lambda>_. Inr (quiet_answer, ''{}'')) ''1''"
  obtain m diff where prep: "prepare_review ?env quiet_request = Inr (m, diff)"
    "map unit_id (manifest_units m) = [''unit-0'']" by (rule quiet_prepare_obtains)
  have dist: "distinct (map unit_id (manifest_units m))" by (simp add: prep(2))
  have fresh: "list_all (\<lambda>((run, _), _). run \<noteq> new_run_id ?env) (units empty_db)" by (simp add: empty_db_def)
  have found: "map_of (units d) (new_run_id ?env, ''unit-0'') = Some row" by (simp add: row quiet_env_def)
  from stale_review_is_not_reused [OF run [unfolded quiet_run_def] prep(1) dist fresh stale found]
  show ?thesis using run row by simp
qed

theorem aborted_review_blocks_retry_witness:
  "let env = (quiet_env (\<lambda>_. Inl ''x'') ''0'')\<lparr>running_reviews := [(''/r'', False)]\<rparr> in
   \<exists>d m. run_cli_review_core env quiet_request empty_db = (d, Inl ''A review is already active for this repository'') \<and>
     map_option run_status (map_of (runs d) ''r'') = Some ''planning'' \<and>
     snd (claim_manifest sample_store (m\<lparr>run_id := ''again''\<rparr>) ''t8'' ''a'' ''a'' d) = Inl ALREADY_RUNNING"
proof -
  let ?env = "(quiet_env (\<lambda>_. Inl ''x'') ''0'')\<lparr>running_reviews := [(''/r'', False)]\<rparr>"
  obtain m diff where prep: "prepare_review (quiet_env (\<lambda>_. Inl ''x'') ''0'') quiet_request = Inr (m, diff)"
    "run_id m = ''r''" "schema_version m = 1" "repository_root (manifest_target m) = ''/r''" by (rule quiet_prepare_obtains)
  then have prep': "prepare_review ?env quiet_request = Inr (m, diff)" by (simp add: prepare_review_def)
  have "review_id m = None" using prepared_manifest [OF prep(1)] by simp
  then obtain d1 where d1: "claim_manifest (run_store ?env) m (claim_time ?env) (stale_cutoff ?env) (expiry_cutoff ?env) empty_db = (d1, Inr ())"
    by (simp add: claim_manifest_def persist_manifest_def in_transaction_def upsert_run_def index_violated_def
        empty_db_def abandon_stale_runs_def cleanup_unlinked_terminal_manifests_def prep(3) Let_def)
  have "register_review_cancellation (repository_root (manifest_target m)) (running_reviews ?env)
      = Inl ''A review is already active for this repository''"
    by (simp add: register_review_cancellation_def prep(4))
  then have busy: "start_review ?env quiet_request empty_db = (d1, Inl ''A review is already active for this repository'')"
    using prep' d1 by (simp add: start_review_def)
  have later: "\<not> claim_time ?env < ''a''" by (simp add: quiet_env_def)
  from aborted_review_blocks_retry [OF prep' d1 busy _ later, of "m\<lparr>run_id := ''again''\<rparr>" sample_store "''t8''" "''a''"]
  have "run_cli_review_core ?env quiet_request empty_db = (d1, Inl ''A review is already active for this repository'') \<and>
     map_option run_status (map_of (runs d1) ''r'') = Some ''planning'' \<and>
     snd (claim_manifest sample_store (m\<lparr>run_id := ''again''\<rparr>) ''t8'' ''a'' ''a'' d1) = Inl ALREADY_RUNNING"
    by (auto simp: empty_db_def prep(2,3))
  then show ?thesis unfolding Let_def by blast
qed

end
