(* ===== verification/ArchLifecycle.thy ===== *)
theory ArchLifecycle
  imports Prelude "HOL-Library.Multiset" "HOL-Library.Code_Target_Nat"
begin

text \<open>
  The review log of a business rule, \<open>business_rule_archaeology/lifecycle.rs\<close>: an append-only
  stream of events is replayed into the rule's state, appends are checked against the stream they
  extend, an earlier review is carried over only to a compatible snapshot, and aliases of rules
  form stars.
\<close>

section \<open>Data\<close>

definition MAX_LIFECYCLE_EVENTS_PER_RULE :: nat where "MAX_LIFECYCLE_EVENTS_PER_RULE = 10000"
definition MAX_LIFECYCLE_ID_BYTES :: nat where "MAX_LIFECYCLE_ID_BYTES = 256"
definition MAX_LIFECYCLE_REASON_BYTES :: nat where "MAX_LIFECYCLE_REASON_BYTES = 1024"
definition MAX_LIFECYCLE_ANNOTATION_BYTES :: nat where "MAX_LIFECYCLE_ANNOTATION_BYTES = 4096"
definition MAX_ALIASES_PER_REPOSITORY :: nat where "MAX_ALIASES_PER_REPOSITORY = 100000"

datatype rule_lifecycle =
  Candidate | ReviewNeeded | Accepted | Rejected | Superseded | Conflicted | Unavailable

datatype reviewer_kind = Human | DeterministicPolicy | Model

record reviewer_provenance =
  provenance_kind :: reviewer_kind
  actor_id :: string
  authority_id :: "string option"

datatype lifecycle_action =
    CandidateAction
  | ReviewNeededAction string
  | Accept
  | Reject string
  | Conflict string
  | Supersede string
  | Annotate string

record lifecycle_event =
  event_id :: string
  event_repository :: string
  event_rule :: string
  sequence :: nat
  expected_previous_sequence :: nat
  provenance :: reviewer_provenance
  event_action :: lifecycle_action

record projected_annotation =
  annotation_event :: string
  annotation_sequence :: nat
  annotation_text :: string
  annotation_provenance :: reviewer_provenance

record lifecycle_projection =
  projected_repository :: string
  projected_rule :: string
  lifecycle :: rule_lifecycle
  last_sequence :: nat
  last_state_event_id :: string
  decision_provenance :: "reviewer_provenance option"
  successor_rule_id :: "string option"
  annotations :: "projected_annotation list"

section \<open>Validation\<close>

definition validate_text :: "string \<Rightarrow> string \<Rightarrow> nat \<Rightarrow> unit result" where
  "validate_text label v max_bytes =
     and_then (reject_if (trim v = []) (label @ '' is required'')) (\<lambda>_.
     and_then (reject_if (max_bytes < length v) (label @ '' exceeds its byte bound'')) (\<lambda>_.
       reject_if (list_ex (\<lambda>c. c = 0 \<or> (is_control c \<and> c \<notin> {0x0A, 0x0D, 0x09})) (chars v))
         (label @ '' contains unsupported control characters'')))"

definition validate_id :: "string \<Rightarrow> string \<Rightarrow> unit result" where
  "validate_id label v = validate_text label v MAX_LIFECYCLE_ID_BYTES"

definition validate_provenance :: "reviewer_provenance \<Rightarrow> unit result" where
  "validate_provenance p =
     and_then (validate_id ''reviewer actor'' (actor_id p)) (\<lambda>_.
     case provenance_kind p of
       Human \<Rightarrow> reject_if (authority_id p \<noteq> None) ''Human reviewer provenance cannot name a policy authority''
     | _ \<Rightarrow> validate_id ''reviewer authority'' (case authority_id p of None \<Rightarrow> [] | Some a \<Rightarrow> a))"

definition can_decide :: "reviewer_provenance \<Rightarrow> bool" where
  "can_decide p \<longleftrightarrow> provenance_kind p \<in> {Human, DeterministicPolicy}"

fun is_decision :: "lifecycle_action \<Rightarrow> bool" where
  "is_decision Accept = True"
| "is_decision (Reject _) = True"
| "is_decision _ = False"

fun superseded_by :: "lifecycle_action \<Rightarrow> string option" where
  "superseded_by (Supersede r) = Some r"
| "superseded_by _ = None"

fun validate_payload :: "string \<Rightarrow> lifecycle_action \<Rightarrow> unit result" where
  "validate_payload rule CandidateAction = Inr ()"
| "validate_payload rule Accept = Inr ()"
| "validate_payload rule (ReviewNeededAction why) = validate_text ''lifecycle reason'' why MAX_LIFECYCLE_REASON_BYTES"
| "validate_payload rule (Reject why) = validate_text ''lifecycle reason'' why MAX_LIFECYCLE_REASON_BYTES"
| "validate_payload rule (Conflict why) = validate_text ''lifecycle reason'' why MAX_LIFECYCLE_REASON_BYTES"
| "validate_payload rule (Supersede r) =
     and_then (validate_id ''successor rule'' r) (\<lambda>_. reject_if (r = rule) ''A rule cannot supersede itself'')"
| "validate_payload rule (Annotate a) = validate_text ''lifecycle annotation'' a MAX_LIFECYCLE_ANNOTATION_BYTES"

definition validate_action :: "string \<Rightarrow> reviewer_provenance \<Rightarrow> lifecycle_action \<Rightarrow> unit result" where
  "validate_action rule p a =
     and_then (validate_payload rule a) (\<lambda>_.
     and_then (reject_if (is_decision a \<and> \<not> can_decide p)
                 ''Only a human or deterministic policy may accept or reject a rule'') (\<lambda>_.
       reject_if (superseded_by a \<noteq> None \<and> provenance_kind p = Model) ''A model cannot supersede a rule''))"

definition validate_shape :: "lifecycle_event \<Rightarrow> unit result" where
  "validate_shape e =
     and_then (validate_id ''lifecycle event'' (event_id e)) (\<lambda>_.
     and_then (validate_id ''repository'' (event_repository e)) (\<lambda>_.
     and_then (validate_id ''rule'' (event_rule e)) (\<lambda>_.
     and_then (reject_if (sequence e = 0) ''Lifecycle event sequence is one-based'') (\<lambda>_.
     and_then (reject_if (expected_previous_sequence e \<noteq> sequence e - 1)
                 ''Lifecycle event compare-and-swap sequence is inconsistent'') (\<lambda>_.
     and_then (validate_provenance (provenance e)) (\<lambda>_.
       validate_action (event_rule e) (provenance e) (event_action e)))))))"

section \<open>Replaying a stream\<close>

text \<open>
  The state of a rule after a state event. An annotation never gets here; the code would panic.
\<close>

fun transition :: "rule_lifecycle \<Rightarrow> lifecycle_action \<Rightarrow> rule_lifecycle result" where
  "transition Unavailable CandidateAction = Inr Candidate"
| "transition Unavailable _ = Inl ''The first lifecycle event must create a candidate''"
| "transition _ CandidateAction = Inl ''A candidate event may only start a lifecycle''"
| "transition Superseded _ = Inl ''A superseded rule cannot receive another state transition''"
| "transition ReviewNeeded (ReviewNeededAction _) = Inl ''Lifecycle transition would not change state''"
| "transition Accepted Accept = Inl ''Lifecycle transition would not change state''"
| "transition Rejected (Reject _) = Inl ''Lifecycle transition would not change state''"
| "transition Conflicted (Conflict _) = Inl ''Lifecycle transition would not change state''"
| "transition _ (ReviewNeededAction _) = Inr ReviewNeeded"
| "transition _ Accept = Inr Accepted"
| "transition _ (Reject _) = Inr Rejected"
| "transition _ (Conflict _) = Inr Conflicted"
| "transition _ (Supersede _) = Inr Superseded"
| "transition _ (Annotate _) = Inl ''annotations are projected separately''"

record replay_state =
  seen_ids :: "string list"
  replay_lifecycle :: rule_lifecycle
  replay_event :: string
  replay_decision :: "reviewer_provenance option"
  replay_successor :: "string option"
  replay_annotations :: "projected_annotation list"

definition initial_replay :: replay_state where
  "initial_replay =
     \<lparr>seen_ids = [], replay_lifecycle = Unavailable, replay_event = [], replay_decision = None,
      replay_successor = None, replay_annotations = []\<rparr>"

definition annotation_of :: "lifecycle_event \<Rightarrow> string \<Rightarrow> projected_annotation" where
  "annotation_of e a =
     \<lparr>annotation_event = event_id e, annotation_sequence = sequence e, annotation_text = a,
      annotation_provenance = provenance e\<rparr>"

definition replay_action :: "lifecycle_event \<Rightarrow> replay_state \<Rightarrow> replay_state result" where
  "replay_action e st =
     (case event_action e of
        Annotate a \<Rightarrow>
          and_then (reject_if (replay_lifecycle st = Unavailable)
                      ''A lifecycle annotation cannot precede the candidate event'') (\<lambda>_.
            Inr (st\<lparr>replay_annotations := replay_annotations st @ [annotation_of e a]\<rparr>))
      | action \<Rightarrow>
          and_then (transition (replay_lifecycle st) action) (\<lambda>next.
            Inr (st\<lparr>replay_lifecycle := next, replay_event := event_id e,
                   replay_decision := (if is_decision action then Some (provenance e) else None),
                   replay_successor := superseded_by action\<rparr>)))"

definition replay_step :: "string \<Rightarrow> string \<Rightarrow> nat \<times> lifecycle_event \<Rightarrow> replay_state \<Rightarrow> replay_state result" where
  "replay_step repository rule = (\<lambda>(offset, e) st.
     and_then (validate_shape e) (\<lambda>_.
     and_then (reject_if (event_repository e \<noteq> repository \<or> event_rule e \<noteq> rule)
                 ''Lifecycle stream crosses repository or rule scope'') (\<lambda>_.
     and_then (reject_if (sequence e \<noteq> offset + 1) ''Lifecycle event sequence is duplicated or has a gap'') (\<lambda>_.
     and_then (reject_if (event_id e \<in> set (seen_ids st)) ''Lifecycle event identity is duplicated'') (\<lambda>_.
       replay_action e (st\<lparr>seen_ids := event_id e # seen_ids st\<rparr>))))))"

definition replay :: "string \<Rightarrow> string \<Rightarrow> lifecycle_event list \<Rightarrow> replay_state result" where
  "replay repository rule es = fold_result (replay_step repository rule) (enumerate 0 es) initial_replay"

definition in_order :: "lifecycle_event list \<Rightarrow> lifecycle_event list" where
  "in_order es = sort_key (\<lambda>e. (sequence e, event_id e)) es"

definition projection_of :: "string \<Rightarrow> string \<Rightarrow> nat \<Rightarrow> replay_state \<Rightarrow> lifecycle_projection" where
  "projection_of repository rule n st =
     \<lparr>projected_repository = repository, projected_rule = rule, lifecycle = replay_lifecycle st, last_sequence = n,
      last_state_event_id = replay_event st, decision_provenance = replay_decision st,
      successor_rule_id = replay_successor st, annotations = replay_annotations st\<rparr>"

definition project_lifecycle :: "lifecycle_event list \<Rightarrow> lifecycle_projection result" where
  "project_lifecycle events =
     and_then (reject_if (events = []) ''A lifecycle stream requires an initial candidate event'') (\<lambda>_.
     and_then (reject_if (MAX_LIFECYCLE_EVENTS_PER_RULE < length events) ''Lifecycle event bound exceeded'') (\<lambda>_.
     let ordered = in_order events;
         repository = event_repository (hd ordered);
         rule = event_rule (hd ordered)
     in and_then (replay repository rule ordered) (\<lambda>st.
          Inr (projection_of repository rule (length events) st))))"

definition validate_lifecycle_append ::
  "lifecycle_event list \<Rightarrow> lifecycle_event \<Rightarrow> lifecycle_projection result" where
  "validate_lifecycle_append existing candidate =
     and_then (reject_if (MAX_LIFECYCLE_EVENTS_PER_RULE \<le> length existing) ''Lifecycle event bound exceeded'') (\<lambda>_.
     and_then (validate_shape candidate) (\<lambda>_.
     and_then (if existing = [] then Inr 0
               else and_then (project_lifecycle existing) (\<lambda>p. Inr (last_sequence p))) (\<lambda>expected.
     and_then (reject_if (expected_previous_sequence candidate \<noteq> expected \<or> sequence candidate \<noteq> expected + 1)
                 ''Lifecycle append compare-and-swap failed'') (\<lambda>_.
     and_then (reject_if (existing \<noteq> [] \<and> (event_repository candidate \<noteq> event_repository (hd existing)
                            \<or> event_rule candidate \<noteq> event_rule (hd existing)))
                 ''Lifecycle append crosses repository or rule scope'') (\<lambda>_.
       project_lifecycle (existing @ [candidate]))))))"

section \<open>Compatibility of snapshots\<close>

record snapshot_identity =
  snapshot_repository :: string
  snapshot_rule :: string
  rule_kind_identity :: string
  continuity_identity :: string
  evidence_identity :: string
  parser_compatibility_identity :: string
  contradiction_identity :: string
  description_identity :: string

definition validate_snapshot :: "snapshot_identity \<Rightarrow> unit result" where
  "validate_snapshot s =
     check_all (\<lambda>(label, v). validate_id label v)
       [(''repository'', snapshot_repository s), (''rule'', snapshot_rule s), (''rule kind'', rule_kind_identity s),
        (''rule continuity'', continuity_identity s), (''rule evidence'', evidence_identity s),
        (''parser compatibility'', parser_compatibility_identity s),
        (''rule contradiction'', contradiction_identity s), (''rule description'', description_identity s)]"

datatype compatibility_mismatch = EvidenceMismatch | ParserMismatch | ContradictionMismatch

datatype compatibility_outcome =
    Compatible rule_lifecycle bool
  | ReviewNeededOutcome "compatibility_mismatch list"
  | ConflictedOutcome "compatibility_mismatch list"
  | SupersededOutcome string string rule_lifecycle rule_lifecycle

text \<open>The ordered set of mismatches, as a list in the order of the enumeration.\<close>

definition mismatches :: "snapshot_identity \<Rightarrow> snapshot_identity \<Rightarrow> compatibility_mismatch list" where
  "mismatches previous current =
     (if evidence_identity previous \<noteq> evidence_identity current then [EvidenceMismatch] else [])
     @ (if parser_compatibility_identity previous \<noteq> parser_compatibility_identity current then [ParserMismatch] else [])
     @ (if contradiction_identity previous \<noteq> contradiction_identity current then [ContradictionMismatch] else [])"

definition evaluate_snapshot_compatibility ::
  "snapshot_identity \<Rightarrow> snapshot_identity \<Rightarrow> rule_lifecycle \<Rightarrow> string option \<Rightarrow> compatibility_outcome result" where
  "evaluate_snapshot_compatibility previous current previous_lifecycle successor =
     and_then (validate_snapshot previous) (\<lambda>_.
     and_then (validate_snapshot current) (\<lambda>_.
     and_then (reject_if (snapshot_repository previous \<noteq> snapshot_repository current)
                 ''Rule compatibility cannot cross repository scope'') (\<lambda>_.
     and_then (reject_if (rule_kind_identity previous \<noteq> rule_kind_identity current)
                 ''Rule compatibility kind changed; continuity is ambiguous'') (\<lambda>_.
     case successor of
       Some r \<Rightarrow>
         and_then (validate_id ''explicit successor rule'' r) (\<lambda>_.
         and_then (reject_if (snapshot_rule previous = snapshot_rule current \<or> r \<noteq> snapshot_rule current)
                     ''Explicit successor must name a distinct current rule'') (\<lambda>_.
           Inr (SupersededOutcome (snapshot_rule previous) (snapshot_rule current) Superseded ReviewNeeded)))
     | None \<Rightarrow>
         and_then (reject_if (continuity_identity previous \<noteq> continuity_identity current)
                     ''Rule compatibility identity changed; continuity is ambiguous'') (\<lambda>_.
         and_then (reject_if (snapshot_rule previous \<noteq> snapshot_rule current)
                     ''Changed rule identity requires an explicit successor link'') (\<lambda>_.
         let reasons = mismatches previous current
         in Inr (if reasons = []
                 then Compatible previous_lifecycle (description_identity previous \<noteq> description_identity current)
                 else if previous_lifecycle = Accepted \<and> ContradictionMismatch \<in> set reasons
                 then ConflictedOutcome reasons else ReviewNeededOutcome reasons)))))))"

section \<open>Aliases\<close>

record rule_alias =
  alias_event :: string
  alias_repository :: string
  alias_rule :: string
  canonical_repository :: string
  canonical_rule :: string
  alias_provenance :: reviewer_provenance

definition validate_alias_shape :: "rule_alias \<Rightarrow> unit result" where
  "validate_alias_shape a =
     and_then (check_all (\<lambda>(label, v). validate_id label v)
       [(''alias event'', alias_event a), (''alias repository'', alias_repository a), (''alias rule'', alias_rule a),
        (''canonical repository'', canonical_repository a), (''canonical rule'', canonical_rule a)]) (\<lambda>_.
     and_then (validate_provenance (alias_provenance a)) (\<lambda>_.
     and_then (reject_if (provenance_kind (alias_provenance a) = Model) ''A model cannot create a rule alias'') (\<lambda>_.
     and_then (reject_if (alias_repository a \<noteq> canonical_repository a) ''A rule alias cannot cross repository scope'') (\<lambda>_.
       reject_if (alias_rule a = canonical_rule a) ''A rule cannot alias itself''))))"

type_synonym rule_key = "string \<times> string"

definition alias_key :: "rule_alias \<Rightarrow> rule_key" where
  "alias_key a = (alias_repository a, alias_rule a)"

definition canonical_key :: "rule_alias \<Rightarrow> rule_key" where
  "canonical_key a = (canonical_repository a, canonical_rule a)"

definition note_alias ::
  "rule_alias \<Rightarrow> string list \<times> (rule_key, rule_key) bmap \<Rightarrow> (string list \<times> (rule_key, rule_key) bmap) result" where
  "note_alias a = (\<lambda>(ids, targets).
     and_then (validate_alias_shape a) (\<lambda>_.
     and_then (reject_if (alias_event a \<in> set ids) ''Rule alias event identity is duplicated'') (\<lambda>_.
     and_then (reject_if (map_of targets (alias_key a) \<noteq> None) ''A rule may have only one canonical alias target'') (\<lambda>_.
       Inr (alias_event a # ids, bmap_insert (alias_key a) (canonical_key a) targets)))))"

text \<open>The walk from an alias along the targets, with the keys it has been at.\<close>

function follow_alias :: "(rule_key, rule_key) bmap \<Rightarrow> rule_key list \<Rightarrow> rule_key \<Rightarrow> unit result" where
  "follow_alias targets visited cursor =
     (case map_of targets cursor of
        None \<Rightarrow> Inr ()
      | Some next \<Rightarrow>
          if cursor \<in> set visited \<or> next \<in> set (cursor # visited) then Inl ''Rule alias cycle detected''
          else follow_alias targets (cursor # visited) next)"
  by pat_completeness auto
termination
proof (relation "measure (\<lambda>(targets, visited, _). card (fst ` set targets - set visited))", simp, goal_cases)
  case (1 targets visited cursor target)
  then have "cursor \<in> fst ` set targets - set visited" by (force dest: map_of_SomeD)
  then have "fst ` set targets - set (cursor # visited) \<subset> fst ` set targets - set visited" by auto
  then show ?case by (simp add: psubset_card_mono)
qed

declare follow_alias.simps [simp del]

definition validate_rule_aliases :: "rule_alias list \<Rightarrow> unit result" where
  "validate_rule_aliases aliases =
     and_then (reject_if (MAX_ALIASES_PER_REPOSITORY < length aliases) ''Rule alias bound exceeded'') (\<lambda>_.
     and_then (fold_result note_alias aliases ([], [])) (\<lambda>(_, targets).
     and_then (check_all (\<lambda>(k, _). follow_alias targets [] k) targets) (\<lambda>_.
       reject_if (list_ex (\<lambda>(_, t). map_of targets t \<noteq> None) targets) ''A canonical rule cannot itself be an alias'')))"

definition validate_rule_alias_append :: "rule_alias list \<Rightarrow> rule_alias \<Rightarrow> unit result" where
  "validate_rule_alias_append existing candidate =
     and_then (reject_if (MAX_ALIASES_PER_REPOSITORY \<le> length existing) ''Rule alias bound exceeded'') (\<lambda>_.
       validate_rule_aliases (existing @ [candidate]))"

section \<open>Replay\<close>

lemma replay_snoc:
  "replay repository rule (es @ [e]) =
     and_then (replay repository rule es) (replay_step repository rule (length es, e))"
proof (cases "replay repository rule es")
  case (Inr st)
  then show ?thesis
    by (cases "replay_step repository rule (length es, e) st")
      (simp_all add: replay_def enumerate_append_eq fold_result_append)
qed (simp add: replay_def enumerate_append_eq fold_result_append)

lemma replay_Nil [simp]: "replay repository rule [] = Inr initial_replay"
  by (simp add: replay_def)

lemma replay_step_Inr:
  "replay_step repository rule (n, e) st = Inr st' \<longleftrightarrow>
     validate_shape e = Inr () \<and> event_repository e = repository \<and> event_rule e = rule \<and> sequence e = n + 1 \<and>
     event_id e \<notin> set (seen_ids st) \<and> replay_action e (st\<lparr>seen_ids := event_id e # seen_ids st\<rparr>) = Inr st'"
  by (auto simp: replay_step_def and_then_Inr reject_if_Inr)

lemma replay_action_seen: "replay_action e st = Inr st' \<Longrightarrow> seen_ids st' = seen_ids st"
  by (auto simp: replay_action_def and_then_Inr reject_if_Inr split: lifecycle_action.splits)

text \<open>A stream that replays is numbered from one, in one scope, with distinct events.\<close>

lemma replay_stream:
  "replay repository rule es = Inr st \<Longrightarrow>
     map sequence es = map Suc [0..<length es] \<and> seen_ids st = rev (map event_id es) \<and> distinct (map event_id es) \<and>
     list_all (\<lambda>e. validate_shape e = Inr () \<and> event_repository e = repository \<and> event_rule e = rule) es"
proof (induction es arbitrary: st rule: rev_induct)
  case (snoc e es)
  then obtain st1 where st1: "replay repository rule es = Inr st1"
    and step: "replay_step repository rule (length es, e) st1 = Inr st" by (auto simp: replay_snoc and_then_Inr)
  from snoc.IH [OF st1] step show ?case
    by (auto simp: replay_step_Inr dest: replay_action_seen)
qed (simp add: initial_replay_def)

lemma in_order_permutes:
  assumes "replay repository rule (in_order es) = Inr st" and "mset es' = mset es"
  shows "in_order es' = in_order es"
proof -
  let ?f = "\<lambda>e. (sequence e, event_id e)"
  from replay_stream [OF assms(1)] have "distinct (map event_id (in_order es))" by blast
  then have "inj_on event_id (set es)" by (simp add: in_order_def distinct_map)
  then have "inj_on ?f (set es)" by (auto simp: inj_on_def)
  moreover have "set es' = set es" using assms(2) by (metis set_mset_mset)
  ultimately have "sort_key ?f es' = sort_key ?f es"
    using assms(2) by (intro sort_key_inj_key_eq) (simp_all add: in_order_def)
  then show ?thesis by (simp add: in_order_def)
qed

lemma in_order_replayed:
  assumes "map sequence es = map Suc [0..<length es]"
  shows "in_order es = es"
proof -
  have "sorted_wrt (<) (map sequence es)" unfolding assms by (simp add: sorted_wrt_map sorted_wrt_upt)
  then have "sorted_wrt (\<lambda>a b. (sequence a, event_id a) < (sequence b, event_id b)) es"
    unfolding sorted_wrt_map by (rule sorted_wrt_mono_rel [rotated]) simp
  then have "sorted (map (\<lambda>e. (sequence e, event_id e)) es)"
    unfolding sorted_map by (rule sorted_wrt_mono_rel [rotated]) (simp only: less_imp_le)
  then show ?thesis unfolding in_order_def by (rule sort_key_id_if_sorted)
qed

lemma project_Inr:
  "project_lifecycle es = Inr p \<longleftrightarrow>
     es \<noteq> [] \<and> length es \<le> MAX_LIFECYCLE_EVENTS_PER_RULE \<and>
     (\<exists>st. replay (event_repository (hd (in_order es))) (event_rule (hd (in_order es))) (in_order es) = Inr st \<and>
        p = projection_of (event_repository (hd (in_order es))) (event_rule (hd (in_order es))) (length es) st)"
  by (auto simp: project_lifecycle_def and_then_Inr reject_if_Inr Let_def not_less)

text \<open>
  Replaying a stream does not depend on the order of its rows: any permutation of the events
  gives the same projection.
\<close>

theorem replay_ignores_row_order:
  assumes "project_lifecycle es = Inr p" and "mset es' = mset es"
  shows "project_lifecycle es' = Inr p"
proof -
  from assms(1) obtain repository rule st where "replay repository rule (in_order es) = Inr st"
    unfolding project_Inr by blast
  then have order: "in_order es' = in_order es" using assms(2) by (rule in_order_permutes)
  have len: "length es' = length es" using assms(2) by (metis size_mset)
  then have "es' = [] \<longleftrightarrow> es = []" by auto
  with assms(1) show ?thesis unfolding project_lifecycle_def order len by simp
qed

section \<open>Appending\<close>

text \<open>What one more event makes of a projection.\<close>

definition extend_projection :: "lifecycle_projection \<Rightarrow> lifecycle_event \<Rightarrow> lifecycle_projection result" where
  "extend_projection p e =
     (case event_action e of
        Annotate a \<Rightarrow> Inr (p\<lparr>last_sequence := last_sequence p + 1, annotations := annotations p @ [annotation_of e a]\<rparr>)
      | action \<Rightarrow>
          and_then (transition (lifecycle p) action) (\<lambda>next.
            Inr (p\<lparr>last_sequence := last_sequence p + 1, lifecycle := next, last_state_event_id := event_id e,
                  decision_provenance := (if is_decision action then Some (provenance e) else None),
                  successor_rule_id := superseded_by action\<rparr>)))"

lemma transition_available: "transition s a = Inr t \<Longrightarrow> t \<noteq> Unavailable"
  by (cases s; cases a; simp; blast?)

lemma replay_action_available:
  assumes "replay_action e st = Inr st'"
  shows "replay_lifecycle st' \<noteq> Unavailable"
proof (cases "\<exists>a. event_action e = Annotate a")
  case True
  then obtain a where "event_action e = Annotate a" by blast
  with assms show ?thesis by (auto simp: replay_action_def and_then_Inr reject_if_Inr)
next
  case False
  with assms have "transition (replay_lifecycle st) (event_action e) = Inr (replay_lifecycle st')"
    by (cases "event_action e") (auto simp: replay_action_def and_then_Inr)
  then show ?thesis by (rule transition_available)
qed

lemma replay_available: "replay repository rule es = Inr st \<Longrightarrow> es \<noteq> [] \<Longrightarrow> replay_lifecycle st \<noteq> Unavailable"
proof (induction es arbitrary: st rule: rev_induct)
  case (snoc e es)
  then obtain st1 where "replay_action e (st1\<lparr>seen_ids := event_id e # seen_ids st1\<rparr>) = Inr st"
    by (auto simp: replay_snoc and_then_Inr replay_step_Inr)
  then show ?case by (rule replay_action_available)
qed simp

lemma extend_replay:
  assumes "replay_lifecycle st \<noteq> Unavailable"
  shows "extend_projection (projection_of repository rule n st) e =
    and_then (replay_action e (st\<lparr>seen_ids := ids\<rparr>)) (\<lambda>st'. Inr (projection_of repository rule (n + 1) st'))"
proof -
  show ?thesis using assms
    by (cases "event_action e"; cases "transition (replay_lifecycle st) (event_action e)")
      (simp_all add: extend_projection_def replay_action_def projection_of_def)
qed

lemma in_order_snoc:
  assumes "replay repository rule (in_order es) = Inr st" and "sequence c = length es + 1"
  shows "in_order (es @ [c]) = in_order es @ [c]"
proof -
  have seqs: "map sequence (in_order es) = map Suc [0..<length es]"
    using replay_stream [OF assms(1)] by (simp add: in_order_def)
  then have "in_order (in_order es @ [c]) = in_order es @ [c]"
    using assms(2) by (intro in_order_replayed) (simp add: in_order_def)
  moreover have "in_order (es @ [c]) = in_order (in_order es @ [c])"
  proof -
    have "map sequence (in_order es @ [c]) = map Suc [0..<length (in_order es @ [c])]"
      using seqs assms(2) by (simp add: in_order_def)
    then have "inj_on sequence (set (in_order es @ [c]))"
      by (metis distinct_map distinct_upt inj_Suc inj_on_subset subset_UNIV)
    then have inj: "inj_on (\<lambda>e. (sequence e, event_id e)) (set (in_order es @ [c]))" by (auto simp: inj_on_def)
    show ?thesis
      unfolding in_order_def [of "es @ [c]"] in_order_def [of "in_order es @ [c]"]
      by (rule sort_key_inj_key_eq [symmetric, OF _ inj]) (simp_all add: in_order_def)
  qed
  ultimately show ?thesis by simp
qed

text \<open>
  C24: Appending refines replaying. On a stream that replays, an event is accepted exactly when it
  is well formed, of the stream's repository and rule, next in sequence, new and legal in the
  current state, and the projection is the previous one extended by this event alone.
\<close>

theorem append_extends_projection:
  assumes "project_lifecycle es = Inr p"
  shows "validate_lifecycle_append es c = Inr p' \<longleftrightarrow>
    length es < MAX_LIFECYCLE_EVENTS_PER_RULE \<and> validate_shape c = Inr () \<and>
    event_repository c = projected_repository p \<and> event_rule c = projected_rule p \<and>
    sequence c = last_sequence p + 1 \<and> event_id c \<notin> event_id ` set es \<and> extend_projection p c = Inr p'"
proof -
  let ?R = "event_repository (hd (in_order es))" and ?U = "event_rule (hd (in_order es))"
  from assms obtain st where es: "es \<noteq> []" and st: "replay ?R ?U (in_order es) = Inr st"
    and p: "p = projection_of ?R ?U (length es) st" by (auto simp: project_Inr)
  have some: "in_order es \<noteq> []" using es by (metis in_order_def mset_sort mset_zero_iff)
  note stream = replay_stream [OF st]
  have hd: "event_repository (hd es) = ?R" "event_rule (hd es) = ?U"
  proof -
    have "hd es \<in> set (in_order es)" using es by (simp add: in_order_def)
    then show "event_repository (hd es) = ?R" "event_rule (hd es) = ?U"
      using stream by (auto simp: list_all_iff)
  qed
  have seen: "set (seen_ids st) = event_id ` set es" using stream by (simp add: in_order_def)
  have ok: "project_lifecycle (es @ [c]) = Inr p' \<longleftrightarrow>
      length es < MAX_LIFECYCLE_EVENTS_PER_RULE \<and> event_id c \<notin> event_id ` set es \<and>
      extend_projection p c = Inr p'"
    if "validate_shape c = Inr ()" "sequence c = length es + 1" "event_repository c = ?R" "event_rule c = ?U"
  proof -
    have order: "in_order (es @ [c]) = in_order es @ [c]" by (rule in_order_snoc [OF st that(2)])
    have len: "length (in_order es) = length es" by (simp add: in_order_def)
    show ?thesis
      using that some seen
      by (auto simp: project_Inr order replay_snoc st replay_step_Inr len p and_then_Inr
          extend_replay [OF replay_available [OF st some], of _ _ _ _ "event_id c # seen_ids st"])
  qed
  have seq: "expected_previous_sequence c = sequence c - 1" if "validate_shape c = Inr ()"
    using that by (auto simp: validate_shape_def and_then_Inr reject_if_Inr)
  show ?thesis
    using ok seq es by (auto simp: validate_lifecycle_append_def and_then_Inr reject_if_Inr assms hd p projection_of_def)
qed

section \<open>Who decided\<close>

definition decided_by :: "lifecycle_event list \<Rightarrow> replay_state \<Rightarrow> bool" where
  "decided_by es st \<longleftrightarrow>
     (if replay_lifecycle st \<in> {Accepted, Rejected}
      then \<exists>e \<in> set es. event_id e = replay_event st \<and> is_decision (event_action e) \<and> can_decide (provenance e) \<and>
             replay_decision st = Some (provenance e)
      else replay_decision st = None) \<and>
     (if replay_lifecycle st = Superseded
      then \<exists>e \<in> set es. event_id e = replay_event st \<and> provenance_kind (provenance e) \<noteq> Model \<and>
             superseded_by (event_action e) = replay_successor st \<and>
             (\<exists>s. replay_successor st = Some s \<and> s \<noteq> event_rule e)
      else replay_successor st = None)"

lemma transition_target:
  "transition s a = Inr t \<Longrightarrow>
     (t \<in> {Accepted, Rejected} \<longleftrightarrow> is_decision a) \<and> (t = Superseded \<longleftrightarrow> superseded_by a \<noteq> None)"
  by (cases s; cases a; simp; blast?)

lemma validate_shape_action:
  assumes "validate_shape e = Inr ()"
  shows "is_decision (event_action e) \<Longrightarrow> can_decide (provenance e)"
    "superseded_by (event_action e) = Some s \<Longrightarrow> provenance_kind (provenance e) \<noteq> Model \<and> s \<noteq> event_rule e"
  using assms
  by (cases "event_action e";
      auto simp: validate_shape_def validate_action_def and_then_Inr reject_if_Inr)+

lemma replay_decided: "replay repository rule es = Inr st \<Longrightarrow> decided_by es st"
proof (induction es arbitrary: st rule: rev_induct)
  case Nil
  then show ?case by (auto simp: decided_by_def initial_replay_def)
next
  case (snoc e es)
  from snoc.prems obtain st1 where st1: "replay repository rule es = Inr st1"
    and step: "replay_step repository rule (length es, e) st1 = Inr st" by (auto simp: replay_snoc and_then_Inr)
  note before = snoc.IH [OF st1]
  from step have shape: "validate_shape e = Inr ()"
    and act: "replay_action e (st1\<lparr>seen_ids := event_id e # seen_ids st1\<rparr>) = Inr st" by (simp_all add: replay_step_Inr)
  show ?case
  proof (cases "\<exists>a. event_action e = Annotate a")
    case True
    with act before show ?thesis
      by (auto simp: replay_action_def and_then_Inr reject_if_Inr decided_by_def split: if_splits)
  next
    case False
    with act obtain t where t: "transition (replay_lifecycle st1) (event_action e) = Inr t"
      and st: "replay_lifecycle st = t" "replay_event st = event_id e"
        "replay_decision st = (if is_decision (event_action e) then Some (provenance e) else None)"
        "replay_successor st = superseded_by (event_action e)"
      by (cases "event_action e") (auto simp: replay_action_def and_then_Inr)
    from transition_target [OF t] validate_shape_action [OF shape] st show ?thesis
      by (auto simp: decided_by_def)
  qed
qed

text \<open>
  C25: No model decides. A rule is accepted or rejected only by the last state event of its
  stream, whose author is a human or a deterministic policy and is the recorded one; it is
  superseded only by an event no model wrote, which names another rule.
\<close>

theorem no_model_decides:
  assumes "project_lifecycle es = Inr p"
  shows "(if lifecycle p \<in> {Accepted, Rejected}
      then \<exists>e \<in> set es. event_id e = last_state_event_id p \<and> is_decision (event_action e) \<and>
             provenance_kind (provenance e) \<noteq> Model \<and> decision_provenance p = Some (provenance e)
      else decision_provenance p = None) \<and>
    (if lifecycle p = Superseded
      then \<exists>e \<in> set es. event_id e = last_state_event_id p \<and> provenance_kind (provenance e) \<noteq> Model \<and>
             (\<exists>s. superseded_by (event_action e) = Some s \<and> successor_rule_id p = Some s \<and> s \<noteq> projected_rule p)
      else successor_rule_id p = None)"
proof -
  let ?R = "event_repository (hd (in_order es))" and ?U = "event_rule (hd (in_order es))"
  from assms obtain st where st: "replay ?R ?U (in_order es) = Inr st"
    and p: "p = projection_of ?R ?U (length es) st" by (auto simp: project_Inr)
  have members: "set (in_order es) = set es" by (simp add: in_order_def)
  have rule: "e \<in> set es \<Longrightarrow> event_rule e = ?U" for e
    using replay_stream [OF st] members by (auto simp: list_all_iff)
  have "can_decide q \<Longrightarrow> provenance_kind q \<noteq> Model" for q by (auto simp: can_decide_def)
  with replay_decided [OF st] rule show ?thesis
    unfolding decided_by_def members p projection_of_def by (fastforce split: if_splits)
qed

section \<open>Stars of aliases\<close>

lemma note_alias_Inr:
  "note_alias a (ids, targets) = Inr (ids', targets') \<longleftrightarrow>
     validate_alias_shape a = Inr () \<and> alias_event a \<notin> set ids \<and> alias_key a \<notin> fst ` set targets \<and>
     ids' = alias_event a # ids \<and> targets' = bmap_insert (alias_key a) (canonical_key a) targets"
  by (auto simp: note_alias_def and_then_Inr reject_if_Inr map_of_eq_None_iff)

lemma set_bmap_insert_fresh:
  "k \<notin> fst ` set m \<Longrightarrow> set (bmap_insert k v m) = insert (k, v) (set m)"
  by (induction k v m rule: bmap_insert.induct) auto

definition alias_entry :: "rule_alias \<Rightarrow> rule_key \<times> rule_key" where
  "alias_entry a = (alias_key a, canonical_key a)"

lemma noted_aliases:
  "(\<exists>ids'. fold_result note_alias as (ids, targets) = Inr (ids', targets')) \<longleftrightarrow>
     list_all (\<lambda>a. validate_alias_shape a = Inr ()) as \<and>
     distinct (map alias_event as) \<and> set (map alias_event as) \<inter> set ids = {} \<and>
     distinct (map alias_key as) \<and> set (map alias_key as) \<inter> fst ` set targets = {} \<and>
     targets' = foldl (\<lambda>m a. bmap_insert (alias_key a) (canonical_key a) m) targets as"
proof (induction as arbitrary: ids targets)
  case (Cons a as)
  have "(\<exists>ids'. fold_result note_alias (a # as) (ids, targets) = Inr (ids', targets')) \<longleftrightarrow>
      validate_alias_shape a = Inr () \<and> alias_event a \<notin> set ids \<and> alias_key a \<notin> fst ` set targets \<and>
      (\<exists>ids'. fold_result note_alias as (alias_event a # ids, bmap_insert (alias_key a) (canonical_key a) targets)
         = Inr (ids', targets'))"
    by (auto simp: and_then_Inr note_alias_Inr)
  then show ?case unfolding Cons.IH by auto
qed auto

lemma collected_targets:
  assumes "distinct (map alias_key as)" and "set (map alias_key as) \<inter> fst ` set targets = {}"
  shows "set (foldl (\<lambda>m a. bmap_insert (alias_key a) (canonical_key a) m) targets as)
      = alias_entry ` set as \<union> set targets"
  using assms
proof (induction as arbitrary: targets)
  case (Cons a as)
  then have "set (bmap_insert (alias_key a) (canonical_key a) targets) = insert (alias_entry a) (set targets)"
    by (simp add: set_bmap_insert_fresh alias_entry_def)
  then show ?case using Cons.prems by (auto simp: Cons.IH)
qed simp

text \<open>On a star the walk stops after one step, so the cycle check never fires on what is accepted.\<close>

lemma follow_star:
  assumes "\<And>key target. (key, target) \<in> set targets \<Longrightarrow> map_of targets target = None"
  shows "follow_alias targets [] k = Inr ()"
proof (cases "map_of targets k")
  case (Some t)
  then have t: "map_of targets t = None" using assms by (blast dest: map_of_SomeD)
  then have "t \<noteq> k" using Some by auto
  moreover have "follow_alias targets [k] t = Inr ()" using t by (simp add: follow_alias.simps [of _ _ t])
  ultimately show ?thesis using Some by (simp add: follow_alias.simps [of _ "[]"])
qed (simp add: follow_alias.simps [of _ "[]"])

text \<open>
  C28: The alias walk always ends, and what it guards comes to a plain condition: a set of aliases
  is accepted exactly when it is within its bound, every alias is well formed, no event and no
  alias is repeated, and no canonical rule is itself an alias. No chain and no cycle passes.
\<close>

theorem accepted_aliases_are_stars:
  "validate_rule_aliases as = Inr () \<longleftrightarrow>
     length as \<le> MAX_ALIASES_PER_REPOSITORY \<and> list_all (\<lambda>a. validate_alias_shape a = Inr ()) as \<and>
     distinct (map alias_event as) \<and> distinct (map alias_key as) \<and>
     set (map canonical_key as) \<inter> set (map alias_key as) = {}"
proof -
  let ?T = "foldl (\<lambda>m a. bmap_insert (alias_key a) (canonical_key a) m) [] as"
  let ?shapes = "list_all (\<lambda>a. validate_alias_shape a = Inr ()) as \<and> distinct (map alias_event as) \<and>
    distinct (map alias_key as)"
  have fold: "(\<exists>ids'. fold_result note_alias as ([], []) = Inr (ids', targets')) \<longleftrightarrow> ?shapes \<and> targets' = ?T"
    for targets' by (auto simp: noted_aliases)
  have entries: "set ?T = alias_entry ` set as" if "distinct (map alias_key as)"
    using collected_targets [OF that, of "[]"] by simp
  have absent: "map_of ?T k = None \<longleftrightarrow> k \<notin> set (map alias_key as)" if "distinct (map alias_key as)" for k
    unfolding map_of_eq_None_iff entries [OF that] by (simp add: alias_entry_def image_image)
  have star: "(\<forall>(key, t) \<in> set ?T. map_of ?T t = None) \<longleftrightarrow> set (map canonical_key as) \<inter> set (map alias_key as) = {}"
    if "distinct (map alias_key as)"
    unfolding absent [OF that] entries [OF that] by (auto simp: alias_entry_def) (metis imageI)
  have walk: "\<forall>(key, t) \<in> set ?T. follow_alias ?T [] key = Inr ()"
    if "\<forall>(key, t) \<in> set ?T. map_of ?T t = None"
    using that by (auto intro: follow_star)
  have "validate_rule_aliases as = Inr () \<longleftrightarrow> length as \<le> MAX_ALIASES_PER_REPOSITORY \<and>
      (\<exists>targets'. (\<exists>ids'. fold_result note_alias as ([], []) = Inr (ids', targets')) \<and>
        (\<forall>(key, t) \<in> set targets'. follow_alias targets' [] key = Inr ()) \<and>
        (\<forall>(key, t) \<in> set targets'. map_of targets' t = None))"
    by (auto simp: validate_rule_aliases_def and_then_Inr reject_if_Inr check_all_Inr not_less list_ex_iff
        split_def simp del: not_None_eq)
  also have "\<dots> \<longleftrightarrow> length as \<le> MAX_ALIASES_PER_REPOSITORY \<and> ?shapes \<and>
      (\<forall>(key, t) \<in> set ?T. follow_alias ?T [] key = Inr ()) \<and> (\<forall>(key, t) \<in> set ?T. map_of ?T t = None)"
    unfolding fold by simp
  also have "\<dots> \<longleftrightarrow> length as \<le> MAX_ALIASES_PER_REPOSITORY \<and> ?shapes \<and>
      set (map canonical_key as) \<inter> set (map alias_key as) = {}"
    using star walk by (cases "distinct (map alias_key as)") auto
  finally show ?thesis by simp
qed

section \<open>Carrying a review over\<close>

text \<open>
  A review is carried over only between snapshots of one repository, rule and kind whose
  evidence, parser and contradictions are unchanged, and an accepted rule that gained a
  contradiction comes out conflicted, never accepted.
\<close>

theorem carried_review_is_backed:
  assumes "evaluate_snapshot_compatibility previous current state successor = Inr outcome"
  shows "(\<forall>s changed. outcome = Compatible s changed \<longleftrightarrow>
      successor = None \<and> s = state \<and> changed = (description_identity previous \<noteq> description_identity current) \<and>
      evidence_identity previous = evidence_identity current \<and>
      parser_compatibility_identity previous = parser_compatibility_identity current \<and>
      contradiction_identity previous = contradiction_identity current) \<and>
    snapshot_repository previous = snapshot_repository current \<and>
    rule_kind_identity previous = rule_kind_identity current \<and>
    (successor = None \<longleftrightarrow> snapshot_rule previous = snapshot_rule current) \<and>
    (successor = None \<and> state = Accepted \<and> contradiction_identity previous \<noteq> contradiction_identity current
      \<longrightarrow> outcome = ConflictedOutcome (mismatches previous current))"
  using assms
  by (cases successor)
    (auto simp: evaluate_snapshot_compatibility_def and_then_Inr reject_if_Inr Let_def mismatches_def split: if_splits)

section \<open>Examples\<close>

definition example_person :: reviewer_provenance where
  "example_person = \<lparr>provenance_kind = Human, actor_id = ''ada'', authority_id = None\<rparr>"

definition example_event :: "nat \<Rightarrow> string \<Rightarrow> lifecycle_action \<Rightarrow> lifecycle_event" where
  "example_event n name act =
     \<lparr>event_id = name, event_repository = ''repo'', event_rule = ''rule'', sequence = n,
      expected_previous_sequence = n - 1, provenance = example_person, event_action = act\<rparr>"

definition example_stream :: "lifecycle_event list" where
  "example_stream =
     [example_event 1 ''e1'' CandidateAction, example_event 2 ''e2'' (Annotate ''seen in billing''),
      example_event 3 ''e3'' Accept]"

definition example_projection :: lifecycle_projection where
  "example_projection =
     \<lparr>projected_repository = ''repo'', projected_rule = ''rule'', lifecycle = Accepted, last_sequence = 3,
      last_state_event_id = ''e3'', decision_provenance = Some example_person, successor_rule_id = None,
      annotations = [annotation_of (example_event 2 ''e2'' (Annotate ''seen in billing'')) ''seen in billing'']\<rparr>"

lemma example_projects: "project_lifecycle example_stream = Inr example_projection"
  by code_simp


lemma replay_ignores_row_order_witness:
  "project_lifecycle (rev example_stream) = Inr example_projection"
  using replay_ignores_row_order [OF example_projects, of "rev example_stream"] by simp

lemma append_extends_projection_witness:
  "validate_lifecycle_append example_stream (example_event 4 ''e4'' (Supersede ''rule-2'')) = Inr
     (example_projection\<lparr>lifecycle := Superseded, last_sequence := 4, last_state_event_id := ''e4'',
        decision_provenance := None, successor_rule_id := Some ''rule-2''\<rparr>)"
  unfolding append_extends_projection [OF example_projects] by code_simp

lemma no_model_decides_witness:
  "list_ex (\<lambda>e. event_id e = ''e3'' \<and> provenance_kind (provenance e) \<noteq> Model \<and>
     Some example_person = Some (provenance e)) example_stream"
  using no_model_decides [OF example_projects] by (auto simp: example_projection_def list_ex_iff)

definition example_snapshot :: snapshot_identity where
  "example_snapshot =
     \<lparr>snapshot_repository = ''repo'', snapshot_rule = ''rule'', rule_kind_identity = ''threshold'',
      continuity_identity = ''c1'', evidence_identity = ''v1'', parser_compatibility_identity = ''p1'',
      contradiction_identity = ''none'', description_identity = ''d1''\<rparr>"

lemma example_compatibility:
  "evaluate_snapshot_compatibility example_snapshot (example_snapshot\<lparr>contradiction_identity := ''x1''\<rparr>) Accepted None
     = Inr (ConflictedOutcome [ContradictionMismatch])"
  by code_simp

lemma carried_review_is_backed_witness:
  "mismatches example_snapshot (example_snapshot\<lparr>contradiction_identity := ''x1''\<rparr>) = [ContradictionMismatch]"
  using carried_review_is_backed [OF example_compatibility] by (simp add: example_snapshot_def)

end
