(* ===== verification/ArchIdentity.thy ===== *)
theory ArchIdentity
  imports Prelude "HOL-Library.Word" "HOL-Library.Multiset" "HOL-Library.Code_Target_Nat"
begin

text \<open>
  The revision-independent identities of business rules,
  \<open>business_rule_archaeology/identity.rs\<close>: each is the SHA-256 of a length-prefixed encoding of
  a tag and of normalized fields. The hash of the \<open>sha2\<close> crate is the parameter \<open>sha\<close>, from bytes
  to bytes; what is proved of it rests on its not colliding on the inputs at hand.
\<close>

section \<open>Data\<close>

type_synonym u64 = "64 word"

definition STABLE_RULE_TAG :: string where "STABLE_RULE_TAG = ''archaeology-stable-rule:v1''"
definition EVIDENCE_TAG :: string where "EVIDENCE_TAG = ''archaeology-rule-evidence:v1''"
definition CONTRADICTION_TAG :: string where "CONTRADICTION_TAG = ''archaeology-rule-contradictions:v1''"
definition DESCRIPTION_TAG :: string where "DESCRIPTION_TAG = ''archaeology-rule-description:v1''"
definition CONTINUITY_TAG :: string where "CONTINUITY_TAG = ''archaeology-rule-continuity:v1''"
definition PARSER_COMPATIBILITY_TAG :: string where
  "PARSER_COMPATIBILITY_TAG = ''archaeology-rule-parser-compatibility:v1''"

record identity_limits =
  max_facts :: u64
  max_spans_per_fact :: u64
  max_clauses :: u64
  max_identity_bytes :: u64
  max_text_bytes :: u64

definition default_identity_limits :: identity_limits where
  "default_identity_limits =
     \<lparr>max_facts = 256, max_spans_per_fact = 256, max_clauses = 256, max_identity_bytes = 2 * 1024 * 1024,
      max_text_bytes = 4 * 1024\<rparr>"

datatype fact_kind =
    DeclarationFact | DataFieldFact | ConstantFact | PredicateFact | DecisionFact | CalculationFact | MutationFact
  | CallFact | InputOutputFact | TransactionFact | ControlFlowFact | EntryPointFact | IncludeFact | UnresolvedFact

datatype rule_kind =
    ValidationRule | CalculationRule | EligibilityRule | EntitlementRule | RoutingRule | MutationRule
  | ExceptionRule | LifecycleRule | TransactionRule | OtherRule

record identity_span =
  path_identity :: string
  content_hash :: string
  start_byte :: u64
  end_byte :: u64

record identity_fact =
  fact_kind :: fact_kind
  semantic_expression :: string
  parser_identity :: string
  fact_spans :: "identity_span list"

record identity_provenance =
  identity_schema :: string
  hash_algorithm :: string
  stable_rule_version :: string
  evidence_version :: string
  contradiction_version :: string
  description_version :: string
  continuity_version :: string
  parser_compatibility_version :: string

definition identity_provenance :: identity_provenance where
  "identity_provenance =
     \<lparr>identity_schema = ''codevetter.archaeology-rule-identities.v1'', hash_algorithm = ''sha256'',
      stable_rule_version = STABLE_RULE_TAG, evidence_version = EVIDENCE_TAG,
      contradiction_version = CONTRADICTION_TAG, description_version = DESCRIPTION_TAG,
      continuity_version = CONTINUITY_TAG, parser_compatibility_version = PARSER_COMPATIBILITY_TAG\<rparr>"

record rule_identities =
  stable_identity :: string
  evidence_id :: string
  contradiction_id :: string
  description_id :: string
  continuity_id :: string
  identities_provenance :: identity_provenance

record rule_identity_input =
  input_repository :: string
  input_kind :: rule_kind
  input_anchor :: identity_fact
  supporting_facts :: "identity_fact list"
  contradicting_facts :: "identity_fact list"
  input_title :: string
  input_clauses :: "string list"
  description_source :: string

fun fact_kind_name :: "fact_kind \<Rightarrow> string" where
  "fact_kind_name DeclarationFact = ''declaration''"
| "fact_kind_name DataFieldFact = ''data_field''"
| "fact_kind_name ConstantFact = ''constant''"
| "fact_kind_name PredicateFact = ''predicate''"
| "fact_kind_name DecisionFact = ''decision''"
| "fact_kind_name CalculationFact = ''calculation''"
| "fact_kind_name MutationFact = ''mutation''"
| "fact_kind_name CallFact = ''call''"
| "fact_kind_name InputOutputFact = ''input_output''"
| "fact_kind_name TransactionFact = ''transaction''"
| "fact_kind_name ControlFlowFact = ''control_flow''"
| "fact_kind_name EntryPointFact = ''entry_point''"
| "fact_kind_name IncludeFact = ''include''"
| "fact_kind_name UnresolvedFact = ''unresolved''"

fun rule_kind_name :: "rule_kind \<Rightarrow> string" where
  "rule_kind_name ValidationRule = ''validation''"
| "rule_kind_name CalculationRule = ''calculation''"
| "rule_kind_name EligibilityRule = ''eligibility''"
| "rule_kind_name EntitlementRule = ''entitlement''"
| "rule_kind_name RoutingRule = ''routing''"
| "rule_kind_name MutationRule = ''mutation''"
| "rule_kind_name ExceptionRule = ''exception''"
| "rule_kind_name LifecycleRule = ''lifecycle''"
| "rule_kind_name TransactionRule = ''transaction''"
| "rule_kind_name OtherRule = ''other''"

section \<open>Validation\<close>

definition hex_identity :: "string \<Rightarrow> nat \<Rightarrow> bool" where
  "hex_identity v n \<longleftrightarrow> length v = n \<and> list_all (\<lambda>b. is_ascii_hexdigit b \<and> \<not> is_ascii_uppercase b) v"

definition validate_component :: "string \<Rightarrow> string \<Rightarrow> unit result" where
  "validate_component v name =
     reject_if (v = [] \<or> 256 < length v \<or> list_ex (\<lambda>c. c = 0 \<or> is_control c) (chars v))
       (''Archaeology '' @ name @ '' is invalid'')"

definition validate_repository :: "string \<Rightarrow> unit result" where
  "validate_repository v =
     and_then (validate_component v ''repository identity'') (\<lambda>_.
       reject_if (list_ex (\<lambda>c. c = CHR 0x2F \<or> c = CHR 0x5C) v) ''Archaeology repository identity is invalid'')"

definition validate_digest_identity :: "string \<Rightarrow> unit result" where
  "validate_digest_identity v =
     reject_if (\<not> starts_with v ''sha256:'' \<or> \<not> hex_identity (drop 7 v) 64)
       ''Archaeology stable rule identity is invalid''"

definition validate_semantic_fact :: "identity_fact \<Rightarrow> unit result" where
  "validate_semantic_fact f =
     reject_if (\<not> starts_with (semantic_expression f) ''v1:sha256:''
                \<or> \<not> hex_identity (drop 10 (semantic_expression f)) 64)
       ''Archaeology semantic expression identity is invalid''"

definition validate_fact_count :: "identity_fact list \<Rightarrow> identity_limits \<Rightarrow> bool \<Rightarrow> unit result" where
  "validate_fact_count facts limits allow_empty =
     reject_if ((\<not> allow_empty \<and> facts = []) \<or> unat (max_facts limits) < length facts)
       ''Archaeology identity fact bound is invalid''"

text \<open>\<open>split_whitespace().collect().join(" ")\<close> between two checks of the bounds.\<close>

definition canonical_text :: "string \<Rightarrow> u64 \<Rightarrow> string result" where
  "canonical_text v max_bytes =
     and_then (reject_if (v = [] \<or> unat max_bytes < length v
                 \<or> list_ex (\<lambda>c. c = 0 \<or> (is_control c \<and> \<not> is_whitespace c)) (chars v))
                 ''Archaeology description text is invalid'') (\<lambda>_.
     let canonical = join '' '' (split_whitespace v)
     in and_then (reject_if (canonical = [] \<or> unat max_bytes < length canonical)
                    ''Archaeology description text is invalid'') (\<lambda>_. Inr canonical))"

section \<open>Normalization\<close>

type_synonym semantic_key = "string \<times> string"
type_synonym span_key = "string \<times> string \<times> u64 \<times> u64"
type_synonym evidence_key = "string \<times> string \<times> string \<times> span_key list"

definition semantic_fact_key :: "identity_fact \<Rightarrow> semantic_key" where
  "semantic_fact_key f = (fact_kind_name (fact_kind f), semantic_expression f)"

definition add_semantic_fact :: "identity_fact \<Rightarrow> semantic_key bset \<Rightarrow> semantic_key bset result" where
  "add_semantic_fact f s = and_then (validate_semantic_fact f) (\<lambda>_. Inr (bset_insert (semantic_fact_key f) s))"

definition normalized_semantic_facts :: "identity_fact list \<Rightarrow> semantic_key bset result" where
  "normalized_semantic_facts facts = fold_result add_semantic_fact facts []"

definition span_key :: "identity_span \<Rightarrow> span_key" where
  "span_key s = (path_identity s, content_hash s, start_byte s, end_byte s)"

definition add_span :: "identity_span \<Rightarrow> span_key bset \<Rightarrow> span_key bset result" where
  "add_span s spans =
     and_then (validate_component (path_identity s) ''path identity'') (\<lambda>_.
     and_then (reject_if (\<not> hex_identity (content_hash s) 64) ''Archaeology evidence content hash is invalid'') (\<lambda>_.
     and_then (reject_if (end_byte s < start_byte s) ''Archaeology evidence span end precedes start'') (\<lambda>_.
     and_then (reject_if (span_key s \<in> set spans) ''Archaeology evidence contains a duplicate exact span'') (\<lambda>_.
       Inr (bset_insert (span_key s) spans)))))"

definition evidence_fact_key :: "identity_fact \<Rightarrow> evidence_key" where
  "evidence_fact_key f =
     (fact_kind_name (fact_kind f), semantic_expression f, parser_identity f, bset_of (map span_key (fact_spans f)))"

definition add_evidence_fact ::
  "identity_limits \<Rightarrow> identity_fact \<Rightarrow> evidence_key bset \<Rightarrow> evidence_key bset result" where
  "add_evidence_fact limits f facts =
     and_then (validate_semantic_fact f) (\<lambda>_.
     and_then (validate_component (parser_identity f) ''parser identity'') (\<lambda>_.
     and_then (reject_if (fact_spans f = [] \<or> unat (max_spans_per_fact limits) < length (fact_spans f))
                 ''Archaeology evidence span bound is invalid'') (\<lambda>_.
     and_then (fold_result add_span (fact_spans f) []) (\<lambda>spans.
     let key = (fact_kind_name (fact_kind f), semantic_expression f, parser_identity f, spans)
     in and_then (reject_if (key \<in> set facts) ''Archaeology evidence contains a duplicate exact fact'') (\<lambda>_.
          Inr (bset_insert key facts))))))"

definition normalized_evidence_facts :: "identity_fact list \<Rightarrow> identity_limits \<Rightarrow> evidence_key bset result" where
  "normalized_evidence_facts facts limits = fold_result (add_evidence_fact limits) facts []"

section \<open>The digest\<close>

text \<open>The bytes given to the hash so far stand for its state.\<close>

record identity_digest =
  absorbed :: string
  digest_bytes :: u64
  digest_max_bytes :: u64

text \<open>\<open>u64::to_be_bytes\<close>.\<close>

definition to_be_bytes :: "u64 \<Rightarrow> string" where
  "to_be_bytes w = map (\<lambda>i. char_of (unat (take_bit 8 (drop_bit (8 * (7 - i)) w)))) [0..<8]"

text \<open>\<open>usize::checked_add\<close> of the header and of the length of a value.\<close>

definition checked_size :: "u64 \<Rightarrow> nat \<Rightarrow> u64 option" where
  "checked_size bytes n = (if unat bytes + 8 + n < 2 ^ 64 then Some (word_of_nat (unat bytes + 8 + n)) else None)"

definition write_field :: "string \<Rightarrow> identity_digest \<Rightarrow> identity_digest result" where
  "write_field v d =
     (case checked_size (digest_bytes d) (length v) of
        None \<Rightarrow> Inl ''Archaeology identity byte count overflowed''
      | Some next \<Rightarrow>
          and_then (reject_if (digest_max_bytes d < next) ''Archaeology identity byte bound exceeded'') (\<lambda>_.
            Inr (d\<lparr>absorbed := absorbed d @ to_be_bytes (word_of_nat (length v)) @ v, digest_bytes := next\<rparr>)))"

definition number :: "u64 \<Rightarrow> identity_digest \<Rightarrow> identity_digest result" where
  "number n = write_field (to_be_bytes n)"

definition count :: "nat \<Rightarrow> identity_digest \<Rightarrow> identity_digest result" where
  "count n = number (word_of_nat n)"

definition new_digest :: "string \<Rightarrow> u64 \<Rightarrow> identity_digest result" where
  "new_digest tag max_bytes =
     and_then (reject_if (max_bytes = 0) ''Archaeology identity byte bound is invalid'') (\<lambda>_.
       write_field tag \<lparr>absorbed = [], digest_bytes = 0, digest_max_bytes = max_bytes\<rparr>)"

definition hex_digit :: "nat \<Rightarrow> char" where
  "hex_digit n = ''0123456789abcdef'' ! n"

definition hex :: "string \<Rightarrow> string" where
  "hex bytes = concat (map (\<lambda>b. [hex_digit (of_char b div 16), hex_digit (of_char b mod 16)]) bytes)"

definition finish :: "(string \<Rightarrow> string) \<Rightarrow> identity_digest \<Rightarrow> string" where
  "finish sha d = ''sha256:'' @ hex (sha (absorbed d))"

section \<open>The identities\<close>

definition write_semantic_facts :: "semantic_key list \<Rightarrow> identity_digest \<Rightarrow> identity_digest result" where
  "write_semantic_facts = fold_result (\<lambda>(kind, expression) d. and_then (write_field kind d) (write_field expression))"

definition stable_rule_digest ::
  "string \<Rightarrow> rule_kind \<Rightarrow> identity_fact \<Rightarrow> identity_fact list \<Rightarrow> identity_limits \<Rightarrow> identity_digest result" where
  "stable_rule_digest repository kind anchor facts limits =
     and_then (validate_repository repository) (\<lambda>_.
     and_then (validate_fact_count facts limits False) (\<lambda>_.
     and_then (validate_semantic_fact anchor) (\<lambda>_.
     and_then (normalized_semantic_facts facts) (\<lambda>supporting.
     and_then (reject_if (semantic_fact_key anchor \<notin> set supporting)
                 ''Archaeology stable identity anchor is not supporting evidence'') (\<lambda>_.
     and_then (new_digest STABLE_RULE_TAG (max_identity_bytes limits)) (\<lambda>d.
     and_then (write_field repository d) (\<lambda>d.
     and_then (write_field (rule_kind_name kind) d) (\<lambda>d.
     and_then (write_field (fst (semantic_fact_key anchor)) d) (\<lambda>d.
     and_then (write_field (snd (semantic_fact_key anchor)) d) (\<lambda>d.
     and_then (count (length supporting) d) (\<lambda>d.
       write_semantic_facts supporting d)))))))))))"

definition stable_rule_identity ::
  "(string \<Rightarrow> string) \<Rightarrow> string \<Rightarrow> rule_kind \<Rightarrow> identity_fact \<Rightarrow> identity_fact list \<Rightarrow> identity_limits \<Rightarrow>
   string result" where
  "stable_rule_identity sha repository kind anchor facts limits =
     and_then (stable_rule_digest repository kind anchor facts limits) (\<lambda>d. Inr (finish sha d))"

definition write_span :: "span_key \<Rightarrow> identity_digest \<Rightarrow> identity_digest result" where
  "write_span = (\<lambda>(path, content, from, until) d.
     and_then (write_field path d) (\<lambda>d. and_then (write_field content d) (\<lambda>d.
     and_then (number from d) (\<lambda>d. number until d))))"

definition write_evidence_fact :: "evidence_key \<Rightarrow> identity_digest \<Rightarrow> identity_digest result" where
  "write_evidence_fact = (\<lambda>(kind, expression, parser, spans) d.
     and_then (write_field kind d) (\<lambda>d. and_then (write_field expression d) (\<lambda>d. and_then (write_field parser d) (\<lambda>d.
     and_then (count (length spans) d) (\<lambda>d. fold_result write_span spans d)))))"

definition evidence_digest ::
  "string \<Rightarrow> identity_fact list \<Rightarrow> identity_limits \<Rightarrow> identity_digest result" where
  "evidence_digest repository facts limits =
     and_then (validate_repository repository) (\<lambda>_.
     and_then (validate_fact_count facts limits False) (\<lambda>_.
     and_then (normalized_evidence_facts facts limits) (\<lambda>supporting.
     and_then (new_digest EVIDENCE_TAG (max_identity_bytes limits)) (\<lambda>d.
     and_then (write_field repository d) (\<lambda>d.
     and_then (count (length supporting) d) (\<lambda>d.
       fold_result write_evidence_fact supporting d))))))"

definition evidence_identity ::
  "(string \<Rightarrow> string) \<Rightarrow> string \<Rightarrow> identity_fact list \<Rightarrow> identity_limits \<Rightarrow> string result" where
  "evidence_identity sha repository facts limits =
     and_then (evidence_digest repository facts limits) (\<lambda>d. Inr (finish sha d))"

definition contradiction_digest ::
  "string \<Rightarrow> identity_fact list \<Rightarrow> identity_limits \<Rightarrow> identity_digest result" where
  "contradiction_digest repository facts limits =
     and_then (validate_repository repository) (\<lambda>_.
     and_then (validate_fact_count facts limits True) (\<lambda>_.
     and_then (normalized_semantic_facts facts) (\<lambda>contradicting.
     and_then (new_digest CONTRADICTION_TAG (max_identity_bytes limits)) (\<lambda>d.
     and_then (write_field repository d) (\<lambda>d.
     and_then (write_field (if contradicting = [] then ''empty-set:v1'' else ''facts:v1'') d) (\<lambda>d.
     and_then (count (length contradicting) d) (\<lambda>d.
       write_semantic_facts contradicting d)))))))"

definition contradiction_identity ::
  "(string \<Rightarrow> string) \<Rightarrow> string \<Rightarrow> identity_fact list \<Rightarrow> identity_limits \<Rightarrow> string result" where
  "contradiction_identity sha repository facts limits =
     and_then (contradiction_digest repository facts limits) (\<lambda>d. Inr (finish sha d))"

definition description_digest ::
  "string \<Rightarrow> string \<Rightarrow> string list \<Rightarrow> string \<Rightarrow> identity_limits \<Rightarrow> identity_digest result" where
  "description_digest repository title clauses source limits =
     and_then (validate_repository repository) (\<lambda>_.
     and_then (reject_if (clauses = [] \<or> unat (max_clauses limits) < length clauses)
                 ''Archaeology description clause bound is invalid'') (\<lambda>_.
     and_then (validate_component source ''description source identity'') (\<lambda>_.
     and_then (canonical_text title (max_text_bytes limits)) (\<lambda>title'.
     and_then (map_result (\<lambda>c. canonical_text c (max_text_bytes limits)) clauses) (\<lambda>clauses'.
     and_then (new_digest DESCRIPTION_TAG (max_identity_bytes limits)) (\<lambda>d.
     and_then (write_field repository d) (\<lambda>d.
     and_then (write_field source d) (\<lambda>d.
     and_then (write_field title' d) (\<lambda>d.
     and_then (count (length clauses') d) (\<lambda>d.
       fold_result write_field (sort clauses') d))))))))))"

definition description_identity ::
  "(string \<Rightarrow> string) \<Rightarrow> string \<Rightarrow> string \<Rightarrow> string list \<Rightarrow> string \<Rightarrow> identity_limits \<Rightarrow> string result" where
  "description_identity sha repository title clauses source limits =
     and_then (description_digest repository title clauses source limits) (\<lambda>d. Inr (finish sha d))"

definition continuity_digest :: "string \<Rightarrow> string \<Rightarrow> identity_limits \<Rightarrow> identity_digest result" where
  "continuity_digest repository rule_id limits =
     and_then (validate_repository repository) (\<lambda>_.
     and_then (validate_digest_identity rule_id) (\<lambda>_.
     and_then (new_digest CONTINUITY_TAG (max_identity_bytes limits)) (\<lambda>d.
     and_then (write_field repository d) (\<lambda>d. write_field rule_id d))))"

definition continuity_identity ::
  "(string \<Rightarrow> string) \<Rightarrow> string \<Rightarrow> string \<Rightarrow> identity_limits \<Rightarrow> string result" where
  "continuity_identity sha repository rule_id limits =
     and_then (continuity_digest repository rule_id limits) (\<lambda>d. Inr (finish sha d))"

definition build_rule_identities ::
  "(string \<Rightarrow> string) \<Rightarrow> rule_identity_input \<Rightarrow> identity_limits \<Rightarrow> rule_identities result" where
  "build_rule_identities sha x limits =
     and_then (stable_rule_identity sha (input_repository x) (input_kind x) (input_anchor x)
       (supporting_facts x) limits) (\<lambda>stable.
     and_then (evidence_identity sha (input_repository x) (supporting_facts x) limits) (\<lambda>evidence.
     and_then (contradiction_identity sha (input_repository x) (contradicting_facts x) limits) (\<lambda>contradiction.
     and_then (description_identity sha (input_repository x) (input_title x) (input_clauses x)
       (description_source x) limits) (\<lambda>description.
     and_then (continuity_identity sha (input_repository x) stable limits) (\<lambda>continuity.
       Inr \<lparr>stable_identity = stable, evidence_id = evidence, contradiction_id = contradiction,
            description_id = description, continuity_id = continuity,
            identities_provenance = identity_provenance\<rparr>)))))"


section \<open>The encoding is injective\<close>

lemma to_be_bytes_inject [simp]: "to_be_bytes v = to_be_bytes w \<longleftrightarrow> v = w"
proof
  assume eq: "to_be_bytes v = to_be_bytes w"
  show "v = w"
  proof (rule bit_word_eqI)
    fix n assume n: "n < LENGTH(64)"
    define i where "i = 7 - n div 8"
    have i: "i < 8" and n': "n = 8 * (7 - i) + n mod 8" using n by (auto simp: i_def)
    have byte: "unat (take_bit 8 (drop_bit k u :: u64)) < 256" for k u
      using take_bit_nat_less_exp [of 8 "unat (drop_bit k u)"] by (simp add: unsigned_take_bit_eq)
    have "to_be_bytes v ! i = to_be_bytes w ! i" using eq by simp
    then have "(char_of (unat (take_bit 8 (drop_bit (8 * (7 - i)) v))) :: char)
        = char_of (unat (take_bit 8 (drop_bit (8 * (7 - i)) w)))"
      using i by (simp add: to_be_bytes_def)
    then have "unat (take_bit 8 (drop_bit (8 * (7 - i)) v)) = unat (take_bit 8 (drop_bit (8 * (7 - i)) w))"
      using byte by (simp add: char_of_eq_iff take_bit_nat_eq_self)
    then have "take_bit 8 (drop_bit (8 * (7 - i)) v) = take_bit 8 (drop_bit (8 * (7 - i)) w)" by (simp only: word_unat_eq_iff)
    then have "bit (take_bit 8 (drop_bit (8 * (7 - i)) v)) (n mod 8) = bit (take_bit 8 (drop_bit (8 * (7 - i)) w)) (n mod 8)"
      by simp
    then show "bit v n = bit w n" using n' by (simp add: bit_take_bit_iff bit_drop_bit_eq)
  qed
qed simp

lemma length_to_be_bytes [simp]: "length (to_be_bytes w) = 8"
  by (simp add: to_be_bytes_def)

definition frame :: "string \<Rightarrow> string" where
  "frame v = to_be_bytes (word_of_nat (length v)) @ v"

definition frames :: "string list \<Rightarrow> string" where
  "frames vs = concat (map frame vs)"

definition short :: "string \<Rightarrow> bool" where
  "short v \<longleftrightarrow> length v < 2 ^ 64"

lemma length_word_inject:
  "short v \<Longrightarrow> short w \<Longrightarrow> (word_of_nat (length v) :: u64) = word_of_nat (length w) \<Longrightarrow> length v = length w"
  by (simp add: short_def word_of_nat_eq_iff take_bit_nat_eq_self)

lemma frames_inject:
  assumes "list_all short vs" and "list_all short ws"
  shows "frames vs = frames ws \<longleftrightarrow> vs = ws"
proof
  assume "frames vs = frames ws"
  with assms show "vs = ws"
  proof (induction vs arbitrary: ws)
    case Nil
    then show ?case by (cases ws) (auto simp: frames_def frame_def dest: arg_cong [where f = length])
  next
    case (Cons v vs)
    then obtain w ws' where ws: "ws = w # ws'"
      by (cases ws) (auto simp: frames_def frame_def dest: arg_cong [where f = length])
    with Cons.prems have eq: "to_be_bytes (word_of_nat (length v)) @ v @ frames vs
        = to_be_bytes (word_of_nat (length w)) @ w @ frames ws'" by (simp add: frames_def frame_def)
    then have "to_be_bytes (word_of_nat (length v)) = to_be_bytes (word_of_nat (length w))"
      and rest: "v @ frames vs = w @ frames ws'" by (simp_all add: append_eq_append_conv)
    then have "length v = length w" using Cons.prems ws by (auto intro: length_word_inject)
    with rest have "v = w" "frames vs = frames ws'" by (simp_all add: append_eq_append_conv)
    with Cons ws show ?case by auto
  qed
qed simp

text \<open>What a digest has absorbed, as the list of the values written.\<close>

definition absorbs :: "identity_digest \<Rightarrow> string list \<Rightarrow> bool" where
  "absorbs d vs \<longleftrightarrow> absorbed d = frames vs \<and> list_all short vs"

lemma write_absorbs:
  assumes "absorbs d vs" and "write_field v d = Inr d'"
  shows "absorbs d' (vs @ [v])"
  using assms
  by (auto simp: write_field_def absorbs_def checked_size_def frames_def frame_def short_def and_then_Inr reject_if_Inr
      split: option.splits if_splits)

lemma new_digest_absorbs: "new_digest tag m = Inr d \<Longrightarrow> absorbs d [tag]"
  using write_absorbs [of "\<lparr>absorbed = [], digest_bytes = 0, digest_max_bytes = m\<rparr>" "[]" tag d]
  by (auto simp: new_digest_def absorbs_def frames_def and_then_Inr)

definition count_field :: "nat \<Rightarrow> string" where
  "count_field n = to_be_bytes (word_of_nat n)"

lemma count_write: "count n = write_field (count_field n)"
  by (simp add: count_def number_def count_field_def)

lemma count_field_inject:
  "m < 2 ^ 64 \<Longrightarrow> n < 2 ^ 64 \<Longrightarrow> count_field m = count_field n \<longleftrightarrow> m = n"
  by (simp add: count_field_def word_of_nat_eq_iff take_bit_nat_eq_self)

lemma fold_absorbs:
  assumes step: "\<And>x d vs d'. absorbs d vs \<Longrightarrow> f x d = Inr d' \<Longrightarrow> absorbs d' (vs @ g x)"
    and "absorbs d vs" and "fold_result f xs d = Inr d'"
  shows "absorbs d' (vs @ concat (map g xs))"
  using assms(2,3)
proof (induction xs arbitrary: d vs)
  case (Cons x xs)
  then obtain d1 where "f x d = Inr d1" and "fold_result f xs d1 = Inr d'" by (auto simp: and_then_Inr)
  with Cons.IH [OF step [OF Cons.prems(1)]] show ?case by simp
qed simp

definition semantic_fields :: "semantic_key \<Rightarrow> string list" where
  "semantic_fields k = [fst k, snd k]"

definition span_fields :: "span_key \<Rightarrow> string list" where
  "span_fields = (\<lambda>(p, c, s, e). [p, c, to_be_bytes s, to_be_bytes e])"

definition evidence_fields :: "evidence_key \<Rightarrow> string list" where
  "evidence_fields = (\<lambda>(k, x, p, spans). [k, x, p, count_field (length spans)] @ concat (map span_fields spans))"

lemma write_semantic_facts_absorbs:
  assumes "absorbs d vs" and "write_semantic_facts ks d = Inr d'"
  shows "absorbs d' (vs @ concat (map semantic_fields ks))"
proof (rule fold_absorbs [OF _ assms(1) assms(2) [unfolded write_semantic_facts_def]], goal_cases)
  case (1 k d vs d')
  then show ?case
    by (cases k) (fastforce simp: and_then_Inr semantic_fields_def dest: write_absorbs)
qed

lemma write_span_absorbs:
  assumes "absorbs d vs" and "write_span s d = Inr d'"
  shows "absorbs d' (vs @ span_fields s)"
  using assms
  by (cases s) (fastforce simp: write_span_def span_fields_def number_def and_then_Inr dest: write_absorbs)

lemma write_evidence_fact_absorbs:
  assumes "absorbs d vs" and "write_evidence_fact f d = Inr d'"
  shows "absorbs d' (vs @ evidence_fields f)"
proof -
  obtain k x p spans where f: "f = (k, x, p, spans)" by (cases f)
  with assms obtain d1 where d1: "absorbs d1 (vs @ [k, x, p, count_field (length spans)])"
    and run: "fold_result write_span spans d1 = Inr d'"
    by (fastforce simp: write_evidence_fact_def count_write and_then_Inr dest: write_absorbs)
  from fold_absorbs [OF write_span_absorbs d1 run] show ?thesis by (simp add: f evidence_fields_def)
qed


section \<open>Normalized facts\<close>

lemma semantic_facts:
  "fold_result add_semantic_fact facts s = Inr t \<longleftrightarrow>
     list_all (\<lambda>f. validate_semantic_fact f = Inr ()) facts \<and>
     t = foldl (\<lambda>s x. bset_insert x s) s (map semantic_fact_key facts)"
  by (induction facts arbitrary: s) (auto simp: add_semantic_fact_def and_then_Inr)

lemma normalized_semantic_facts_Inr:
  "normalized_semantic_facts facts = Inr t \<longleftrightarrow>
     list_all (\<lambda>f. validate_semantic_fact f = Inr ()) facts \<and> t = bset_of (map semantic_fact_key facts)"
  by (simp add: normalized_semantic_facts_def semantic_facts bset_of_def)

lemma add_span_Inr:
  "add_span x s = Inr t \<Longrightarrow> span_key x \<notin> set s \<and> t = bset_insert (span_key x) s"
  by (auto simp: add_span_def and_then_Inr reject_if_Inr)

lemma spans_added:
  "fold_result add_span ss s = Inr t \<Longrightarrow>
     t = foldl (\<lambda>s x. bset_insert x s) s (map span_key ss) \<and> distinct (map span_key ss) \<and>
     set (map span_key ss) \<inter> set s = {}"
proof (induction ss arbitrary: s)
  case (Cons x ss)
  then obtain u where u: "add_span x s = Inr u" and rest: "fold_result add_span ss u = Inr t"
    by (auto simp: and_then_Inr)
  from add_span_Inr [OF u] Cons.IH [OF rest] show ?case by (auto simp: set_insort_insert)
qed simp

lemma add_evidence_fact_Inr:
  "add_evidence_fact limits f s = Inr t \<Longrightarrow>
     evidence_fact_key f \<notin> set s \<and> t = bset_insert (evidence_fact_key f) s \<and>
     length (fact_spans f) \<le> unat (max_spans_per_fact limits) \<and> distinct (map span_key (fact_spans f))"
  by (auto simp: add_evidence_fact_def and_then_Inr reject_if_Inr Let_def evidence_fact_key_def bset_of_def
      dest!: spans_added)

lemma evidence_facts:
  "fold_result (add_evidence_fact limits) facts s = Inr t \<Longrightarrow>
     t = foldl (\<lambda>s x. bset_insert x s) s (map evidence_fact_key facts) \<and>
     distinct (map evidence_fact_key facts) \<and> set (map evidence_fact_key facts) \<inter> set s = {} \<and>
     list_all (\<lambda>f. length (fact_spans f) \<le> unat (max_spans_per_fact limits) \<and>
        distinct (map span_key (fact_spans f))) facts"
proof (induction facts arbitrary: s)
  case (Cons f facts)
  then obtain u where u: "add_evidence_fact limits f s = Inr u"
    and rest: "fold_result (add_evidence_fact limits) facts u = Inr t" by (auto simp: and_then_Inr)
  from add_evidence_fact_Inr [OF u] Cons.IH [OF rest] show ?case by (auto simp: set_insort_insert)
qed simp

lemma normalized_evidence_facts_Inr:
  assumes "normalized_evidence_facts facts limits = Inr t"
  shows "t = bset_of (map evidence_fact_key facts)" and "distinct (map evidence_fact_key facts)"
    and "list_all (\<lambda>f. length (fact_spans f) \<le> unat (max_spans_per_fact limits)) facts"
  using evidence_facts [OF assms [unfolded normalized_evidence_facts_def]]
  by (auto simp: bset_of_def list_all_iff)

lemma length_bset_of: "length (bset_of xs) \<le> length xs"
  using bset_of_ok [of xs] by (metis bset_ok_iff card_length distinct_card set_bset_of)

lemma fact_count_bound: "validate_fact_count facts limits e = Inr () \<Longrightarrow> length facts < 2 ^ 64"
  using unsigned_less [of "max_facts limits"]
  by (auto simp: validate_fact_count_def reject_if_Inr not_less intro: le_less_trans)

section \<open>What each digest absorbs\<close>

lemma stable_rule_digest_absorbs:
  assumes "stable_rule_digest repository kind anchor facts limits = Inr d"
  shows "absorbs d ([STABLE_RULE_TAG, repository, rule_kind_name kind, fst (semantic_fact_key anchor),
      snd (semantic_fact_key anchor), count_field (length (bset_of (map semantic_fact_key facts)))]
      @ concat (map semantic_fields (bset_of (map semantic_fact_key facts))))"
proof -
  from assms obtain d1 where d1: "absorbs d1 [STABLE_RULE_TAG, repository, rule_kind_name kind,
      fst (semantic_fact_key anchor), snd (semantic_fact_key anchor),
      count_field (length (bset_of (map semantic_fact_key facts)))]"
    and run: "write_semantic_facts (bset_of (map semantic_fact_key facts)) d1 = Inr d"
    by (fastforce simp: stable_rule_digest_def and_then_Inr normalized_semantic_facts_Inr count_write
        dest: new_digest_absorbs write_absorbs)
  from write_semantic_facts_absorbs [OF d1 run] show ?thesis .
qed

lemma evidence_digest_absorbs:
  assumes "evidence_digest repository facts limits = Inr d"
  shows "absorbs d ([EVIDENCE_TAG, repository, count_field (length (bset_of (map evidence_fact_key facts)))]
      @ concat (map evidence_fields (bset_of (map evidence_fact_key facts))))"
proof -
  from assms obtain d1 where d1: "absorbs d1 [EVIDENCE_TAG, repository,
      count_field (length (bset_of (map evidence_fact_key facts)))]"
    and run: "fold_result write_evidence_fact (bset_of (map evidence_fact_key facts)) d1 = Inr d"
    by (fastforce simp: evidence_digest_def and_then_Inr count_write
        dest: new_digest_absorbs write_absorbs normalized_evidence_facts_Inr(1))
  from fold_absorbs [OF write_evidence_fact_absorbs d1 run] show ?thesis by simp
qed


lemma contradiction_digest_absorbs:
  assumes "contradiction_digest repository facts limits = Inr d"
  shows "absorbs d ([CONTRADICTION_TAG, repository, if facts = [] then ''empty-set:v1'' else ''facts:v1'',
      count_field (length (bset_of (map semantic_fact_key facts)))]
      @ concat (map semantic_fields (bset_of (map semantic_fact_key facts))))"
proof -
  have empty: "bset_of (map semantic_fact_key facts) = [] \<longleftrightarrow> facts = []"
    using set_bset_of [of "map semantic_fact_key facts"] by (metis Nil_is_map_conv set_empty)
  from assms obtain d1 where d1: "absorbs d1 [CONTRADICTION_TAG, repository,
      if facts = [] then ''empty-set:v1'' else ''facts:v1'',
      count_field (length (bset_of (map semantic_fact_key facts)))]"
    and run: "write_semantic_facts (bset_of (map semantic_fact_key facts)) d1 = Inr d"
    by (fastforce simp: contradiction_digest_def and_then_Inr normalized_semantic_facts_Inr count_write empty
        dest: new_digest_absorbs write_absorbs)
  from write_semantic_facts_absorbs [OF d1 run] show ?thesis .
qed

definition canonical :: "string \<Rightarrow> string" where
  "canonical v = join '' '' (split_whitespace v)"

lemma canonical_text_Inr: "canonical_text v m = Inr t \<Longrightarrow> t = canonical v"
  by (auto simp: canonical_text_def canonical_def and_then_Inr Let_def)

lemma canonical_texts:
  "map_result (\<lambda>c. canonical_text c m) cs = Inr ts \<Longrightarrow> ts = map canonical cs"
  by (induction cs arbitrary: ts) (auto simp: and_then_Inr dest: canonical_text_Inr)

lemma description_digest_absorbs:
  assumes "description_digest repository title clauses source limits = Inr d"
  shows "absorbs d ([DESCRIPTION_TAG, repository, source, canonical title, count_field (length clauses)]
      @ sort (map canonical clauses))"
proof -
  from assms obtain d1 where d1: "absorbs d1 [DESCRIPTION_TAG, repository, source, canonical title,
      count_field (length clauses)]"
    and run: "fold_result write_field (sort (map canonical clauses)) d1 = Inr d"
    by (fastforce simp: description_digest_def and_then_Inr count_write
        dest: new_digest_absorbs write_absorbs canonical_texts canonical_text_Inr)
  from fold_absorbs [where g = "\<lambda>v. [v]", OF write_absorbs d1 run] show ?thesis by simp
qed

lemma continuity_digest_absorbs:
  "continuity_digest repository rule_id limits = Inr d \<Longrightarrow> absorbs d [CONTINUITY_TAG, repository, rule_id]"
  by (fastforce simp: continuity_digest_def and_then_Inr dest: new_digest_absorbs write_absorbs)

section \<open>Reading the fields back\<close>

lemma semantic_fields_inject:
  "concat (map semantic_fields xs) = concat (map semantic_fields ys) \<longleftrightarrow> xs = ys"
proof (induction xs arbitrary: ys)
  case Nil
  then show ?case by (cases ys) (auto simp: semantic_fields_def)
next
  case (Cons x xs)
  show ?case
  proof (cases ys)
    case (Cons y ys')
    then show ?thesis using Cons.IH [of ys'] by (simp add: semantic_fields_def prod_eq_iff)
  qed (simp add: semantic_fields_def)
qed

lemma span_fields_inject:
  "length xs = length ys \<Longrightarrow>
     concat (map span_fields xs) @ r = concat (map span_fields ys) @ r' \<longleftrightarrow> xs = ys \<and> r = r'"
  by (induction xs ys rule: list_induct2) (auto simp: span_fields_def split_def prod_eq_iff)

definition countable_spans :: "evidence_key \<Rightarrow> bool" where
  "countable_spans k \<longleftrightarrow> length (snd (snd (snd k))) < 2 ^ 64"

lemma evidence_field_inject:
  assumes "countable_spans x" and "countable_spans y"
  shows "evidence_fields x @ r = evidence_fields y @ r' \<longleftrightarrow> x = y \<and> r = r'"
proof -
  obtain k e p ss where x: "x = (k, e, p, ss)" by (cases x)
  obtain k' e' p' ss' where y: "y = (k', e', p', ss')" by (cases y)
  show ?thesis
    using assms by (auto simp: x y evidence_fields_def countable_spans_def count_field_inject span_fields_inject)
qed

lemma evidence_fields_inject:
  "list_all countable_spans xs \<Longrightarrow> list_all countable_spans ys \<Longrightarrow>
     concat (map evidence_fields xs) = concat (map evidence_fields ys) \<longleftrightarrow> xs = ys"
proof (induction xs arbitrary: ys)
  case Nil
  then show ?case by (cases ys) (auto simp: evidence_fields_def)
next
  case (Cons x xs)
  show ?case
  proof (cases ys)
    case Nil
    then show ?thesis by (cases x) (auto simp: evidence_fields_def)
  next
    case (Cons y ys')
    with Cons.prems Cons.IH [of ys'] show ?thesis by (simp add: evidence_field_inject)
  qed
qed

lemma fact_kind_name_inject: "fact_kind_name k = fact_kind_name k' \<longleftrightarrow> k = k'"
  by (cases k; cases k'; simp)

lemma rule_kind_name_inject: "rule_kind_name k = rule_kind_name k' \<longleftrightarrow> k = k'"
  by (cases k; cases k'; simp)

lemma hex_digit_inject: "m < 16 \<Longrightarrow> n < 16 \<Longrightarrow> hex_digit m = hex_digit n \<longleftrightarrow> m = n"
  unfolding hex_digit_def by (rule nth_eq_iff_index_eq) (simp_all)

lemma hex_inject: "hex x = hex y \<longleftrightarrow> x = y"
proof
  have digits: "a = b" if "hex_digit (of_char a div 16) = hex_digit (of_char b div 16)"
    "hex_digit (of_char a mod 16) = hex_digit (of_char b mod 16)" for a b :: char
  proof -
    have "of_char c < (256 :: nat)" for c :: char by simp
    then have "of_char c div 16 < (16 :: nat)" for c :: char by (simp add: less_mult_imp_div_less)
    with that have "of_char a div (16 :: nat) = of_char b div 16" and "of_char a mod (16 :: nat) = of_char b mod 16"
      by (simp_all add: hex_digit_inject)
    then have "(of_char a :: nat) = of_char b" by (metis div_mult_mod_eq)
    then show ?thesis by simp
  qed
  show "hex x = hex y \<Longrightarrow> x = y"
  proof (induction x arbitrary: y)
    case Nil
    then show ?case by (cases y) (auto simp: hex_def)
  next
    case (Cons a x)
    then obtain b y' where y: "y = b # y'" by (cases y) (auto simp: hex_def)
    with Cons.prems have "hex x = hex y'" and "a = b" by (auto simp: hex_def intro: digits)
    with Cons.IH [of y'] y show ?case by simp
  qed
qed simp

lemma finish_eq:
  assumes "absorbs d vs" and "absorbs d' ws" and "inj_on sha {absorbed d, absorbed d'}"
  shows "finish sha d = finish sha d' \<longleftrightarrow> vs = ws"
proof -
  have "finish sha d = finish sha d' \<longleftrightarrow> absorbed d = absorbed d'"
    unfolding finish_def using inj_on_eq_iff [OF assms(3), of "absorbed d" "absorbed d'"] by (simp add: hex_inject)
  also have "\<dots> \<longleftrightarrow> vs = ws" using assms(1,2) by (simp add: absorbs_def frames_inject)
  finally show ?thesis .
qed

section \<open>What an identity identifies\<close>

lemma image_same_kernel:
  assumes "\<And>a b. f a = f b \<longleftrightarrow> g a = g b"
  shows "f ` A = f ` B \<longleftrightarrow> g ` A = g ` B"
proof -
  have sub: "h ` X \<subseteq> h ` Y \<longleftrightarrow> (\<forall>x \<in> X. \<exists>y \<in> Y. h x = h y)" for h :: "'z \<Rightarrow> 'w" and X Y by auto
  show ?thesis unfolding set_eq_subset sub assms ..
qed

text \<open>
  C26: A rule's stable identity identifies its meaning and nothing else. Of two rules whose
  encodings do not collide under the hash, the identities are equal exactly when repository, kind
  and anchor agree and the supporting facts are the same set of kinds and expressions; order,
  repetition, parsers and source locations do not matter.
\<close>

theorem stable_identity_is_semantic:
  assumes "stable_rule_digest repository kind anchor facts limits = Inr d"
    and "stable_rule_digest repository' kind' anchor' facts' limits' = Inr d'"
    and "inj_on sha {absorbed d, absorbed d'}"
  shows "stable_rule_identity sha repository kind anchor facts limits
        = stable_rule_identity sha repository' kind' anchor' facts' limits' \<longleftrightarrow>
      repository = repository' \<and> kind = kind' \<and> semantic_fact_key anchor = semantic_fact_key anchor' \<and>
      semantic_fact_key ` set facts = semantic_fact_key ` set facts'"
proof -
  have "finish sha d = finish sha d' \<longleftrightarrow>
      repository = repository' \<and> kind = kind' \<and> semantic_fact_key anchor = semantic_fact_key anchor' \<and>
      bset_of (map semantic_fact_key facts) = bset_of (map semantic_fact_key facts')"
    unfolding finish_eq [OF stable_rule_digest_absorbs [OF assms(1)] stable_rule_digest_absorbs [OF assms(2)] assms(3)]
    by (auto simp: rule_kind_name_inject semantic_fields_inject prod_eq_iff)
  then show ?thesis by (simp add: stable_rule_identity_def assms(1,2) bset_of_eq_iff)
qed

text \<open>
  C27: A rule's evidence identity changes with any change of its evidence. It identifies the
  repository and the set of facts, each with its kind, expression, parser and exact set of spans.
\<close>

theorem evidence_identity_is_exact:
  assumes "evidence_digest repository facts limits = Inr d"
    and "evidence_digest repository' facts' limits' = Inr d'"
    and "inj_on sha {absorbed d, absorbed d'}"
  shows "evidence_identity sha repository facts limits = evidence_identity sha repository' facts' limits' \<longleftrightarrow>
      repository = repository' \<and>
      (\<lambda>f. (fact_kind f, semantic_expression f, parser_identity f, span_key ` set (fact_spans f))) ` set facts
      = (\<lambda>f. (fact_kind f, semantic_expression f, parser_identity f, span_key ` set (fact_spans f))) ` set facts'"
proof -
  let ?norm = "\<lambda>facts. bset_of (map evidence_fact_key facts)"
  have spans: "list_all countable_spans (?norm fs)" if "evidence_digest r fs l = Inr e" for r fs l e
  proof -
    from that have "list_all (\<lambda>f. length (fact_spans f) \<le> unat (max_spans_per_fact l)) fs"
      by (auto simp: evidence_digest_def and_then_Inr dest: normalized_evidence_facts_Inr(3))
    moreover have "unat (max_spans_per_fact l) < 2 ^ 64" using unsigned_less [of "max_spans_per_fact l"] by simp
    ultimately have "countable_spans (evidence_fact_key f)" if "f \<in> set fs" for f
      using that length_bset_of [of "map span_key (fact_spans f)"]
      by (fastforce simp: list_all_iff countable_spans_def evidence_fact_key_def)
    then show ?thesis by (auto simp: list_all_iff)
  qed
  have same_key: "evidence_fact_key f = evidence_fact_key g \<longleftrightarrow>
      (fact_kind f, semantic_expression f, parser_identity f, span_key ` set (fact_spans f))
      = (fact_kind g, semantic_expression g, parser_identity g, span_key ` set (fact_spans g))" for f g
    by (auto simp: evidence_fact_key_def fact_kind_name_inject bset_of_eq_iff)
  have "finish sha d = finish sha d' \<longleftrightarrow> repository = repository' \<and> ?norm facts = ?norm facts'"
    unfolding finish_eq [OF evidence_digest_absorbs [OF assms(1)] evidence_digest_absorbs [OF assms(2)] assms(3)]
    using evidence_fields_inject [OF spans [OF assms(1)] spans [OF assms(2)]] by auto
  also have "?norm facts = ?norm facts' \<longleftrightarrow> evidence_fact_key ` set facts = evidence_fact_key ` set facts'"
    by (simp add: bset_of_eq_iff)
  also have "\<dots> \<longleftrightarrow>
      (\<lambda>f. (fact_kind f, semantic_expression f, parser_identity f, span_key ` set (fact_spans f))) ` set facts
      = (\<lambda>f. (fact_kind f, semantic_expression f, parser_identity f, span_key ` set (fact_spans f))) ` set facts'"
    by (rule image_same_kernel) (rule same_key)
  finally show ?thesis by (simp add: evidence_identity_def assms(1,2))
qed


section \<open>Room\<close>

lemma write_fits:
  assumes "unat (digest_bytes d) + 8 + length v \<le> unat (digest_max_bytes d)"
  shows "write_field v d = Inr (d\<lparr>absorbed := absorbed d @ frame v,
     digest_bytes := digest_bytes d + 8 + word_of_nat (length v)\<rparr>)"
    and "unat (digest_bytes d + 8 + word_of_nat (length v)) = unat (digest_bytes d) + 8 + length v"
proof -
  have "unat (digest_max_bytes d) < 2 ^ 64" using unsigned_less [of "digest_max_bytes d"] by simp
  then have small: "unat (digest_bytes d) + 8 + length v < 2 ^ 64" using assms by simp
  then show eq: "unat (digest_bytes d + 8 + word_of_nat (length v)) = unat (digest_bytes d) + 8 + length v"
    by (simp add: unat_word_ariths unat_of_nat)
  have "word_of_nat (unat (digest_bytes d) + 8 + length v) = digest_bytes d + 8 + word_of_nat (length v)" by simp
  then show "write_field v d = Inr (d\<lparr>absorbed := absorbed d @ frame v,
     digest_bytes := digest_bytes d + 8 + word_of_nat (length v)\<rparr>)"
    using small assms eq
    by (simp add: write_field_def checked_size_def frame_def word_less_nat_alt reject_if_def not_less)
qed

definition room :: "identity_digest \<Rightarrow> nat" where
  "room d = unat (digest_max_bytes d) - unat (digest_bytes d)"

text \<open>\<open>takes n f\<close>: within \<open>n\<close> bytes of room \<open>f\<close> succeeds, and uses no more than that.\<close>

definition takes :: "nat \<Rightarrow> (identity_digest \<Rightarrow> identity_digest result) \<Rightarrow> bool" where
  "takes n f \<longleftrightarrow> (\<forall>d. n \<le> room d \<longrightarrow> (\<exists>d'. f d = Inr d' \<and> room d - n \<le> room d'))"

lemma takes_write: "8 + length v \<le> n \<Longrightarrow> takes n (write_field v)"
  unfolding takes_def
proof (intro allI impI, goal_cases)
  case (1 d)
  then show ?case using write_fits [of d v] by (auto simp: room_def)
qed

lemma takes_seq:
  assumes "takes m f" and "takes n g"
  shows "takes (m + n) (\<lambda>d. and_then (f d) g)"
  unfolding takes_def
proof (intro allI impI)
  fix d
  assume d: "m + n \<le> room d"
  with assms(1) obtain d1 where d1: "f d = Inr d1" "room d - m \<le> room d1" by (force simp: takes_def)
  with d assms(2) obtain d2 where "g d1 = Inr d2" "room d1 - n \<le> room d2" by (force simp: takes_def)
  with d1 show "\<exists>d'. and_then (f d) g = Inr d' \<and> room d - (m + n) \<le> room d'" by simp
qed

lemma takes_fold: "(\<And>x. x \<in> set xs \<Longrightarrow> takes n (f x)) \<Longrightarrow> takes (length xs * n) (fold_result f xs)"
proof (induction xs)
  case Nil
  then show ?case by (simp add: takes_def)
next
  case (Cons x xs)
  then have "takes (n + length xs * n) (\<lambda>d. and_then (f x d) (fold_result f xs))" by (intro takes_seq) simp_all
  moreover have "fold_result f (x # xs) = (\<lambda>d. and_then (f x d) (fold_result f xs))" by (rule ext) simp
  ultimately show ?case by simp
qed

lemma takes_more: "takes n f \<Longrightarrow> n \<le> m \<Longrightarrow> takes m f"
  by (force simp: takes_def)

lemma new_digest_takes:
  assumes "takes n f" and "8 + length tag + n \<le> unat m"
  shows "\<exists>e. and_then (new_digest tag m) f = Inr e"
proof -
  let ?d = "\<lparr>absorbed = [], digest_bytes = 0, digest_max_bytes = m\<rparr>"
  have nonzero: "m \<noteq> 0" using assms(2) by (auto simp: unat_eq_0)
  have "takes (8 + length tag + n) (\<lambda>d. and_then (write_field tag d) f)"
    by (intro takes_seq takes_write assms(1)) simp
  moreover have "8 + length tag + n \<le> room ?d" using assms(2) by (simp add: room_def)
  ultimately have "\<exists>e. and_then (write_field tag ?d) f = Inr e" by (meson takes_def)
  with nonzero show ?thesis by (simp add: new_digest_def)
qed

lemma semantic_key_length:
  assumes "validate_semantic_fact f = Inr ()"
  shows "length (fst (semantic_fact_key f)) \<le> 14" and "length (snd (semantic_fact_key f)) = 74"
proof -
  show "length (fst (semantic_fact_key f)) \<le> 14" by (cases "fact_kind f") (simp_all add: semantic_fact_key_def)
  show "length (snd (semantic_fact_key f)) = 74"
    using assms by (auto simp: validate_semantic_fact_def reject_if_Inr hex_identity_def starts_with_iff semantic_fact_key_def)
qed

lemma takes_semantic_facts:
  assumes "list_all (\<lambda>f. validate_semantic_fact f = Inr ()) facts"
  shows "takes (length (bset_of (map semantic_fact_key facts)) * 104)
    (write_semantic_facts (bset_of (map semantic_fact_key facts)))"
  unfolding write_semantic_facts_def
proof (rule takes_fold)
  fix k
  assume "k \<in> set (bset_of (map semantic_fact_key facts))"
  then obtain f where k: "k = semantic_fact_key f" and "validate_semantic_fact f = Inr ()"
    using assms by (auto simp: list_all_iff)
  note len = semantic_key_length [OF this(2)]
  have "takes (22 + 82) (\<lambda>d. and_then (write_field (fst k) d) (write_field (snd k)))"
    using len by (intro takes_seq takes_write) (simp_all add: k)
  then show "takes 104 (case k of (kind, expression) \<Rightarrow> \<lambda>d. and_then (write_field kind d) (write_field expression))"
    by (simp add: split_def)
qed

lemma repository_length: "validate_repository r = Inr () \<Longrightarrow> length r \<le> 256"
  by (auto simp: validate_repository_def validate_component_def and_then_Inr reject_if_Inr)

lemma stable_rule_digest_total:
  assumes "validate_repository repository = Inr ()" and "facts \<noteq> []" and "length facts \<le> 256"
    and "list_all (\<lambda>f. validate_semantic_fact f = Inr ()) facts" and "anchor \<in> set facts"
  shows "\<exists>d. stable_rule_digest repository kind anchor facts default_identity_limits = Inr d"
proof -
  let ?ks = "bset_of (map semantic_fact_key facts)"
  have anchor: "validate_semantic_fact anchor = Inr ()" using assms(4,5) by (auto simp: list_all_iff)
  have kind: "length (rule_kind_name kind) \<le> 11" by (cases kind) simp_all
  have checks: "validate_fact_count facts default_identity_limits False = Inr ()"
      "validate_repository repository = Inr ()" "validate_semantic_fact anchor = Inr ()"
    using assms(1-3) anchor by (simp_all add: validate_fact_count_def default_identity_limits_def)
  have limit: "max_identity_bytes default_identity_limits = 2097152" by (simp add: default_identity_limits_def)
  have norm: "normalized_semantic_facts facts = Inr ?ks"
    using assms(4) by (simp add: normalized_semantic_facts_Inr)
  have member: "semantic_fact_key anchor \<in> semantic_fact_key ` set facts" using assms(5) by simp
  have "length ?ks \<le> 256" using length_bset_of [of "map semantic_fact_key facts"] assms(3) by simp
  then have facts: "takes (256 * 104) (write_semantic_facts ?ks)"
    by (intro takes_more [OF takes_semantic_facts [OF assms(4)]]) simp
  have "takes (264 + (19 + (22 + (82 + (16 + 256 * 104)))))
      (\<lambda>d. and_then (write_field repository d) (\<lambda>d. and_then (write_field (rule_kind_name kind) d)
      (\<lambda>d. and_then (write_field (fst (semantic_fact_key anchor)) d)
      (\<lambda>d. and_then (write_field (snd (semantic_fact_key anchor)) d)
      (\<lambda>d. and_then (count (length ?ks) d) (write_semantic_facts ?ks))))))"
    unfolding count_write
    by (intro takes_seq takes_write facts)
      (use repository_length [OF assms(1)] kind semantic_key_length [OF anchor] in \<open>simp_all add: count_field_def\<close>)
  from new_digest_takes [OF this, of STABLE_RULE_TAG "2097152"] show ?thesis
    unfolding stable_rule_digest_def by (simp add: checks norm member limit STABLE_RULE_TAG_def)
qed

text \<open>
  Within the default limits the byte bound never stands in the way of a stable identity: a
  rule of at most 256 well-formed supporting facts, its anchor among them, in a valid repository,
  always gets one.
\<close>

theorem stable_identity_is_total:
  assumes "validate_repository repository = Inr ()" and "facts \<noteq> []" and "length facts \<le> 256"
    and "list_all (\<lambda>f. validate_semantic_fact f = Inr ()) facts" and "anchor \<in> set facts"
  shows "is_ok (stable_rule_identity sha repository kind anchor facts default_identity_limits)"
  using stable_rule_digest_total [OF assms, of kind] by (auto simp: stable_rule_identity_def)


section \<open>Examples\<close>

definition example_expression :: "char \<Rightarrow> string" where
  "example_expression c = ''v1:sha256:'' @ replicate 64 c"

definition example_fact :: "char \<Rightarrow> u64 \<Rightarrow> identity_fact" where
  "example_fact c n =
     \<lparr>fact_kind = PredicateFact, semantic_expression = example_expression c, parser_identity = ''cobol:1'',
      fact_spans = [\<lparr>path_identity = ''p1'', content_hash = replicate 64 c, start_byte = n, end_byte = n + 9\<rparr>]\<rparr>"

lemma example_expressions_differ: "example_expression (CHR ''a'') \<noteq> example_expression (CHR ''b'')"
  by code_simp

lemma example_repository: "validate_repository ''repo'' = Inr ()"
  by code_simp

lemma example_facts:
  "list_all (\<lambda>f. validate_semantic_fact f = Inr ()) [example_fact (CHR ''a'') m, example_fact (CHR ''b'') n]"
  by (simp add: example_fact_def example_expression_def validate_semantic_fact_def hex_identity_def)
    (simp add: list_all_iff is_ascii_hexdigit_def is_ascii_digit_def is_ascii_uppercase_def)

lemma stable_identity_is_semantic_witness:
  "stable_rule_identity (\<lambda>b. b) ''repo'' ValidationRule (example_fact (CHR ''a'') 0)
       [example_fact (CHR ''a'') 0, example_fact (CHR ''b'') 0] default_identity_limits
   = stable_rule_identity (\<lambda>b. b) ''repo'' ValidationRule (example_fact (CHR ''a'') 5)
       [example_fact (CHR ''b'') 3, example_fact (CHR ''a'') 5, example_fact (CHR ''b'') 9] default_identity_limits"
proof -
  obtain d where d: "stable_rule_digest ''repo'' ValidationRule (example_fact (CHR ''a'') 0)
      [example_fact (CHR ''a'') 0, example_fact (CHR ''b'') 0] default_identity_limits = Inr d"
    using stable_rule_digest_total [OF example_repository] example_facts [of 0 0] by fastforce
  obtain d' where d': "stable_rule_digest ''repo'' ValidationRule (example_fact (CHR ''a'') 5)
      [example_fact (CHR ''b'') 3, example_fact (CHR ''a'') 5, example_fact (CHR ''b'') 9] default_identity_limits = Inr d'"
    using stable_rule_digest_total [OF example_repository, of "[example_fact (CHR ''b'') 3, example_fact (CHR ''a'') 5, example_fact (CHR ''b'') 9]"]
      example_facts [of 5 3] example_facts [of 5 9] by fastforce
  show ?thesis
    using stable_identity_is_semantic [OF d d', of "\<lambda>b. b"]
    by (auto simp: semantic_fact_key_def example_fact_def)
qed

lemma stable_identity_is_total_witness:
  "is_ok (stable_rule_identity (\<lambda>b. b) ''repo'' ValidationRule (example_fact (CHR ''a'') 0)
     [example_fact (CHR ''a'') 0, example_fact (CHR ''b'') 0] default_identity_limits)"
  by (rule stable_identity_is_total [OF example_repository])
    (use example_facts [of 0 0] in simp_all)

lemma example_evidence:
  assumes "normalized_evidence_facts facts default_identity_limits
      = Inr (map evidence_fact_key [example_fact (CHR ''a'') m, example_fact (CHR ''b'') n])"
    and "facts \<noteq> []" and "length facts \<le> 256"
  shows "\<exists>d. evidence_digest ''repo'' facts default_identity_limits = Inr d"
proof -
  let ?ks = "map evidence_fact_key [example_fact (CHR ''a'') m, example_fact (CHR ''b'') n]"
  have key: "evidence_fact_key (example_fact c n) =
      (''predicate'', example_expression c, ''cobol:1'', [(''p1'', replicate 64 c, n, n + 9)])" for c n
    by (simp add: evidence_fact_key_def example_fact_def span_key_def bset_of_single)
  have fact: "takes 1000 (write_evidence_fact (evidence_fact_key (example_fact c n)))" for c n
  proof -
    have "takes (10 + (72 + (16 + 16))) (\<lambda>d. and_then (write_field ''p1'' d)
        (\<lambda>d. and_then (write_field (replicate 64 c) d)
        (\<lambda>d. and_then (number n d) (number (n + 9)))))"
      unfolding number_def by (intro takes_seq takes_write) simp_all
    then have span: "takes 200 (fold_result write_span [(''p1'', replicate 64 c, n, n + 9)])"
      using takes_fold [of "[(''p1'', replicate 64 c, n, n + 9)]" 114 write_span]
      by (auto simp: write_span_def takes_more)
    have "takes (17 + (82 + (15 + (16 + 200)))) (\<lambda>d. and_then (write_field ''predicate'' d)
        (\<lambda>d. and_then (write_field (example_expression c) d) (\<lambda>d. and_then (write_field ''cobol:1'' d)
        (\<lambda>d. and_then (count 1 d) (fold_result write_span [(''p1'', replicate 64 c, n, n + 9)])))))"
      unfolding count_write
      by (intro takes_seq takes_write span) (simp_all add: count_field_def example_expression_def)
    then show ?thesis by (simp add: key write_evidence_fact_def takes_more)
  qed
  have facts: "takes (2 * 1000) (fold_result write_evidence_fact ?ks)"
  proof -
    have "takes (length ?ks * 1000) (fold_result write_evidence_fact ?ks)" by (rule takes_fold) (use fact in auto)
    then show ?thesis by simp
  qed
  have "takes (12 + (16 + 2 * 1000)) (\<lambda>d. and_then (write_field ''repo'' d) (\<lambda>d. and_then (count (length ?ks) d)
      (fold_result write_evidence_fact ?ks)))"
    unfolding count_write by (intro takes_seq takes_write facts) (simp_all add: count_field_def)
  note run = new_digest_takes [OF this, of EVIDENCE_TAG "2097152"]
  have "validate_fact_count facts default_identity_limits False = Inr ()"
    and "max_identity_bytes default_identity_limits = 2097152"
    using assms(2,3) by (simp_all add: validate_fact_count_def default_identity_limits_def)
  then show ?thesis
    unfolding evidence_digest_def assms(1) using run by (simp add: example_repository EVIDENCE_TAG_def)
qed

lemma example_order: "evidence_fact_key (example_fact (CHR ''a'') m) < evidence_fact_key (example_fact (CHR ''b'') n)"
proof -
  have "example_expression (CHR ''a'') < example_expression (CHR ''b'')" by code_simp
  then show ?thesis by (simp add: evidence_fact_key_def example_fact_def less_prod_def)
qed

lemma example_evidence_added:
  assumes "c \<in> {CHR ''a'', CHR ''b''}" and "n \<le> n + 9" and "evidence_fact_key (example_fact c n) \<notin> set s"
  shows "add_evidence_fact default_identity_limits (example_fact c n) s
    = Inr (bset_insert (evidence_fact_key (example_fact c n)) s)"
proof -
  have valid: "validate_component ''cobol:1'' ''parser identity'' = Inr ()"
    "validate_component ''p1'' ''path identity'' = Inr ()" by code_simp+
  have digest: "hex_identity (replicate 64 c) 64" and expression: "validate_semantic_fact (example_fact c n) = Inr ()"
    using assms(1) example_facts [of n n] by (auto simp: hex_identity_def list_all_iff is_ascii_digit_def is_ascii_hexdigit_def is_ascii_uppercase_def)
  have "fold_result add_span (fact_spans (example_fact c n)) [] = Inr [(''p1'', replicate 64 c, n, n + 9)]"
    using assms(2) valid(2) digest by (simp add: example_fact_def add_span_def span_key_def reject_if_def not_less
      insort_insert_key_def)
  with assms(3) valid(1) expression show ?thesis
    by (simp add: add_evidence_fact_def evidence_fact_key_def example_fact_def default_identity_limits_def
        span_key_def bset_of_single)
qed

lemma example_evidence_facts:
  "normalized_evidence_facts [example_fact (CHR ''a'') 0, example_fact (CHR ''b'') 0] default_identity_limits
    = Inr (map evidence_fact_key [example_fact (CHR ''a'') 0, example_fact (CHR ''b'') 0])"
  "normalized_evidence_facts [example_fact (CHR ''b'') 0, example_fact (CHR ''a'') 1] default_identity_limits
    = Inr (map evidence_fact_key [example_fact (CHR ''a'') 1, example_fact (CHR ''b'') 0])"
  using example_order [of 0 0] example_order [of 1 0]
  by (simp_all add: normalized_evidence_facts_def example_evidence_added insort_insert_key_def less_imp_le less_imp_neq
      less_imp_neq [symmetric])

lemma evidence_identity_is_exact_witness:
  "evidence_identity (\<lambda>b. b) ''repo'' [example_fact (CHR ''a'') 0, example_fact (CHR ''b'') 0] default_identity_limits
   \<noteq> evidence_identity (\<lambda>b. b) ''repo'' [example_fact (CHR ''b'') 0, example_fact (CHR ''a'') 1] default_identity_limits"
proof -
  obtain d where d: "evidence_digest ''repo'' [example_fact (CHR ''a'') 0, example_fact (CHR ''b'') 0] default_identity_limits = Inr d"
    using example_evidence [OF example_evidence_facts(1)] by auto
  obtain d' where d': "evidence_digest ''repo'' [example_fact (CHR ''b'') 0, example_fact (CHR ''a'') 1] default_identity_limits = Inr d'"
    using example_evidence [OF example_evidence_facts(2)] by auto
  show ?thesis
    unfolding evidence_identity_is_exact [OF d d', of "\<lambda>b. b", simplified]
    using example_expressions_differ by (simp add: example_fact_def span_key_def doubleton_eq_iff)
qed

end
