(* ===== verification/GraphQuery.thy ===== *)
theory GraphQuery
  imports Prelude "HOL-Library.Multiset" "HOL-Library.Code_Target_Nat"
begin

text \<open>
  Queries over the structural graph, \<open>structural_graph/query\<close>: resolving a reference, explaining a
  node, its neighbours page by page, the impact of a change, subgraphs, communities and the
  overview, the difference of two snapshots, and the byte limit on each answer. The number of bytes
  of an answer (\<open>serde_json\<close>) and the Unicode lower casing of the standard library are parameters;
  hash maps whose order never shows are functions.
\<close>

section \<open>Data\<close>

definition DEFAULT_LIMIT :: nat where "DEFAULT_LIMIT = 50"
definition MAX_LIMIT :: nat where "MAX_LIMIT = 500"
definition MAX_EDGE_LIMIT :: nat where "MAX_EDGE_LIMIT = 2000"
definition GRAPH_RESPONSE_BYTES :: nat where "GRAPH_RESPONSE_BYTES = 1024 * 1024"
definition MAX_PATH_HOPS :: nat where "MAX_PATH_HOPS = 32"
definition MAX_DIFF_IDS :: nat where "MAX_DIFF_IDS = 500"

datatype graph_trust = Extracted | Inferred | Ambiguous | Legacy

datatype graph_origin =
    Syntax | Resolution | Analysis | Metadata | ExtractedOrigin | Deterministic | ModelSynthesized | HumanConfirmed
  | ImportedNodeLink | UserAnnotation | LegacyMetadata

record source_anchor =
  anchor_path :: string
  start_line :: "nat option"
  start_column :: "nat option"
  end_line :: "nat option"
  end_column :: "nat option"
  excerpt :: "string option"

record graph_node =
  node_id :: string
  node_kind :: string
  node_label :: string
  qualified_name :: "string option"
  node_path :: "string option"
  node_detail :: "string option"
  node_language :: "string option"
  community_id :: "string option"
  node_trust :: graph_trust
  node_origin :: graph_origin
  node_sources :: "source_anchor list"

record graph_edge =
  edge_id :: string
  edge_from :: string
  edge_to :: string
  edge_kind :: string
  edge_evidence :: string
  edge_trust :: graph_trust
  edge_origin :: graph_origin
  edge_sources :: "source_anchor list"
  edge_candidates :: "string list"

text \<open>
  The parts of a snapshot the queries read: its identity and engine, the identities of its
  communities, its nodes and edges. Coverage is copied into answers unread.
\<close>

record 'c graph_snapshot =
  schema_version :: int
  snapshot_id :: string
  repo_head :: "string option"
  created_at :: string
  engine_id :: string
  engine_version :: string
  coverage :: 'c
  communities :: "string list"
  nodes :: "graph_node list"
  edges :: "graph_edge list"

datatype graph_direction = Incoming | Outgoing | Both

record graph_filter =
  node_kinds :: "string list"
  edge_kinds :: "string list"
  trusts :: "graph_trust list"

record trust_summary =
  extracted_count :: nat
  inferred_count :: nat
  ambiguous_count :: nat
  legacy_count :: nat

record graph_freshness =
  indexed_head :: "string option"
  current_head :: "string option"
  stale :: "bool option"

record 'c graph_query_context =
  context_snapshot :: string
  context_schema :: int
  context_engine :: string
  context_engine_version :: string
  context_created :: string
  freshness :: graph_freshness
  context_coverage :: 'c
  trust_counts :: trust_summary
  max_results :: nat
  max_edges :: nat
  max_hops :: nat
  max_bytes :: nat

record 'c graph_projection =
  projected_nodes :: "graph_node list"
  projected_edges :: "graph_edge list"
  truncated :: bool
  next_cursor :: "string option"
  projection_context :: "'c graph_query_context"

record 'c graph_explanation =
  explained_node :: graph_node
  incoming_count :: nat
  outgoing_count :: nat
  incoming_kinds :: "string list"
  outgoing_kinds :: "string list"
  explanation_truncated :: bool
  explanation_context :: "'c graph_query_context"

record 'c graph_impact =
  impact_root :: graph_node
  affected :: "graph_node list"
  impact_edges :: "graph_edge list"
  depth_reached :: nat
  impact_truncated :: bool
  impact_context :: "'c graph_query_context"

record 'c graph_diff =
  before_snapshot :: string
  after_snapshot :: string
  added_nodes :: "string list"
  removed_nodes :: "string list"
  changed_nodes :: "string list"
  added_edges :: "string list"
  removed_edges :: "string list"
  changed_edges :: "string list"
  diff_truncated :: bool
  diff_context :: "'c graph_query_context"

section \<open>Context\<close>

definition count_trust :: "graph_trust \<Rightarrow> 'c graph_snapshot \<Rightarrow> nat" where
  "count_trust t s =
     length (filter (\<lambda>u. u = t) (map node_trust (nodes s) @ map edge_trust (edges s)))"

definition trust_summary_of :: "'c graph_snapshot \<Rightarrow> trust_summary" where
  "trust_summary_of s =
     \<lparr>extracted_count = count_trust Extracted s, inferred_count = count_trust Inferred s,
      ambiguous_count = count_trust Ambiguous s, legacy_count = count_trust Legacy s\<rparr>"

definition query_context :: "'c graph_snapshot \<Rightarrow> 'c graph_query_context" where
  "query_context s =
     \<lparr>context_snapshot = snapshot_id s, context_schema = schema_version s, context_engine = engine_id s,
      context_engine_version = engine_version s, context_created = created_at s,
      freshness = \<lparr>indexed_head = repo_head s, current_head = None, stale = None\<rparr>,
      context_coverage = coverage s, trust_counts = trust_summary_of s, max_results = MAX_LIMIT,
      max_edges = MAX_EDGE_LIMIT, max_hops = MAX_PATH_HOPS, max_bytes = GRAPH_RESPONSE_BYTES\<rparr>"

text \<open>What the services add when they know the live head.\<close>

definition observe_current_head :: "string option \<Rightarrow> 'c graph_query_context \<Rightarrow> 'c graph_query_context" where
  "observe_current_head head c =
     c\<lparr>freshness := (freshness c)\<lparr>
         stale := map_option (\<lambda>h. indexed_head (freshness c) \<noteq> Some h) head, current_head := head\<rparr>\<rparr>"

section \<open>Limits and cursors\<close>

definition bounded_limit :: "nat option \<Rightarrow> nat" where
  "bounded_limit limit = max 1 (min MAX_LIMIT (case limit of None \<Rightarrow> DEFAULT_LIMIT | Some n \<Rightarrow> n))"

text \<open>\<open>str::parse::<usize>\<close> for unsigned decimal numbers: an optional plus sign and digits, in range.\<close>

fun digits_value :: "nat \<Rightarrow> string \<Rightarrow> nat option" where
  "digits_value acc [] = Some acc"
| "digits_value acc (c # cs) =
     (if is_ascii_digit c then digits_value (acc * 10 + (byte c - 48)) cs else None)"

definition parse_usize :: "string \<Rightarrow> nat option" where
  "parse_usize s =
     (let ds = (case s of c # cs \<Rightarrow> (if c = CHR ''+'' then cs else s) | [] \<Rightarrow> [])
      in if ds = [] then None
         else (case digits_value 0 ds of
                 Some n \<Rightarrow> if n < 2 ^ 64 then Some n else None
               | None \<Rightarrow> None))"

definition parse_cursor :: "string option \<Rightarrow> nat result" where
  "parse_cursor cursor =
     (case parse_usize (case cursor of None \<Rightarrow> ''0'' | Some c \<Rightarrow> c) of
        None \<Rightarrow> Inl ''Graph cursor is invalid or expired''
      | Some n \<Rightarrow> Inr n)"

definition strip_excerpts :: "source_anchor list \<Rightarrow> source_anchor list" where
  "strip_excerpts = map (\<lambda>a. a\<lparr>excerpt := None\<rparr>)"

definition strip_node_excerpts :: "graph_node \<Rightarrow> graph_node" where
  "strip_node_excerpts n = n\<lparr>node_sources := strip_excerpts (node_sources n)\<rparr>"

definition strip_edge_excerpts :: "graph_edge \<Rightarrow> graph_edge" where
  "strip_edge_excerpts e = e\<lparr>edge_sources := strip_excerpts (edge_sources e)\<rparr>"

text \<open>\<open>while too_big && !edges.is_empty() { edges.pop() }\<close>, and the like for nodes.\<close>

function pop_edges :: "('c graph_projection \<Rightarrow> nat) \<Rightarrow> 'c graph_projection \<Rightarrow> 'c graph_projection" where
  "pop_edges bytes p =
     (if GRAPH_RESPONSE_BYTES < bytes p \<and> projected_edges p \<noteq> []
      then pop_edges bytes (p\<lparr>projected_edges := butlast (projected_edges p)\<rparr>) else p)"
  by pat_completeness auto
termination by (relation "measure (\<lambda>(_, p). length (projected_edges p))") auto

declare pop_edges.simps [simp del]

text \<open>\<open>rposition\<close> and \<open>remove\<close>: the last element with the property goes.\<close>

fun remove_last :: "('a \<Rightarrow> bool) \<Rightarrow> 'a list \<Rightarrow> 'a list option" where
  "remove_last p [] = None"
| "remove_last p (x # xs) =
     (case remove_last p xs of
        Some ys \<Rightarrow> Some (x # ys)
      | None \<Rightarrow> if p x then Some xs else None)"

lemma remove_last_length: "remove_last p xs = Some ys \<Longrightarrow> length ys < length xs"
  by (induction xs arbitrary: ys) (auto split: option.splits if_splits)

function pop_nodes ::
  "('c graph_projection \<Rightarrow> nat) \<Rightarrow> string list \<Rightarrow> 'c graph_projection \<Rightarrow> 'c graph_projection" where
  "pop_nodes bytes keep p =
     (if GRAPH_RESPONSE_BYTES < bytes p
      then (case remove_last (\<lambda>n. node_id n \<notin> set keep) (projected_nodes p) of
              None \<Rightarrow> p
            | Some ns \<Rightarrow> pop_nodes bytes keep (p\<lparr>projected_nodes := ns\<rparr>))
      else p)"
  by pat_completeness auto
termination
  by (relation "measure (\<lambda>(_, _, p). length (projected_nodes p))") (auto dest: remove_last_length)

declare pop_nodes.simps [simp del]

definition both_ends_in :: "string set \<Rightarrow> graph_edge \<Rightarrow> bool" where
  "both_ends_in ids e \<longleftrightarrow> edge_from e \<in> ids \<and> edge_to e \<in> ids"

definition enforce_projection_bytes ::
  "('c graph_projection \<Rightarrow> nat) \<Rightarrow> string list \<Rightarrow> 'c graph_projection \<Rightarrow> 'c graph_projection" where
  "enforce_projection_bytes bytes keep p =
     (if bytes p \<le> GRAPH_RESPONSE_BYTES then p
      else
        (let stripped = p\<lparr>truncated := True, projected_nodes := map strip_node_excerpts (projected_nodes p),
                          projected_edges := map strip_edge_excerpts (projected_edges p)\<rparr>;
             small = pop_nodes bytes keep (pop_edges bytes stripped)
         in small\<lparr>projected_edges :=
              filter (both_ends_in (node_id ` set (projected_nodes small))) (projected_edges small)\<rparr>))"

section \<open>Resolving a reference\<close>

text \<open>\<open>trim().replace('\\', "/").to_lowercase()\<close>.\<close>

definition normalize :: "(string \<Rightarrow> string) \<Rightarrow> string \<Rightarrow> string" where
  "normalize lowercase v = lowercase (map (\<lambda>c. if c = CHR 0x5C then CHR ''/'' else c) (trim v))"

definition node_matches_filter :: "graph_node \<Rightarrow> graph_filter \<Rightarrow> bool" where
  "node_matches_filter n f \<longleftrightarrow>
     (node_kinds f = [] \<or> node_kind n \<in> set (node_kinds f)) \<and> (trusts f = [] \<or> node_trust n \<in> set (trusts f))"

definition edge_matches_filter :: "graph_edge \<Rightarrow> graph_filter \<Rightarrow> bool" where
  "edge_matches_filter e f \<longleftrightarrow>
     (edge_kinds f = [] \<or> edge_kind e \<in> set (edge_kinds f)) \<and> (trusts f = [] \<or> edge_trust e \<in> set (trusts f))"

definition rank_node :: "(string \<Rightarrow> string) \<Rightarrow> graph_node \<Rightarrow> string \<Rightarrow> (nat \<times> string) option" where
  "rank_node lowercase n needle =
     (let qualified = map_option (normalize lowercase) (qualified_name n);
          path = map_option (normalize lowercase) (node_path n);
          label = normalize lowercase (node_label n);
          contains = (\<lambda>v. case v of None \<Rightarrow> False | Some x \<Rightarrow> contains_str x needle)
      in if normalize lowercase (node_id n) = needle then Some (900000, ''id'')
         else if qualified = Some needle then Some (800000, ''qualified_name'')
         else if path = Some needle then Some (700000, ''path'')
         else if label = needle then Some (600000, ''label'')
         else if contains qualified then Some (500000, ''qualified_name_contains'')
         else if contains path then Some (400000, ''path_contains'')
         else if contains_str label needle then Some (300000, ''label_contains'')
         else None)"

text \<open>
  The whole-value index of a snapshot at one key: every node is entered once for each of its four
  values, so a node stands there as often as its values fall together. The code keeps the indexes of
  recent snapshots by snapshot identity; as an identity names one content, the index is a function of the
  snapshot here.
\<close>

definition index_values :: "(string \<Rightarrow> string) \<Rightarrow> graph_node \<Rightarrow> string list" where
  "index_values lowercase n =
     map (normalize lowercase)
       (List.map_filter (\<lambda>v. v) [Some (node_id n), node_path n, qualified_name n, Some (node_label n)])"

definition exact_index :: "(string \<Rightarrow> string) \<Rightarrow> 'c graph_snapshot \<Rightarrow> string \<Rightarrow> nat list option" where
  "exact_index lowercase s needle =
     (let ordinals = concat (map (\<lambda>(i, n). map (\<lambda>_. i) (filter (\<lambda>v. v = needle) (index_values lowercase n)))
            (enumerate 0 (nodes s)))
      in if ordinals = [] then None else Some ordinals)"

definition matched_as :: "(string \<Rightarrow> string) \<Rightarrow> string \<Rightarrow> string \<Rightarrow> graph_node \<Rightarrow> bool" where
  "matched_as lowercase needle tier n \<longleftrightarrow>
     (case rank_node lowercase n needle of None \<Rightarrow> False | Some (_, by) \<Rightarrow> by = tier)"

fun first_tier :: "(string \<Rightarrow> string) \<Rightarrow> string \<Rightarrow> string \<Rightarrow> graph_node list \<Rightarrow> string list \<Rightarrow> graph_node result" where
  "first_tier lowercase reference needle candidates [] = Inl (''No graph node matches '' @ [CHR 0x27] @ reference @ [CHR 0x27])"
| "first_tier lowercase reference needle candidates (tier # tiers) =
     (case filter (matched_as lowercase needle tier) candidates of
        [] \<Rightarrow> first_tier lowercase reference needle candidates tiers
      | [n] \<Rightarrow> Inr n
      | ns \<Rightarrow> Inl (''Node reference is ambiguous ('' @ show_nat (length ns) @ '' matches); use the stable node id''))"

definition resolve_node :: "(string \<Rightarrow> string) \<Rightarrow> 'c graph_snapshot \<Rightarrow> string \<Rightarrow> graph_node result" where
  "resolve_node lowercase s reference =
     (let needle = normalize lowercase reference
      in and_then (reject_if (needle = []) ''A node id, qualified name, path, or label is required'') (\<lambda>_.
         let ordinals = (case exact_index lowercase s needle of None \<Rightarrow> [0..<length (nodes s)] | Some is \<Rightarrow> is);
             candidates = map (\<lambda>i. nodes s ! i) (filter (\<lambda>i. i < length (nodes s)) ordinals)
         in first_tier lowercase reference needle candidates [''id'', ''qualified_name'', ''path'', ''label'']))"

section \<open>Explaining a node\<close>

definition explain :: "(string \<Rightarrow> string) \<Rightarrow> 'c graph_snapshot \<Rightarrow> string \<Rightarrow> 'c graph_explanation result" where
  "explain lowercase s reference =
     and_then (resolve_node lowercase s reference) (\<lambda>n.
     let incoming = filter (\<lambda>e. edge_to e = node_id n) (edges s);
         outgoing = filter (\<lambda>e. edge_from e = node_id n) (edges s)
     in Inr \<lparr>explained_node = n, incoming_count = length incoming, outgoing_count = length outgoing,
             incoming_kinds = bset_of (map edge_kind incoming), outgoing_kinds = bset_of (map edge_kind outgoing),
             explanation_truncated = False, explanation_context = query_context s\<rparr>)"

section \<open>Neighbours\<close>

text \<open>The last node of an identity wins in \<open>node_map\<close>.\<close>

definition node_map :: "'c graph_snapshot \<Rightarrow> string \<Rightarrow> graph_node option" where
  "node_map s = map_of (rev (map (\<lambda>n. (node_id n, n)) (nodes s)))"

definition touches :: "graph_direction \<Rightarrow> string \<Rightarrow> graph_edge \<Rightarrow> bool" where
  "touches d ident e =
     (case d of
        Incoming \<Rightarrow> edge_to e = ident
      | Outgoing \<Rightarrow> edge_from e = ident
      | Both \<Rightarrow> edge_from e = ident \<or> edge_to e = ident)"

definition neighbor_edges :: "'c graph_snapshot \<Rightarrow> graph_node \<Rightarrow> graph_direction \<Rightarrow> graph_filter \<Rightarrow> graph_edge list" where
  "neighbor_edges s root d f =
     sort_key (\<lambda>e. (edge_kind e, edge_id e))
       (filter (touches d (node_id root)) (filter (\<lambda>e. edge_matches_filter e f) (edges s)))"

definition neighbors ::
  "(string \<Rightarrow> string) \<Rightarrow> ('c graph_projection \<Rightarrow> nat) \<Rightarrow> 'c graph_snapshot \<Rightarrow> string \<Rightarrow> graph_direction \<Rightarrow> graph_filter \<Rightarrow>
   nat option \<Rightarrow> string option \<Rightarrow> 'c graph_projection result" where
  "neighbors lowercase bytes s reference d f limit cursor =
     and_then (resolve_node lowercase s reference) (\<lambda>root.
     let es = neighbor_edges s root d f
     in and_then (parse_cursor cursor) (\<lambda>offset.
     let n = bounded_limit limit;
         page = take n (drop offset es);
         cut_off = offset + length page < length es;
         ids = bset_of (node_id root # concat (map (\<lambda>e. [edge_from e, edge_to e]) page));
         shown = filter (\<lambda>n. node_matches_filter n f \<or> node_id n = node_id root) (List.map_filter (node_map s) ids)
     in Inr (enforce_projection_bytes bytes [node_id root]
          \<lparr>projected_nodes = sort_key node_id shown, projected_edges = page, truncated = cut_off,
           next_cursor = (if cut_off then Some (show_nat (offset + n)) else None),
           projection_context = query_context s\<rparr>)))"

section \<open>Impact\<close>

definition max_depth_of :: "nat \<Rightarrow> nat \<Rightarrow> nat \<Rightarrow> nat option \<Rightarrow> nat" where
  "max_depth_of fallback least most depth = max least (min most (case depth of None \<Rightarrow> fallback | Some n \<Rightarrow> n))"

definition degree :: "graph_edge list \<Rightarrow> string \<Rightarrow> nat" where
  "degree es ident = length (filter (\<lambda>e. edge_from e = ident) es) + length (filter (\<lambda>e. edge_to e = ident) es)"

definition other_end :: "string \<Rightarrow> graph_edge \<Rightarrow> string" where
  "other_end ident e = (if edge_from e = ident then edge_to e else edge_from e)"

text \<open>
  The adjacency lists are entered under each end the direction asks for, a loop twice under
  \<open>Both\<close>, and sorted by the degree of the neighbour, then by edge.
\<close>

definition entries_at :: "graph_direction \<Rightarrow> string \<Rightarrow> graph_edge \<Rightarrow> graph_edge list" where
  "entries_at d ident e =
     (let incoming = (if edge_to e = ident then [e] else []);
          outgoing = (if edge_from e = ident then [e] else [])
      in case d of Incoming \<Rightarrow> incoming | Outgoing \<Rightarrow> outgoing | Both \<Rightarrow> incoming @ outgoing)"

definition impact_adjacency :: "graph_direction \<Rightarrow> graph_edge list \<Rightarrow> string \<Rightarrow> graph_edge list" where
  "impact_adjacency d es ident =
     sort_key (\<lambda>e. (degree es (other_end ident e), edge_id e)) (concat (map (entries_at d ident) es))"

record impact_state =
  impact_queue :: "(string \<times> nat) list"
  impact_seen :: "string list"
  impact_edge_ids :: "string list"
  impact_depth :: nat
  impact_cut :: bool

fun scan_edges :: "nat \<Rightarrow> string \<Rightarrow> nat \<Rightarrow> graph_edge list \<Rightarrow> impact_state \<Rightarrow> impact_state" where
  "scan_edges limit ident depth [] st = st"
| "scan_edges limit ident depth (e # es) st =
     (let st' = st\<lparr>impact_edge_ids := List.insert (edge_id e) (impact_edge_ids st)\<rparr>;
          neighbor = other_end ident e
      in if neighbor \<in> set (impact_seen st) then scan_edges limit ident depth es st'
         else (let st'' = st'\<lparr>impact_seen := neighbor # impact_seen st'\<rparr>
               in if limit + 1 < length (impact_seen st'') then st''\<lparr>impact_cut := True\<rparr>
                  else scan_edges limit ident depth es
                    (st''\<lparr>impact_queue := impact_queue st'' @ [(neighbor, depth + 1)]\<rparr>)))"

definition ends_of :: "graph_edge list \<Rightarrow> string set" where
  "ends_of es = edge_from ` set es \<union> edge_to ` set es"

definition unseen :: "graph_edge list \<Rightarrow> impact_state \<Rightarrow> nat" where
  "unseen es st = card (ends_of es - set (impact_seen st))"

lemma finite_ends [simp]: "finite (ends_of es)"
  by (simp add: ends_of_def)

lemma other_end_in: "e \<in> set es \<Longrightarrow> other_end ident e \<in> ends_of es"
  by (simp add: other_end_def ends_of_def)

lemma scan_edges_measure:
  "set as \<subseteq> set es \<Longrightarrow>
     length (impact_queue (scan_edges limit ident depth as st)) + unseen es (scan_edges limit ident depth as st)
     \<le> length (impact_queue st) + unseen es st"
proof (induction limit ident depth as st rule: scan_edges.induct)
  case (2 limit ident depth e as st)
  let ?n = "other_end ident e"
  show ?case
  proof (cases "?n \<in> set (impact_seen st)")
    case True
    with 2 show ?thesis by (simp add: Let_def unseen_def)
  next
    case False
    have "?n \<in> ends_of es" using 2 other_end_in by auto
    with False have drop: "card (ends_of es - insert ?n (set (impact_seen st))) < card (ends_of es - set (impact_seen st))"
      by (intro psubset_card_mono) auto
    show ?thesis
    proof (cases "limit + 1 < Suc (length (impact_seen st))")
      case True
      with False drop show ?thesis by (simp add: Let_def unseen_def)
    next
      case short: False
      have "set as \<subseteq> set es" using "2.prems" by simp
      from "2.IH"(2) [OF refl refl False refl _ this] False short drop show ?thesis
        by (simp add: Let_def unseen_def)
    qed
  qed
qed simp

function impact_loop ::
  "nat \<Rightarrow> nat \<Rightarrow> graph_direction \<Rightarrow> graph_edge list \<Rightarrow> impact_state \<Rightarrow> impact_state" where
  "impact_loop limit max_depth d es st =
     (case impact_queue st of
        [] \<Rightarrow> st
      | (ident, depth) # rest \<Rightarrow>
          (let st' = st\<lparr>impact_queue := rest, impact_depth := max (impact_depth st) depth\<rparr>
           in if max_depth \<le> depth then impact_loop limit max_depth d es st'
              else (let st'' = scan_edges limit ident depth (impact_adjacency d es ident) st'
                    in if impact_cut st'' then st'' else impact_loop limit max_depth d es st'')))"
  by pat_completeness auto
termination
proof (relation "measure (\<lambda>(_, _, _, es, st). length (impact_queue st) + unseen es st)", simp, goal_cases)
  case (1 limit max_depth d es st x rest ident depth st')
  then show ?case by (simp add: unseen_def)
next
  case (2 limit max_depth d es st x rest ident depth st' st'')
  have "set (impact_adjacency d es ident) \<subseteq> set es"
    by (auto simp: impact_adjacency_def entries_at_def Let_def split: graph_direction.splits if_splits)
  from scan_edges_measure [OF this, of limit ident depth st'] 2 show ?case by (simp add: unseen_def)
qed

declare impact_loop.simps [simp del]

text \<open>The same cutting for an impact, whose root always stays.\<close>

function pop_impact_edges :: "('c graph_impact \<Rightarrow> nat) \<Rightarrow> 'c graph_impact \<Rightarrow> 'c graph_impact" where
  "pop_impact_edges bytes r =
     (if GRAPH_RESPONSE_BYTES < bytes r \<and> impact_edges r \<noteq> []
      then pop_impact_edges bytes (r\<lparr>impact_edges := butlast (impact_edges r)\<rparr>) else r)"
  by pat_completeness auto
termination by (relation "measure (\<lambda>(_, r). length (impact_edges r))") auto

function pop_affected :: "('c graph_impact \<Rightarrow> nat) \<Rightarrow> 'c graph_impact \<Rightarrow> 'c graph_impact" where
  "pop_affected bytes r =
     (if GRAPH_RESPONSE_BYTES < bytes r \<and> affected r \<noteq> []
      then pop_affected bytes (r\<lparr>affected := butlast (affected r)\<rparr>) else r)"
  by pat_completeness auto
termination by (relation "measure (\<lambda>(_, r). length (affected r))") auto

declare pop_impact_edges.simps [simp del] pop_affected.simps [simp del]

definition enforce_impact_bytes :: "('c graph_impact \<Rightarrow> nat) \<Rightarrow> 'c graph_impact \<Rightarrow> 'c graph_impact" where
  "enforce_impact_bytes bytes r =
     (if bytes r \<le> GRAPH_RESPONSE_BYTES then r
      else
        (let stripped = r\<lparr>impact_truncated := True, impact_root := strip_node_excerpts (impact_root r),
                          affected := map strip_node_excerpts (affected r),
                          impact_edges := map strip_edge_excerpts (impact_edges r)\<rparr>;
             small = pop_affected bytes (pop_impact_edges bytes stripped);
             kept = insert (node_id (impact_root small)) (node_id ` set (affected small))
         in small\<lparr>impact_edges := filter (both_ends_in kept) (impact_edges small)\<rparr>))"

definition impact ::
  "(string \<Rightarrow> string) \<Rightarrow> ('c graph_impact \<Rightarrow> nat) \<Rightarrow> 'c graph_snapshot \<Rightarrow> string \<Rightarrow> graph_direction \<Rightarrow> nat option \<Rightarrow>
   graph_filter \<Rightarrow> nat option \<Rightarrow> 'c graph_impact result" where
  "impact lowercase bytes s reference d depth f limit =
     and_then (resolve_node lowercase s reference) (\<lambda>root.
     let max_depth = max_depth_of 3 1 12 depth;
         n = bounded_limit limit;
         es = filter (\<lambda>e. edge_matches_filter e f) (edges s);
         st = impact_loop n max_depth d es
                \<lparr>impact_queue = [(node_id root, 0)], impact_seen = [node_id root], impact_edge_ids = [],
                 impact_depth = 0, impact_cut = False\<rparr>;
         found = take n (sort_key node_id
                   (List.map_filter (node_map s) (filter (\<lambda>i. i \<noteq> node_id root) (impact_seen st))));
         kept = insert (node_id root) (node_id ` set found);
         shown = take MAX_EDGE_LIMIT
                   (filter (both_ends_in kept) (filter (\<lambda>e. edge_id e \<in> set (impact_edge_ids st)) (edges s)))
     in Inr (enforce_impact_bytes bytes
          \<lparr>impact_root = root, affected = found, impact_edges = sort_key edge_id shown,
           depth_reached = impact_depth st,
           impact_truncated = (impact_cut st \<or> length shown < length (impact_edge_ids st)),
           impact_context = query_context s\<rparr>))"

section \<open>Pages of nodes\<close>

text \<open>The nodes with the most edges first, equal ones by identity.\<close>

definition by_degree :: "graph_edge list \<Rightarrow> graph_node list \<Rightarrow> graph_node list" where
  "by_degree es ns = sort_key (\<lambda>n. (- int (degree es (node_id n)), node_id n)) ns"

definition node_page ::
  "('c graph_projection \<Rightarrow> nat) \<Rightarrow> 'c graph_snapshot \<Rightarrow> graph_node list \<Rightarrow> nat \<Rightarrow> nat \<Rightarrow> 'c graph_projection" where
  "node_page bytes s ranked offset n =
     (let page = take n (drop offset ranked);
          next_offset = offset + length page;
          inside = filter (both_ends_in (node_id ` set page)) (edges s);
          shown = take MAX_EDGE_LIMIT inside
      in enforce_projection_bytes bytes []
           \<lparr>projected_nodes = sort_key node_id page, projected_edges = sort_key edge_id shown,
            truncated = (next_offset < length ranked \<or> length shown < length inside),
            next_cursor = (if next_offset < length ranked then Some (show_nat next_offset) else None),
            projection_context = query_context s\<rparr>)"

definition overview_page ::
  "('c graph_projection \<Rightarrow> nat) \<Rightarrow> 'c graph_snapshot \<Rightarrow> nat option \<Rightarrow> string option \<Rightarrow> 'c graph_projection result" where
  "overview_page bytes s limit cursor =
     and_then (parse_cursor cursor) (\<lambda>offset.
     let ranked = by_degree (edges s) (nodes s)
     in and_then (reject_if (length ranked < offset) ''Graph cursor is invalid or expired'') (\<lambda>_.
          Inr (node_page bytes s ranked offset (bounded_limit limit))))"

definition community_page ::
  "('c graph_projection \<Rightarrow> nat) \<Rightarrow> 'c graph_snapshot \<Rightarrow> string \<Rightarrow> nat option \<Rightarrow> string option \<Rightarrow>
   'c graph_projection result" where
  "community_page bytes s ident limit cursor =
     and_then (reject_if (ident \<notin> set (communities s))
                 (''No graph community matches '' @ [CHR 0x27] @ ident @ [CHR 0x27])) (\<lambda>_.
     and_then (parse_cursor cursor) (\<lambda>offset.
     let members = by_degree (edges s) (filter (\<lambda>n. community_id n = Some ident) (nodes s))
     in and_then (reject_if (length members < offset) ''Graph cursor is invalid or expired'') (\<lambda>_.
          Inr (node_page bytes s members offset (bounded_limit limit)))))"

section \<open>Subgraphs\<close>

definition subgraph_adjacency :: "graph_edge list \<Rightarrow> string \<Rightarrow> graph_edge list" where
  "subgraph_adjacency es ident =
     sort_key edge_id
       (concat (map (\<lambda>e. (if edge_from e = ident then [e] else []) @ (if edge_to e = ident then [e] else [])) es))"

text \<open>A full selection takes no new node, and marks the answer as cut.\<close>

fun select_edges :: "nat \<Rightarrow> string \<Rightarrow> nat \<Rightarrow> graph_edge list \<Rightarrow> impact_state \<Rightarrow> impact_state" where
  "select_edges limit ident depth [] st = st"
| "select_edges limit ident depth (e # es) st =
     (let neighbor = other_end ident e
      in if limit \<le> length (impact_seen st) \<and> neighbor \<notin> set (impact_seen st)
         then select_edges limit ident depth es (st\<lparr>impact_cut := True\<rparr>)
         else (let st' = st\<lparr>impact_edge_ids := List.insert (edge_id e) (impact_edge_ids st)\<rparr>
               in if neighbor \<in> set (impact_seen st) then select_edges limit ident depth es st'
                  else select_edges limit ident depth es
                    (st'\<lparr>impact_seen := neighbor # impact_seen st',
                         impact_queue := impact_queue st' @ [(neighbor, depth + 1)]\<rparr>)))"

lemma select_edges_measure:
  "set as \<subseteq> set es \<Longrightarrow>
     length (impact_queue (select_edges limit ident depth as st)) + unseen es (select_edges limit ident depth as st)
     \<le> length (impact_queue st) + unseen es st"
proof (induction limit ident depth as st rule: select_edges.induct)
  case (2 limit ident depth e as st)
  let ?n = "other_end ident e"
  have as: "set as \<subseteq> set es" using "2.prems" by simp
  show ?case
  proof (cases "limit \<le> length (impact_seen st) \<and> ?n \<notin> set (impact_seen st)")
    case True
    from "2.IH"(1) [OF refl True as] True show ?thesis by (simp add: Let_def unseen_def)
  next
    case room: False
    show ?thesis
    proof (cases "?n \<in> set (impact_seen st)")
      case True
      from "2.IH"(2) [OF refl room refl True as] True show ?thesis by (simp add: Let_def unseen_def)
    next
      case False
      have "?n \<in> ends_of es" using "2.prems" other_end_in by auto
      with False have "card (ends_of es - insert ?n (set (impact_seen st))) < card (ends_of es - set (impact_seen st))"
        by (intro psubset_card_mono) auto
      with "2.IH"(3) [OF refl room refl False as] False room show ?thesis by (simp add: Let_def unseen_def)
    qed
  qed
qed simp

function subgraph_loop :: "nat \<Rightarrow> nat \<Rightarrow> graph_edge list \<Rightarrow> impact_state \<Rightarrow> impact_state" where
  "subgraph_loop limit max_depth es st =
     (case impact_queue st of
        [] \<Rightarrow> st
      | (ident, depth) # rest \<Rightarrow>
          (let st' = st\<lparr>impact_queue := rest\<rparr>
           in if max_depth \<le> depth then subgraph_loop limit max_depth es st'
              else subgraph_loop limit max_depth es (select_edges limit ident depth (subgraph_adjacency es ident) st')))"
  by pat_completeness auto
termination
proof (relation "measure (\<lambda>(_, _, es, st). length (impact_queue st) + unseen es st)", simp, goal_cases)
  case (1 limit max_depth es st x rest ident depth st')
  then show ?case by (simp add: unseen_def)
next
  case (2 limit max_depth es st x rest ident depth st')
  have "set (subgraph_adjacency es ident) \<subseteq> set es" by (auto simp: subgraph_adjacency_def)
  from select_edges_measure [OF this, of limit ident depth st'] 2 show ?case by (simp add: unseen_def)
qed

declare subgraph_loop.simps [simp del]

definition subgraph ::
  "(string \<Rightarrow> string) \<Rightarrow> ('c graph_projection \<Rightarrow> nat) \<Rightarrow> 'c graph_snapshot \<Rightarrow> string list \<Rightarrow> nat option \<Rightarrow> graph_filter \<Rightarrow>
   nat option \<Rightarrow> 'c graph_projection result" where
  "subgraph lowercase bytes s seeds depth f limit =
     and_then (reject_if (seeds = []) ''At least one graph seed is required'') (\<lambda>_.
     and_then (map_result (resolve_node lowercase s) seeds) (\<lambda>roots.
     let max_depth = max_depth_of 2 0 8 depth;
         n = bounded_limit limit;
         es = filter (\<lambda>e. edge_matches_filter e f) (edges s);
         root_ids = map node_id roots;
         st = subgraph_loop n max_depth es
                \<lparr>impact_queue = map (\<lambda>i. (i, 0)) root_ids, impact_seen = remdups root_ids, impact_edge_ids = [],
                 impact_depth = 0, impact_cut = False\<rparr>;
         shown = filter (\<lambda>n. node_matches_filter n f \<or> node_id n \<in> set root_ids)
                   (filter (\<lambda>n. node_id n \<in> set (impact_seen st)) (nodes s));
         inside = take MAX_EDGE_LIMIT
                    (filter (both_ends_in (node_id ` set shown))
                      (filter (\<lambda>e. edge_id e \<in> set (impact_edge_ids st)) (edges s)))
     in Inr (enforce_projection_bytes bytes root_ids
          \<lparr>projected_nodes = sort_key node_id shown, projected_edges = sort_key edge_id inside,
           truncated = (impact_cut st \<or> length inside < length (impact_edge_ids st)), next_cursor = None,
           projection_context = query_context s\<rparr>)))"

section \<open>Differences of snapshots\<close>

text \<open>Maps from identities; of values that share one the last counts.\<close>

definition identity_map :: "('a \<Rightarrow> string) \<Rightarrow> 'a list \<Rightarrow> string \<Rightarrow> 'a option" where
  "identity_map ident xs = map_of (rev (map (\<lambda>x. (ident x, x)) xs))"

definition diff_identity_maps ::
  "('a \<Rightarrow> string) \<Rightarrow> 'a list \<Rightarrow> 'a list \<Rightarrow> string list \<times> string list \<times> string list" where
  "diff_identity_maps ident before after =
     (let old = identity_map ident before; new = identity_map ident after
      in (filter (\<lambda>i. old i = None) (bset_of (map ident after)),
          filter (\<lambda>i. new i = None) (bset_of (map ident before)),
          filter (\<lambda>i. old i \<noteq> None \<and> old i \<noteq> new i) (bset_of (map ident after))))"

definition diff_snapshots :: "'c graph_snapshot \<Rightarrow> 'c graph_snapshot \<Rightarrow> 'c graph_diff" where
  "diff_snapshots before after =
     (let (na, nr, nc) = diff_identity_maps node_id (nodes before) (nodes after);
          (ea, er, ec) = diff_identity_maps edge_id (edges before) (edges after);
          cut_ids = take MAX_DIFF_IDS
      in \<lparr>before_snapshot = snapshot_id before, after_snapshot = snapshot_id after,
          added_nodes = cut_ids na, removed_nodes = cut_ids nr, changed_nodes = cut_ids nc,
          added_edges = cut_ids ea, removed_edges = cut_ids er, changed_edges = cut_ids ec,
          diff_truncated = list_ex (\<lambda>ids. MAX_DIFF_IDS < length ids) [na, nr, nc, ea, er, ec],
          diff_context = query_context after\<rparr>)"

section \<open>References\<close>

text \<open>How often a node stands in the whole-value index at a key, and the candidates that gives.\<close>

definition times_indexed :: "(string \<Rightarrow> string) \<Rightarrow> string \<Rightarrow> graph_node \<Rightarrow> nat" where
  "times_indexed lowercase needle n = length (filter (\<lambda>v. v = needle) (index_values lowercase n))"

lemma candidates_of_entries:
  "map (\<lambda>i. (pre @ ns) ! i)
     (concat (map (\<lambda>(i, n). map (\<lambda>_. i) (filter (\<lambda>v. v = needle) (index_values lowercase n))) (enumerate (length pre) ns)))
   = concat (map (\<lambda>n. replicate (times_indexed lowercase needle n) n) ns)"
proof (induction ns arbitrary: pre)
  case (Cons n ns)
  from Cons.IH [of "pre @ [n]"] show ?case
    by (simp add: times_indexed_def map_replicate_const nth_append)
qed simp

lemma exact_candidates:
  assumes "exact_index lowercase s needle = Some ordinals"
  shows "map (\<lambda>i. nodes s ! i) (filter (\<lambda>i. i < length (nodes s)) ordinals)
    = concat (map (\<lambda>n. replicate (times_indexed lowercase needle n) n) (nodes s))"
proof -
  let ?os = "concat (map (\<lambda>(i, n). map (\<lambda>_. i) (filter (\<lambda>v. v = needle) (index_values lowercase n)))
    (enumerate 0 (nodes s)))"
  have os: "ordinals = ?os" using assms by (auto simp: exact_index_def Let_def split: if_splits)
  have "i < length (nodes s)" if "i \<in> set ?os" for i
    using that by (auto simp: in_set_enumerate_eq)
  then have "filter (\<lambda>i. i < length (nodes s)) ordinals = ordinals" unfolding os by (simp add: filter_id_conv)
  with candidates_of_entries [of "[]" "nodes s" needle lowercase] show ?thesis by (simp add: os)
qed

lemma indexed_exact:
  assumes "n \<in> set (nodes s)" and "0 < times_indexed lowercase needle n"
  obtains ordinals where "exact_index lowercase s needle = Some ordinals"
proof -
  from assms(1) obtain i where "i < length (nodes s)" "nodes s ! i = n" by (auto simp: in_set_conv_nth)
  then have i: "(i, n) \<in> set (enumerate 0 (nodes s))" by (simp add: in_set_enumerate_eq)
  from assms(2) obtain v where "v \<in> set (index_values lowercase n)" "v = needle"
    by (auto simp: times_indexed_def filter_empty_conv)
  with i have "i \<in> set (concat (map (\<lambda>(i, n). map (\<lambda>_. i) (filter (\<lambda>v. v = needle) (index_values lowercase n)))
      (enumerate 0 (nodes s))))" by force
  then have "concat (map (\<lambda>(i, n). map (\<lambda>_. i) (filter (\<lambda>v. v = needle) (index_values lowercase n)))
      (enumerate 0 (nodes s))) \<noteq> []" by (metis empty_iff empty_set)
  then show ?thesis using that by (simp add: exact_index_def)
qed

lemma filter_concat_replicate:
  assumes "nodes s = as @ n # bs" and "\<And>m. m \<in> set as \<union> set bs \<Longrightarrow> \<not> p m" and "p n"
  shows "filter p (concat (map (\<lambda>n. replicate (k n) n) (nodes s))) = replicate (k n) n"
proof -
  have "filter p (concat (map (\<lambda>n. replicate (k n) n) ms)) = []" if "\<And>m. m \<in> set ms \<Longrightarrow> \<not> p m" for ms
    using that by (auto simp: filter_empty_conv)
  with assms show ?thesis by (simp add: filter_replicate)
qed

lemma filter_no_candidate:
  "(\<And>m. m \<in> set (nodes s) \<Longrightarrow> \<not> p m) \<Longrightarrow> filter p (concat (map (\<lambda>n. replicate (k n) n) (nodes s))) = []"
  by (auto simp: filter_empty_conv)

definition tiers :: "string list" where
  "tiers = [''id'', ''qualified_name'', ''path'', ''label'']"

lemma resolve_indexed:
  assumes "normalize lowercase reference \<noteq> []" and "exact_index lowercase s (normalize lowercase reference) = Some ordinals"
  shows "resolve_node lowercase s reference =
    first_tier lowercase reference (normalize lowercase reference)
      (concat (map (\<lambda>n. replicate (times_indexed lowercase (normalize lowercase reference) n) n) (nodes s))) tiers"
  using assms exact_candidates [OF assms(2)] by (simp add: resolve_node_def Let_def tiers_def del: first_tier.simps)

lemma first_tier_replicate:
  assumes "filter (matched_as lowercase needle tier) candidates = replicate (Suc k) n"
  shows "first_tier lowercase reference needle candidates (tier # ts) =
    (if k = 0 then Inr n
     else Inl (''Node reference is ambiguous ('' @ show_nat (Suc k) @ '' matches); use the stable node id''))"
  using assms by (cases k) simp_all

definition same_value :: "(string \<Rightarrow> string) \<Rightarrow> string \<Rightarrow> string \<Rightarrow> bool" where
  "same_value lowercase v w \<longleftrightarrow> normalize lowercase v = normalize lowercase w"

text \<open>
  A stable identity names its node exactly when no other value of the node reads the same. The
  node whose identity is asked for, unique among the nodes, is found if none of its qualified name,
  path and label equals the identity after normalization; otherwise the index holds it more than
  once and the reference is refused as ambiguous.
\<close>

theorem identity_resolves_iff_values_differ:
  assumes "nodes s = as @ n # bs" and "normalize lowercase (node_id n) \<noteq> []"
    and "\<And>m. m \<in> set as \<union> set bs \<Longrightarrow> \<not> same_value lowercase (node_id m) (node_id n)"
  shows "resolve_node lowercase s (node_id n) =
    (if list_ex (\<lambda>v. same_value lowercase v (node_id n))
          (List.map_filter (\<lambda>v. v) [node_path n, qualified_name n, Some (node_label n)])
     then Inl (''Node reference is ambiguous ('' @ show_nat (times_indexed lowercase (normalize lowercase (node_id n)) n)
               @ '' matches); use the stable node id'')
     else Inr n)"
proof -
  let ?needle = "normalize lowercase (node_id n)" and ?others = "List.map_filter (\<lambda>v. v) [node_path n, qualified_name n, Some (node_label n)]"
  define j where "j = length (filter (\<lambda>v. same_value lowercase v (node_id n)) ?others)"
  have k: "times_indexed lowercase ?needle n = Suc j"
    by (simp add: j_def times_indexed_def index_values_def same_value_def List.map_filter_simps filter_map comp_def)
  then obtain ordinals where ex: "exact_index lowercase s ?needle = Some ordinals"
    using indexed_exact [of n s lowercase ?needle] assms(1) by auto
  have tier: "filter (matched_as lowercase ?needle ''id'') (concat (map (\<lambda>n. replicate (times_indexed lowercase ?needle n) n) (nodes s)))
      = replicate (times_indexed lowercase ?needle n) n"
    using assms by (intro filter_concat_replicate [of s as n bs])
      (auto simp: matched_as_def rank_node_def Let_def same_value_def)
  have one: "j = 0 \<longleftrightarrow> \<not> list_ex (\<lambda>v. same_value lowercase v (node_id n)) ?others"
    unfolding j_def length_0_conv filter_empty_conv list_ex_iff by blast
  note found = resolve_indexed [OF assms(2) ex, unfolded tiers_def first_tier_replicate [OF tier [unfolded k]]]
  have swap: "(if \<not> P then x else y) = (if P then y else x)" for P and x y :: "graph_node result" by simp
  show ?thesis unfolding found k one swap ..
qed

text \<open>
  A file cannot be named by its path. The extractor gives a file node its path as label and as
  qualified name, so the index holds the node three times at that path.
\<close>

theorem file_path_is_ambiguous:
  assumes "nodes s = as @ n # bs" and "node_label n = p" and "qualified_name n = Some p" and "node_path n = Some p"
    and "normalize lowercase p \<noteq> []"
    and "\<And>m. m \<in> set (nodes s) \<Longrightarrow> normalize lowercase (node_id m) \<noteq> normalize lowercase p"
    and "\<And>m. m \<in> set as \<union> set bs \<Longrightarrow> map_option (normalize lowercase) (qualified_name m) \<noteq> Some (normalize lowercase p)"
  shows "resolve_node lowercase s p = Inl ''Node reference is ambiguous (3 matches); use the stable node id''"
proof -
  let ?needle = "normalize lowercase p"
  let ?cs = "concat (map (\<lambda>n. replicate (times_indexed lowercase ?needle n) n) (nodes s))"
  have id: "normalize lowercase (node_id n) \<noteq> ?needle" using assms(1,6) by simp
  then have k: "times_indexed lowercase ?needle n = Suc 2"
    using assms(2-4) by (simp add: times_indexed_def index_values_def List.map_filter_simps)
  then obtain ordinals where ex: "exact_index lowercase s ?needle = Some ordinals"
    using indexed_exact [of n s lowercase ?needle] assms(1) by auto
  have no_id: "filter (matched_as lowercase ?needle ''id'') ?cs = []"
    using assms(6) by (intro filter_no_candidate) (auto simp: matched_as_def rank_node_def Let_def)
  have "filter (matched_as lowercase ?needle ''qualified_name'') ?cs = replicate (times_indexed lowercase ?needle n) n"
    using assms(1,3,6,7) id by (intro filter_concat_replicate [of s as n bs])
      (auto simp: matched_as_def rank_node_def Let_def split: if_splits)
  moreover have three: "show_nat (Suc 2) = ''3''" by code_simp
  ultimately show ?thesis using first_tier_replicate [OF _, of lowercase ?needle "''qualified_name''" ?cs 2 n p "[''path'', ''label'']"]
    no_id unfolding resolve_indexed [OF assms(5) ex] tiers_def k by simp
qed

section \<open>What a difference lists\<close>

text \<open>A list of identities that is cut to the limit: a sorted part of the set, all of it when nothing was cut.\<close>

definition lists_ids :: "bool \<Rightarrow> string set \<Rightarrow> string list \<Rightarrow> bool" where
  "lists_ids cut_off S ids \<longleftrightarrow>
     sorted ids \<and> distinct ids \<and> length ids \<le> MAX_DIFF_IDS \<and> set ids \<subseteq> S \<and> (\<not> cut_off \<longrightarrow> set ids = S)"

lemma identity_map_None: "identity_map ident xs i = None \<longleftrightarrow> i \<notin> ident ` set xs"
  by (auto simp: identity_map_def map_of_eq_None_iff image_image)

lemma lists_ids_filter:
  assumes "\<not> cut_off \<Longrightarrow> length (filter p (bset_of is)) \<le> MAX_DIFF_IDS" and "{i \<in> set is. p i} = S"
  shows "lists_ids cut_off S (take MAX_DIFF_IDS (filter p (bset_of is)))"
proof -
  have "sorted (bset_of is)" "distinct (bset_of is)" using bset_of_ok [of "is"] by (auto simp: bset_ok_iff)
  then have "sorted (take MAX_DIFF_IDS (filter p (bset_of is)))" "distinct (take MAX_DIFF_IDS (filter p (bset_of is)))"
    using sorted_filter [of "\<lambda>i. i" "bset_of is" p] by (auto simp: sorted_wrt_take)
  moreover have "set (filter p (bset_of is)) = S" using assms(2) by (simp add: set_bset_of)
  ultimately show ?thesis using assms(1) set_take_subset [of MAX_DIFF_IDS "filter p (bset_of is)"]
    unfolding lists_ids_def by auto
qed

text \<open>
  C35: A difference is exact. The identities it lists as added, removed or changed are sorted, at
  most five hundred of each kind, and all of them are new, gone or bound to a different node or
  edge; when the answer does not say that it was cut, none is missing.
\<close>

theorem difference_is_exact:
  "let d = diff_snapshots before after; lists = lists_ids (diff_truncated d);
       old_node = identity_map node_id (nodes before); new_node = identity_map node_id (nodes after);
       old_edge = identity_map edge_id (edges before); new_edge = identity_map edge_id (edges after)
   in lists (dom new_node - dom old_node) (added_nodes d) \<and>
      lists (dom old_node - dom new_node) (removed_nodes d) \<and>
      lists {i \<in> dom old_node \<inter> dom new_node. old_node i \<noteq> new_node i} (changed_nodes d) \<and>
      lists (dom new_edge - dom old_edge) (added_edges d) \<and>
      lists (dom old_edge - dom new_edge) (removed_edges d) \<and>
      lists {i \<in> dom old_edge \<inter> dom new_edge. old_edge i \<noteq> new_edge i} (changed_edges d)"
  unfolding diff_snapshots_def diff_identity_maps_def Let_def prod.case graph_diff.simps
  by (intro conjI lists_ids_filter) (auto simp: dom_def identity_map_None)

end
