(* ===== verification/GraphImpact.thy ===== *)
theory GraphImpact
  imports GraphQuery
begin

text \<open>
  What an impact query means: the nodes it reports are those within the asked number of steps of
  the root, along the edges and in the direction of the query, all of them unless it says that it
  was cut.
\<close>

section \<open>Steps of the graph\<close>

definition follows :: "graph_direction \<Rightarrow> graph_edge list \<Rightarrow> string \<Rightarrow> string \<Rightarrow> bool" where
  "follows d es x y \<longleftrightarrow> (\<exists>e \<in> set es. touches d x e \<and> other_end x e = y)"

fun within :: "graph_direction \<Rightarrow> graph_edge list \<Rightarrow> string \<Rightarrow> nat \<Rightarrow> string \<Rightarrow> bool" where
  "within d es start 0 x = (x = start)"
| "within d es start (Suc k) x = (within d es start k x \<or> (\<exists>y. within d es start k y \<and> follows d es y x))"

lemma within_mono: "within d es start k x \<Longrightarrow> k \<le> l \<Longrightarrow> within d es start l x"
  by (induction l) (auto simp: le_Suc_eq)

lemma within_step: "within d es start k x \<Longrightarrow> follows d es x y \<Longrightarrow> within d es start (Suc k) y"
  by auto

lemma set_impact_adjacency: "set (impact_adjacency d es x) = {e \<in> set es. touches d x e}"
  by (cases d) (auto simp: impact_adjacency_def entries_at_def touches_def Let_def split: if_splits)

section \<open>What is found is near\<close>

definition all_within :: "graph_direction \<Rightarrow> graph_edge list \<Rightarrow> string \<Rightarrow> nat \<Rightarrow> impact_state \<Rightarrow> bool" where
  "all_within d es start m st \<longleftrightarrow>
     (\<forall>x \<in> set (impact_seen st). within d es start m x) \<and>
     (\<forall>(x, k) \<in> set (impact_queue st). within d es start k x) \<and> distinct (impact_seen st) \<and>
     set (impact_edge_ids st) \<subseteq> edge_id ` set es \<and> distinct (impact_edge_ids st)"

lemma scan_edges_within:
  assumes "all_within d es start m st" and "set as \<subseteq> {e \<in> set es. touches d x e}" and "within d es start k x" and "k < m"
  shows "all_within d es start m (scan_edges limit x k as st)"
  using assms
proof (induction limit x k as st rule: scan_edges.induct)
  case (2 limit x k e as st)
  let ?n = "other_end x e"
  have e: "e \<in> set es" and "follows d es x ?n" using "2.prems"(2) by (auto simp: follows_def)
  then have near: "within d es start (Suc k) ?n" using "2.prems"(3) within_step by blast
  then have far: "within d es start m ?n" using "2.prems"(4) within_mono by (metis Suc_leI)
  have ids: "all_within d es start m (st\<lparr>impact_edge_ids := List.insert (edge_id e) (impact_edge_ids st)\<rparr>)"
    using "2.prems"(1) e by (auto simp: all_within_def)
  show ?case
  proof (cases "?n \<in> set (impact_seen st)")
    case True
    with "2.IH"(1) [OF refl refl _ ids] "2.prems" show ?thesis by (simp add: Let_def)
  next
    case False
    then have more: "all_within d es start m (st\<lparr>impact_edge_ids := List.insert (edge_id e) (impact_edge_ids st),
        impact_seen := ?n # impact_seen st, impact_queue := impact_queue st @ new\<rparr>)"
      if "new = [] \<or> new = [(?n, Suc k)]" for new
      using ids near far that by (auto simp: all_within_def)
    show ?thesis
    proof (cases "limit + 1 < length (?n # impact_seen st)")
      case True
      with False more [of "[]"] show ?thesis by (simp add: Let_def all_within_def)
    next
      case short: False
      from "2.IH"(2) [OF refl refl _ refl _] False short more [of "[(?n, Suc k)]"] "2.prems"
      show ?thesis by (simp add: Let_def)
    qed
  qed
qed simp

lemma impact_loop_within:
  "all_within d es start m st \<Longrightarrow> all_within d es start m (impact_loop limit m d es st)"
proof (induction limit m d es st rule: impact_loop.induct)
  case (1 limit m d es st)
  show ?case
  proof (cases "impact_queue st")
    case Nil
    with 1 show ?thesis by (simp add: impact_loop.simps [of _ _ _ _ st])
  next
    case (Cons q rest)
    obtain x k where q: "q = (x, k)" by (cases q)
    let ?st = "st\<lparr>impact_queue := rest, impact_depth := max (impact_depth st) k\<rparr>"
    have popped: "all_within d es start m ?st" and x: "within d es start k x"
      using "1.prems" Cons q by (auto simp: all_within_def)
    show ?thesis
    proof (cases "m \<le> k")
      case True
      with "1.IH"(1) [OF Cons q [symmetric] refl True popped] Cons q show ?thesis
        by (simp add: impact_loop.simps [of _ _ _ _ st] Let_def)
    next
      case False
      let ?st' = "scan_edges limit x k (impact_adjacency d es x) ?st"
      have scanned: "all_within d es start m ?st'"
        using False by (intro scan_edges_within [OF popped _ x]) (auto simp: set_impact_adjacency)
      show ?thesis
      proof (cases "impact_cut ?st'")
        case True
        with scanned False Cons q show ?thesis by (simp add: impact_loop.simps [of _ _ _ _ st] Let_def)
      next
        case uncut: False
        with "1.IH"(2) [OF Cons q [symmetric] refl False refl uncut scanned] False Cons q show ?thesis
          by (simp add: impact_loop.simps [of _ _ _ _ st] Let_def)
      qed
    qed
  qed
qed

section \<open>What is near is found\<close>

text \<open>A scan that is not cut sees every neighbour, and queues the new ones one step below.\<close>

lemma scan_edges_uncut:
  assumes "\<not> impact_cut (scan_edges limit x k as st)"
  obtains new where "impact_queue (scan_edges limit x k as st) = impact_queue st @ map (\<lambda>y. (y, Suc k)) new"
    and "set (impact_seen (scan_edges limit x k as st)) = set (impact_seen st) \<union> set new"
    and "set new \<subseteq> other_end x ` set as"
    and "other_end x ` set as \<subseteq> set (impact_seen st) \<union> set new"
  using assms
proof (induction limit x k as st arbitrary: thesis rule: scan_edges.induct)
  case (1 limit x k st)
  show ?case by (rule "1.prems"(1) [of "[]"]) simp_all
next
  case (2 limit x k e as st)
  let ?y = "other_end x e" and ?run = "scan_edges limit x k (e # as) st"
  show ?case
  proof (cases "?y \<in> set (impact_seen st)")
    case True
    then have "?run = scan_edges limit x k as (st\<lparr>impact_edge_ids := List.insert (edge_id e) (impact_edge_ids st)\<rparr>)"
      by (simp add: Let_def)
    with "2.IH"(1) [OF refl refl True] "2.prems"(2) obtain new where
      "impact_queue ?run = impact_queue st @ map (\<lambda>y. (y, Suc k)) new"
      "set (impact_seen ?run) = set (impact_seen st) \<union> set new" "set new \<subseteq> other_end x ` set as"
      "other_end x ` set as \<subseteq> set (impact_seen st) \<union> set new"
      by (simp del: scan_edges.simps) metis
    with True show ?thesis by (intro "2.prems"(1) [of new]) auto
  next
    case False
    let ?st = "st\<lparr>impact_edge_ids := List.insert (edge_id e) (impact_edge_ids st), impact_seen := ?y # impact_seen st,
        impact_queue := impact_queue st @ [(?y, k + 1)]\<rparr>"
    have short: "\<not> limit + 1 < length (?y # impact_seen st)"
      using "2.prems"(2) False by (auto simp: Let_def)
    have run: "?run = scan_edges limit x k as ?st"
      using False short by (simp add: Let_def)
    have IH: "\<exists>new. impact_queue ?run = impact_queue ?st @ map (\<lambda>y. (y, Suc k)) new \<and>
        set (impact_seen ?run) = set (impact_seen ?st) \<union> set new \<and> set new \<subseteq> other_end x ` set as \<and>
        other_end x ` set as \<subseteq> set (impact_seen ?st) \<union> set new"
      using "2.IH"(2) [OF refl refl False refl] short "2.prems"(2) unfolding run by (simp add: Let_def) metis
    then obtain new where "impact_queue ?run = impact_queue ?st @ map (\<lambda>y. (y, Suc k)) new"
      "set (impact_seen ?run) = set (impact_seen ?st) \<union> set new" "set new \<subseteq> other_end x ` set as"
      "other_end x ` set as \<subseteq> set (impact_seen ?st) \<union> set new"
      by blast
    then show ?thesis by (intro "2.prems"(1) [of "?y # new"]) auto
  qed
qed

text \<open>
  The queue holds what is left of one level and then the start of the next. All nodes of the level
  are seen; nothing else is, apart from the start of the next one; and the nodes that have left
  the queue have their neighbours seen.
\<close>

definition at_level ::
  "graph_direction \<Rightarrow> graph_edge list \<Rightarrow> string \<Rightarrow> nat \<Rightarrow> string list \<Rightarrow> string list \<Rightarrow> impact_state \<Rightarrow> bool" where
  "at_level d es start n as bs st \<longleftrightarrow>
     impact_queue st = map (\<lambda>x. (x, n)) as @ map (\<lambda>x. (x, Suc n)) bs \<and>
     (\<forall>x. within d es start n x \<longrightarrow> x \<in> set (impact_seen st)) \<and>
     (\<forall>x \<in> set (impact_seen st). within d es start n x \<or> x \<in> set bs) \<and>
     (\<forall>x \<in> set bs. within d es start (Suc n) x) \<and> (\<forall>x \<in> set as. within d es start n x) \<and>
     (\<forall>x y. within d es start n x \<longrightarrow> x \<notin> set as \<longrightarrow> follows d es x y \<longrightarrow> y \<in> set (impact_seen st))"

lemma at_levelD:
  assumes "at_level d es start n as bs st"
  shows "impact_queue st = map (\<lambda>x. (x, n)) as @ map (\<lambda>x. (x, Suc n)) bs"
    and "within d es start n x \<Longrightarrow> x \<in> set (impact_seen st)"
    and "x \<in> set (impact_seen st) \<Longrightarrow> within d es start n x \<or> x \<in> set bs"
    and "x \<in> set bs \<Longrightarrow> within d es start (Suc n) x" and "x \<in> set as \<Longrightarrow> within d es start n x"
    and "within d es start n x \<Longrightarrow> x \<notin> set as \<Longrightarrow> follows d es x y \<Longrightarrow> y \<in> set (impact_seen st)"
  using assms unfolding at_level_def by blast+

lemma at_levelI:
  assumes "impact_queue st = map (\<lambda>x. (x, n)) as @ map (\<lambda>x. (x, Suc n)) bs"
    and "\<And>x. within d es start n x \<Longrightarrow> x \<in> set (impact_seen st)"
    and "\<And>x. x \<in> set (impact_seen st) \<Longrightarrow> within d es start n x \<or> x \<in> set bs"
    and "\<And>x. x \<in> set bs \<Longrightarrow> within d es start (Suc n) x" and "\<And>x. x \<in> set as \<Longrightarrow> within d es start n x"
    and "\<And>x y. within d es start n x \<Longrightarrow> x \<notin> set as \<Longrightarrow> follows d es x y \<Longrightarrow> y \<in> set (impact_seen st)"
  shows "at_level d es start n as bs st"
  unfolding at_level_def using assms by blast

lemma at_next_level:
  assumes "at_level d es start n [] bs st"
  shows "at_level d es start (Suc n) bs [] st"
proof -
  note level = at_levelD [OF assms]
  have near: "x \<in> set (impact_seen st)" if "within d es start (Suc n) x" for x
    using that level(2,6) by auto
  have only: "within d es start (Suc n) x" if "x \<in> set (impact_seen st)" for x
    using level(3,4) [of x] that by auto
  have "y \<in> set (impact_seen st)" if "within d es start (Suc n) x" "x \<notin> set bs" "follows d es x y" for x y
    using level(3) [OF near [OF that(1)]] level(6) [OF _ _ that(3)] that(2) by simp
  note seen = this
  show ?thesis
  proof (rule at_levelI)
    show "impact_queue st = map (\<lambda>x. (x, Suc n)) bs @ map (\<lambda>x. (x, Suc (Suc n))) []"
      using level(1) by simp
  next
    fix x :: string assume "x \<in> set []"
    then show "within d es start (Suc (Suc n)) x" by simp
  qed (use near only level(4) seen in \<open>blast+\<close>)
qed

lemma at_last_level:
  assumes "at_level d es start n [] [] st" and "within d es start k x"
  shows "x \<in> set (impact_seen st)"
  using assms(2)
proof (induction k arbitrary: x)
  case 0
  then have "within d es start n x" using within_mono [of d es start 0 x n] by simp
  then show ?case by (rule at_levelD(2) [OF assms(1)])
next
  case (Suc k)
  show ?case
  proof (cases "within d es start k x")
    case False
    with Suc.prems obtain y where y: "within d es start k y" "follows d es y x" by auto
    then have "within d es start n y" using at_levelD(3) [OF assms(1) Suc.IH] by simp
    then show ?thesis using at_levelD(6) [OF assms(1) _ _ y(2)] by simp
  qed (rule Suc.IH)
qed

lemma scan_edges_seen: "set (impact_seen st) \<subseteq> set (impact_seen (scan_edges limit x k as st))"
  by (induction limit x k as st rule: scan_edges.induct) (auto simp: Let_def)

lemma impact_loop_pop:
  assumes "impact_queue st = (x, k) # rest" and "m \<le> k"
  shows "impact_loop limit m d es st =
    impact_loop limit m d es (st\<lparr>impact_queue := rest, impact_depth := max (impact_depth st) k\<rparr>)"
  using assms by (simp add: impact_loop.simps [of _ _ _ _ st] Let_def)

lemma impact_loop_scan:
  assumes "impact_queue st = (x, k) # rest" and "k < m"
  shows "impact_loop limit m d es st =
    (let st' = scan_edges limit x k (impact_adjacency d es x)
       (st\<lparr>impact_queue := rest, impact_depth := max (impact_depth st) k\<rparr>)
     in if impact_cut st' then st' else impact_loop limit m d es st')"
  using assms by (simp add: impact_loop.simps [of _ _ _ _ st] Let_def)

lemma impact_loop_seen: "set (impact_seen st) \<subseteq> set (impact_seen (impact_loop limit m d es st))"
proof (induction limit m d es st rule: impact_loop.induct)
  case (1 limit m d es st)
  show ?case
  proof (cases "impact_queue st")
    case Nil
    then show ?thesis by (simp add: impact_loop.simps [of _ _ _ _ st])
  next
    case (Cons q rest)
    obtain x k where q: "q = (x, k)" by (cases q)
    show ?thesis
    proof (cases "m \<le> k")
      case True
      with "1.IH"(1) [OF Cons q [symmetric] refl True] Cons q show ?thesis by (simp add: impact_loop_pop)
    next
      case False
      then have run: "impact_loop limit m d es st = (let st' = scan_edges limit x k (impact_adjacency d es x)
          (st\<lparr>impact_queue := rest, impact_depth := max (impact_depth st) k\<rparr>)
        in if impact_cut st' then st' else impact_loop limit m d es st')"
        using Cons q by (intro impact_loop_scan) auto
      show ?thesis
        using "1.IH"(2) [OF Cons q [symmetric] refl False refl]
          scan_edges_seen [of "st\<lparr>impact_queue := rest, impact_depth := max (impact_depth st) k\<rparr>" limit x k "impact_adjacency d es x"]
        unfolding run Let_def by auto
    qed
  qed
qed

lemma at_level_scanned:
  assumes "at_level d es start n (x # as) bs st"
    and "\<not> impact_cut (scan_edges limit x n (impact_adjacency d es x)
      (st\<lparr>impact_queue := tl (impact_queue st), impact_depth := k\<rparr>))"
  obtains bs' where "at_level d es start n as bs' (scan_edges limit x n (impact_adjacency d es x)
      (st\<lparr>impact_queue := tl (impact_queue st), impact_depth := k\<rparr>))"
proof -
  let ?run = "scan_edges limit x n (impact_adjacency d es x)
    (st\<lparr>impact_queue := tl (impact_queue st), impact_depth := k\<rparr>)"
  note level = at_levelD [OF assms(1)]
  have ends: "other_end x ` set (impact_adjacency d es x) = {y. follows d es x y}"
    by (auto simp: set_impact_adjacency follows_def)
  obtain new where queue: "impact_queue ?run = tl (impact_queue st) @ map (\<lambda>y. (y, Suc n)) new"
    and seen: "set (impact_seen ?run) = set (impact_seen st) \<union> set new"
    and new: "set new \<subseteq> {y. follows d es x y}" "{y. follows d es x y} \<subseteq> set (impact_seen st) \<union> set new"
    by (rule scan_edges_uncut [OF assms(2)]) (simp add: ends)
  have x: "within d es start n x" using level(5) by simp
  have "at_level d es start n as (bs @ new) ?run"
    unfolding at_level_def queue seen
  proof (intro conjI allI ballI impI)
    fix y z assume "within d es start n y" "y \<notin> set as" "follows d es y z"
    then show "z \<in> set (impact_seen st) \<union> set new" using level(6) [of y z] new(2) by (cases "y = x") auto
  next
    fix y assume "y \<in> set (bs @ new)"
    then show "within d es start (Suc n) y" using level(4) new(1) within_step [OF x] by auto
  qed (use level(1-3,5) in auto)
  then show ?thesis by (rule that)
qed

lemma impact_loop_complete:
  assumes "at_level d es start n as bs st"
    and "\<not> impact_cut (impact_loop limit m d es st)" and "within d es start k x" and "k \<le> m"
  shows "x \<in> set (impact_seen (impact_loop limit m d es st))"
  using assms
proof (induction limit m d es st arbitrary: n as bs rule: impact_loop.induct)
  case (1 limit m d es st)
  obtain n' as' bs' where level: "at_level d es start n' as' bs' st" and turned: "as' = [] \<Longrightarrow> bs' = []"
    using "1.prems"(1) at_next_level by (cases "as = []") blast+
  show ?case
  proof (cases "as' = [] \<or> m \<le> n'")
    case True
    then have "x \<in> set (impact_seen st)"
    proof
      assume "as' = []"
      with level turned at_last_level [OF _ "1.prems"(3)] show ?thesis by blast
    next
      assume "m \<le> n'"
      with "1.prems"(3,4) have "within d es start n' x" using within_mono order_trans by blast
      then show ?thesis by (rule at_levelD(2) [OF level])
    qed
    then show ?thesis using impact_loop_seen by blast
  next
    case False
    then obtain y as'' where as': "as' = y # as''" and n': "\<not> m \<le> n'" by (cases as') auto
    let ?rest = "map (\<lambda>x. (x, n')) as'' @ map (\<lambda>x. (x, Suc n')) bs'"
    have queue: "impact_queue st = (y, n') # ?rest" using at_levelD(1) [OF level] as' by simp
    let ?st = "scan_edges limit y n' (impact_adjacency d es y)
      (st\<lparr>impact_queue := ?rest, impact_depth := max (impact_depth st) n'\<rparr>)"
    have run: "impact_loop limit m d es st = (if impact_cut ?st then ?st else impact_loop limit m d es ?st)"
      using impact_loop_scan [OF queue] n' by (simp add: Let_def)
    then have uncut: "\<not> impact_cut ?st" and cut': "\<not> impact_cut (impact_loop limit m d es ?st)"
      using "1.prems"(2) by (auto split: if_splits)
    obtain bs'' where next_level: "at_level d es start n' as'' bs'' ?st"
      using at_level_scanned [of d es start n' y as'' bs' st limit "max (impact_depth st) n'"] level uncut
      unfolding as' queue by auto
    show ?thesis
      using "1.IH"(2) [OF queue refl refl n' refl uncut next_level cut' "1.prems"(3,4)] run uncut by simp
  qed
qed

section \<open>What is shown\<close>

lemma scan_edges_room:
  "\<not> impact_cut (scan_edges limit x k as st) \<Longrightarrow> length (impact_seen st) \<le> limit + 1 \<Longrightarrow>
     length (impact_seen (scan_edges limit x k as st)) \<le> limit + 1"
proof (induction limit x k as st rule: scan_edges.induct)
  case (2 limit x k e as st)
  show ?case
  proof (cases "other_end x e \<in> set (impact_seen st) \<or> limit + 1 < Suc (length (impact_seen st))")
    case False
    with "2.IH"(2) [OF refl refl _ refl] "2.prems" show ?thesis by (auto simp: Let_def)
  qed (use "2.IH"(1) [OF refl refl] "2.prems" in \<open>auto simp: Let_def split: if_splits\<close>)
qed simp

lemma impact_loop_room:
  "\<not> impact_cut (impact_loop limit m d es st) \<Longrightarrow> length (impact_seen st) \<le> limit + 1 \<Longrightarrow>
     length (impact_seen (impact_loop limit m d es st)) \<le> limit + 1"
proof (induction limit m d es st rule: impact_loop.induct)
  case (1 limit m d es st)
  show ?case
  proof (cases "impact_queue st")
    case Nil
    with 1 show ?thesis by (simp add: impact_loop.simps [of _ _ _ _ st])
  next
    case (Cons q rest)
    obtain x k where q: "q = (x, k)" by (cases q)
    show ?thesis
    proof (cases "m \<le> k")
      case True
      with "1.IH"(1) [OF Cons q [symmetric] refl True] Cons q "1.prems" show ?thesis by (simp add: impact_loop_pop)
    next
      case False
      let ?st = "st\<lparr>impact_queue := rest, impact_depth := max (impact_depth st) k\<rparr>"
      have run: "impact_loop limit m d es st = (let st' = scan_edges limit x k (impact_adjacency d es x) ?st
        in if impact_cut st' then st' else impact_loop limit m d es st')"
        using Cons q False by (intro impact_loop_scan) auto
      have uncut: "\<not> impact_cut (scan_edges limit x k (impact_adjacency d es x) ?st)"
        using "1.prems"(1) unfolding run by (auto simp: Let_def split: if_splits)
      show ?thesis
        using "1.IH"(2) [OF Cons q [symmetric] refl False refl uncut] "1.prems"
          scan_edges_room [OF uncut] uncut unfolding run by (simp add: Let_def)
    qed
  qed
qed

lemma pop_impact_edges_prefix: "\<exists>k. pop_impact_edges bytes r = r\<lparr>impact_edges := take k (impact_edges r)\<rparr>"
proof (induction bytes r rule: pop_impact_edges.induct)
  case (1 bytes r)
  show ?case
  proof (cases "GRAPH_RESPONSE_BYTES < bytes r \<and> impact_edges r \<noteq> []")
    case True
    with 1 obtain k where "pop_impact_edges bytes r = r\<lparr>impact_edges := take k (butlast (impact_edges r))\<rparr>"
      by (auto simp: pop_impact_edges.simps [of bytes r])
    then show ?thesis by (auto simp: butlast_conv_take intro!: exI [of _ "min k (length (impact_edges r) - 1)"])
  next
    case False
    then show ?thesis by (intro exI [of _ "length (impact_edges r)"]) (auto simp: pop_impact_edges.simps [of bytes r])
  qed
qed

lemma pop_affected_prefix: "\<exists>k. pop_affected bytes r = r\<lparr>affected := take k (affected r)\<rparr>"
proof (induction bytes r rule: pop_affected.induct)
  case (1 bytes r)
  show ?case
  proof (cases "GRAPH_RESPONSE_BYTES < bytes r \<and> affected r \<noteq> []")
    case True
    with 1 obtain k where "pop_affected bytes r = r\<lparr>affected := take k (butlast (affected r))\<rparr>"
      by (auto simp: pop_affected.simps [of bytes r])
    then show ?thesis by (auto simp: butlast_conv_take intro!: exI [of _ "min k (length (affected r) - 1)"])
  next
    case False
    then show ?thesis by (intro exI [of _ "length (affected r)"]) (auto simp: pop_affected.simps [of bytes r])
  qed
qed

lemma strip_node_id [simp]: "node_id (strip_node_excerpts n) = node_id n"
  by (simp add: strip_node_excerpts_def)

text \<open>An answer, cut to its bytes or not, keeps the root and a prefix of the nodes, and drops no end of an edge.\<close>

lemma enforced_impact:
  obtains k where "map node_id (affected (enforce_impact_bytes bytes r)) = take k (map node_id (affected r))"
    and "node_id (impact_root (enforce_impact_bytes bytes r)) = node_id (impact_root r)"
    and "\<not> impact_truncated (enforce_impact_bytes bytes r) \<Longrightarrow> enforce_impact_bytes bytes r = r"
    and "(\<forall>e \<in> set (impact_edges r). both_ends_in (insert (node_id (impact_root r)) (node_id ` set (affected r))) e) \<Longrightarrow>
      (\<forall>e \<in> set (impact_edges (enforce_impact_bytes bytes r)).
         both_ends_in (insert (node_id (impact_root r)) (node_id ` set (affected (enforce_impact_bytes bytes r)))) e)"
proof (cases "bytes r \<le> GRAPH_RESPONSE_BYTES")
  case True
  then show ?thesis by (intro that [of "length (affected r)"]) (simp_all add: enforce_impact_bytes_def)
next
  case False
  let ?r = "r\<lparr>impact_truncated := True, impact_root := strip_node_excerpts (impact_root r),
    affected := map strip_node_excerpts (affected r), impact_edges := map strip_edge_excerpts (impact_edges r)\<rparr>"
  obtain j where j: "pop_impact_edges bytes ?r = ?r\<lparr>impact_edges := take j (impact_edges ?r)\<rparr>"
    using pop_impact_edges_prefix by blast
  obtain k where k: "pop_affected bytes (pop_impact_edges bytes ?r) =
      (pop_impact_edges bytes ?r)\<lparr>affected := take k (affected (pop_impact_edges bytes ?r))\<rparr>"
    using pop_affected_prefix by blast
  show ?thesis
    by (rule that [of k])
      (use False in \<open>simp_all add: enforce_impact_bytes_def Let_def k [unfolded j, simplified] j take_map [symmetric] comp_def\<close>)
qed

lemma node_map_id: "node_map s i = Some n \<Longrightarrow> n \<in> set (nodes s) \<and> node_id n = i"
  by (auto simp: node_map_def dest!: map_of_SomeD)

lemma node_map_dom: "node_map s i = None \<longleftrightarrow> i \<notin> node_id ` set (nodes s)"
  by (auto simp: node_map_def map_of_eq_None_iff image_image)

lemma mapped_nodes:
  "map node_id (List.map_filter (node_map s) is) = filter (\<lambda>i. i \<in> node_id ` set (nodes s)) is"
proof (induction "is")
  case (Cons i rest)
  then show ?case
    using node_map_dom [of s i] by (cases "node_map s i") (auto simp: List.map_filter_simps dest: node_map_id)
qed (simp add: List.map_filter_simps)

text \<open>The search from a root, as the query starts it.\<close>

definition impact_start :: "string \<Rightarrow> impact_state" where
  "impact_start i =
     \<lparr>impact_queue = [(i, 0)], impact_seen = [i], impact_edge_ids = [], impact_depth = 0, impact_cut = False\<rparr>"

lemma impact_search_within: "all_within d es i m (impact_loop limit m d es (impact_start i))"
  by (rule impact_loop_within)
    (auto simp: all_within_def impact_start_def intro: within_mono [of d es i 0 i m, simplified])

lemma impact_search_complete:
  assumes "\<not> impact_cut (impact_loop limit m d es (impact_start i))"
  shows "set (impact_seen (impact_loop limit m d es (impact_start i))) = {x. within d es i m x}"
proof -
  have "at_level d es i 0 [i] [] (impact_start i)" by (rule at_levelI) (auto simp: impact_start_def)
  from impact_loop_complete [OF this assms] impact_search_within [of d es i m limit] show ?thesis
    by (auto simp: all_within_def)
qed

lemma impact_search_room:
  assumes "\<not> impact_cut (impact_loop limit m d es (impact_start i))"
  shows "length (filter (\<lambda>x. x \<noteq> i) (impact_seen (impact_loop limit m d es (impact_start i)))) \<le> limit"
proof -
  let ?seen = "impact_seen (impact_loop limit m d es (impact_start i))"
  have "i \<in> set ?seen" using impact_loop_seen [of "impact_start i" limit m d es] by (auto simp: impact_start_def)
  then have "length (filter (\<lambda>x. x \<noteq> i) ?seen) < length ?seen" by (intro length_filter_less [of i]) simp_all
  moreover have "length ?seen \<le> limit + 1" using impact_loop_room [OF assms] by (simp add: impact_start_def)
  ultimately show ?thesis by simp
qed

lemma take_ids_sorted:
  "distinct is \<Longrightarrow> map node_id xs = is \<Longrightarrow> distinct (map node_id (take n (sort_key node_id xs))) \<and>
     node_id ` set (take n (sort_key node_id xs)) \<subseteq> set is \<and>
     (length is \<le> n \<longrightarrow> node_id ` set (take n (sort_key node_id xs)) = set is)"
  by (auto simp: take_map [symmetric] distinct_map intro!: inj_on_subset [of node_id "set xs"]
      dest!: in_set_takeD)

text \<open>
  C34: The impact of a node is bounded reachability. Every node the answer reports is one of the
  snapshot's nodes, other than the root, that the asked direction reaches from the root over
  matching edges in at most the asked number of steps (three if none is asked, never more than
  twelve); none is reported twice and at most as many as the limit allows; every reported edge runs
  between reported nodes. Unless the answer says that it was cut, it reports all such nodes.
\<close>

theorem impact_is_bounded_reachability:
  assumes "impact lowercase bytes s reference d depth f limit = Inr r"
  shows "let found = map node_id (affected r); start = node_id (impact_root r);
             near = {i \<in> node_id ` set (nodes s). i \<noteq> start \<and>
               within d (filter (\<lambda>e. edge_matches_filter e f) (edges s)) start (max_depth_of 3 1 12 depth) i}
         in set found \<subseteq> near \<and> (\<not> impact_truncated r \<longrightarrow> set found = near) \<and>
            distinct found \<and> length found \<le> bounded_limit limit \<and>
            (\<forall>e \<in> set (impact_edges r). both_ends_in (insert start (set found)) e)"
proof -
  define es where "es = filter (\<lambda>e. edge_matches_filter e f) (edges s)"
  define m where "m = max_depth_of 3 1 12 depth"
  define n where "n = bounded_limit limit"
  obtain root where root: "resolve_node lowercase s reference = Inr root"
    using assms by (cases "resolve_node lowercase s reference") (auto simp: impact_def)
  define st where "st = impact_loop n m d es (impact_start (node_id root))"
  define ids where "ids = filter (\<lambda>i. i \<in> node_id ` set (nodes s)) (filter (\<lambda>i. i \<noteq> node_id root) (impact_seen st))"
  define found where "found = take n (sort_key node_id
    (List.map_filter (node_map s) (filter (\<lambda>i. i \<noteq> node_id root) (impact_seen st))))"
  define near where "near = {i \<in> node_id ` set (nodes s). i \<noteq> node_id root \<and> within d es (node_id root) m i}"
  define shown where "shown = take MAX_EDGE_LIMIT (filter (both_ends_in (insert (node_id root) (node_id ` set found)))
    (filter (\<lambda>e. edge_id e \<in> set (impact_edge_ids st)) (edges s)))"
  define whole where "whole = \<lparr>impact_root = root, affected = found, impact_edges = sort_key edge_id shown,
    depth_reached = impact_depth st,
    impact_truncated = (impact_cut st \<or> length shown < length (impact_edge_ids st)), impact_context = query_context s\<rparr>"
  have r: "r = enforce_impact_bytes bytes whole"
    using assms unfolding impact_def root and_then.simps Let_def whole_def shown_def found_def st_def impact_start_def n_def m_def es_def
    by simp
  have walked: "all_within d es (node_id root) m st" unfolding st_def by (rule impact_search_within)
  then have "distinct ids" by (simp add: ids_def all_within_def)
  note taken = take_ids_sorted [OF this mapped_nodes [of s "filter (\<lambda>i. i \<noteq> node_id root) (impact_seen st)", folded ids_def], of n, folded found_def]
  have ids_near: "set ids \<subseteq> near" using walked by (auto simp: ids_def near_def all_within_def)
  have all: "node_id ` set found = near" if "\<not> impact_cut st"
  proof -
    have "length ids \<le> n"
      unfolding ids_def st_def using impact_search_room [OF that [unfolded st_def]] by (meson le_trans length_filter_le)
    moreover have "set ids = near"
      using impact_search_complete [OF that [unfolded st_def], folded st_def] by (auto simp: ids_def near_def)
    ultimately show ?thesis using taken by simp
  qed
  have inside: "\<forall>e \<in> set (impact_edges whole). both_ends_in (insert (node_id (impact_root whole)) (node_id ` set (affected whole))) e"
    by (auto simp: whole_def shown_def dest: in_set_takeD)
  from enforced_impact [of bytes whole] obtain k
    where k: "map node_id (affected r) = take k (map node_id found)" "node_id (impact_root r) = node_id root"
      and same: "\<not> impact_truncated r \<Longrightarrow> r = whole"
      and ends: "\<forall>e \<in> set (impact_edges r). both_ends_in (insert (node_id root) (node_id ` set (affected r))) e"
    unfolding r [symmetric] using inside by (simp add: whole_def) metis
  have "set (map node_id (affected r)) \<subseteq> near"
    using taken ids_near set_take_subset [of k "map node_id found"] unfolding k(1) by auto
  moreover have "distinct (map node_id (affected r))" using taken unfolding k(1) by simp
  moreover have "length (map node_id (affected r)) \<le> n" unfolding k(1) by (simp add: found_def)
  moreover have "set (map node_id (affected r)) = near" if "\<not> impact_truncated r"
    using same [OF that] that all by (simp add: whole_def)
  ultimately show ?thesis
    using ends by (simp add: Let_def k(2) near_def es_def m_def n_def)
qed

section \<open>Examples\<close>

definition example_node :: "string \<Rightarrow> string \<Rightarrow> graph_node" where
  "example_node i p =
     \<lparr>node_id = i, node_kind = ''file'', node_label = p, qualified_name = Some p, node_path = Some p, node_detail = None,
      node_language = None, community_id = None, node_trust = Extracted, node_origin = Syntax, node_sources = []\<rparr>"

definition example_edge :: "string \<Rightarrow> string \<Rightarrow> string \<Rightarrow> graph_edge" where
  "example_edge i x y =
     \<lparr>edge_id = i, edge_from = x, edge_to = y, edge_kind = ''imports'', edge_evidence = [], edge_trust = Extracted,
      edge_origin = Syntax, edge_sources = [], edge_candidates = []\<rparr>"

definition example_snapshot :: "unit graph_snapshot" where
  "example_snapshot =
     \<lparr>schema_version = 1, snapshot_id = ''s'', repo_head = None, created_at = [], engine_id = [], engine_version = [],
      coverage = (), communities = [],
      nodes = [example_node ''f:a'' ''a.rs'', example_node ''f:b'' ''b.rs'', example_node ''f:c'' ''c.rs'',
        example_node ''f:d'' ''d.rs''],
      edges = [example_edge ''e1'' ''f:a'' ''f:b'', example_edge ''e2'' ''f:b'' ''f:c'', example_edge ''e3'' ''f:c'' ''f:d'']\<rparr>"

definition any_kind :: graph_filter where
  "any_kind = \<lparr>node_kinds = [], edge_kinds = [], trusts = []\<rparr>"

lemma example_impact:
  "case impact (\<lambda>v. v) (\<lambda>_. 0) example_snapshot ''f:d'' Incoming (Some 2) any_kind None of Inl _ \<Rightarrow> False
   | Inr r \<Rightarrow> map node_id (affected r) = [''f:b'', ''f:c''] \<and> node_id (impact_root r) = ''f:d'' \<and> \<not> impact_truncated r"
  by code_simp

theorem impact_is_bounded_reachability_witness:
  "{i \<in> node_id ` set (nodes example_snapshot). i \<noteq> ''f:d'' \<and>
      within Incoming (filter (\<lambda>e. edge_matches_filter e any_kind) (edges example_snapshot)) ''f:d'' (max_depth_of 3 1 12 (Some 2)) i}
   = {''f:b'', ''f:c''}"
proof -
  from example_impact obtain r where
    r: "impact (\<lambda>v. v) (\<lambda>_. 0) example_snapshot ''f:d'' Incoming (Some 2) any_kind None = Inr r"
      "map node_id (affected r) = [''f:b'', ''f:c'']" "node_id (impact_root r) = ''f:d''" "\<not> impact_truncated r"
    by (auto split: sum.splits)
  from impact_is_bounded_reachability [OF r(1)] show ?thesis unfolding Let_def r(2,3) using r(4) by simp
qed

theorem file_path_is_ambiguous_witness:
  "resolve_node (\<lambda>v. v) example_snapshot ''b.rs'' = Inl ''Node reference is ambiguous (3 matches); use the stable node id''"
proof (rule file_path_is_ambiguous [of _ "[example_node ''f:a'' ''a.rs'']" "example_node ''f:b'' ''b.rs''"
      "[example_node ''f:c'' ''c.rs'', example_node ''f:d'' ''d.rs'']"])
  have n: "normalize (\<lambda>v. v) x = x" if "x \<in> {''f:a'', ''f:b'', ''f:c'', ''f:d'', ''a.rs'', ''b.rs'', ''c.rs'', ''d.rs''}" for x
    using that by (elim insertE) (simp_all, code_simp+)
  show "normalize (\<lambda>v. v) ''b.rs'' \<noteq> []" by (simp add: n)
  fix m assume "m \<in> set (nodes example_snapshot)"
  then show "normalize (\<lambda>v. v) (node_id m) \<noteq> normalize (\<lambda>v. v) ''b.rs''"
    by (auto simp: example_snapshot_def example_node_def n)
next
  have n: "normalize (\<lambda>v. v) x = x" if "x \<in> {''f:a'', ''f:b'', ''f:c'', ''f:d'', ''a.rs'', ''b.rs'', ''c.rs'', ''d.rs''}" for x
    using that by (elim insertE) (simp_all, code_simp+)
  fix m assume "m \<in> set [example_node ''f:a'' ''a.rs''] \<union> set [example_node ''f:c'' ''c.rs'', example_node ''f:d'' ''d.rs'']"
  then show "map_option (normalize (\<lambda>v. v)) (qualified_name m) \<noteq> Some (normalize (\<lambda>v. v) ''b.rs'')"
    by (auto simp: example_node_def n)
qed (simp_all add: example_snapshot_def example_node_def)

theorem identity_resolves_iff_values_differ_witness:
  "resolve_node (\<lambda>v. v) example_snapshot ''f:b'' = Inr (example_node ''f:b'' ''b.rs'')"
proof -
  have n: "normalize (\<lambda>v. v) x = x" if "x \<in> {''f:a'', ''f:b'', ''f:c'', ''f:d'', ''a.rs'', ''b.rs'', ''c.rs'', ''d.rs''}" for x
    using that by (elim insertE) (simp_all, code_simp+)
  have "resolve_node (\<lambda>v. v) example_snapshot (node_id (example_node ''f:b'' ''b.rs'')) = Inr (example_node ''f:b'' ''b.rs'')"
    by (subst identity_resolves_iff_values_differ [of _ "[example_node ''f:a'' ''a.rs'']" "example_node ''f:b'' ''b.rs''"
          "[example_node ''f:c'' ''c.rs'', example_node ''f:d'' ''d.rs'']"])
      (auto simp: example_snapshot_def example_node_def same_value_def n List.map_filter_simps)
  then show ?thesis by (simp add: example_node_def)
qed

text \<open>
  A page of neighbours that is too large for an answer drops edges from its end, but its cursor
  still counts them: no later page shows them. Here the second of three edges is on neither page.
\<close>

definition example_star :: "unit graph_snapshot" where
  "example_star = example_snapshot\<lparr>edges :=
     [example_edge ''e1'' ''f:a'' ''f:b'', example_edge ''e2'' ''f:a'' ''f:c'', example_edge ''e3'' ''f:a'' ''f:d'']\<rparr>"

definition example_bytes :: "unit graph_projection \<Rightarrow> nat" where
  "example_bytes p = GRAPH_RESPONSE_BYTES * length (projected_edges p)"

definition page_summary :: "'c graph_projection result \<Rightarrow> (string list \<times> string option) option" where
  "page_summary r = (case r of Inl _ \<Rightarrow> None | Inr p \<Rightarrow> Some (map edge_id (projected_edges p), next_cursor p))"

lemma oversized_page_loses_edges:
  "page_summary (neighbors (\<lambda>v. v) example_bytes example_star ''f:a'' Outgoing any_kind (Some 2) None)
   = Some ([''e1''], Some ''2'')"
  "page_summary (neighbors (\<lambda>v. v) example_bytes example_star ''f:a'' Outgoing any_kind (Some 2) (Some ''2''))
   = Some ([''e3''], None)"
  by code_simp+

end
