(* ===== verification/WorkBoard.thy ===== *)
theory WorkBoard
  imports SecretPolicy Json "HOL-Library.Code_Target_Nat"
begin

text \<open>
  The work board, \<open>commands/work_items.rs\<close>: the table of work items and the commands that create,
  edit, attach, transition, delete and list them. The identities of running agents, the index of
  historical sessions, canonical paths, the rows that items refer to, fresh identities and the
  clock are answers of the environment.
\<close>

section \<open>Data\<close>

definition WORK_ITEM_SCHEMA_VERSION :: int where "WORK_ITEM_SCHEMA_VERSION = 1"
definition DEFAULT_LIST_LIMIT :: int where "DEFAULT_LIST_LIMIT = 250"
definition MAX_LIST_LIMIT :: int where "MAX_LIST_LIMIT = 1000"

record work_item =
  item_schema :: int
  item_id :: string
  item_title :: string
  item_description :: "string option"
  item_criteria :: "string option"
  item_project :: "string option"
  item_workspace :: "string option"
  item_status :: string
  item_provider :: string
  item_agent :: "string option"
  item_terminal :: "string option"
  item_session :: "string option"
  item_change :: "string option"
  item_review :: "string option"
  item_score :: "rat option"
  item_attempts :: int
  item_verification_run :: "string option"
  item_verification :: string
  item_disposition :: "string option"
  item_attention :: bool
  item_created :: string
  item_updated :: string

record create_item_input =
  new_title :: string
  new_description :: "string option"
  new_criteria :: "string option"
  new_project :: "string option"
  new_workspace :: "string option"
  new_provider :: "string option"

record update_item_input =
  set_title :: "string option"
  set_description :: "string option"
  set_criteria :: "string option"
  set_project :: "string option"
  set_provider :: "string option"
  set_agent :: "string option"
  set_change :: "string option"
  set_review :: "string option"
  set_score :: "rat option"
  set_verification_run :: "string option"
  set_verification :: "string option"
  set_attention :: "bool option"

record attach_session_input =
  attach_provider :: string
  attach_terminal :: "string option"
  attach_session :: "string option"
  attach_project :: "string option"

record session_identity =
  identity_provider :: string
  identity_session :: "string option"
  identity_project :: string

text \<open>
  \<open>canonical\<close> is \<open>std::fs::canonicalize\<close>; \<open>live_run\<close> the registry of running agents and \<open>indexed_run\<close>
  the row of \<open>cc_sessions\<close> (agent type and directory); the \<open>has_\<close> fields say whether the row a
  foreign key refers to exists.
\<close>

record board_env =
  canonical :: "string \<Rightarrow> string option"
  live_run :: "string \<Rightarrow> session_identity option result"
  indexed_run :: "string \<Rightarrow> (string \<times> string option) option"
  has_agent :: "string \<Rightarrow> bool"
  has_review :: "string \<Rightarrow> bool"
  has_workspace :: "string \<Rightarrow> bool"
  fresh_item :: string
  board_now :: string

type_synonym work_items = "(string, work_item) bmap"

section \<open>Normalizing\<close>

text \<open>The database error that carries a message of its own.\<close>

definition invalid_input :: "string \<Rightarrow> string" where
  "invalid_input message = ''Invalid parameter name: '' @ message"

definition no_rows :: string where
  "no_rows = ''Query returned no rows''"

definition foreign_key_failed :: string where
  "foreign_key_failed = ''FOREIGN KEY constraint failed''"

definition unique_failed :: "string \<Rightarrow> string" where
  "unique_failed column = ''UNIQUE constraint failed: '' @ column"

definition normalize_work_status :: "string \<Rightarrow> string result" where
  "normalize_work_status v =
     (let s = lower_str (trim v)
      in if s \<in> set [''plan'', ''backlog'', ''todo'', ''pending''] then Inr ''plan''
         else if s \<in> set [''build'', ''in_progress'', ''in-progress''] then Inr ''build''
         else if s \<in> set [''review'', ''in_review'', ''in-review''] then Inr ''review''
         else if s \<in> set [''verify'', ''test'', ''in_test'', ''in-test''] then Inr ''verify''
         else if s \<in> set [''done'', ''completed''] then Inr ''done''
         else Inl (invalid_input ''Unknown work-item status''))"

definition normalize_item_provider :: "string option \<Rightarrow> string result" where
  "normalize_item_provider v =
     (let s = lower_str (trim (case v of None \<Rightarrow> ''codex'' | Some p \<Rightarrow> p))
      in if s = ''codex'' then Inr ''codex''
         else if s \<in> set [''claude'', ''claude-code''] then Inr ''claude''
         else Inl (invalid_input ''preferred_provider must be codex or claude''))"

definition normalize_verification_status :: "string \<Rightarrow> string result" where
  "normalize_verification_status v =
     (let s = lower_str (trim v)
      in if s \<in> set [''missing'', ''running'', ''passed'', ''failed'', ''stale''] then Inr s
         else Inl (invalid_input ''Unknown verification status''))"

definition normalize_completion_disposition :: "string option \<Rightarrow> string option result" where
  "normalize_completion_disposition v =
     (case map_option trim v of
        None \<Rightarrow> Inr None
      | Some s \<Rightarrow>
          if s = [] then Inr None
          else if s = ''verified'' \<or> s = ''waived'' then Inr (Some s)
          else Inl (invalid_input ''completion_disposition must be verified or waived''))"

definition required_text :: "string \<Rightarrow> string \<Rightarrow> string result" where
  "required_text v field =
     (let s = trim v
      in if s = [] then Inl (invalid_input (field @ '' is required''))
         else if 240 < length (char_chunks s) then Inl (invalid_input (field @ '' is too long''))
         else Inr s)"

definition clean_optional :: "string option \<Rightarrow> string option" where
  "clean_optional v = (case v of None \<Rightarrow> None | Some s \<Rightarrow> if trim s = [] then None else Some (trim s))"

text \<open>\<open>Path::components\<close> collected into a path again.\<close>

fun component_name :: "path_component \<Rightarrow> string" where
  "component_name RootDir = []"
| "component_name CurDir = ''.''"
| "component_name ParentDir = ''..''"
| "component_name (Normal w) = w"

definition collect_path :: "path_component list \<Rightarrow> string" where
  "collect_path cs = (if cs = [RootDir] then ''/'' else join ''/'' (map component_name cs))"

definition normalize_project_path :: "string \<Rightarrow> string" where
  "normalize_project_path v = rev (dropWhile is_slash (rev (collect_path (components (trim v)))))"

definition same_project_path :: "board_env \<Rightarrow> string \<Rightarrow> string \<Rightarrow> bool" where
  "same_project_path env l r =
     (case (canonical env l, canonical env r) of
        (Some l', Some r') \<Rightarrow> components l' = components r'
      | _ \<Rightarrow> normalize_project_path l = normalize_project_path r)"

section \<open>Reading\<close>

definition map_work_item :: "work_item \<Rightarrow> work_item" where
  "map_work_item r =
     r\<lparr>item_status := (case normalize_work_status (item_status r) of Inl _ \<Rightarrow> ''plan'' | Inr s \<Rightarrow> s)\<rparr>"

definition get_work_item :: "work_items \<Rightarrow> string \<Rightarrow> work_item option" where
  "get_work_item t i = map_option map_work_item (map_of t i)"

definition load_item :: "work_items \<Rightarrow> string \<Rightarrow> work_item result" where
  "load_item t i = (case get_work_item t i of None \<Rightarrow> Inl no_rows | Some r \<Rightarrow> Inr r)"

text \<open>\<open>ORDER BY updated_at DESC, id ASC\<close>: sorted by the second key, then stably by the first one.\<close>

definition newest_first :: "('r \<Rightarrow> string) \<Rightarrow> ('r \<Rightarrow> string) \<Rightarrow> 'r list \<Rightarrow> 'r list" where
  "newest_first updated ident rows = rev (sort_key updated (rev (sort_key ident rows)))"

definition list_work_items :: "work_items \<Rightarrow> string option \<Rightarrow> int option \<Rightarrow> work_item list" where
  "list_work_items t project limit =
     (let n = max 1 (min MAX_LIST_LIMIT (case limit of None \<Rightarrow> DEFAULT_LIST_LIMIT | Some l \<Rightarrow> l))
      in map map_work_item (take (nat n)
           (newest_first item_updated item_id
             (filter (\<lambda>r. project = None \<or> item_project r = project) (map snd t)))))"

section \<open>Writing\<close>

definition no_reference :: "('k \<Rightarrow> bool) \<Rightarrow> 'k option \<Rightarrow> bool" where
  "no_reference exists v = (case v of None \<Rightarrow> False | Some k \<Rightarrow> \<not> exists k)"

definition new_item :: "board_env \<Rightarrow> create_item_input \<Rightarrow> string \<Rightarrow> string \<Rightarrow> work_item" where
  "new_item env input title provider =
     \<lparr>item_schema = WORK_ITEM_SCHEMA_VERSION, item_id = fresh_item env, item_title = title,
      item_description = clean_optional (new_description input), item_criteria = clean_optional (new_criteria input),
      item_project = clean_optional (new_project input), item_workspace = clean_optional (new_workspace input),
      item_status = ''plan'', item_provider = provider, item_agent = None, item_terminal = None,
      item_session = None, item_change = None, item_review = None, item_score = None, item_attempts = 0,
      item_verification_run = None, item_verification = ''missing'', item_disposition = None,
      item_attention = False, item_created = board_now env, item_updated = board_now env\<rparr>"

definition create_work_item :: "board_env \<Rightarrow> create_item_input \<Rightarrow> work_items \<Rightarrow> (work_item \<times> work_items) result" where
  "create_work_item env input t =
     and_then (required_text (new_title input) ''title'') (\<lambda>title.
     and_then (normalize_item_provider (new_provider input)) (\<lambda>provider.
     let row = new_item env input title provider
     in and_then (reject_if (map_of t (item_id row) \<noteq> None) (unique_failed ''agent_tasks.id'')) (\<lambda>_.
        and_then (reject_if (no_reference (has_workspace env) (item_workspace row)) foreign_key_failed) (\<lambda>_.
        let t' = bmap_insert (item_id row) row t
        in and_then (load_item t' (item_id row)) (\<lambda>r. Inr (r, t'))))))"

text \<open>\<open>UPDATE .. WHERE id = ..\<close>, and the row read back.\<close>

definition update_item :: "string \<Rightarrow> (work_item \<Rightarrow> work_item) \<Rightarrow> work_items \<Rightarrow> (work_item \<times> work_items) result" where
  "update_item i f t =
     (case map_of t i of
        None \<Rightarrow> Inl no_rows
      | Some row \<Rightarrow>
          (let t' = bmap_insert i (f row) t in and_then (load_item t' i) (\<lambda>r. Inr (r, t'))))"

definition coalesce :: "'v option \<Rightarrow> 'v option \<Rightarrow> 'v option" where
  "coalesce x y = (case x of None \<Rightarrow> y | Some _ \<Rightarrow> x)"

definition coalesce_to :: "'v option \<Rightarrow> 'v \<Rightarrow> 'v" where
  "coalesce_to x y = (case x of None \<Rightarrow> y | Some v \<Rightarrow> v)"

text \<open>\<open>.as_deref().map(f).transpose()?\<close>\<close>

definition optional_result :: "('v \<Rightarrow> 'w result) \<Rightarrow> 'v option \<Rightarrow> 'w option result" where
  "optional_result f x = (case x of None \<Rightarrow> Inr None | Some v \<Rightarrow> and_then (f v) (\<lambda>w. Inr (Some w)))"

definition repository_changed :: "board_env \<Rightarrow> work_item \<Rightarrow> update_item_input \<Rightarrow> bool" where
  "repository_changed env current input \<longleftrightarrow>
     set_project input \<noteq> None \<and>
     (case (item_project current, clean_optional (set_project input)) of
        (Some c, Some n) \<Rightarrow> \<not> same_project_path env c n
      | (None, None) \<Rightarrow> False
      | _ \<Rightarrow> True)"

definition edit_item ::
  "board_env \<Rightarrow> update_item_input \<Rightarrow> string option \<Rightarrow> string option \<Rightarrow> string option \<Rightarrow> bool \<Rightarrow> work_item \<Rightarrow> work_item" where
  "edit_item env input title provider verification moved r =
     r\<lparr>item_title := coalesce_to title (item_title r),
       item_description := (if set_description input \<noteq> None then clean_optional (set_description input) else item_description r),
       item_criteria := (if set_criteria input \<noteq> None then clean_optional (set_criteria input) else item_criteria r),
       item_project := (if set_project input \<noteq> None then clean_optional (set_project input) else item_project r),
       item_provider := coalesce_to provider (item_provider r),
       item_agent := coalesce (clean_optional (set_agent input)) (item_agent r),
       item_terminal := (if moved then None else item_terminal r),
       item_session := (if moved then None else item_session r),
       item_change := coalesce (clean_optional (set_change input)) (item_change r),
       item_review := coalesce (clean_optional (set_review input)) (item_review r),
       item_score := coalesce (set_score input) (item_score r),
       item_verification_run := coalesce (clean_optional (set_verification_run input)) (item_verification_run r),
       item_verification := coalesce_to verification (item_verification r),
       item_attention := coalesce_to (set_attention input) (item_attention r),
       item_updated := board_now env\<rparr>"

definition update_work_item ::
  "board_env \<Rightarrow> string \<Rightarrow> update_item_input \<Rightarrow> work_items \<Rightarrow> (work_item \<times> work_items) result" where
  "update_work_item env raw_id input t =
     (let i = trim raw_id
      in and_then (reject_if (i = []) (invalid_input ''id is required'')) (\<lambda>_.
         and_then (load_item t i) (\<lambda>current.
         and_then (optional_result (\<lambda>v. required_text v ''title'') (set_title input)) (\<lambda>title.
         and_then (optional_result (\<lambda>v. normalize_item_provider (Some v)) (set_provider input)) (\<lambda>provider.
         and_then (optional_result normalize_verification_status (set_verification input)) (\<lambda>verification.
         and_then (reject_if (no_reference (has_agent env) (clean_optional (set_agent input))
                       \<or> no_reference (has_review env) (clean_optional (set_review input))) foreign_key_failed) (\<lambda>_.
         update_item i (edit_item env input title provider verification (repository_changed env current input)) t)))))))"

definition completion_of :: "string \<Rightarrow> string option \<Rightarrow> work_item \<Rightarrow> string option result" where
  "completion_of status disposition current =
     (if status = ''done''
      then (case disposition of
              None \<Rightarrow> Inl (invalid_input ''Done requires completion_disposition: verified or waived'')
            | Some d \<Rightarrow>
                and_then (reject_if (d = ''verified'' \<and>
                    (item_review current = None \<or> item_verification_run current = None
                     \<or> item_verification current \<noteq> ''passed'' \<or> item_change current = None))
                  (invalid_input ''Verified completion requires review, passed verification, and change identity'')) (\<lambda>_.
                Inr (Some d)))
      else Inr None)"

definition transition_work_item ::
  "board_env \<Rightarrow> string \<Rightarrow> string \<Rightarrow> string option \<Rightarrow> work_items \<Rightarrow> (work_item \<times> work_items) result" where
  "transition_work_item env raw_id requested_status requested_disposition t =
     (let i = trim raw_id
      in and_then (normalize_work_status requested_status) (\<lambda>status.
         and_then (normalize_completion_disposition requested_disposition) (\<lambda>disposition.
         and_then (load_item t i) (\<lambda>current.
         and_then (completion_of status disposition current) (\<lambda>completion.
         update_item i (\<lambda>r. r\<lparr>item_status := status, item_disposition := completion, item_updated := board_now env\<rparr>) t)))))"

definition indexed_agent_provider :: "string \<Rightarrow> string option" where
  "indexed_agent_provider agent_type =
     (let s = lower_str (trim agent_type)
      in if contains_str s ''claude'' then Some ''claude''
         else if contains_str s ''codex'' then Some ''codex'' else None)"

definition resolve_work_session_identity ::
  "board_env \<Rightarrow> string option \<Rightarrow> string option \<Rightarrow> session_identity result" where
  "resolve_work_session_identity env terminal session =
     (case terminal of
        Some term \<Rightarrow>
          (case live_run env term of
             Inl e \<Rightarrow> Inl (invalid_input e)
           | Inr None \<Rightarrow> Inl (invalid_input ''The selected live agent run is no longer available'')
           | Inr (Some identity) \<Rightarrow>
               and_then (reject_if (trim (identity_project identity) = [])
                 (invalid_input ''The selected live agent run has no authoritative repository'')) (\<lambda>_. Inr identity))
      | None \<Rightarrow>
          (case session of
             None \<Rightarrow> Inl (invalid_input ''session_id is required'')
           | Some s \<Rightarrow>
               (case indexed_run env s of
                  None \<Rightarrow> Inl (invalid_input ''The selected historical agent run was not found'')
                | Some (agent_type, cwd) \<Rightarrow>
                    (case indexed_agent_provider agent_type of
                       None \<Rightarrow> Inl (invalid_input ''The selected historical run uses an unsupported provider'')
                     | Some provider \<Rightarrow>
                         (case clean_optional cwd of
                            None \<Rightarrow> Inl (invalid_input ''The selected historical agent run has no authoritative repository'')
                          | Some project \<Rightarrow>
                              Inr \<lparr>identity_provider = provider, identity_session = Some s, identity_project = project\<rparr>)))))"

definition names_other :: "board_env \<Rightarrow> string option \<Rightarrow> session_identity \<Rightarrow> bool" where
  "names_other env p identity \<longleftrightarrow>
     (case p of None \<Rightarrow> False | Some q \<Rightarrow> \<not> same_project_path env q (identity_project identity))"

definition attach_item :: "board_env \<Rightarrow> string option \<Rightarrow> session_identity \<Rightarrow> work_item \<Rightarrow> work_item" where
  "attach_item env terminal identity r =
     r\<lparr>item_provider := identity_provider identity, item_terminal := terminal,
       item_session := identity_session identity,
       item_project := coalesce (item_project r) (Some (identity_project identity)),
       item_attention := False, item_updated := board_now env\<rparr>"

definition attach_work_item_session ::
  "board_env \<Rightarrow> string \<Rightarrow> attach_session_input \<Rightarrow> work_items \<Rightarrow> (work_item \<times> work_items) result" where
  "attach_work_item_session env raw_id input t =
     (let i = trim raw_id; terminal = clean_optional (attach_terminal input); session = clean_optional (attach_session input)
      in and_then (reject_if (i = []) (invalid_input ''id is required'')) (\<lambda>_.
         and_then (normalize_item_provider (Some (attach_provider input))) (\<lambda>provider.
         and_then (reject_if (terminal = None \<and> session = None) (invalid_input ''terminal_id or session_id is required'')) (\<lambda>_.
         and_then (resolve_work_session_identity env terminal session) (\<lambda>identity.
         and_then (reject_if (provider \<noteq> identity_provider identity)
                     (invalid_input ''The requested provider does not match the authoritative agent run'')) (\<lambda>_.
         and_then (reject_if (names_other env (clean_optional (attach_project input)) identity)
                     (invalid_input ''The requested repository does not match the authoritative agent run'')) (\<lambda>_.
         and_then (reject_if (terminal \<noteq> None \<and> session \<noteq> None \<and> session \<noteq> identity_session identity)
                     (invalid_input ''The requested provider session does not match the live agent run'')) (\<lambda>_.
         and_then (load_item t i) (\<lambda>current.
         and_then (reject_if (names_other env (item_project current) identity)
                     (invalid_input ''The agent run belongs to a different repository than this work item'')) (\<lambda>_.
         update_item i (attach_item env terminal identity) t))))))))))"

definition delete_work_item :: "string \<Rightarrow> work_items \<Rightarrow> work_items result" where
  "delete_work_item raw_id t =
     (if map_of t (trim raw_id) = None then Inl (''Work item not found: '' @ trim raw_id)
      else Inr (filter (\<lambda>(k, _). k \<noteq> trim raw_id) t))"

section \<open>The table\<close>

definition work_statuses :: "string set" where
  "work_statuses = {''plan'', ''build'', ''review'', ''verify'', ''done''}"

definition work_providers :: "string set" where
  "work_providers = {''codex'', ''claude''}"

definition verification_statuses :: "string set" where
  "verification_statuses = {''missing'', ''running'', ''passed'', ''failed'', ''stale''}"

text \<open>What every row satisfies, whatever commands have run.\<close>

definition item_ok :: "work_item \<Rightarrow> bool" where
  "item_ok r \<longleftrightarrow>
     item_status r \<in> work_statuses \<and>
     item_provider r \<in> work_providers \<and>
     item_verification r \<in> verification_statuses \<and>
     item_title r \<noteq> [] \<and> trim (item_title r) = item_title r \<and> length (char_chunks (item_title r)) \<le> 240 \<and>
     item_disposition r \<in> {None, Some ''verified'', Some ''waived''} \<and>
     (item_disposition r \<noteq> None \<longleftrightarrow> item_status r = ''done'') \<and>
     (item_disposition r = Some ''verified'' \<longrightarrow>
        item_review r \<noteq> None \<and> item_verification_run r \<noteq> None \<and> item_change r \<noteq> None)"

definition items_ok :: "work_items \<Rightarrow> bool" where
  "items_ok t \<longleftrightarrow> bmap_ok t \<and> (\<forall>i r. map_of t i = Some r \<longrightarrow> item_id r = i \<and> item_ok r)"

lemma items_okD: "items_ok t \<Longrightarrow> map_of t i = Some r \<Longrightarrow> item_ok r \<and> item_id r = i"
  by (simp add: items_ok_def)

lemma items_ok_insert: "items_ok t \<Longrightarrow> item_id r = i \<Longrightarrow> item_ok r \<Longrightarrow> items_ok (bmap_insert i r t)"
  by (auto simp: items_ok_def)

lemma bmap_ok_filter: "bmap_ok m \<Longrightarrow> bmap_ok (filter p m)"
  by (simp add: bmap_ok_def sorted_wrt_map sorted_wrt_filter)

lemma map_of_filter_key: "map_of (filter (\<lambda>(k, _). k \<noteq> i) t) = (map_of t)(i := None)"
  by (induction t) (auto simp: fun_eq_iff)

lemma normalize_work_status_Inr:
  "normalize_work_status v = Inr s \<Longrightarrow> s \<in> work_statuses"
  by (auto simp: normalize_work_status_def work_statuses_def Let_def split: if_splits)

lemma normalize_item_provider_Inr: "normalize_item_provider v = Inr s \<Longrightarrow> s \<in> work_providers"
  by (auto simp: normalize_item_provider_def work_providers_def Let_def split: if_splits)

lemma normalize_verification_status_Inr:
  "normalize_verification_status v = Inr s \<Longrightarrow> s \<in> verification_statuses"
  by (auto simp: normalize_verification_status_def verification_statuses_def Let_def split: if_splits)

lemma normalize_disposition_Inr:
  "normalize_completion_disposition v = Inr d \<Longrightarrow> d \<in> {None, Some ''verified'', Some ''waived''}"
  by (auto simp: normalize_completion_disposition_def split: option.splits if_splits)

lemma required_text_Inr:
  "required_text v field = Inr s \<longleftrightarrow> s = trim v \<and> s \<noteq> [] \<and> length (char_chunks s) \<le> 240"
  by (auto simp: required_text_def Let_def split: if_splits)

lemma optional_result_Inr:
  "optional_result f x = Inr y \<longleftrightarrow> (case x of None \<Rightarrow> y = None | Some v \<Rightarrow> \<exists>w. f v = Inr w \<and> y = Some w)"
  by (auto simp: optional_result_def and_then_Inr split: option.splits)

text \<open>A stored status in the board's own words is read back as it is.\<close>

lemma map_work_item_ok: "item_ok r \<Longrightarrow> map_work_item r = r"
proof -
  assume "item_ok r"
  moreover have "normalize_work_status s = Inr s" if "s \<in> work_statuses" for s
    using that unfolding work_statuses_def by (elim insertE) (simp_all, code_simp+)
  ultimately have "normalize_work_status (item_status r) = Inr (item_status r)" by (simp add: item_ok_def)
  then show ?thesis by (simp add: map_work_item_def)
qed

lemma load_item_Inr: "items_ok t \<Longrightarrow> load_item t i = Inr r \<longleftrightarrow> map_of t i = Some r"
  using items_okD [of t i] by (cases "map_of t i") (auto simp: load_item_def get_work_item_def map_work_item_ok)

lemma update_item_Inr:
  assumes "items_ok t" and "update_item i f t = Inr (r, t')"
    and "\<And>row. map_of t i = Some row \<Longrightarrow> item_ok row \<Longrightarrow> item_ok (f row) \<and> item_id (f row) = item_id row"
  obtains row where "map_of t i = Some row" and "r = f row" and "t' = bmap_insert i (f row) t" and "items_ok t'"
proof -
  from assms(2) obtain row where row: "map_of t i = Some row" "t' = bmap_insert i (f row) t" "load_item t' i = Inr r"
    by (auto simp: update_item_def Let_def and_then_Inr split: option.splits)
  moreover have ok: "items_ok t'"
    using assms(3) [OF row(1)] items_okD [OF assms(1) row(1)] unfolding row(2) by (auto intro!: items_ok_insert assms(1))
  moreover have "r = f row" using row(3) unfolding load_item_Inr [OF ok] by (simp add: row(2))
  ultimately show ?thesis using that by blast
qed

section \<open>The commands keep it\<close>

lemma create_keeps:
  assumes "create_work_item env input t = Inr (r, t')" and "items_ok t"
  shows "items_ok t' \<and> map_of t (item_id r) = None \<and> t' = bmap_insert (item_id r) r t"
proof -
  from assms(1) obtain title provider where new: "required_text (new_title input) ''title'' = Inr title"
      "normalize_item_provider (new_provider input) = Inr provider"
    and row: "map_of t (item_id (new_item env input title provider)) = None"
      "t' = bmap_insert (item_id (new_item env input title provider)) (new_item env input title provider) t"
      "load_item t' (item_id (new_item env input title provider)) = Inr r"
    by (auto simp: create_work_item_def Let_def and_then_Inr reject_if_Inr)
  have "item_ok (new_item env input title provider)"
    using new(1) normalize_item_provider_Inr [OF new(2)] by (auto simp: item_ok_def new_item_def required_text_Inr work_statuses_def verification_statuses_def)
  then have ok: "items_ok t'" using assms(2) unfolding row(2) by (intro items_ok_insert) simp_all
  have "r = new_item env input title provider" using row(3) unfolding load_item_Inr [OF ok] by (simp add: row(2))
  with row ok show ?thesis by simp
qed

lemma edit_item_ok:
  assumes "item_ok row" and "optional_result (\<lambda>v. required_text v ''title'') (set_title input) = Inr title"
    and "optional_result (\<lambda>v. normalize_item_provider (Some v)) (set_provider input) = Inr provider"
    and "optional_result normalize_verification_status (set_verification input) = Inr verification"
  shows "item_ok (edit_item env input title provider verification moved row)"
proof -
  have "\<And>s. title = Some s \<Longrightarrow> s \<noteq> [] \<and> trim s = s \<and> length (char_chunks s) \<le> 240"
    using assms(2) by (auto simp: optional_result_Inr required_text_Inr split: option.splits)
  moreover have "\<And>s. provider = Some s \<Longrightarrow> s \<in> work_providers"
    using assms(3) by (auto simp: optional_result_Inr dest: normalize_item_provider_Inr split: option.splits)
  moreover have "\<And>s. verification = Some s \<Longrightarrow> s \<in> verification_statuses"
    using assms(4) by (auto simp: optional_result_Inr dest: normalize_verification_status_Inr split: option.splits)
  ultimately show ?thesis
    using assms(1) by (simp add: item_ok_def edit_item_def coalesce_to_def coalesce_def split: option.split)
qed

lemma edit_item_id [simp]: "item_id (edit_item env input title provider verification moved row) = item_id row"
  by (simp add: edit_item_def)

lemma update_keeps:
  assumes "update_work_item env i input t = Inr (r, t')" and "items_ok t"
  shows "items_ok t'"
proof -
  from assms(1) obtain title provider verification moved where
    vals: "optional_result (\<lambda>v. required_text v ''title'') (set_title input) = Inr title"
      "optional_result (\<lambda>v. normalize_item_provider (Some v)) (set_provider input) = Inr provider"
      "optional_result normalize_verification_status (set_verification input) = Inr verification"
    and run: "update_item (trim i) (edit_item env input title provider verification moved) t = Inr (r, t')"
    by (auto simp: update_work_item_def Let_def and_then_Inr)
  show ?thesis
    by (rule update_item_Inr [OF assms(2) run]) (simp_all add: edit_item_ok [OF _ vals])
qed

lemma completion_of_Inr:
  "completion_of status d current = Inr c \<longleftrightarrow>
     (if status = ''done''
      then c = d \<and> d \<noteq> None \<and> (d = Some ''verified'' \<longrightarrow> item_review current \<noteq> None \<and>
        item_verification_run current \<noteq> None \<and> item_verification current = ''passed'' \<and> item_change current \<noteq> None)
      else c = None)"
  by (auto simp: completion_of_def and_then_Inr reject_if_Inr split: option.splits)

lemma transition_Inr:
  assumes "transition_work_item env i status disposition t = Inr (r, t')" and "items_ok t"
  obtains s d c row where "normalize_work_status status = Inr s" and "normalize_completion_disposition disposition = Inr d"
    and "map_of t (trim i) = Some row" and "completion_of s d row = Inr c"
    and "r = row\<lparr>item_status := s, item_disposition := c, item_updated := board_now env\<rparr>"
    and "t' = bmap_insert (trim i) r t" and "items_ok t'"
proof -
  from assms obtain s d c current where
    vals: "normalize_work_status status = Inr s" "normalize_completion_disposition disposition = Inr d"
      "map_of t (trim i) = Some current" "completion_of s d current = Inr c"
    and run: "update_item (trim i) (\<lambda>r. r\<lparr>item_status := s, item_disposition := c, item_updated := board_now env\<rparr>) t = Inr (r, t')"
    unfolding transition_work_item_def Let_def and_then_Inr load_item_Inr [OF assms(2)] by blast
  show ?thesis
  proof (rule update_item_Inr [OF assms(2) run], goal_cases)
    case (1 row)
    with vals(3) have "current = row" by simp
    with vals(4) have c: "completion_of s d row = Inr c" by simp
    show ?case
    proof (cases "s = ''done''")
      case True
      with c normalize_disposition_Inr [OF vals(2)] have "c \<in> {None, Some ''verified'', Some ''waived''}" "c \<noteq> None"
        "c = Some ''verified'' \<longrightarrow> item_review row \<noteq> None \<and> item_verification_run row \<noteq> None \<and> item_change row \<noteq> None"
        by (simp_all add: completion_of_Inr)
      with 1 True normalize_work_status_Inr [OF vals(1)] show ?thesis by (simp add: item_ok_def)
    next
      case False
      with c 1 normalize_work_status_Inr [OF vals(1)] show ?thesis by (simp add: item_ok_def completion_of_Inr)
    qed
  next
    case (2 row)
    with vals(3) have row: "current = row" by simp
    show ?case
      by (rule that [OF vals(1,2) 2(1) vals(4) [unfolded row] 2(2) _ 2(4)]) (simp add: 2(2,3))
  qed
qed

lemma attach_Inr:
  assumes "attach_work_item_session env i input t = Inr (r, t')" and "items_ok t"
  obtains row identity where "map_of t (trim i) = Some row"
    and "resolve_work_session_identity env (clean_optional (attach_terminal input)) (clean_optional (attach_session input)) = Inr identity"
    and "normalize_item_provider (Some (attach_provider input)) = Inr (identity_provider identity)"
    and "\<not> names_other env (item_project row) identity"
    and "\<not> names_other env (clean_optional (attach_project input)) identity"
    and "\<not> (clean_optional (attach_terminal input) \<noteq> None \<and> clean_optional (attach_session input) \<noteq> None \<and>
      clean_optional (attach_session input) \<noteq> identity_session identity)"
    and "r = attach_item env (clean_optional (attach_terminal input)) identity row"
    and "t' = bmap_insert (trim i) r t" and "items_ok t'"
proof -
  from assms obtain current identity where
    vals: "map_of t (trim i) = Some current"
      "resolve_work_session_identity env (clean_optional (attach_terminal input)) (clean_optional (attach_session input)) = Inr identity"
      "normalize_item_provider (Some (attach_provider input)) = Inr (identity_provider identity)"
      "\<not> names_other env (item_project current) identity"
      "\<not> names_other env (clean_optional (attach_project input)) identity"
      "\<not> (clean_optional (attach_terminal input) \<noteq> None \<and> clean_optional (attach_session input) \<noteq> None \<and>
        clean_optional (attach_session input) \<noteq> identity_session identity)"
    and run: "update_item (trim i) (attach_item env (clean_optional (attach_terminal input)) identity) t = Inr (r, t')"
    unfolding attach_work_item_session_def Let_def and_then_Inr reject_if_Inr load_item_Inr [OF assms(2)] by blast
  show ?thesis
  proof (rule update_item_Inr [OF assms(2) run], goal_cases)
    case (1 row)
    with normalize_item_provider_Inr [OF vals(3)] show ?case by (auto simp: item_ok_def attach_item_def)
  next
    case (2 row)
    with vals that [of current identity] show ?case by simp
  qed
qed

lemma delete_keeps: "delete_work_item i t = Inr t' \<Longrightarrow> items_ok t \<Longrightarrow> items_ok t'"
  by (auto simp: delete_work_item_def items_ok_def bmap_ok_filter map_of_filter_key split: if_splits)

text \<open>The commands as steps of the table.\<close>

inductive board_step :: "work_items \<Rightarrow> work_items \<Rightarrow> bool" where
  created: "create_work_item env input t = Inr (r, t') \<Longrightarrow> board_step t t'"
| updated: "update_work_item env i input t = Inr (r, t') \<Longrightarrow> board_step t t'"
| transitioned: "transition_work_item env i status d t = Inr (r, t') \<Longrightarrow> board_step t t'"
| attached: "attach_work_item_session env i input' t = Inr (r, t') \<Longrightarrow> board_step t t'"
| deleted: "delete_work_item i t = Inr t' \<Longrightarrow> board_step t t'"

lemma board_step_keeps: "board_step t t' \<Longrightarrow> items_ok t \<Longrightarrow> items_ok t'"
  by (induction rule: board_step.induct) (blast dest: create_keeps update_keeps delete_keeps elim: transition_Inr attach_Inr)+

abbreviation board_reachable :: "work_items \<Rightarrow> bool" where
  "board_reachable \<equiv> board_step\<^sup>*\<^sup>* []"

lemma board_reachable_ok: "board_reachable t \<Longrightarrow> items_ok t"
proof (induction rule: rtranclp_induct)
  case base
  show ?case by (simp add: items_ok_def)
next
  case (step t t')
  from step(2,3) show ?case by (rule board_step_keeps)
qed

section \<open>Completion\<close>

text \<open>
  C12: A verified completion is earned. In every table the commands can lead to, an item has a
  disposition exactly when it is done, and a verified one has a review, a verification run and a
  change identity. It became verified only by a transition that found it with all three and with a
  passed verification.
\<close>

theorem verified_completion_is_earned:
  assumes "board_reachable t"
  shows "(\<forall>i row. map_of t i = Some row \<longrightarrow>
      (item_disposition row \<noteq> None \<longleftrightarrow> item_status row = ''done'') \<and>
      (item_disposition row = Some ''verified'' \<longrightarrow>
         item_review row \<noteq> None \<and> item_verification_run row \<noteq> None \<and> item_change row \<noteq> None)) \<and>
    (\<forall>t' i row row'. board_step t t' \<longrightarrow> map_of t i = Some row \<longrightarrow> map_of t' i = Some row' \<longrightarrow>
      item_disposition row' = Some ''verified'' \<longrightarrow> item_disposition row \<noteq> Some ''verified'' \<longrightarrow>
         item_status row' = ''done'' \<and> item_verification row = ''passed'' \<and>
         item_review row \<noteq> None \<and> item_verification_run row \<noteq> None \<and> item_change row \<noteq> None)"
proof -
  note ok = board_reachable_ok [OF assms]
  have "item_verification row = ''passed'' \<and> item_review row \<noteq> None \<and> item_verification_run row \<noteq> None \<and> item_change row \<noteq> None"
    if step: "board_step t t'" and rows: "map_of t i = Some row" "map_of t' i = Some row'"
      and d: "item_disposition row' = Some ''verified''" "item_disposition row \<noteq> Some ''verified''" for t' i row row'
    using step
  proof cases
    case (created env input r)
    with create_keeps [OF this ok] rows d show ?thesis by (auto split: if_splits)
  next
    case (updated env j input r)
    then obtain f where f: "update_item (trim j) f t = Inr (r, t')" "\<And>x. item_disposition (f x) = item_disposition x"
      unfolding update_work_item_def Let_def and_then_Inr edit_item_def by auto
    with rows d show ?thesis by (auto simp: update_item_def Let_def and_then_Inr split: option.splits if_splits)
  next
    case (transitioned env j status disposition r)
    show ?thesis
    proof (rule transition_Inr [OF transitioned ok], goal_cases)
      case (1 s c completion current)
      have "item_disposition r = completion" by (simp add: 1(5))
      with 1(3,4,6) rows d show ?thesis by (simp add: completion_of_Inr split: if_splits)
    qed
  next
    case (attached env j input r)
    from attach_Inr [OF this ok] obtain current terminal identity where
      "map_of t (trim j) = Some current" "r = attach_item env terminal identity current" "t' = bmap_insert (trim j) r t" by metis
    with rows d show ?thesis by (auto simp: attach_item_def split: if_splits)
  next
    case (deleted j)
    with rows d show ?thesis by (auto simp: delete_work_item_def map_of_filter_key split: if_splits)
  qed
  moreover have "item_status row' = ''done''"
    if "board_step t t'" "map_of t' i = Some row'" "item_disposition row' = Some ''verified''" for t' i row'
    using items_okD [OF board_step_keeps [OF that(1) ok] that(2)] that(3) by (simp add: item_ok_def)
  ultimately show ?thesis using items_okD [OF ok] unfolding item_ok_def by blast
qed

section \<open>Examples\<close>

definition example_env :: board_env where
  "example_env = \<lparr>canonical = (\<lambda>_. None), live_run = (\<lambda>_. Inr None), indexed_run = (\<lambda>_. None), has_agent = (\<lambda>_. True),
     has_review = (\<lambda>_. True), has_workspace = (\<lambda>_. True), fresh_item = ''i'', board_now = ''now''\<rparr>"

definition example_input :: create_item_input where
  "example_input = \<lparr>new_title = ''goal'', new_description = None, new_criteria = None, new_project = Some ''/r'',
     new_workspace = None, new_provider = None\<rparr>"

definition example_edit :: "string \<Rightarrow> update_item_input" where
  "example_edit verification = \<lparr>set_title = None, set_description = None, set_criteria = None, set_project = None,
     set_provider = None, set_agent = None, set_change = Some ''c'', set_review = Some ''v'', set_score = None,
     set_verification_run = Some ''w'', set_verification = Some verification, set_attention = None\<rparr>"

definition after :: "(work_item \<times> work_items) result \<Rightarrow> work_items" where
  "after x = (case x of Inl _ \<Rightarrow> [] | Inr (_, t) \<Rightarrow> t)"

lemma board_reachable_after:
  assumes "board_reachable t"
  shows "is_ok (create_work_item env input t) \<Longrightarrow> board_reachable (after (create_work_item env input t))"
    and "is_ok (update_work_item env i edit t) \<Longrightarrow> board_reachable (after (update_work_item env i edit t))"
    and "is_ok (transition_work_item env i status d t) \<Longrightarrow> board_reachable (after (transition_work_item env i status d t))"
  using assms
  by (auto simp: is_ok_iff after_def intro: rtranclp.rtrancl_into_rtrancl board_step.intros split: sum.splits)

definition example_new :: work_items where
  "example_new = after (create_work_item example_env example_input [])"

definition example_passed :: work_items where
  "example_passed = after (update_work_item example_env ''i'' (example_edit ''passed'') example_new)"

definition example_done :: work_items where
  "example_done = after (transition_work_item example_env ''i'' ''done'' (Some ''verified'') example_passed)"

definition example_lapsed :: work_items where
  "example_lapsed = after (update_work_item example_env ''i'' (example_edit ''failed'') example_done)"

lemma example_runs:
  "is_ok (create_work_item example_env example_input [])"
  "is_ok (update_work_item example_env ''i'' (example_edit ''passed'') example_new)"
  "is_ok (transition_work_item example_env ''i'' ''done'' (Some ''verified'') example_passed)"
  "is_ok (update_work_item example_env ''i'' (example_edit ''failed'') example_done)"
  by code_simp+

lemma example_done_reachable: "board_reachable example_done"
  unfolding example_done_def example_passed_def example_new_def
  by (intro board_reachable_after) (simp_all only: example_runs [unfolded example_done_def example_passed_def example_new_def] rtranclp.rtrancl_refl)

lemma example_done_item:
  "map_option item_disposition (map_of example_done ''i'') = Some (Some ''verified'')"
  by code_simp

theorem verified_completion_is_earned_witness:
  "\<exists>row. map_of example_done ''i'' = Some row \<and> item_status row = ''done'' \<and> item_review row \<noteq> None"
  using verified_completion_is_earned [OF example_done_reachable] example_done_item by fastforce

text \<open>
  Nothing takes a verified completion back: when a later edit reports that the verification failed,
  the item stays done and verified.
\<close>

theorem verified_completion_may_lapse:
  "\<exists>t row. board_reachable t \<and> map_of t ''i'' = Some row \<and> item_disposition row = Some ''verified'' \<and>
     item_verification row = ''failed''"
proof -
  have "board_reachable example_lapsed"
    unfolding example_lapsed_def by (intro board_reachable_after(2) example_done_reachable example_runs)
  moreover have "map_option (\<lambda>r. (item_disposition r, item_verification r)) (map_of example_lapsed ''i'')
      = Some (Some ''verified'', ''failed'')" by code_simp
  ultimately show ?thesis by auto
qed

end
