(* ===== verification/ManagedWork.thy ===== *)
theory ManagedWork
  imports WorkBoard
begin

text \<open>
  Managed runs of a work item, \<open>commands/managed_work.rs\<close>: an isolated worktree with reserved ports,
  the agent process attached to it, the hooks run in it with a checkpoint for each, the handoff, the
  archive, and the closure receipts of an item. The tables are those of
  \<open>db/verification_workbench_schema.rs\<close> with their unique indexes and foreign keys. Git, the file
  system, the processes, sockets, SHA-256, fresh identities and the clock are the environment; one
  request reads the clock once.
\<close>

section \<open>Data\<close>

definition MAX_HOOK_ARGS :: nat where "MAX_HOOK_ARGS = 64"
definition MAX_HOOK_ARG_CHARS :: nat where "MAX_HOOK_ARG_CHARS = 4096"
definition MIN_HOOK_TIMEOUT_MS :: nat where "MIN_HOOK_TIMEOUT_MS = 1000"
definition MAX_HOOK_TIMEOUT_MS :: nat where "MAX_HOOK_TIMEOUT_MS = 15 * 60 * 1000"
definition MAX_PORT_REQUESTS :: nat where "MAX_PORT_REQUESTS = 16"

record provider_profile =
  profile_id :: string
  profile_provider :: string
  profile_config :: string
  profile_available :: bool

record port_request =
  request_purpose :: string
  preferred_port :: "nat option"

record create_run_input =
  create_item :: string
  create_provider :: string
  create_profile :: string
  create_repo :: string
  create_ports :: "port_request list"

record managed_port =
  port_purpose :: string
  port_number :: nat

record managed_run =
  run_id :: string
  run_item :: string
  run_provider :: string
  run_profile :: string
  run_profile_path :: string
  run_repo :: string
  run_base :: string
  run_worktree :: "string option"
  run_branch :: "string option"
  run_owner :: string
  run_ports :: "managed_port list"
  run_terminal :: "string option"
  run_session :: "string option"
  run_pid :: "nat option"
  run_started :: "string option"
  run_state :: string
  run_checkpoint :: "string option"
  run_change :: "string option"
  run_reason :: "string option"
  run_created :: string
  run_updated :: string

record attach_process_input =
  attach_run :: string
  attach_process_terminal :: string
  attach_process_session :: "string option"
  attach_pid :: nat

record hook_input =
  hook_run :: string
  hook_kind :: string
  hook_program :: string
  hook_args :: "string list"
  hook_timeout_ms :: "nat option"

record hook_execution =
  hook_success :: bool
  hook_exit_code :: "int option"
  hook_timed_out :: bool
  hook_duration_ms :: nat
  hook_stdout :: string
  hook_stderr :: string
  hook_stdout_truncated :: bool
  hook_stderr_truncated :: bool

record hook_result =
  result_checkpoint :: string
  result_kind :: string
  result_execution :: hook_execution
  result_change :: string

record port_row =
  row_run :: string
  row_port :: nat
  row_purpose :: string

text \<open>A checkpoint keeps its command and its evidence as values, not as their JSON text.\<close>

record checkpoint_row =
  checkpoint_id :: string
  checkpoint_run :: string
  checkpoint_sequence :: nat
  checkpoint_kind :: string
  checkpoint_state :: string
  checkpoint_change :: "string option"
  checkpoint_command :: "string \<times> string list"
  checkpoint_summary :: string
  checkpoint_evidence :: "hook_result option"

record closure_input =
  close_item :: string
  close_run :: "string option"
  close_disposition :: string
  close_reason :: string

record closure_row =
  closure_id :: string
  closure_item :: string
  closure_version :: nat
  closure_goal :: string
  closure_criteria :: "string list"
  closure_provider :: "string option"
  closure_session :: "string option"
  closure_run :: "string option"
  closure_change :: string
  closure_review :: "string option"
  closure_verification :: "string option"
  closure_disposition :: string
  closure_reason :: string
  closure_stale_reason :: "string option"
  closure_created :: string

record managed_db =
  board_items :: work_items
  managed_runs :: "(string, managed_run) bmap"
  port_rows :: "port_row list"
  checkpoint_rows :: "(string, checkpoint_row) bmap"
  closure_rows :: "(string, closure_row) bmap"

text \<open>
  \<open>git\<close> runs a git command in a directory; \<open>bindable\<close> says whether a loopback port can be bound and
  \<open>ephemeral\<close> gives the ports the system hands out for a request; \<open>process_start\<close> is the start time
  \<open>ps\<close> reports for a running process.
\<close>

record managed_env =
  resolve_path :: "string \<Rightarrow> string result"
  is_directory :: "string \<Rightarrow> bool"
  path_exists :: "string \<Rightarrow> bool"
  git :: "string \<Rightarrow> string list \<Rightarrow> string result"
  git_status :: "string \<Rightarrow> string list \<Rightarrow> (bool \<times> string) result"
  add_worktree :: "string \<Rightarrow> string \<Rightarrow> string \<Rightarrow> string \<Rightarrow> unit result"
  remove_worktree :: "string \<Rightarrow> string \<Rightarrow> unit result"
  worktree_root :: "string result"
  profiles :: "provider_profile list result"
  sha256_hex :: "string \<Rightarrow> string"
  process_start :: "nat \<Rightarrow> string option"
  bindable :: "nat \<Rightarrow> bool"
  ephemeral :: "nat \<Rightarrow> nat list result"
  fresh_uuid :: "string \<Rightarrow> string"
  managed_now :: string

section \<open>Requests on the database\<close>

text \<open>A request answers with an error or a value, and leaves the tables as it has written them.\<close>

type_synonym 'v request = "managed_db \<Rightarrow> 'v result \<times> managed_db"

definition answer :: "'v result \<Rightarrow> 'v request" where
  "answer r d = (r, d)"

definition then_do :: "'v request \<Rightarrow> ('v \<Rightarrow> 'w request) \<Rightarrow> 'w request" where
  "then_do m f d = (case m d of (Inl e, d') \<Rightarrow> (Inl e, d') | (Inr v, d') \<Rightarrow> f v d')"

definition live_state :: "string \<Rightarrow> bool" where
  "live_state s \<longleftrightarrow> s \<in> set [''planned'', ''starting'', ''running'', ''attention'', ''checking'']"

text \<open>The unique index on the live runs of an item.\<close>

definition live_elsewhere :: "managed_run \<Rightarrow> managed_db \<Rightarrow> bool" where
  "live_elsewhere r d \<longleftrightarrow>
     live_state (run_state r) \<and>
     list_ex (\<lambda>(i, q). i \<noteq> run_id r \<and> run_item q = run_item r \<and> live_state (run_state q)) (managed_runs d)"

definition put_run :: "managed_run \<Rightarrow> unit request" where
  "put_run r d =
     (if live_elsewhere r d then (Inl (unique_failed ''managed_work_runs.work_item_id''), d)
      else (Inr (), d\<lparr>managed_runs := bmap_insert (run_id r) r (managed_runs d)\<rparr>))"

text \<open>\<open>UPDATE managed_work_runs SET .. WHERE id = ..\<close> and the number of rows changed.\<close>

definition update_run :: "string \<Rightarrow> (managed_run \<Rightarrow> bool) \<Rightarrow> (managed_run \<Rightarrow> managed_run) \<Rightarrow> nat request" where
  "update_run i p f d =
     (case map_of (managed_runs d) i of
        None \<Rightarrow> (Inr 0, d)
      | Some r \<Rightarrow> if p r then then_do (put_run (f r)) (\<lambda>_. answer (Inr 1)) d else (Inr 0, d))"

definition get_run :: "string \<Rightarrow> managed_db \<Rightarrow> managed_run option" where
  "get_run i d = map_of (managed_runs d) i"

definition read_run :: "string \<Rightarrow> string \<Rightarrow> managed_run request" where
  "read_run i message d = (case get_run i d of None \<Rightarrow> (Inl message, d) | Some r \<Rightarrow> (Inr r, d))"

section \<open>Normalizing\<close>

definition bounded_text :: "string \<Rightarrow> string \<Rightarrow> nat \<Rightarrow> string result" where
  "bounded_text v field max_chars =
     (let s = trim v
      in if s = [] \<or> max_chars < length (char_chunks s) then Inl (''A valid '' @ field @ '' is required'') else Inr s)"

definition normalize_provider :: "string \<Rightarrow> string result" where
  "normalize_provider v =
     (let s = lower_str (trim v)
      in if s = ''codex'' then Inr ''codex''
         else if s \<in> set [''claude'', ''claude-code''] then Inr ''claude''
         else Inl ''Provider must be codex or claude'')"

definition normalize_disposition :: "string \<Rightarrow> string result" where
  "normalize_disposition v =
     (let s = lower_str (trim v)
      in if s \<in> set [''satisfied'', ''partially_satisfied'', ''not_satisfied'', ''waived''] then Inr s
         else Inl ''Disposition must be satisfied, partially_satisfied, not_satisfied, or waived'')"

definition canonical_repo :: "managed_env \<Rightarrow> string \<Rightarrow> string result" where
  "canonical_repo env v =
     and_then (bounded_text v ''repository path'' 4096) (\<lambda>s.
     case resolve_path env s of
       Inl e \<Rightarrow> Inl (''Resolve repository: '' @ e)
     | Inr path \<Rightarrow>
         if \<not> is_directory env path
            \<or> (\<not> path_exists env (path @ ''/.git'') \<and> \<not> is_ok (git env path [''rev-parse'', ''--git-dir'']))
         then Inl ''Managed repository must be a Git worktree'' else Inr path)"

definition managed_change_identity :: "managed_env \<Rightarrow> string \<Rightarrow> string result" where
  "managed_change_identity env worktree =
     and_then (git env worktree [''rev-parse'', ''HEAD'']) (\<lambda>head.
     and_then (git env worktree [''status'', ''--porcelain=v1'', ''-uall'']) (\<lambda>status.
     and_then (git env worktree [''diff'', ''--binary'', ''HEAD'']) (\<lambda>diff.
     Inr (''sha256:'' @ sha256_hex env (head @ NUL @ status @ NUL @ diff)))))"

definition process_start_identity :: "managed_env \<Rightarrow> nat \<Rightarrow> string option" where
  "process_start_identity env pid =
     (if pid = 0 then None
      else Option.bind (process_start env pid) (\<lambda>s. if trim s = [] then None else Some (trim s)))"

section \<open>Reserving ports\<close>

text \<open>An insert that breaks no constraint of the reservations.\<close>

definition can_reserve :: "managed_db \<Rightarrow> string \<Rightarrow> string \<Rightarrow> port_row list \<Rightarrow> nat \<Rightarrow> bool" where
  "can_reserve d run purpose rows port \<longleftrightarrow>
     get_run run d \<noteq> None \<and> 1024 \<le> port \<and> port \<le> 65535 \<and>
     list_all (\<lambda>r. row_port r \<noteq> port \<and> \<not> (row_run r = run \<and> row_purpose r = purpose)) rows"

definition port_candidates :: "managed_env \<Rightarrow> nat \<Rightarrow> port_request \<Rightarrow> nat list result" where
  "port_candidates env index request =
     and_then (case ephemeral env index of Inl e \<Rightarrow> Inl (''Reserve loopback port: '' @ e) | Inr ps \<Rightarrow> Inr ps) (\<lambda>others.
     Inr ((case preferred_port request of None \<Rightarrow> [] | Some p \<Rightarrow> if 1024 \<le> p then [p] else []) @ take 8 others))"

definition reserve_port ::
  "managed_env \<Rightarrow> managed_db \<Rightarrow> string \<Rightarrow> nat \<times> port_request \<Rightarrow> port_row list \<times> managed_port list \<Rightarrow>
   (port_row list \<times> managed_port list) result" where
  "reserve_port env d run request state =
     (case (request, state) of ((index, req), (rows, reserved)) \<Rightarrow>
       and_then (bounded_text (request_purpose req) ''port purpose'' 80) (\<lambda>purpose.
       and_then (reject_if (purpose \<in> port_purpose ` set reserved) (''Duplicate port purpose: '' @ purpose)) (\<lambda>_.
       and_then (port_candidates env index req) (\<lambda>candidates.
       case find (\<lambda>p. bindable env p \<and> can_reserve d run purpose rows p) candidates of
         None \<Rightarrow> Inl (''No available port for '' @ purpose)
       | Some p \<Rightarrow>
           Inr (rows @ [\<lparr>row_run = run, row_port = p, row_purpose = purpose\<rparr>],
                reserved @ [\<lparr>port_purpose = purpose, port_number = p\<rparr>])))))"

text \<open>All ports of a run are reserved in one transaction, or none.\<close>

definition reserve_ports :: "managed_env \<Rightarrow> string \<Rightarrow> port_request list \<Rightarrow> managed_port list request" where
  "reserve_ports env run requests d =
     (if MAX_PORT_REQUESTS < length requests
      then (Inl (''At most '' @ show_nat MAX_PORT_REQUESTS @ '' ports may be reserved''), d)
      else (case fold_result (reserve_port env d run) (enumerate 0 requests) (port_rows d, []) of
              Inl e \<Rightarrow> (Inl e, d)
            | Inr (rows, reserved) \<Rightarrow> (Inr reserved, d\<lparr>port_rows := rows\<rparr>)))"

section \<open>Creating a run\<close>

definition select_profile :: "managed_env \<Rightarrow> string \<Rightarrow> string \<Rightarrow> provider_profile result" where
  "select_profile env provider wanted =
     and_then (profiles env) (\<lambda>ps.
     case find (\<lambda>p. profile_id p = wanted \<and> profile_provider p = provider) ps of
       None \<Rightarrow> Inl ''Selected provider profile is unavailable''
     | Some p \<Rightarrow>
         and_then (reject_if (\<not> profile_available p) (provider @ '' executable is unavailable'')) (\<lambda>_. Inr p))"

text \<open>\<open>rsplit(':').next()\<close>\<close>

definition last_segment :: "string \<Rightarrow> string" where
  "last_segment s = last (split_on (\<lambda>c. c = CHR '':'') s)"

definition take_chars :: "nat \<Rightarrow> string \<Rightarrow> string" where
  "take_chars n s = concat (take n (char_chunks s))"

text \<open>The checks before anything is written give the row the run starts with.\<close>

definition plan_run :: "managed_env \<Rightarrow> create_run_input \<Rightarrow> managed_db \<Rightarrow> managed_run result" where
  "plan_run env input d =
     and_then (bounded_text (create_item input) ''work item id'' 512) (\<lambda>item.
     and_then (normalize_provider (create_provider input)) (\<lambda>provider.
     and_then (canonical_repo env (create_repo input)) (\<lambda>repo.
     and_then (select_profile env provider (create_profile input)) (\<lambda>profile.
     case Option.bind (map_of (board_items d) item) item_project of
       None \<Rightarrow> Inl ''Work item must have a repository before managed execution''
     | Some path \<Rightarrow>
         and_then (canonical_repo env path) (\<lambda>item_repo.
         and_then (reject_if (components item_repo \<noteq> components repo) ''Managed repository does not match the work item'') (\<lambda>_.
         and_then (git env repo [''rev-parse'', ''HEAD'']) (\<lambda>base.
         let ident = ''managed-run:'' @ fresh_uuid env ''run''
         in and_then (case worktree_root env of Inl e \<Rightarrow> Inl (''Create managed worktree root: '' @ e) | Inr dir \<Rightarrow> Inr dir) (\<lambda>dir.
            Inr \<lparr>run_id = ident, run_item = item, run_provider = provider, run_profile = profile_id profile,
              run_profile_path = profile_config profile, run_repo = repo, run_base = base,
              run_worktree = Some (dir @ ''/'' @ last_segment ident),
              run_branch = Some (''codevetter/managed-'' @ take_chars 8 (last_segment ident)),
              run_owner = ''managed-owner:'' @ fresh_uuid env ''owner'', run_ports = [], run_terminal = None,
              run_session = None, run_pid = None, run_started = None, run_state = ''starting'', run_checkpoint = None,
              run_change = None, run_reason = None, run_created = managed_now env, run_updated = managed_now env\<rparr>)))))))) "

definition is_taken :: "managed_run \<Rightarrow> managed_db \<Rightarrow> bool" where
  "is_taken r d \<longleftrightarrow>
     map_of (managed_runs d) (run_id r) \<noteq> None \<or> live_elsewhere r d
     \<or> list_ex (\<lambda>(_, q). run_owner q = run_owner r) (managed_runs d)"

definition insert_run :: "managed_run \<Rightarrow> unit request" where
  "insert_run r d =
     (if is_taken r d then (Inl ''This work item already has a live managed run'', d)
      else (Inr (), d\<lparr>managed_runs := bmap_insert (run_id r) r (managed_runs d)\<rparr>))"

text \<open>A worktree that cannot be made fails the run; what goes wrong later leaves it starting.\<close>

definition fail_run :: "managed_env \<Rightarrow> string \<Rightarrow> string \<Rightarrow> managed_db \<Rightarrow> managed_db" where
  "fail_run env i e d =
     snd (update_run i (\<lambda>_. True) (\<lambda>r. r\<lparr>run_state := ''failed'', run_reason := Some e, run_updated := managed_now env\<rparr>) d)"

definition create_managed_run :: "managed_env \<Rightarrow> create_run_input \<Rightarrow> managed_run request" where
  "create_managed_run env input d =
     (case plan_run env input d of
        Inl e \<Rightarrow> (Inl e, d)
      | Inr r \<Rightarrow>
          then_do (insert_run r) (\<lambda>_ d1.
            case add_worktree env (run_repo r) (the (run_worktree r)) (the (run_branch r)) (run_base r) of
              Inl e \<Rightarrow> (Inl e, fail_run env (run_id r) e d1)
            | Inr _ \<Rightarrow>
                then_do (reserve_ports env (run_id r) (create_ports input)) (\<lambda>reserved.
                then_do (answer (managed_change_identity env (the (run_worktree r)))) (\<lambda>change.
                then_do (update_run (run_id r) (\<lambda>_. True)
                  (\<lambda>q. q\<lparr>run_ports := reserved, run_state := ''planned'', run_change := Some change,
                        run_updated := managed_now env\<rparr>)) (\<lambda>_.
                read_run (run_id r) ''Managed run not found after creation''))) d1) d)"

section \<open>Attaching a process\<close>

definition attachable :: "managed_run \<Rightarrow> bool" where
  "attachable r \<longleftrightarrow> run_state r \<in> set [''planned'', ''starting'', ''disconnected'']"

definition attach_managed_work_process :: "managed_env \<Rightarrow> attach_process_input \<Rightarrow> managed_run request" where
  "attach_managed_work_process env input =
     then_do (answer (bounded_text (attach_run input) ''run id'' 512)) (\<lambda>run.
     then_do (answer (bounded_text (attach_process_terminal input) ''terminal id'' 512)) (\<lambda>terminal.
     then_do (answer (case process_start_identity env (attach_pid input) of
                        None \<Rightarrow> Inl ''Managed provider process is not running'' | Some s \<Rightarrow> Inr s)) (\<lambda>started.
     then_do (update_run run attachable
       (\<lambda>r. r\<lparr>run_terminal := Some terminal, run_session := clean_optional (attach_process_session input),
             run_pid := Some (attach_pid input), run_started := Some started, run_state := ''running'',
             run_reason := None, run_updated := managed_now env\<rparr>)) (\<lambda>changed.
     then_do (answer (reject_if (changed = 0) ''Managed run is unavailable or already attached'')) (\<lambda>_.
     read_run run ''Managed run not found'')))))"

section \<open>Reconciling\<close>

definition disconnect_run :: "managed_env \<Rightarrow> string \<Rightarrow> string \<Rightarrow> managed_run request" where
  "disconnect_run env run reason =
     then_do (update_run run (\<lambda>_. True)
       (\<lambda>r. r\<lparr>run_state := ''disconnected'', run_reason := Some reason, run_updated := managed_now env\<rparr>)) (\<lambda>_.
     read_run run ''Managed run not found'')"

text \<open>The process recorded for a run is the one that runs under its number now.\<close>

definition same_process :: "managed_env \<Rightarrow> managed_run \<Rightarrow> nat \<Rightarrow> bool" where
  "same_process env r pid \<longleftrightarrow> process_start_identity env pid = run_started r"

definition reconcile_run :: "managed_env \<Rightarrow> string \<Rightarrow> managed_run request" where
  "reconcile_run env run =
     then_do (read_run run ''Managed run not found'') (\<lambda>r.
       if run_state r \<in> set [''archived'', ''completed'', ''failed''] then answer (Inr r)
       else (case run_worktree r of
               None \<Rightarrow> disconnect_run env run ''Managed worktree identity is missing''
             | Some worktree \<Rightarrow>
                 if \<not> is_directory env worktree \<or> \<not> is_ok (managed_change_identity env worktree)
                 then disconnect_run env run ''Managed worktree is unavailable or invalid''
                 else if (case run_pid r of None \<Rightarrow> False | Some pid \<Rightarrow> \<not> same_process env r pid)
                 then disconnect_run env run ''Managed provider process identity changed''
                 else then_do (answer (managed_change_identity env worktree)) (\<lambda>change.
                      then_do (update_run run (\<lambda>_. True)
                        (\<lambda>q. q\<lparr>run_change := Some change, run_reason := None, run_updated := managed_now env\<rparr>)) (\<lambda>_.
                      read_run run ''Managed run not found''))))"

definition reconcile_managed_work_run :: "managed_env \<Rightarrow> string \<Rightarrow> managed_run request" where
  "reconcile_managed_work_run env raw = then_do (answer (bounded_text raw ''run id'' 512)) (reconcile_run env)"

section \<open>Hooks\<close>

definition shells :: "string list" where
  "shells = [''rm'', ''sudo'', ''bash'', ''sh'', ''zsh'', ''fish'', ''powershell'', ''cmd'']"

text \<open>\<open>Path::file_name\<close>, or the whole program where there is none.\<close>

definition executable_name :: "string \<Rightarrow> string" where
  "executable_name program =
     lower_str (if components program = [] then program
       else case last (components program) of Normal w \<Rightarrow> w | _ \<Rightarrow> program)"

fun creates_pr :: "string list \<Rightarrow> bool" where
  "creates_pr (x # y # zs) \<longleftrightarrow> lower_str x = ''pr'' \<and> y = ''create'' \<or> creates_pr (y # zs)"
| "creates_pr _ \<longleftrightarrow> False"

definition validate_hook :: "string \<Rightarrow> string \<Rightarrow> string list \<Rightarrow> unit result" where
  "validate_hook kind program args =
     and_then (reject_if (kind \<notin> set [''setup'', ''run'', ''check'', ''archive''])
                 ''Hook kind must be setup, run, check, or archive'') (\<lambda>_.
     and_then (bounded_text program ''hook program'' 512) (\<lambda>prog.
     and_then (reject_if (MAX_HOOK_ARGS < length args \<or> list_ex (\<lambda>a. MAX_HOOK_ARG_CHARS < length (char_chunks a)) args)
                 ''Managed hook arguments exceed the supported bounds'') (\<lambda>_.
     let exe = executable_name prog
     in and_then (reject_if (exe \<in> set shells)
                    ''Shells and destructive executables are not allowed managed hooks'') (\<lambda>_.
        and_then (reject_if (exe = ''git'' \<and> args \<noteq> [] \<and>
                      lower_str (hd args) \<in> set [''push'', ''commit'', ''clean'', ''reset'', ''worktree'', ''branch''])
                    ''Commit, push, reset, branch, and cleanup are explicit actions'') (\<lambda>_.
        reject_if (exe = ''gh'' \<and> creates_pr args) ''PR creation is an explicit action outside managed hooks'')))))"

definition hook_timeout :: "hook_input \<Rightarrow> nat" where
  "hook_timeout input =
     max MIN_HOOK_TIMEOUT_MS (min MAX_HOOK_TIMEOUT_MS
       (case hook_timeout_ms input of None \<Rightarrow> 5 * 60 * 1000 | Some t \<Rightarrow> t))"

text \<open>
  A hook reads the run and its next sequence number, validates, writes a running checkpoint, runs
  its program without holding the database, and writes the outcome. The three accesses are
  separate requests: others may come in between.
\<close>

record planned_hook =
  planned_run :: managed_run
  planned_sequence :: nat
  planned_worktree :: string
  planned_input :: hook_input

definition run_checkpoints :: "string \<Rightarrow> managed_db \<Rightarrow> checkpoint_row list" where
  "run_checkpoints run d = filter (\<lambda>c. checkpoint_run c = run) (map snd (checkpoint_rows d))"

definition next_sequence :: "string \<Rightarrow> managed_db \<Rightarrow> nat" where
  "next_sequence run d = Max (insert 0 (set (map checkpoint_sequence (run_checkpoints run d)))) + 1"

definition plan_hook :: "hook_input \<Rightarrow> managed_db \<Rightarrow> planned_hook result" where
  "plan_hook input d =
     and_then (bounded_text (hook_run input) ''run id'' 512) (\<lambda>run.
     case get_run run d of
       None \<Rightarrow> Inl ''Managed run not found''
     | Some r \<Rightarrow>
         (case run_worktree r of
            None \<Rightarrow> Inl ''Managed run has no isolated worktree''
          | Some worktree \<Rightarrow>
              and_then (validate_hook (hook_kind input) (hook_program input) (hook_args input)) (\<lambda>_.
              Inr \<lparr>planned_run = r, planned_sequence = next_sequence run d, planned_worktree = worktree,
                   planned_input = input\<rparr>)))"

definition begin_checkpoint :: "managed_env \<Rightarrow> planned_hook \<Rightarrow> checkpoint_row" where
  "begin_checkpoint env h =
     \<lparr>checkpoint_id = ''managed-checkpoint:'' @ fresh_uuid env ''checkpoint'', checkpoint_run = run_id (planned_run h),
      checkpoint_sequence = planned_sequence h, checkpoint_kind = hook_kind (planned_input h),
      checkpoint_state = ''running'', checkpoint_change = None,
      checkpoint_command = (hook_program (planned_input h), hook_args (planned_input h)),
      checkpoint_summary = ''Hook is running'', checkpoint_evidence = None\<rparr>"

definition insert_checkpoint :: "checkpoint_row \<Rightarrow> unit request" where
  "insert_checkpoint c d =
     (if map_of (checkpoint_rows d) (checkpoint_id c) \<noteq> None
      then (Inl (unique_failed ''managed_work_checkpoints.id''), d)
      else if checkpoint_sequence c \<in> set (map checkpoint_sequence (run_checkpoints (checkpoint_run c) d))
      then (Inl (unique_failed ''managed_work_checkpoints.run_id, managed_work_checkpoints.sequence''), d)
      else if get_run (checkpoint_run c) d = None then (Inl foreign_key_failed, d)
      else (Inr (), d\<lparr>checkpoint_rows := bmap_insert (checkpoint_id c) c (checkpoint_rows d)\<rparr>))"

definition begin_hook :: "managed_env \<Rightarrow> planned_hook \<Rightarrow> string request" where
  "begin_hook env h =
     (let c = begin_checkpoint env h
      in then_do (insert_checkpoint c) (\<lambda>_.
         then_do (update_run (run_id (planned_run h)) (\<lambda>_. True)
           (\<lambda>r. r\<lparr>run_checkpoint := Some (checkpoint_id c), run_state := ''checking'', run_updated := managed_now env\<rparr>)) (\<lambda>_.
         answer (Inr (checkpoint_id c)))))"

definition exit_text :: "int option \<Rightarrow> string" where
  "exit_text code = (case code of None \<Rightarrow> ''None'' | Some c \<Rightarrow> ''Some('' @ show_int c @ '')'')"

definition hook_summary :: "hook_result \<Rightarrow> string" where
  "hook_summary r =
     (let e = result_execution r; ms = show_nat (hook_duration_ms e) @ '' ms''
      in if hook_success e then result_kind r @ '' hook passed in '' @ ms
         else if hook_timed_out e then result_kind r @ '' hook timed out after '' @ ms
         else result_kind r @ '' hook failed with '' @ exit_text (hook_exit_code e))"

definition close_checkpoint :: "string \<Rightarrow> string \<Rightarrow> hook_result \<Rightarrow> string \<Rightarrow> checkpoint_row \<Rightarrow> checkpoint_row" where
  "close_checkpoint i change r j c =
     (if j = i then c\<lparr>checkpoint_state := (if hook_success (result_execution r) then ''passed'' else ''failed''),
        checkpoint_change := Some change, checkpoint_summary := hook_summary r, checkpoint_evidence := Some r\<rparr> else c)"

definition end_hook :: "managed_env \<Rightarrow> planned_hook \<Rightarrow> string \<Rightarrow> hook_execution result \<Rightarrow> hook_result request" where
  "end_hook env h checkpoint execution =
     then_do (answer execution) (\<lambda>e.
     then_do (answer (managed_change_identity env (planned_worktree h))) (\<lambda>change.
     let r = \<lparr>result_checkpoint = checkpoint, result_kind = hook_kind (planned_input h), result_execution = e,
              result_change = change\<rparr>
     in then_do (\<lambda>d. (Inr (), d\<lparr>checkpoint_rows :=
            map (\<lambda>(i, c). (i, close_checkpoint checkpoint change r i c)) (checkpoint_rows d)\<rparr>)) (\<lambda>_.
        then_do (update_run (run_id (planned_run h)) (\<lambda>_. True)
          (\<lambda>q. q\<lparr>run_state := (if hook_success e then ''running'' else ''attention''), run_change := Some change,
                run_updated := managed_now env\<rparr>)) (\<lambda>_.
        answer (Inr r)))))"

text \<open>The whole hook when nothing comes in between; \<open>execute\<close> runs the program.\<close>

definition run_managed_work_hook ::
  "managed_env \<Rightarrow> (planned_hook \<Rightarrow> nat \<Rightarrow> hook_execution result) \<Rightarrow> hook_input \<Rightarrow> hook_result request" where
  "run_managed_work_hook env execute input d =
     (case plan_hook input d of
        Inl e \<Rightarrow> (Inl e, d)
      | Inr h \<Rightarrow>
          then_do (begin_hook env h) (\<lambda>checkpoint.
          end_hook env h checkpoint (execute h (hook_timeout input))) d)"

text \<open>The environment of a hook, on top of the few variables it may inherit.\<close>

definition environment_name :: "string \<Rightarrow> string" where
  "environment_name purpose =
     concat (map (\<lambda>c. if length c = 1 \<and> is_ascii_alphanumeric (hd c)
       then (if is_ascii_lowercase (hd c) then [char_of (byte (hd c) - 32 :: nat)] else c) else ''_'') (char_chunks purpose))"

definition managed_environment :: "managed_run \<Rightarrow> (string, string) bmap" where
  "managed_environment r =
     bmap_of ([(''CODEVETTER_MANAGED_RUN_ID'', run_id r),
       (if run_provider r = ''codex'' then ''CODEX_HOME'' else ''CLAUDE_CONFIG_DIR'', run_profile_path r)]
       @ map (\<lambda>p. (''CODEVETTER_PORT_'' @ environment_name (port_purpose p), show_nat (port_number p))) (run_ports r))"

section \<open>Handing off and archiving\<close>

definition truncation_mark :: string where
  "truncation_mark = [CHR 0x0A, CHR 0xE2, CHR 0x80, CHR 0xA6] @ '' output truncated''"

definition bounded_output :: "string \<Rightarrow> string" where
  "bounded_output v = (if 32000 < length (char_chunks v) then take_chars 32000 v @ truncation_mark else v)"

record handoff_report =
  handoff_run :: managed_run
  handoff_change :: string
  handoff_clean :: bool
  handoff_status :: string
  handoff_diff_stat :: string
  handoff_check_ok :: bool
  handoff_check_output :: string
  handoff_checkpoint :: "(string \<times> string \<times> string) option"

definition latest_checkpoint :: "string \<Rightarrow> managed_db \<Rightarrow> checkpoint_row option" where
  "latest_checkpoint run d =
     (case sort_key checkpoint_sequence (run_checkpoints run d) of [] \<Rightarrow> None | cs \<Rightarrow> Some (last cs))"

definition managed_handoff :: "managed_env \<Rightarrow> string \<Rightarrow> handoff_report request" where
  "managed_handoff env raw =
     then_do (answer (bounded_text raw ''run id'' 512)) (\<lambda>run.
     then_do (reconcile_run env run) (\<lambda>r.
     then_do (answer (case run_worktree r of None \<Rightarrow> Inl ''Managed worktree is unavailable'' | Some w \<Rightarrow> Inr w)) (\<lambda>w.
     then_do (answer (git env w [''status'', ''--short''])) (\<lambda>status.
     then_do (answer (git env w [''diff'', ''--stat''])) (\<lambda>stat.
     then_do (answer (git_status env w [''diff'', ''--check''])) (\<lambda>check.
     then_do (answer (managed_change_identity env w)) (\<lambda>change d.
       (Inr \<lparr>handoff_run = r, handoff_change = change, handoff_clean = (trim status = []),
             handoff_status = bounded_output status, handoff_diff_stat = bounded_output stat,
             handoff_check_ok = fst check, handoff_check_output = bounded_output (snd check),
             handoff_checkpoint = map_option (\<lambda>c. (checkpoint_kind c, checkpoint_state c, checkpoint_summary c))
               (latest_checkpoint run d)\<rparr>, d))))))))"

definition archive_run :: "managed_env \<Rightarrow> string \<Rightarrow> managed_run request" where
  "archive_run env raw =
     then_do (answer (bounded_text raw ''run id'' 512)) (\<lambda>run.
     then_do (read_run run ''Managed run not found'') (\<lambda>r.
     then_do (answer (reject_if (case run_pid r of None \<Rightarrow> False | Some pid \<Rightarrow> same_process env r pid)
                        ''Stop the owned provider process before archiving'')) (\<lambda>_.
     then_do (answer (case run_worktree r of None \<Rightarrow> Inl ''Managed worktree is unavailable'' | Some w \<Rightarrow> Inr w)) (\<lambda>w.
     then_do (answer (git env w [''status'', ''--porcelain''])) (\<lambda>status.
     then_do (answer (reject_if (trim status \<noteq> [])
                        ''Managed worktree has uncommitted changes; review the handoff before cleanup'')) (\<lambda>_.
     then_do (answer (case remove_worktree env (run_repo r) w of
                        Inl e \<Rightarrow> Inl (''Remove managed worktree: '' @ e) | Inr u \<Rightarrow> Inr u)) (\<lambda>_.
     then_do (update_run run (\<lambda>_. True)
       (\<lambda>q. q\<lparr>run_state := ''archived'', run_pid := None, run_terminal := None, run_updated := managed_now env\<rparr>)) (\<lambda>_.
     read_run run ''Managed run not found''))))))))"

definition list_managed_work_runs :: "managed_db \<Rightarrow> string option \<Rightarrow> managed_run list" where
  "list_managed_work_runs d item =
     take 250 (newest_first run_updated run_id
       (filter (\<lambda>r. item = None \<or> item = Some (run_item r)) (map snd (managed_runs d))))"

section \<open>Closure receipts\<close>

definition split_acceptance_criteria :: "string option \<Rightarrow> string list" where
  "split_acceptance_criteria v =
     take 50 (filter (\<lambda>l. l \<noteq> [])
       (map (\<lambda>l. trim (dropWhile (\<lambda>c. c = CHR ''-'' \<or> c = CHR ''*'') (trim l)))
         (split_on (\<lambda>c. c = CHR 0x0A) (case v of None \<Rightarrow> [] | Some s \<Rightarrow> s))))"

definition item_closures :: "string \<Rightarrow> managed_db \<Rightarrow> closure_row list" where
  "item_closures item d = filter (\<lambda>c. closure_item c = item) (map snd (closure_rows d))"

text \<open>A closure is stale when the item has moved to another change.\<close>

definition closure_moved :: "managed_db \<Rightarrow> closure_row \<Rightarrow> bool" where
  "closure_moved d c \<longleftrightarrow>
     (case Option.bind (map_of (board_items d) (closure_item c)) item_change of
        None \<Rightarrow> False | Some change \<Rightarrow> change \<noteq> closure_change c)"

record closure_receipt =
  receipt_closure :: closure_row
  receipt_stale :: bool
  receipt_reason :: "string option"

definition closure_receipt_of :: "managed_db \<Rightarrow> closure_row \<Rightarrow> closure_receipt" where
  "closure_receipt_of d c =
     \<lparr>receipt_closure = c, receipt_stale = (closure_moved d c \<or> closure_stale_reason c \<noteq> None),
      receipt_reason = (case closure_stale_reason c of
        Some s \<Rightarrow> Some s
      | None \<Rightarrow> if closure_moved d c then Some ''Work item change identity advanced'' else None)\<rparr>"

definition list_closures :: "managed_db \<Rightarrow> string \<Rightarrow> closure_receipt list" where
  "list_closures d item =
     map (closure_receipt_of d) (newest_first closure_created closure_id (item_closures item d))"

definition list_intent_closures :: "managed_db \<Rightarrow> string \<Rightarrow> closure_receipt list result" where
  "list_intent_closures d raw = and_then (bounded_text raw ''work item id'' 512) (\<lambda>item. Inr (list_closures d item))"

definition closure_of ::
  "managed_env \<Rightarrow> closure_input \<Rightarrow> managed_db \<Rightarrow> string \<Rightarrow> string \<Rightarrow> string \<Rightarrow> work_item \<Rightarrow> closure_row result" where
  "closure_of env input d item disposition reason row =
     (let r = Option.bind (close_run input) (\<lambda>i. get_run i d)
      in case coalesce (Option.bind r run_change) (item_change row) of
           None \<Rightarrow> Inl ''Intent closure requires an exact change identity''
         | Some change \<Rightarrow>
             Inr \<lparr>closure_id = ''intent-closure:'' @ fresh_uuid env ''closure'', closure_item = item,
               closure_version = Max (insert 0 (set (map closure_version (item_closures item d)))) + 1,
               closure_goal = (case item_description row of
                 None \<Rightarrow> item_title row | Some s \<Rightarrow> if trim s = [] then item_title row else s),
               closure_criteria = split_acceptance_criteria (item_criteria row),
               closure_provider = map_option run_provider r, closure_session = Option.bind r run_session,
               closure_run = map_option run_id r, closure_change = change, closure_review = item_review row,
               closure_verification = item_verification_run row, closure_disposition = disposition,
               closure_reason = reason, closure_stale_reason = None, closure_created = managed_now env\<rparr>)"

definition create_closure :: "managed_env \<Rightarrow> closure_input \<Rightarrow> closure_receipt request" where
  "create_closure env input =
     then_do (answer (bounded_text (close_item input) ''work item id'' 512)) (\<lambda>item.
     then_do (answer (normalize_disposition (close_disposition input))) (\<lambda>disposition.
     then_do (answer (bounded_text (close_reason input) ''closure reason'' 2000)) (\<lambda>reason d.
     (case map_of (board_items d) item of
        None \<Rightarrow> (Inl ''Work item not found'', d)
      | Some row \<Rightarrow>
          then_do (answer (closure_of env input d item disposition reason row)) (\<lambda>c d.
            if map_of (closure_rows d) (closure_id c) \<noteq> None then (Inl (unique_failed ''intent_closure_receipts.id''), d)
            else (let d' = d\<lparr>closure_rows := bmap_insert (closure_id c) c (closure_rows d)\<rparr>
                  in case find (\<lambda>q. closure_id (receipt_closure q) = closure_id c) (list_closures d' item) of
                       None \<Rightarrow> (Inl ''Intent closure was not persisted'', d')
                     | Some q \<Rightarrow> (Inr q, d'))) d))))"

section \<open>The board under managed runs\<close>

text \<open>Deleting an item cascades: its runs go with their ports and checkpoints, and its closures.\<close>

definition forget_closure :: "(string \<Rightarrow> bool) \<Rightarrow> closure_row \<Rightarrow> closure_row" where
  "forget_closure gone c =
     (case closure_run c of None \<Rightarrow> c | Some run \<Rightarrow> if gone run then c\<lparr>closure_run := None\<rparr> else c)"

definition forget_runs :: "(string \<Rightarrow> bool) \<Rightarrow> managed_db \<Rightarrow> managed_db" where
  "forget_runs gone d =
     d\<lparr>managed_runs := filter (\<lambda>(i, _). \<not> gone i) (managed_runs d),
       port_rows := filter (\<lambda>p. \<not> gone (row_run p)) (port_rows d),
       checkpoint_rows := filter (\<lambda>(_, c). \<not> gone (checkpoint_run c)) (checkpoint_rows d),
       closure_rows := map (\<lambda>(i, c). (i, forget_closure gone c)) (closure_rows d)\<rparr>"

definition delete_board_item :: "string \<Rightarrow> unit request" where
  "delete_board_item raw d =
     (case delete_work_item raw (board_items d) of
        Inl e \<Rightarrow> (Inl e, d)
      | Inr t \<Rightarrow>
          (let d' = forget_runs (\<lambda>i. case get_run i d of None \<Rightarrow> False | Some r \<Rightarrow> run_item r = trim raw) d
           in (Inr (), d'\<lparr>board_items := t,
                 closure_rows := filter (\<lambda>(_, c). closure_item c \<noteq> trim raw) (closure_rows d')\<rparr>)))"

text \<open>The other commands of the board change only its own table.\<close>

definition on_board :: "(work_items \<Rightarrow> ('v \<times> work_items) result) \<Rightarrow> 'v request" where
  "on_board f d =
     (case f (board_items d) of Inl e \<Rightarrow> (Inl e, d) | Inr (v, t) \<Rightarrow> (Inr v, d\<lparr>board_items := t\<rparr>))"

end
