(* ===== verification/ManagedRuns.thy ===== *)
theory ManagedRuns
  imports ManagedWork
begin

text \<open>
  Managed runs as a system: the requests of \<open>commands/managed_work.rs\<close> interleaved with each other,
  with the stages of hooks in progress and with the commands of the board; what every reachable
  database satisfies; what a reservation and an archive guarantee; and the states in which a run
  can get stuck.
\<close>

section \<open>Outcomes of requests\<close>

text \<open>
  A weakest precondition: \<open>ends Q E\<close> holds of an outcome that is a value with \<open>Q\<close> or an error with
  \<open>E\<close>.
\<close>

definition ends :: "('v \<Rightarrow> managed_db \<Rightarrow> bool) \<Rightarrow> (managed_db \<Rightarrow> bool) \<Rightarrow> 'v result \<times> managed_db \<Rightarrow> bool" where
  "ends Q E x \<longleftrightarrow> (case fst x of Inl _ \<Rightarrow> E (snd x) | Inr v \<Rightarrow> Q v (snd x))"

lemma ends_simps [simp]:
  "ends Q E (Inl e, d) \<longleftrightarrow> E d"
  "ends Q E (Inr v, d) \<longleftrightarrow> Q v d"
  by (simp_all add: ends_def)

lemma ends_then_do [simp]: "ends Q E (then_do m f d) \<longleftrightarrow> ends (\<lambda>v d'. ends Q E (f v d')) E (m d)"
  by (simp add: ends_def then_do_def split: prod.splits sum.splits)

lemma ends_answer: "ends Q E (answer r d) \<longleftrightarrow> (case r of Inl _ \<Rightarrow> E d | Inr v \<Rightarrow> Q v d)"
  by (simp add: ends_def answer_def split: sum.split)

lemma ends_answer_Inr [simp]: "ends Q E (answer (Inr v) d) \<longleftrightarrow> Q v d"
  by (simp add: ends_answer)

lemma ends_answerI: "E d \<Longrightarrow> (\<And>v. r = Inr v \<Longrightarrow> Q v d) \<Longrightarrow> ends Q E (answer r d)"
  by (simp add: ends_answer split: sum.split)

lemma ends_read_run: "E d \<Longrightarrow> (\<And>r. get_run i d = Some r \<Longrightarrow> Q r d) \<Longrightarrow> ends Q E (read_run i message d)"
  by (auto simp: read_run_def split: option.split)

lemma ends_mono: "ends Q E x \<Longrightarrow> (\<And>v d. Q v d \<Longrightarrow> Q' v d) \<Longrightarrow> (\<And>d. E d \<Longrightarrow> E' d) \<Longrightarrow> ends Q' E' x"
  by (auto simp: ends_def split: sum.splits)

lemma ends_snd: "ends (\<lambda>_. P) P x \<longleftrightarrow> P (snd x)"
  by (simp add: ends_def split: sum.split)

section \<open>The database\<close>

definition run_states :: "string set" where
  "run_states = {''planned'', ''starting'', ''running'', ''attention'', ''checking'', ''disconnected'', ''failed'', ''archived''}"

definition closure_dispositions :: "string set" where
  "closure_dispositions = {''satisfied'', ''partially_satisfied'', ''not_satisfied'', ''waived''}"

text \<open>The ports a run has recorded are reserved for it.\<close>

definition holds_port :: "managed_db \<Rightarrow> string \<Rightarrow> managed_port \<Rightarrow> bool" where
  "holds_port d i p \<longleftrightarrow> \<lparr>row_run = i, row_port = port_number p, row_purpose = port_purpose p\<rparr> \<in> set (port_rows d)"

definition run_ok :: "managed_db \<Rightarrow> string \<Rightarrow> managed_run \<Rightarrow> bool" where
  "run_ok d i r \<longleftrightarrow>
     run_id r = i \<and> map_of (board_items d) (run_item r) \<noteq> None \<and> run_provider r \<in> work_providers \<and>
     run_state r \<in> run_states \<and> list_all (holds_port d i) (run_ports r)"

definition runs_ok :: "managed_db \<Rightarrow> bool" where
  "runs_ok d \<longleftrightarrow> bmap_ok (managed_runs d) \<and> (\<forall>i r. get_run i d = Some r \<longrightarrow> run_ok d i r)"

definition one_live :: "managed_db \<Rightarrow> bool" where
  "one_live d \<longleftrightarrow>
     (\<forall>i r j q. get_run i d = Some r \<longrightarrow> get_run j d = Some q \<longrightarrow> live_state (run_state r) \<longrightarrow> live_state (run_state q) \<longrightarrow>
        run_item r = run_item q \<longrightarrow> i = j)"

definition ports_ok :: "managed_db \<Rightarrow> bool" where
  "ports_ok d \<longleftrightarrow>
     distinct (map row_port (port_rows d)) \<and>
     distinct (map (\<lambda>p. (row_run p, row_purpose p)) (port_rows d)) \<and>
     (\<forall>p. p \<in> set (port_rows d) \<longrightarrow> 1024 \<le> row_port p \<and> row_port p \<le> 65535 \<and> get_run (row_run p) d \<noteq> None)"

text \<open>A checkpoint is running or carries the evidence its state was taken from.\<close>

definition checkpoint_ok :: "managed_db \<Rightarrow> string \<Rightarrow> checkpoint_row \<Rightarrow> bool" where
  "checkpoint_ok d i c \<longleftrightarrow>
     checkpoint_id c = i \<and> get_run (checkpoint_run c) d \<noteq> None \<and>
     checkpoint_kind c \<in> set [''setup'', ''run'', ''check'', ''archive''] \<and>
     (case checkpoint_evidence c of
        None \<Rightarrow> checkpoint_state c = ''running''
      | Some e \<Rightarrow> result_checkpoint e = i \<and>
          checkpoint_state c = (if hook_success (result_execution e) then ''passed'' else ''failed''))"

definition checkpoints_ok :: "managed_db \<Rightarrow> bool" where
  "checkpoints_ok d \<longleftrightarrow>
     bmap_ok (checkpoint_rows d) \<and>
     (\<forall>i c. map_of (checkpoint_rows d) i = Some c \<longrightarrow> checkpoint_ok d i c) \<and>
     (\<forall>i c j e. map_of (checkpoint_rows d) i = Some c \<longrightarrow> map_of (checkpoint_rows d) j = Some e \<longrightarrow>
        checkpoint_run c = checkpoint_run e \<longrightarrow> checkpoint_sequence c = checkpoint_sequence e \<longrightarrow> i = j)"

definition closure_ok :: "managed_db \<Rightarrow> string \<Rightarrow> closure_row \<Rightarrow> bool" where
  "closure_ok d i c \<longleftrightarrow>
     closure_id c = i \<and> map_of (board_items d) (closure_item c) \<noteq> None \<and>
     closure_disposition c \<in> closure_dispositions \<and> closure_reason c \<noteq> [] \<and>
     (\<forall>r. closure_run c = Some r \<longrightarrow> get_run r d \<noteq> None)"

definition closures_ok :: "managed_db \<Rightarrow> bool" where
  "closures_ok d \<longleftrightarrow>
     bmap_ok (closure_rows d) \<and>
     (\<forall>i c. map_of (closure_rows d) i = Some c \<longrightarrow> closure_ok d i c) \<and>
     (\<forall>i c j e. map_of (closure_rows d) i = Some c \<longrightarrow> map_of (closure_rows d) j = Some e \<longrightarrow>
        closure_item c = closure_item e \<longrightarrow> closure_version c = closure_version e \<longrightarrow> i = j)"

definition db_ok :: "managed_db \<Rightarrow> bool" where
  "db_ok d \<longleftrightarrow> items_ok (board_items d) \<and> runs_ok d \<and> one_live d \<and> ports_ok d \<and> checkpoints_ok d \<and> closures_ok d"

lemma frame_simps [simp]:
  "get_run i (d\<lparr>board_items := t\<rparr>) = get_run i d" "get_run i (d\<lparr>port_rows := rows\<rparr>) = get_run i d"
  "get_run i (d\<lparr>checkpoint_rows := cs\<rparr>) = get_run i d" "get_run i (d\<lparr>closure_rows := ks\<rparr>) = get_run i d"
  "one_live (d\<lparr>board_items := t\<rparr>) = one_live d" "one_live (d\<lparr>port_rows := rows\<rparr>) = one_live d"
  "one_live (d\<lparr>checkpoint_rows := cs\<rparr>) = one_live d" "one_live (d\<lparr>closure_rows := ks\<rparr>) = one_live d"
  "ports_ok (d\<lparr>board_items := t\<rparr>) = ports_ok d"
  "ports_ok (d\<lparr>checkpoint_rows := cs\<rparr>) = ports_ok d" "ports_ok (d\<lparr>closure_rows := ks\<rparr>) = ports_ok d"
  "checkpoints_ok (d\<lparr>board_items := t\<rparr>) = checkpoints_ok d" "checkpoints_ok (d\<lparr>port_rows := rows\<rparr>) = checkpoints_ok d"
  "checkpoints_ok (d\<lparr>closure_rows := ks\<rparr>) = checkpoints_ok d"
  "closures_ok (d\<lparr>port_rows := rows\<rparr>) = closures_ok d" "closures_ok (d\<lparr>checkpoint_rows := cs\<rparr>) = closures_ok d"
  "runs_ok (d\<lparr>checkpoint_rows := cs\<rparr>) = runs_ok d" "runs_ok (d\<lparr>closure_rows := ks\<rparr>) = runs_ok d"
  by (simp_all add: get_run_def one_live_def ports_ok_def checkpoints_ok_def checkpoint_ok_def [abs_def]
    closures_ok_def closure_ok_def [abs_def] runs_ok_def run_ok_def [abs_def] holds_port_def [abs_def])

lemma get_run_entry: "bmap_ok (managed_runs d) \<Longrightarrow> (i, r) \<in> set (managed_runs d) \<longleftrightarrow> get_run i d = Some r"
  by (simp add: bmap_entry_iff get_run_def)

lemma live_elsewhere_iff:
  "runs_ok d \<Longrightarrow> live_elsewhere r d \<longleftrightarrow>
     live_state (run_state r) \<and> (\<exists>i q. get_run i d = Some q \<and> i \<noteq> run_id r \<and> run_item q = run_item r \<and> live_state (run_state q))"
  by (force simp: live_elsewhere_def runs_ok_def list_ex_iff get_run_entry)

text \<open>A run written in place of another, or as a new one.\<close>

lemma write_run_ok:
  assumes ok: "db_ok d" and r: "run_ok d (run_id r) r" and free: "\<not> live_elsewhere r d"
  shows "db_ok (d\<lparr>managed_runs := bmap_insert (run_id r) r (managed_runs d)\<rparr>)" (is "db_ok ?d")
proof -
  have get: "get_run i ?d = (if i = run_id r then Some r else get_run i d)" for i
    by (simp add: get_run_def)
  have old: "get_run i d \<noteq> None \<Longrightarrow> get_run i ?d \<noteq> None" for i by (simp add: get)
  note parts = ok [unfolded db_ok_def]
  have run: "run_ok ?d i q \<longleftrightarrow> run_ok d i q" for i q by (simp add: run_ok_def holds_port_def [abs_def])
  have "runs_ok ?d" unfolding runs_ok_def run
  proof (intro conjI allI impI)
    show "bmap_ok (managed_runs ?d)" using parts by (auto simp: runs_ok_def)
    fix i q assume "get_run i ?d = Some q"
    with parts r show "run_ok d i q" by (auto simp: get runs_ok_def split: if_splits)
  qed
  moreover have "one_live ?d" unfolding one_live_def
  proof (intro allI impI)
    fix i a j b
    assume live: "get_run i ?d = Some a" "get_run j ?d = Some b" "live_state (run_state a)" "live_state (run_state b)" "run_item a = run_item b"
    show "i = j"
    proof (cases "i = run_id r \<or> j = run_id r")
      case True
      with live free parts show ?thesis by (auto simp: get live_elsewhere_iff split: if_splits)
    next
      case False
      with live parts show ?thesis by (simp add: get one_live_def)
    qed
  qed
  moreover have "ports_ok ?d" using parts old by (simp add: ports_ok_def)
  moreover have "checkpoints_ok ?d" using parts old by (simp add: checkpoints_ok_def checkpoint_ok_def)
  moreover have "closures_ok ?d" using parts old unfolding closures_ok_def closure_ok_def
    by (auto split: option.splits)
  ultimately show ?thesis using parts by (simp add: db_ok_def)
qed

lemma update_run_keeps:
  assumes "db_ok d" and "\<And>r. get_run i d = Some r \<Longrightarrow> run_ok d i r \<Longrightarrow> p r \<Longrightarrow> run_ok d i (f r)"
    and "\<And>n d'. db_ok d' \<Longrightarrow> Q n d'"
  shows "ends Q db_ok (update_run i p f d)"
proof (cases "get_run i d")
  case None
  with assms(1,3) show ?thesis by (simp add: update_run_def get_run_def)
next
  case (Some r)
  show ?thesis
  proof (cases "p r")
    case True
    have run: "run_ok d i r" using assms(1) Some by (simp add: db_ok_def runs_ok_def)
    then have f: "run_ok d i (f r)" using assms(2) Some True by simp
    then have "run_ok d (run_id (f r)) (f r)" by (simp add: run_ok_def)
    then show ?thesis
      using assms(1,3) Some True write_run_ok [OF assms(1), of "f r"]
      by (simp add: update_run_def get_run_def put_run_def)
  next
    case False
    with assms(1,3) Some show ?thesis by (simp add: update_run_def get_run_def)
  qed
qed

section \<open>Ports\<close>

definition reserved_rows :: "string \<Rightarrow> managed_port list \<Rightarrow> port_row list" where
  "reserved_rows run ps = map (\<lambda>p. \<lparr>row_run = run, row_port = port_number p, row_purpose = port_purpose p\<rparr>) ps"

text \<open>What a request is given: a preferred port that can be bound and is not taken before its turn.\<close>

definition granted :: "managed_env \<Rightarrow> port_request \<Rightarrow> managed_port \<Rightarrow> bool" where
  "granted env req p \<longleftrightarrow>
     port_purpose p = trim (request_purpose req) \<and> bindable env (port_number p) \<and>
     1024 \<le> port_number p \<and> port_number p \<le> 65535"

definition served :: "managed_env \<Rightarrow> nat set \<Rightarrow> port_request \<Rightarrow> managed_port \<Rightarrow> bool" where
  "served env taken req p \<longleftrightarrow>
     (case preferred_port req of None \<Rightarrow> True
      | Some q \<Rightarrow> bindable env q \<and> 1024 \<le> q \<and> q \<le> 65535 \<and> q \<notin> taken \<longrightarrow> port_number p = q)"

fun served_in_turn :: "managed_env \<Rightarrow> nat set \<Rightarrow> port_request list \<Rightarrow> managed_port list \<Rightarrow> bool" where
  "served_in_turn env taken (req # reqs) (p # ps) \<longleftrightarrow>
     served env taken req p \<and> served_in_turn env (insert (port_number p) taken) reqs ps"
| "served_in_turn env taken reqs ps \<longleftrightarrow> reqs = [] \<and> ps = []"

lemma bounded_text_Inr:
  "bounded_text v field n = Inr s \<longleftrightarrow> s = trim v \<and> s \<noteq> [] \<and> length (char_chunks s) \<le> n"
  by (auto simp: bounded_text_def Let_def)

lemma reserve_port_Inr:
  assumes "reserve_port env d run (k, req) (rows, ps) = Inr (rows', ps')"
  obtains p where "rows' = rows @ reserved_rows run [p]" and "ps' = ps @ [p]" and "granted env req p"
    and "can_reserve d run (port_purpose p) rows (port_number p)" and "served env (row_port ` set rows) req p"
    and "port_purpose p \<notin> port_purpose ` set ps"
proof -
  from assms obtain purpose cs port where
    purpose: "purpose = trim (request_purpose req)" "purpose \<notin> port_purpose ` set ps"
    and cs: "port_candidates env k req = Inr cs"
    and port: "find (\<lambda>p. bindable env p \<and> can_reserve d run purpose rows p) cs = Some port"
    and res: "rows' = rows @ [\<lparr>row_run = run, row_port = port, row_purpose = purpose\<rparr>]"
      "ps' = ps @ [\<lparr>port_purpose = purpose, port_number = port\<rparr>]"
    by (auto simp: reserve_port_def and_then_Inr reject_if_Inr bounded_text_Inr split: option.splits)
  let ?p = "\<lparr>port_purpose = purpose, port_number = port\<rparr>"
  have found: "bindable env port" "can_reserve d run purpose rows port"
    using port by (auto simp: find_Some_iff)
  have "served env (row_port ` set rows) req ?p"
    using found(2) cs port by (auto simp: served_def can_reserve_def list_all_iff port_candidates_def and_then_Inr
        image_iff split: option.splits sum.splits if_splits)
  then show ?thesis
    by (rule that [of ?p, rotated 4])
      (use found purpose in \<open>simp_all add: res reserved_rows_def granted_def can_reserve_def\<close>)
qed

lemma can_reserve_keeps_ports:
  assumes "ports_ok (d\<lparr>port_rows := rows\<rparr>)" and "can_reserve d run (port_purpose p) rows (port_number p)"
  shows "ports_ok (d\<lparr>port_rows := rows @ reserved_rows run [p]\<rparr>)"
  using assms by (auto simp: ports_ok_def can_reserve_def reserved_rows_def list_all_iff get_run_def)

lemma reserve_all:
  assumes "fold_result (reserve_port env d run) (enumerate n reqs) (rows, ps) = Inr (rows', ps')"
    and "ports_ok (d\<lparr>port_rows := rows\<rparr>)"
  shows "\<exists>qs. rows' = rows @ reserved_rows run qs \<and> ps' = ps @ qs \<and> list_all2 (granted env) reqs qs \<and>
    served_in_turn env (row_port ` set rows) reqs qs \<and> ports_ok (d\<lparr>port_rows := rows'\<rparr>)"
  using assms
proof (induction reqs arbitrary: n rows ps)
  case (Cons req reqs)
  from Cons.prems(1) obtain rows1 ps1 where
    one: "reserve_port env d run (n, req) (rows, ps) = Inr (rows1, ps1)"
    and rest: "fold_result (reserve_port env d run) (enumerate (Suc n) reqs) (rows1, ps1) = Inr (rows', ps')"
    by (auto simp: and_then_Inr)
  show ?case
  proof (rule reserve_port_Inr [OF one], goal_cases)
    case (1 p)
    have "ports_ok (d\<lparr>port_rows := rows1\<rparr>)"
      unfolding 1(1) by (rule can_reserve_keeps_ports [OF Cons.prems(2) 1(4)])
    from Cons.IH [OF rest this] obtain qs where
      qs: "rows' = rows1 @ reserved_rows run qs" "ps' = ps1 @ qs" "list_all2 (granted env) reqs qs"
        "served_in_turn env (row_port ` set rows1) reqs qs" "ports_ok (d\<lparr>port_rows := rows'\<rparr>)" by blast
    have "served_in_turn env (row_port ` set rows) (req # reqs) (p # qs)"
      using 1(5) qs(3) by (simp add: qs(4) [simplified 1(1), simplified reserved_rows_def, simplified])
    with 1 qs show ?case by (intro exI [of _ "p # qs"]) (simp add: reserved_rows_def)
  qed
qed (simp add: reserved_rows_def)

lemma reserve_ports_Inr:
  assumes "reserve_ports env run reqs d = (Inr ps, d')" and "ports_ok d"
  shows "d' = d\<lparr>port_rows := port_rows d @ reserved_rows run ps\<rparr> \<and> list_all2 (granted env) reqs ps \<and>
    served_in_turn env (row_port ` set (port_rows d)) reqs ps \<and> ports_ok d'"
proof -
  from assms(1) obtain rows where
    all: "fold_result (reserve_port env d run) (enumerate 0 reqs) (port_rows d, []) = Inr (rows, ps)"
    and d': "d' = d\<lparr>port_rows := rows\<rparr>"
    by (auto simp: reserve_ports_def split: if_splits sum.splits prod.splits)
  from assms(2) have "ports_ok (d\<lparr>port_rows := port_rows d\<rparr>)" by simp
  from reserve_all [OF all this] show ?thesis by (auto simp: d')
qed

lemma reserve_ports_Inl: "reserve_ports env run reqs d = (Inl e, d') \<Longrightarrow> d' = d"
  by (auto simp: reserve_ports_def split: if_splits sum.splits prod.splits)

lemma more_ports_ok:
  assumes "db_ok d" and "ports_ok (d\<lparr>port_rows := port_rows d @ rows\<rparr>)"
  shows "db_ok (d\<lparr>port_rows := port_rows d @ rows\<rparr>)"
proof -
  have "run_ok d i r \<Longrightarrow> run_ok (d\<lparr>port_rows := port_rows d @ rows\<rparr>) i r" for i r
    by (auto simp: run_ok_def holds_port_def list_all_iff)
  then have "runs_ok (d\<lparr>port_rows := port_rows d @ rows\<rparr>)"
    using assms(1) by (simp add: db_ok_def runs_ok_def)
  with assms show ?thesis by (simp add: db_ok_def)
qed

lemma reserve_ports_keeps:
  assumes "db_ok d" and "\<And>ps d'. db_ok d' \<Longrightarrow> list_all (holds_port d' run) ps \<Longrightarrow> Q ps d'"
  shows "ends Q db_ok (reserve_ports env run reqs d)"
proof -
  obtain r d' where res: "reserve_ports env run reqs d = (r, d')" by (cases "reserve_ports env run reqs d")
  show ?thesis
  proof (cases r)
    case (Inl e)
    with res reserve_ports_Inl [of env run reqs d e d'] assms(1) show ?thesis by simp
  next
    case (Inr ps)
    have d': "d' = d\<lparr>port_rows := port_rows d @ reserved_rows run ps\<rparr>" "ports_ok d'"
      using reserve_ports_Inr [of env run reqs d ps d'] res assms(1) Inr by (auto simp: db_ok_def)
    then have "db_ok d'" using more_ports_ok [OF assms(1)] by simp
    moreover have "list_all (holds_port d' run) ps" by (auto simp: d' holds_port_def list_all_iff reserved_rows_def)
    ultimately show ?thesis using assms(2) by (simp add: res Inr)
  qed
qed

section \<open>Every request keeps the database well-formed\<close>

lemma run_ok_frame: "run_ok (d\<lparr>port_rows := port_rows d\<rparr>) = run_ok d"
  by (simp add: run_ok_def [abs_def] holds_port_def [abs_def])

lemma plan_run_Inr:
  assumes "plan_run env input d = Inr r"
  shows "run_ok d (run_id r) r \<and> run_state r = ''starting'' \<and> run_ports r = []"
proof -
  have provider: "s \<in> work_providers" if "normalize_provider v = Inr s" for v s
    using that by (auto simp: normalize_provider_def work_providers_def Let_def split: if_splits)
  show ?thesis
    using assms
    by (auto simp: plan_run_def and_then_Inr Let_def run_ok_def run_states_def dest!: provider
      split: option.splits Option.bind_splits)
qed

lemma insert_run_keeps:
  assumes "db_ok d" and "run_ok d (run_id r) r" and "\<And>d'. db_ok d' \<Longrightarrow> Q () d'"
  shows "ends Q db_ok (insert_run r d)"
  using assms write_run_ok [OF assms(1,2)] by (auto simp: insert_run_def is_taken_def)

lemma fail_run_keeps: "db_ok d \<Longrightarrow> db_ok (fail_run env i e d)"
  unfolding fail_run_def ends_snd [symmetric]
  by (rule update_run_keeps) (simp_all add: run_ok_def run_states_def)

lemma create_managed_run_keeps: "db_ok d \<Longrightarrow> db_ok (snd (create_managed_run env input d))"
proof -
  assume ok: "db_ok d"
  show ?thesis
  proof (cases "plan_run env input d")
    case (Inr r)
    have run: "run_ok d (run_id r) r" using plan_run_Inr [OF Inr] by simp
    show ?thesis
      unfolding create_managed_run_def Inr sum.case ends_snd [symmetric] ends_then_do
    proof (rule insert_run_keeps [OF ok run])
      fix d1
      assume d1: "db_ok d1"
      show "ends (\<lambda>_. db_ok) db_ok
          (case add_worktree env (run_repo r) (the (run_worktree r)) (the (run_branch r)) (run_base r) of
             Inl e \<Rightarrow> (Inl e, fail_run env (run_id r) e d1)
           | Inr _ \<Rightarrow>
               then_do (reserve_ports env (run_id r) (create_ports input)) (\<lambda>reserved.
               then_do (answer (managed_change_identity env (the (run_worktree r)))) (\<lambda>change.
               then_do (update_run (run_id r) (\<lambda>_. True)
                 (\<lambda>q. q\<lparr>run_ports := reserved, run_state := ''planned'', run_change := Some change,
                        run_updated := managed_now env\<rparr>)) (\<lambda>_.
               read_run (run_id r) ''Managed run not found after creation''))) d1)"
      proof (cases "add_worktree env (run_repo r) (the (run_worktree r)) (the (run_branch r)) (run_base r)")
        case (Inl e)
        then show ?thesis by (simp add: fail_run_keeps d1)
      next
        case (Inr u)
        show ?thesis unfolding Inr sum.case ends_then_do
          by (intro reserve_ports_keeps ends_answerI update_run_keeps ends_read_run d1)
            (assumption | simp add: run_ok_def run_states_def)+
      qed
    qed
  qed (use ok in \<open>simp add: create_managed_run_def\<close>)
qed

lemma attach_keeps: "db_ok d \<Longrightarrow> db_ok (snd (attach_managed_work_process env input d))"
  unfolding attach_managed_work_process_def ends_snd [symmetric] ends_then_do
  by (intro ends_answerI update_run_keeps ends_read_run) (assumption | simp add: run_ok_def run_states_def)+

lemma disconnect_keeps: "db_ok d \<Longrightarrow> ends (\<lambda>_. db_ok) db_ok (disconnect_run env i reason d)"
  unfolding disconnect_run_def ends_then_do
  by (intro update_run_keeps ends_read_run) (assumption | simp add: run_ok_def run_states_def)+

lemma reconcile_keeps: "db_ok d \<Longrightarrow> ends (\<lambda>_. db_ok) db_ok (reconcile_run env i d)"
  unfolding reconcile_run_def ends_then_do
proof (rule ends_read_run, goal_cases)
  case (2 r)
  show ?case
  proof (cases "run_worktree r")
    case None
    with 2(1) show ?thesis by (simp add: disconnect_keeps)
  next
    case (Some w)
    have "ends (\<lambda>_. db_ok) db_ok (then_do (answer (managed_change_identity env w)) (\<lambda>change.
        then_do (update_run i (\<lambda>_. True)
          (\<lambda>q. q\<lparr>run_change := Some change, run_reason := None, run_updated := managed_now env\<rparr>)) (\<lambda>_.
        read_run i ''Managed run not found'')) d)"
      unfolding ends_then_do using 2(1)
      by (intro ends_answerI update_run_keeps ends_read_run) (assumption | simp add: run_ok_def run_states_def)+
    with 2(1) Some show ?thesis by (simp add: disconnect_keeps)
  qed
qed

lemma archive_keeps: "db_ok d \<Longrightarrow> db_ok (snd (archive_run env raw d))"
  unfolding archive_run_def ends_snd [symmetric] ends_then_do
  by (intro ends_answerI update_run_keeps ends_read_run) (assumption | simp add: run_ok_def run_states_def)+

lemma handoff_keeps: "db_ok d \<Longrightarrow> db_ok (snd (managed_handoff env raw d))"
  unfolding managed_handoff_def ends_snd [symmetric] ends_then_do
  by (intro ends_answerI) (auto intro!: ends_mono [OF reconcile_keeps] ends_answerI)

lemma map_of_mapped: "map_of (map (\<lambda>(i, c). (i, f i c)) m) j = map_option (f j) (map_of m j)"
  by (induction m) auto

lemma bmap_ok_mapped: "bmap_ok (map (\<lambda>(i, c). (i, f i c)) m) = bmap_ok m"
proof -
  have "map fst (map (\<lambda>(i, c). (i, f i c)) m) = map fst m" by (induction m) auto
  then show ?thesis by (simp only: bmap_ok_def)
qed

lemma map_of_filter_bmap:
  "bmap_ok m \<Longrightarrow> map_of (filter (\<lambda>(i, c). p i c) m) j = (case map_of m j of None \<Rightarrow> None | Some c \<Rightarrow> if p j c then Some c else None)"
proof (induction m)
  case (Cons e m)
  then have "bmap_ok m" and "map_of m (fst e) = None"
    by (auto simp: bmap_ok_def map_of_eq_None_iff)
  with Cons show ?case by (cases e) (auto split: option.splits)
qed simp

text \<open>Checkpoints.\<close>

definition hook_kind_ok :: "planned_hook \<Rightarrow> bool" where
  "hook_kind_ok h \<longleftrightarrow> hook_kind (planned_input h) \<in> set [''setup'', ''run'', ''check'', ''archive'']"

lemma plan_hook_Inr:
  assumes "plan_hook input d = Inr h"
  shows "hook_kind_ok h \<and> planned_input h = input \<and> get_run (trim (hook_run input)) d = Some (planned_run h) \<and>
    run_worktree (planned_run h) = Some (planned_worktree h) \<and>
    validate_hook (hook_kind input) (hook_program input) (hook_args input) = Inr ()"
  using assms
  by (auto simp: plan_hook_def and_then_Inr bounded_text_Inr hook_kind_ok_def validate_hook_def reject_if_Inr Let_def
    split: option.splits)

lemma run_checkpoints_iff:
  "checkpoints_ok d \<Longrightarrow> c \<in> set (run_checkpoints i d) \<longleftrightarrow> checkpoint_run c = i \<and> (\<exists>k. map_of (checkpoint_rows d) k = Some c)"
proof -
  assume "checkpoints_ok d"
  then have "bmap_ok (checkpoint_rows d)" by (simp add: checkpoints_ok_def)
  then have "(\<exists>k. map_of (checkpoint_rows d) k = Some c) \<longleftrightarrow> c \<in> set (map snd (checkpoint_rows d))"
    by (auto simp: bmap_entry_iff [symmetric] intro: rev_image_eqI)
  then show ?thesis by (auto simp: run_checkpoints_def)
qed

lemma insert_checkpoint_keeps:
  assumes ok: "db_ok d" and c: "checkpoint_evidence c = None" "checkpoint_state c = ''running''"
      "checkpoint_kind c \<in> set [''setup'', ''run'', ''check'', ''archive'']"
    and Q: "\<And>d'. db_ok d' \<Longrightarrow> Q () d'"
  shows "ends Q db_ok (insert_checkpoint c d)"
proof -
  have old: "checkpoints_ok d" using ok by (simp add: db_ok_def)
  have "checkpoints_ok (d\<lparr>checkpoint_rows := bmap_insert (checkpoint_id c) c (checkpoint_rows d)\<rparr>)"
    if new: "checkpoint_sequence c \<notin> set (map checkpoint_sequence (run_checkpoints (checkpoint_run c) d))"
      "get_run (checkpoint_run c) d \<noteq> None"
  proof -
    have fresh: "checkpoint_sequence e \<noteq> checkpoint_sequence c"
      if "map_of (checkpoint_rows d) k = Some e" "checkpoint_run e = checkpoint_run c" for k e
      using new(1) that run_checkpoints_iff [OF old, of e "checkpoint_run c"] by (metis imageI list.set_map)
    from c new(2) have "checkpoint_ok d (checkpoint_id c) c" by (simp add: checkpoint_ok_def)
    with old fresh show ?thesis
      unfolding checkpoints_ok_def by (auto simp: checkpoint_ok_def) metis+
  qed
  with ok Q show ?thesis by (simp add: insert_checkpoint_def db_ok_def)
qed

lemma begin_hook_keeps: "db_ok d \<Longrightarrow> hook_kind_ok h \<Longrightarrow> db_ok (snd (begin_hook env h d))"
  unfolding begin_hook_def Let_def ends_snd [symmetric] ends_then_do
  by (intro insert_checkpoint_keeps update_run_keeps)
    (assumption | simp add: begin_checkpoint_def hook_kind_ok_def run_ok_def run_states_def)+

lemma checkpoints_ok_mapped:
  assumes "checkpoints_ok d" and "\<And>i c. checkpoint_ok d i c \<Longrightarrow> checkpoint_ok d i (f i c)"
    and "\<And>i c. checkpoint_run (f i c) = checkpoint_run c" and "\<And>i c. checkpoint_sequence (f i c) = checkpoint_sequence c"
  shows "checkpoints_ok (d\<lparr>checkpoint_rows := map (\<lambda>(i, c). (i, f i c)) (checkpoint_rows d)\<rparr>)"
proof -
  have "checkpoint_ok (d\<lparr>checkpoint_rows := cs\<rparr>) = checkpoint_ok d" for cs by (simp add: checkpoint_ok_def [abs_def])
  then show ?thesis
    using assms unfolding checkpoints_ok_def by (simp add: bmap_ok_mapped map_of_mapped) metis
qed

lemma close_checkpoint_keeps:
  assumes "db_ok d" and "result_checkpoint r = i"
  shows "db_ok (d\<lparr>checkpoint_rows := map (\<lambda>(j, c). (j, close_checkpoint i change r j c)) (checkpoint_rows d)\<rparr>)"
  using assms checkpoints_ok_mapped [of d "close_checkpoint i change r"]
  by (simp add: db_ok_def checkpoint_ok_def close_checkpoint_def)

lemma end_hook_keeps: "db_ok d \<Longrightarrow> db_ok (snd (end_hook env h i execution d))"
  unfolding end_hook_def Let_def ends_snd [symmetric] ends_then_do ends_simps
  by (intro ends_answerI update_run_keeps)
    (simp_all add: run_ok_def run_states_def close_checkpoint_keeps)

text \<open>Closures.\<close>

lemma normalize_closure_disposition: "normalize_disposition v = Inr s \<Longrightarrow> s \<in> closure_dispositions"
  by (auto simp: normalize_disposition_def closure_dispositions_def Let_def split: if_splits)

lemma item_closures_iff:
  "closures_ok d \<Longrightarrow> c \<in> set (item_closures i d) \<longleftrightarrow> closure_item c = i \<and> (\<exists>k. map_of (closure_rows d) k = Some c)"
proof -
  assume "closures_ok d"
  then have "bmap_ok (closure_rows d)" by (simp add: closures_ok_def)
  then have "(\<exists>k. map_of (closure_rows d) k = Some c) \<longleftrightarrow> c \<in> set (map snd (closure_rows d))"
    by (auto simp: bmap_entry_iff [symmetric] intro: rev_image_eqI)
  then show ?thesis by (auto simp: item_closures_def)
qed

lemma fresh_version:
  assumes "c \<in> set (item_closures i d)"
  shows "closure_version c < Max (insert 0 (set (map closure_version (item_closures i d)))) + 1"
  using assms by (simp add: less_Suc_eq_le)

lemma closure_of_Inr:
  assumes "closure_of env input d item disposition reason row = Inr c"
  shows "closure_item c = item \<and> closure_disposition c = disposition \<and> closure_reason c = reason \<and>
    (\<forall>r. closure_run c = Some r \<longrightarrow> (\<exists>q. get_run r d = Some q \<or> (\<exists>i. get_run i d = Some q \<and> run_id q = r))) \<and>
    closure_version c = Max (insert 0 (set (map closure_version (item_closures item d)))) + 1"
  using assms by (auto simp: closure_of_def Let_def split: option.splits Option.bind_splits)

lemma insert_closure_keeps:
  assumes ok: "db_ok d" and c: "closure_ok d (closure_id c) c"
    and version: "closure_version c = Max (insert 0 (set (map closure_version (item_closures (closure_item c) d)))) + 1"
  shows "db_ok (d\<lparr>closure_rows := bmap_insert (closure_id c) c (closure_rows d)\<rparr>)"
proof -
  have old: "closures_ok d" using ok by (simp add: db_ok_def)
  have fresh: "closure_version e \<noteq> closure_version c"
    if "map_of (closure_rows d) k = Some e" "closure_item e = closure_item c" for k e
  proof -
    have "e \<in> set (item_closures (closure_item c) d)"
      unfolding item_closures_iff [OF old] using that by blast
    then show ?thesis using fresh_version version by fastforce
  qed
  have "closure_ok (d\<lparr>closure_rows := ks\<rparr>) = closure_ok d" for ks by (simp add: closure_ok_def [abs_def])
  then have "closures_ok (d\<lparr>closure_rows := bmap_insert (closure_id c) c (closure_rows d)\<rparr>)"
    using old c fresh unfolding closures_ok_def by (auto split: if_splits) metis+
  with ok show ?thesis by (simp add: db_ok_def)
qed

lemma create_closure_keeps: "db_ok d \<Longrightarrow> db_ok (snd (create_closure env input d))"
  unfolding create_closure_def ends_snd [symmetric] ends_then_do
proof (intro ends_answerI, assumption, assumption, assumption, goal_cases)
  case (1 item disposition reason)
  show ?case
  proof (cases "map_of (board_items d) item")
    case (Some row)
    have "db_ok (d\<lparr>closure_rows := bmap_insert (closure_id c) c (closure_rows d)\<rparr>)"
      if c: "closure_of env input d item disposition reason row = Inr c" for c
    proof (rule insert_closure_keeps [OF 1(1)])
      note facts = closure_of_Inr [OF c]
      have "get_run r d \<noteq> None" if "closure_run c = Some r" for r
        using facts that 1(1) by (auto simp: db_ok_def runs_ok_def run_ok_def)
      moreover have "reason \<noteq> []" using 1(4) unfolding bounded_text_Inr by blast
      ultimately show "closure_ok d (closure_id c) c"
        using facts Some normalize_closure_disposition [OF 1(3)] by (simp add: closure_ok_def)
    qed (use closure_of_Inr [OF c] in simp)
    with 1(1) show ?thesis
      by (auto simp: Some Let_def intro!: ends_answerI split: option.split)
  qed (use 1 in simp)
qed

text \<open>Deleting.\<close>

lemma get_run_forget:
  "runs_ok d \<Longrightarrow> get_run i (forget_runs gone d) = (if gone i then None else get_run i d)"
  by (auto simp: get_run_def forget_runs_def runs_ok_def map_of_filter_bmap [where p = "\<lambda>i _. \<not> gone i"] split: option.split)

lemma get_run_forget_Some:
  "runs_ok d \<Longrightarrow> get_run i (forget_runs gone d) = Some r \<longleftrightarrow> get_run i d = Some r \<and> \<not> gone i"
  by (auto simp: get_run_forget)

lemma forget_rows_ok:
  assumes "runs_ok d"
  shows "one_live d \<Longrightarrow> one_live (forget_runs gone d)"
    and "ports_ok d \<Longrightarrow> ports_ok (forget_runs gone d)"
    and "checkpoints_ok d \<Longrightarrow> checkpoints_ok (forget_runs gone d)"
proof -
  note get = get_run_forget [OF assms] get_run_forget_Some [OF assms]
  show "one_live (forget_runs gone d)" if "one_live d"
    using that unfolding one_live_def get(2) by blast
  show "ports_ok (forget_runs gone d)" if "ports_ok d"
    using that unfolding ports_ok_def get(1) by (auto simp: forget_runs_def distinct_map_filter)
  show "checkpoints_ok (forget_runs gone d)" if ok: "checkpoints_ok d"
  proof -
    have rows: "map_of (checkpoint_rows (forget_runs gone d)) i = Some c \<longleftrightarrow>
        map_of (checkpoint_rows d) i = Some c \<and> \<not> gone (checkpoint_run c)" for i c
      using ok by (auto simp: forget_runs_def checkpoints_ok_def map_of_filter_bmap split: option.splits if_splits)
    have "checkpoint_ok (forget_runs gone d) i c" if "checkpoint_ok d i c" "\<not> gone (checkpoint_run c)" for i c
      using that by (simp add: checkpoint_ok_def get(1))
    then show ?thesis using ok unfolding checkpoints_ok_def rows
      by (auto simp: forget_runs_def intro: bmap_ok_filter)
  qed
qed

lemma delete_keeps_closures:
  assumes ok: "db_ok d" and d': "d' = (forget_runs gone d)\<lparr>board_items := t,
      closure_rows := filter (\<lambda>(_, c). closure_item c \<noteq> item) (closure_rows (forget_runs gone d))\<rparr>"
    and t: "\<And>i. i \<noteq> item \<Longrightarrow> map_of t i = map_of (board_items d) i"
  shows "closures_ok d'"
proof -
  have runs: "runs_ok d" and old: "closures_ok d" using ok by (simp_all add: db_ok_def)
  have get: "get_run i d' = (if gone i then None else get_run i d)" for i
    using get_run_forget [OF runs] by (simp add: d')
  have rows: "map_of (closure_rows d') i = Some c' \<longleftrightarrow>
      (\<exists>c. map_of (closure_rows d) i = Some c \<and> c' = forget_closure gone c \<and> closure_item c \<noteq> item)" for i c'
    using old by (auto simp: d' forget_runs_def closures_ok_def map_of_filter_bmap bmap_ok_mapped map_of_mapped forget_closure_def
      split: option.splits if_splits)
  have same: "closure_item (forget_closure gone c) = closure_item c" "closure_version (forget_closure gone c) = closure_version c" for c
    by (simp_all add: forget_closure_def split: option.split)
  have "closure_ok d' i (forget_closure gone c)" if "closure_ok d i c" "closure_item c \<noteq> item" for i c
    using that by (auto simp: closure_ok_def get_run_forget [OF runs] d' t forget_closure_def split: option.split)
  moreover have "bmap_ok (closure_rows d')"
    using old by (auto simp: d' forget_runs_def closures_ok_def bmap_ok_mapped intro: bmap_ok_filter)
  ultimately show ?thesis
    using old unfolding closures_ok_def rows by (auto simp: same)
qed

lemma delete_board_item_keeps: "db_ok d \<Longrightarrow> db_ok (snd (delete_board_item raw d))"
proof -
  assume ok: "db_ok d"
  then have runs: "runs_ok d" by (simp add: db_ok_def)
  show ?thesis
  proof (cases "delete_work_item raw (board_items d)")
    case (Inr t)
    let ?gone = "\<lambda>i. case get_run i d of None \<Rightarrow> False | Some r \<Rightarrow> run_item r = trim raw"
    let ?d = "(forget_runs ?gone d)\<lparr>board_items := t,
      closure_rows := filter (\<lambda>(_, c). closure_item c \<noteq> trim raw) (closure_rows (forget_runs ?gone d))\<rparr>"
    have t: "map_of t i = map_of (board_items d) i" if "i \<noteq> trim raw" for i
      using Inr that by (auto simp: delete_work_item_def map_of_filter_key split: if_splits)
    have "runs_ok ?d" unfolding runs_ok_def
    proof (intro conjI allI impI)
      show "bmap_ok (managed_runs ?d)" using runs by (auto simp: forget_runs_def runs_ok_def intro: bmap_ok_filter)
      fix i r assume "get_run i ?d = Some r"
      then have r: "get_run i d = Some r" "run_item r \<noteq> trim raw" by (auto simp: get_run_forget [OF runs] split: if_splits)
      with runs have "run_ok d i r" by (simp add: runs_ok_def)
      with r t show "run_ok ?d i r"
        by (auto simp: run_ok_def list_all_iff holds_port_def forget_runs_def)
    qed
    moreover have "items_ok t" using ok delete_keeps [OF Inr] by (simp add: db_ok_def)
    ultimately have "db_ok ?d"
      using ok forget_rows_ok [OF runs, of ?gone] delete_keeps_closures [OF ok refl t] by (simp add: db_ok_def)
    then show ?thesis by (simp add: delete_board_item_def Inr Let_def)
  qed (use ok in \<open>simp add: delete_board_item_def\<close>)
qed

text \<open>The other commands of the board keep every item there.\<close>

lemma on_board_keeps:
  assumes ok: "db_ok d"
    and f: "\<And>v t. f (board_items d) = Inr (v, t) \<Longrightarrow> items_ok t \<and> dom (map_of (board_items d)) \<subseteq> dom (map_of t)"
  shows "db_ok (snd (on_board f d))"
proof (cases "f (board_items d)")
  case (Inr p)
  obtain v t where p: "p = (v, t)" by (cases p)
  with f Inr have t: "items_ok t" "\<And>i. map_of (board_items d) i \<noteq> None \<Longrightarrow> map_of t i \<noteq> None" by auto
  have "runs_ok (d\<lparr>board_items := t\<rparr>)" "closures_ok (d\<lparr>board_items := t\<rparr>)"
    using ok t(2) unfolding db_ok_def runs_ok_def run_ok_def closures_ok_def closure_ok_def
    by (simp_all add: holds_port_def [abs_def])
  with ok t(1) show ?thesis by (simp add: on_board_def Inr p db_ok_def)
qed (use ok in \<open>simp add: on_board_def\<close>)

section \<open>Requests interleaved\<close>

text \<open>
  The database with the hooks between their plan and their checkpoint, and those whose program is
  running under a checkpoint. A request holds the database from its first access to its last; only
  hooks let go of it in between.
\<close>

record managed_world =
  world_db :: managed_db
  hooks_planned :: "planned_hook list"
  hooks_running :: "(planned_hook \<times> string) list"

inductive managed_step :: "managed_world \<Rightarrow> managed_world \<Rightarrow> bool" where
  run_created: "managed_step w (w\<lparr>world_db := snd (create_managed_run env input (world_db w))\<rparr>)"
| process_attached: "managed_step w (w\<lparr>world_db := snd (attach_managed_work_process env attached (world_db w))\<rparr>)"
| run_reconciled: "managed_step w (w\<lparr>world_db := snd (reconcile_managed_work_run env raw (world_db w))\<rparr>)"
| run_handed_off: "managed_step w (w\<lparr>world_db := snd (managed_handoff env raw (world_db w))\<rparr>)"
| run_archived: "managed_step w (w\<lparr>world_db := snd (archive_run env raw (world_db w))\<rparr>)"
| intent_closed: "managed_step w (w\<lparr>world_db := snd (create_closure env closing (world_db w))\<rparr>)"
| hook_planned: "plan_hook hook (world_db w) = Inr h \<Longrightarrow> managed_step w (w\<lparr>hooks_planned := h # hooks_planned w\<rparr>)"
| hook_begun: "h \<in> set (hooks_planned w) \<Longrightarrow> begin_hook env h (world_db w) = (res, d) \<Longrightarrow>
    managed_step w (w\<lparr>world_db := d, hooks_planned := remove1 h (hooks_planned w),
      hooks_running := (case res of Inl _ \<Rightarrow> hooks_running w | Inr c \<Rightarrow> (h, c) # hooks_running w)\<rparr>)"
| hook_ended: "(h, c) \<in> set (hooks_running w) \<Longrightarrow>
    managed_step w (w\<lparr>world_db := snd (end_hook env h c execution (world_db w)),
      hooks_running := remove1 (h, c) (hooks_running w)\<rparr>)"
| item_created: "managed_step w (w\<lparr>world_db := snd (on_board (create_work_item benv new) (world_db w))\<rparr>)"
| item_updated: "managed_step w (w\<lparr>world_db := snd (on_board (update_work_item benv raw edit) (world_db w))\<rparr>)"
| item_transitioned: "managed_step w (w\<lparr>world_db := snd (on_board (transition_work_item benv raw status disposition) (world_db w))\<rparr>)"
| item_attached: "managed_step w (w\<lparr>world_db := snd (on_board (attach_work_item_session benv raw session) (world_db w))\<rparr>)"
| item_deleted: "managed_step w (w\<lparr>world_db := snd (delete_board_item raw (world_db w))\<rparr>)"

definition empty_db :: managed_db where
  "empty_db = \<lparr>board_items = [], managed_runs = [], port_rows = [], checkpoint_rows = [], closure_rows = []\<rparr>"

definition empty_world :: managed_world where
  "empty_world = \<lparr>world_db = empty_db, hooks_planned = [], hooks_running = []\<rparr>"

abbreviation managed_reachable :: "managed_world \<Rightarrow> bool" where
  "managed_reachable \<equiv> managed_step\<^sup>*\<^sup>* empty_world"

definition world_ok :: "managed_world \<Rightarrow> bool" where
  "world_ok w \<longleftrightarrow> db_ok (world_db w) \<and> list_all hook_kind_ok (hooks_planned w)"

lemma board_keeps:
  assumes "db_ok d"
  shows "db_ok (snd (on_board (create_work_item benv new) d))"
    and "db_ok (snd (on_board (update_work_item benv raw edit) d))"
    and "db_ok (snd (on_board (transition_work_item benv raw status disposition) d))"
    and "db_ok (snd (on_board (attach_work_item_session benv raw session) d))"
proof -
  have items: "items_ok (board_items d)" using assms by (simp add: db_ok_def)
  show "db_ok (snd (on_board (create_work_item benv new) d))"
    by (rule on_board_keeps [OF assms]) (drule create_keeps [OF _ items], auto)
  show "db_ok (snd (on_board (update_work_item benv raw edit) d))"
  proof (rule on_board_keeps [OF assms], goal_cases)
    case (1 v t)
    then obtain f where "update_item (trim raw) f (board_items d) = Inr (v, t)"
      unfolding update_work_item_def Let_def and_then_Inr by blast
    then have "dom (map_of (board_items d)) \<subseteq> dom (map_of t)"
      by (auto simp: update_item_def Let_def and_then_Inr split: option.splits)
    with update_keeps [OF 1 items] show ?case by simp
  qed
  show "db_ok (snd (on_board (transition_work_item benv raw status disposition) d))"
    by (rule on_board_keeps [OF assms]) (erule transition_Inr [OF _ items], auto)
  show "db_ok (snd (on_board (attach_work_item_session benv raw session) d))"
    by (rule on_board_keeps [OF assms]) (erule attach_Inr [OF _ items], auto)
qed

text \<open>The contract of a request: it leaves a well-formed database behind, whether it succeeds or not.\<close>

locale managed_request =
  fixes request :: "'a \<Rightarrow> 'v request"
  assumes keeps: "db_ok d \<Longrightarrow> db_ok (snd (request a d))"
begin

lemma world_keeps: "world_ok w \<Longrightarrow> world_ok (w\<lparr>world_db := snd (request a (world_db w))\<rparr>)"
  by (simp add: world_ok_def keeps)

lemma hook_keeps:
  assumes "world_ok w" and "set planned \<subseteq> set (hooks_planned w)"
  shows "world_ok (w\<lparr>world_db := snd (request a (world_db w)), hooks_planned := planned, hooks_running := running\<rparr>)"
  using assms by (auto simp: world_ok_def keeps list_all_iff)

end

lemma reconcile_request_keeps: "db_ok d \<Longrightarrow> db_ok (snd (reconcile_managed_work_run env raw d))"
  unfolding reconcile_managed_work_run_def ends_snd [symmetric] ends_then_do
  by (intro ends_answerI reconcile_keeps) simp_all

interpretation creating_run: managed_request "\<lambda>(env, input). create_managed_run env input"
  by unfold_locales (auto simp: create_managed_run_keeps split: prod.split)

interpretation attaching_process: managed_request "\<lambda>(env, input). attach_managed_work_process env input"
  by unfold_locales (auto simp: attach_keeps split: prod.split)

interpretation reconciling_run: managed_request "\<lambda>(env, raw). reconcile_managed_work_run env raw"
  by unfold_locales (auto simp: reconcile_request_keeps split: prod.split)

interpretation handing_off: managed_request "\<lambda>(env, raw). managed_handoff env raw"
  by unfold_locales (auto simp: handoff_keeps split: prod.split)

interpretation archiving_run: managed_request "\<lambda>(env, raw). archive_run env raw"
  by unfold_locales (auto simp: archive_keeps split: prod.split)

interpretation closing_intent: managed_request "\<lambda>(env, input). create_closure env input"
  by unfold_locales (auto simp: create_closure_keeps split: prod.split)

interpretation ending_hook: managed_request "\<lambda>(env, h, c, execution). end_hook env h c execution"
  by unfold_locales (auto simp: end_hook_keeps split: prod.split)

interpretation creating_item: managed_request "\<lambda>(benv, new). on_board (create_work_item benv new)"
  by unfold_locales (auto simp: board_keeps split: prod.split)

interpretation updating_item: managed_request "\<lambda>(benv, raw, edit). on_board (update_work_item benv raw edit)"
  by unfold_locales (auto simp: board_keeps split: prod.split)

interpretation transitioning_item: managed_request
  "\<lambda>(benv, raw, status, disposition). on_board (transition_work_item benv raw status disposition)"
  by unfold_locales (auto simp: board_keeps split: prod.split)

interpretation attaching_item: managed_request "\<lambda>(benv, raw, session). on_board (attach_work_item_session benv raw session)"
  by unfold_locales (auto simp: board_keeps split: prod.split)

interpretation deleting_item: managed_request delete_board_item
  by unfold_locales (rule delete_board_item_keeps)

lemma managed_step_keeps: "managed_step w w' \<Longrightarrow> world_ok w \<Longrightarrow> world_ok w'"
proof (induction rule: managed_step.induct)
  case (run_created w env input)
  then show ?case using creating_run.world_keeps [of w "(env, input)"] by simp
next
  case (process_attached w env attached)
  then show ?case using attaching_process.world_keeps [of w "(env, attached)"] by simp
next
  case (run_reconciled w env raw)
  then show ?case using reconciling_run.world_keeps [of w "(env, raw)"] by simp
next
  case (run_handed_off w env raw)
  then show ?case using handing_off.world_keeps [of w "(env, raw)"] by simp
next
  case (run_archived w env raw)
  then show ?case using archiving_run.world_keeps [of w "(env, raw)"] by simp
next
  case (intent_closed w env closing)
  then show ?case using closing_intent.world_keeps [of w "(env, closing)"] by simp
next
  case (hook_planned hook w h)
  then show ?case using plan_hook_Inr by (simp add: world_ok_def)
next
  case (hook_begun h w env res d)
  then have "db_ok (snd (begin_hook env h (world_db w)))"
    by (intro begin_hook_keeps) (auto simp: world_ok_def list_all_iff)
  with hook_begun show ?case by (auto simp: world_ok_def list_all_iff dest: notin_set_remove1)
next
  case (hook_ended h c w env execution)
  then show ?case
    using ending_hook.hook_keeps [where w = w and planned = "hooks_planned w" and a = "(env, h, c, execution)"
      and running = "remove1 (h, c) (hooks_running w)"] by simp
next
  case (item_created w benv new)
  then show ?case using creating_item.world_keeps [of w "(benv, new)"] by simp
next
  case (item_updated w benv raw edit)
  then show ?case using updating_item.world_keeps [of w "(benv, raw, edit)"] by simp
next
  case (item_transitioned w benv raw status disposition)
  then show ?case using transitioning_item.world_keeps [of w "(benv, raw, status, disposition)"] by simp
next
  case (item_attached w benv raw session)
  then show ?case using attaching_item.world_keeps [of w "(benv, raw, session)"] by simp
next
  case (item_deleted w raw)
  then show ?case using deleting_item.world_keeps [of w raw] by simp
qed

lemma managed_reachable_ok: "managed_reachable w \<Longrightarrow> world_ok w"
proof (induction rule: rtranclp_induct)
  case base
  show ?case
    by (simp add: world_ok_def empty_world_def empty_db_def db_ok_def items_ok_def runs_ok_def one_live_def ports_ok_def
      checkpoints_ok_def closures_ok_def get_run_def)
next
  case (step w w')
  from step(2,3) show ?case by (rule managed_step_keeps)
qed

section \<open>Properties\<close>

text \<open>
  C17: The managed runs stay consistent. However the requests, the stages of hooks and the commands of
  the board interleave, a work item has at most one live run, belongs to the board as long as it has
  one, and the ports a run has recorded are reserved for it and for no other run or purpose. The
  checkpoints of a run have distinct numbers, and a checkpoint is passed exactly when its evidence
  says that its hook succeeded. The closures of an item have distinct versions.
\<close>

theorem managed_states_are_consistent:
  assumes "managed_reachable w"
  shows "(\<forall>i r j q. get_run i (world_db w) = Some r \<longrightarrow> get_run j (world_db w) = Some q \<longrightarrow>
      live_state (run_state r) \<longrightarrow> live_state (run_state q) \<longrightarrow> run_item r = run_item q \<longrightarrow> i = j) \<and>
    (\<forall>i r. get_run i (world_db w) = Some r \<longrightarrow> map_of (board_items (world_db w)) (run_item r) \<noteq> None) \<and>
    (\<forall>i r j q a b. get_run i (world_db w) = Some r \<longrightarrow> get_run j (world_db w) = Some q \<longrightarrow>
      a \<in> set (run_ports r) \<longrightarrow> b \<in> set (run_ports q) \<longrightarrow> port_number a = port_number b \<longrightarrow>
        i = j \<and> a = b \<and> 1024 \<le> port_number a \<and> port_number a \<le> 65535) \<and>
    (\<forall>i c j e. map_of (checkpoint_rows (world_db w)) i = Some c \<longrightarrow> map_of (checkpoint_rows (world_db w)) j = Some e \<longrightarrow>
      checkpoint_run c = checkpoint_run e \<longrightarrow> checkpoint_sequence c = checkpoint_sequence e \<longrightarrow> i = j) \<and>
    (\<forall>i c. map_of (checkpoint_rows (world_db w)) i = Some c \<longrightarrow>
      (checkpoint_state c = ''passed'' \<longleftrightarrow>
        (\<exists>e. checkpoint_evidence c = Some e \<and> result_checkpoint e = i \<and> hook_success (result_execution e)))) \<and>
    (\<forall>i c j e. map_of (closure_rows (world_db w)) i = Some c \<longrightarrow> map_of (closure_rows (world_db w)) j = Some e \<longrightarrow>
      closure_item c = closure_item e \<longrightarrow> closure_version c = closure_version e \<longrightarrow> i = j)"
proof -
  have ok: "db_ok (world_db w)" using managed_reachable_ok [OF assms] by (simp add: world_ok_def)
  have holds: "\<lparr>row_run = i, row_port = port_number a, row_purpose = port_purpose a\<rparr> \<in> set (port_rows (world_db w))"
    if "get_run i (world_db w) = Some r" "a \<in> set (run_ports r)" for i r a
    using ok that by (auto simp: db_ok_def runs_ok_def run_ok_def list_all_iff holds_port_def)
  have bounds: "1024 \<le> row_port p \<and> row_port p \<le> 65535" if "p \<in> set (port_rows (world_db w))" for p
    using ok that by (simp add: db_ok_def ports_ok_def)
  have ports: "i = j \<and> a = b \<and> 1024 \<le> port_number a \<and> port_number a \<le> 65535"
    if "get_run i (world_db w) = Some r" "get_run j (world_db w) = Some q"
      "a \<in> set (run_ports r)" "b \<in> set (run_ports q)" "port_number a = port_number b" for i r j q a b
  proof -
    have "inj_on row_port (set (port_rows (world_db w)))" using ok by (simp add: db_ok_def ports_ok_def distinct_map)
    from inj_onD [OF this _ holds [OF that(1,3)] holds [OF that(2,4)]] that(5)
    have "i = j" "a = b" by (simp_all add: managed_port.equality)
    moreover have "1024 \<le> port_number a" "port_number a \<le> 65535"
      using bounds [OF holds [OF that(1,3)]] by simp_all
    ultimately show ?thesis by simp
  qed
  have passed: "checkpoint_state c = ''passed'' \<longleftrightarrow>
      (\<exists>e. checkpoint_evidence c = Some e \<and> result_checkpoint e = i \<and> hook_success (result_execution e))"
    if "map_of (checkpoint_rows (world_db w)) i = Some c" for i c
  proof -
    have "checkpoint_ok (world_db w) i c" using ok that by (simp add: db_ok_def checkpoints_ok_def)
    then show ?thesis by (cases "checkpoint_evidence c") (auto simp: checkpoint_ok_def)
  qed
  have "one_live (world_db w)" "closures_ok (world_db w)" "checkpoints_ok (world_db w)" "runs_ok (world_db w)"
    using ok by (simp_all add: db_ok_def)
  note parts = this(1) [unfolded one_live_def] this(2) [unfolded closures_ok_def] this(3) [unfolded checkpoints_ok_def]
    this(4) [unfolded runs_ok_def run_ok_def]
  show ?thesis
  proof (intro conjI, goal_cases)
    case 1 show ?case using parts(1) .
    case 2 show ?case using parts(4) by blast
    case 3 show ?case using ports by blast
    case 4 show ?case using parts(3) by blast
    case 5 show ?case using passed by blast
    case 6 show ?case using parts(2) by blast
  qed
qed

text \<open>
  C19: Reserving ports is exact. From every reachable database a reservation that succeeds writes one
  row for each request in its order, under its trimmed purpose, with a port that can be bound and
  that no other row has, and a request whose preferred port can be bound and is not taken before its
  turn is given that port. A reservation that fails has written nothing.
\<close>

theorem reservation_is_exact:
  assumes "managed_reachable w" and "reserve_ports env run reqs (world_db w) = (res, d)"
  shows "case res of
      Inl _ \<Rightarrow> d = world_db w
    | Inr ps \<Rightarrow> d = (world_db w)\<lparr>port_rows := port_rows (world_db w) @ reserved_rows run ps\<rparr> \<and>
        list_all2 (granted env) reqs ps \<and>
        served_in_turn env (row_port ` set (port_rows (world_db w))) reqs ps \<and>
        distinct (map row_port (port_rows d)) \<and> length reqs \<le> MAX_PORT_REQUESTS"
proof (cases res)
  case (Inl e)
  with assms(2) reserve_ports_Inl show ?thesis by simp
next
  case (Inr ps)
  have "ports_ok (world_db w)" using managed_reachable_ok [OF assms(1)] by (simp add: world_ok_def db_ok_def)
  from reserve_ports_Inr [OF assms(2) [unfolded Inr] this] have
    "d = (world_db w)\<lparr>port_rows := port_rows (world_db w) @ reserved_rows run ps\<rparr> \<and>
      list_all2 (granted env) reqs ps \<and> served_in_turn env (row_port ` set (port_rows (world_db w))) reqs ps \<and>
      ports_ok d" .
  moreover have "length reqs \<le> MAX_PORT_REQUESTS"
    using assms(2) Inr by (auto simp: reserve_ports_def split: if_splits)
  ultimately show ?thesis unfolding Inr sum.case ports_ok_def by blast
qed

lemma begin_hook_Inr:
  assumes "begin_hook env h d = (Inr c, d')" and "runs_ok d"
  shows "c = checkpoint_id (begin_checkpoint env h) \<and>
    (\<exists>r. get_run (run_id (planned_run h)) d = Some r \<and>
      get_run (run_id (planned_run h)) d' = Some (r\<lparr>run_checkpoint := Some c, run_state := ''checking'', run_updated := managed_now env\<rparr>)) \<and>
    map_of (checkpoint_rows d') c = Some (begin_checkpoint env h)"
proof -
  let ?c = "begin_checkpoint env h"
  let ?d = "d\<lparr>checkpoint_rows := bmap_insert (checkpoint_id ?c) ?c (checkpoint_rows d)\<rparr>"
  let ?f = "\<lambda>r. r\<lparr>run_checkpoint := Some (checkpoint_id ?c), run_state := ''checking'', run_updated := managed_now env\<rparr>"
  from assms(1) have ins: "insert_checkpoint ?c d = (Inr (), ?d)" "get_run (run_id (planned_run h)) d \<noteq> None"
    and upd: "\<exists>n. update_run (run_id (planned_run h)) (\<lambda>_. True) ?f ?d = (Inr n, d')" "c = checkpoint_id ?c"
    by (auto simp: begin_hook_def Let_def then_do_def insert_checkpoint_def answer_def begin_checkpoint_def
      split: if_splits sum.splits prod.splits)
  from ins(2) obtain r where r: "get_run (run_id (planned_run h)) d = Some r" by auto
  then have "map_of (managed_runs ?d) (run_id (planned_run h)) = Some r" "run_id r = run_id (planned_run h)"
    using assms(2) by (simp_all add: get_run_def runs_ok_def run_ok_def)
  with upd(1) have "d' = ?d\<lparr>managed_runs := bmap_insert (run_id (planned_run h)) (?f r) (managed_runs ?d)\<rparr>"
    by (auto simp: update_run_def then_do_def answer_def put_run_def split: if_splits)
  with r upd(2) show ?thesis by (simp add: get_run_def)
qed

text \<open>
  C18: A hook that cannot start strands its run. When the program of a hook cannot be executed, the
  request answers with the error alone: the run is left checking under a checkpoint that is left
  running. It was made live whatever its state was before, an archived or failed one included; no
  process can be attached to it, and no other run can be inserted for its item.
\<close>

theorem unstarted_hook_strands_run:
  assumes "managed_reachable w" and "plan_hook input (world_db w) = Inr h"
    and "begin_hook env h (world_db w) = (Inr c, d)"
  shows "run_managed_work_hook env (\<lambda>_ _. Inl e) input (world_db w) = (Inl e, d) \<and>
    map_option checkpoint_state (map_of (checkpoint_rows d) c) = Some ''running'' \<and>
    (\<exists>r. get_run (trim (hook_run input)) d = Some r \<and> run_state r = ''checking'' \<and> run_checkpoint r = Some c \<and>
      (\<forall>env' attached. trim (attach_run attached) = run_id r \<longrightarrow>
        \<not> is_ok (fst (attach_managed_work_process env' attached d)) \<and> snd (attach_managed_work_process env' attached d) = d) \<and>
      (\<forall>env' create q. plan_run env' create d = Inr q \<longrightarrow> run_item q = run_item r \<longrightarrow>
        create_managed_run env' create d = (Inl ''This work item already has a live managed run'', d)))"
proof -
  have ok: "db_ok (world_db w)" using managed_reachable_ok [OF assms(1)] by (simp add: world_ok_def)
  then have runs: "runs_ok (world_db w)" by (simp add: db_ok_def)
  note h = plan_hook_Inr [OF assms(2)]
  have id: "run_id (planned_run h) = trim (hook_run input)"
    using h runs by (auto simp: runs_ok_def run_ok_def)
  have "db_ok d" using begin_hook_keeps [OF ok, of h env] h assms(3) by simp
  then have runs': "runs_ok d" by (simp add: db_ok_def)
  note after = begin_hook_Inr [OF assms(3) runs, unfolded id]
  then obtain r where r: "get_run (trim (hook_run input)) d = Some r" "run_state r = ''checking''" "run_checkpoint r = Some c"
    by auto
  have rid: "run_id r = trim (hook_run input)" using r(1) runs' by (simp add: runs_ok_def run_ok_def)
  have attach: "\<not> is_ok (fst (attach_managed_work_process env' attached d)) \<and> snd (attach_managed_work_process env' attached d) = d"
    if "trim (attach_run attached) = run_id r" for env' attached
    using r that
    by (auto simp: attach_managed_work_process_def then_do_def answer_def bounded_text_def Let_def update_run_def get_run_def
      attachable_def rid reject_if_def split: sum.splits prod.splits option.splits if_splits)
  have create: "create_managed_run env' create d = (Inl ''This work item already has a live managed run'', d)"
    if q: "plan_run env' create d = Inr q" "run_item q = run_item r" for env' create q
  proof -
    have "get_run (run_id q) d \<noteq> None \<or> live_elsewhere q d"
    proof (cases "run_id q = run_id r")
      case True
      with r(1) rid show ?thesis by simp
    next
      case False
      with plan_run_Inr [OF q(1)] q(2) r rid have "live_elsewhere q d"
        unfolding live_elsewhere_iff [OF runs'] by (intro conjI exI [of _ "run_id r"] exI [of _ r]) (simp_all add: live_state_def)
      then show ?thesis ..
    qed
    then have "is_taken q d" by (auto simp: is_taken_def get_run_def)
    then show ?thesis by (simp add: create_managed_run_def q(1) insert_run_def then_do_def)
  qed
  have "run_managed_work_hook env (\<lambda>_ _. Inl e) input (world_db w) = (Inl e, d)"
    by (simp add: run_managed_work_hook_def assms(2,3) then_do_def end_hook_def answer_def)
  moreover have "map_option checkpoint_state (map_of (checkpoint_rows d) c) = Some ''running''"
    using after by (auto simp: begin_checkpoint_def)
  ultimately show ?thesis using r attach create by blast
qed

section \<open>Examples\<close>

text \<open>A clean worktree; fresh identities carry a prefix.\<close>

definition example_managed :: "string \<Rightarrow> managed_env" where
  "example_managed prefix = \<lparr>resolve_path = Inr, is_directory = (\<lambda>_. True), path_exists = (\<lambda>_. True),
     git = (\<lambda>_ args. if args = [''status'', ''--porcelain''] then Inr [] else Inr ''h''), git_status = (\<lambda>_ _. Inr (True, [])),
     add_worktree = (\<lambda>_ _ _ _. Inr ()), remove_worktree = (\<lambda>_ _. Inr ()), worktree_root = Inr ''/t'',
     profiles = Inr [\<lparr>profile_id = ''p'', profile_provider = ''codex'', profile_config = ''/c'', profile_available = True\<rparr>],
     sha256_hex = (\<lambda>_. ''0''), process_start = (\<lambda>_. None), bindable = (\<lambda>_. True), ephemeral = (\<lambda>_. Inr [40000]),
     fresh_uuid = (\<lambda>kind. prefix @ kind), managed_now = ''now''\<rparr>"

definition example_create :: create_run_input where
  "example_create = \<lparr>create_item = ''i'', create_provider = ''codex'', create_profile = ''p'', create_repo = ''/r'',
     create_ports = [\<lparr>request_purpose = ''web'', preferred_port = Some 3000\<rparr>, \<lparr>request_purpose = ''api'', preferred_port = None\<rparr>]\<rparr>"

definition example_hook :: hook_input where
  "example_hook = \<lparr>hook_run = ''managed-run:run'', hook_kind = ''check'', hook_program = ''make'', hook_args = [], hook_timeout_ms = None\<rparr>"

definition example_board :: managed_db where
  "example_board = snd (on_board (create_work_item example_env example_input) empty_db)"

definition example_planned :: managed_db where
  "example_planned = snd (create_managed_run (example_managed []) example_create example_board)"

definition example_archived :: managed_db where
  "example_archived = snd (archive_run (example_managed []) ''managed-run:run'' example_planned)"

definition in_world :: "managed_db \<Rightarrow> managed_world" where
  "in_world d = \<lparr>world_db = d, hooks_planned = [], hooks_running = []\<rparr>"

lemma in_world_step: "managed_reachable (in_world d) \<Longrightarrow> managed_step (in_world d) (in_world d') \<Longrightarrow> managed_reachable (in_world d')"
  by (rule rtranclp.rtrancl_into_rtrancl)

lemma example_planned_reachable: "managed_reachable (in_world example_planned)"
proof -
  have "managed_reachable (in_world empty_db)" by (simp add: in_world_def empty_world_def)
  from in_world_step [OF this, of example_board] have "managed_reachable (in_world example_board)"
    using item_created [of "in_world empty_db" example_env example_input] by (simp add: in_world_def example_board_def)
  from in_world_step [OF this, of example_planned] show ?thesis
    using run_created [of "in_world example_board" "example_managed []" example_create]
    by (simp add: in_world_def example_planned_def)
qed

lemma example_archived_reachable: "managed_reachable (in_world example_archived)"
  using in_world_step [OF example_planned_reachable, of example_archived]
    run_archived [of "in_world example_planned" "example_managed []" "''managed-run:run''"]
  by (simp add: in_world_def example_archived_def)

lemma example_planned_run:
  "map_option (\<lambda>r. (run_state r, map port_number (run_ports r))) (get_run ''managed-run:run'' example_planned)
    = Some (''planned'', [3000, 40000])"
  by code_simp

lemma example_archived_run: "map_option run_state (get_run ''managed-run:run'' example_archived) = Some ''archived''"
  by code_simp

theorem managed_states_are_consistent_witness:
  "\<exists>r. get_run ''managed-run:run'' example_planned = Some r \<and> map port_number (run_ports r) = [3000, 40000] \<and>
     map_of (board_items example_planned) (run_item r) \<noteq> None"
proof -
  from example_planned_run obtain r where
    r: "get_run ''managed-run:run'' example_planned = Some r" "map port_number (run_ports r) = [3000, 40000]" by auto
  with managed_states_are_consistent [OF example_planned_reachable] show ?thesis by (auto simp: in_world_def)
qed

definition example_request :: "port_request list" where
  "example_request = [\<lparr>request_purpose = ''db'', preferred_port = Some 5000\<rparr>]"

lemma example_reservation:
  "(case fst (reserve_ports (example_managed []) ''managed-run:run'' example_request example_planned) of
      Inl _ \<Rightarrow> [] | Inr ps \<Rightarrow> map port_number ps) = [5000]"
  by code_simp

theorem reservation_is_exact_witness:
  "\<exists>ps d. reserve_ports (example_managed []) ''managed-run:run'' example_request example_planned = (Inr ps, d) \<and>
     map port_number ps = [5000] \<and> distinct (map row_port (port_rows d))"
proof -
  obtain res d where run: "reserve_ports (example_managed []) ''managed-run:run'' example_request example_planned = (res, d)"
    by (cases "reserve_ports (example_managed []) ''managed-run:run'' example_request example_planned")
  with example_reservation obtain ps where ps: "res = Inr ps" "map port_number ps = [5000]" by (auto split: sum.splits)
  have world: "reserve_ports (example_managed []) ''managed-run:run'' example_request (world_db (in_world example_planned)) = (res, d)"
    using run by (simp add: in_world_def)
  have "distinct (map row_port (port_rows d))"
    using reservation_is_exact [OF example_planned_reachable world] unfolding ps(1) sum.case by blast
  with run [unfolded ps(1)] ps(2) show ?thesis by (intro exI conjI)
qed

definition example_plan :: "planned_hook list" where
  "example_plan = (case plan_hook example_hook example_archived of Inl _ \<Rightarrow> [] | Inr h \<Rightarrow> [h])"

lemma example_begun:
  "map (\<lambda>h. fst (begin_hook (example_managed []) h example_archived)) example_plan = [Inr ''managed-checkpoint:checkpoint'']"
  by code_simp

text \<open>The archived run is live again, and its worktree is gone.\<close>

theorem unstarted_hook_strands_run_witness:
  "\<exists>r d q. get_run ''managed-run:run'' example_archived = Some r \<and> run_state r = ''archived'' \<and>
     run_managed_work_hook (example_managed []) (\<lambda>_ _. Inl ''no such directory'') example_hook example_archived
       = (Inl ''no such directory'', d) \<and>
     get_run ''managed-run:run'' d = Some q \<and> run_state q = ''checking''"
proof -
  from example_archived_run obtain r where r: "get_run ''managed-run:run'' example_archived = Some r" "run_state r = ''archived''" by auto
  from example_begun obtain h where h: "plan_hook example_hook (world_db (in_world example_archived)) = Inr h"
      "fst (begin_hook (example_managed []) h example_archived) = Inr ''managed-checkpoint:checkpoint''"
    by (auto simp: example_plan_def in_world_def split: sum.splits)
  then obtain d where d: "begin_hook (example_managed []) h (world_db (in_world example_archived)) = (Inr ''managed-checkpoint:checkpoint'', d)"
    by (cases "begin_hook (example_managed []) h example_archived") (simp add: in_world_def)
  have run: "trim (hook_run example_hook) = ''managed-run:run''" by code_simp
  from unstarted_hook_strands_run [OF example_archived_reachable h(1) d, of "''no such directory''", unfolded run] r show ?thesis
    by (auto simp: in_world_def)
qed

end
