(* ===== verification/Spec2Isabelle.thy ===== *)
theory Spec2Isabelle
  imports FixPacket ArchLiveness ReviewRunProps ArchLifecycle ArchIdentity McpBoundary GraphImpact ManagedRuns
begin

text \<open>
  The verification core of CodeVetter, the Rust crate under \<open>crates/codevetter-core/src\<close>. All paths
  below are relative to that directory.

  \<^bold>\<open>What the program does.\<close> CodeVetter reviews a change of a Git repository and says how far its
  verdict can be trusted. A \<^emph>\<open>local check\<close> runs the program's own targets, asks model reviewers and
  relates both to a specification; a \<^emph>\<open>review\<close> plans the change as units, has specialists look at
  each and keeps only findings that the source supports; two passes are reconciled into a
  \<^emph>\<open>composite\<close>; a receipt can be turned into a \<^emph>\<open>fix packet\<close> for a coding agent, whose attempt in
  an isolated worktree is checked again. Beside it an \<^emph>\<open>archaeology\<close> engine derives business rules of
  a code base in long jobs and publishes them in generations, a \<^emph>\<open>structural graph\<close> answers
  questions about a snapshot, an \<^emph>\<open>MCP server\<close> hands answers to outside agents, and a \<^emph>\<open>work board\<close>
  with managed runs coordinates agents on work items.

  \<^bold>\<open>Theories and the code they model.\<close>

  \<^item> \<open>Prelude\<close>: the Rust types used everywhere. \<open>Result<T, String>\<close> is a sum with \<open>and_then\<close> for
    \<open>?\<close>; \<open>str\<close> is a list of bytes, its characters are decoded where the code counts characters;
    \<open>BTreeMap\<close> and \<open>BTreeSet\<close> are sorted lists; paths have components. The locale \<open>ordered_map\<close>
    states what the code relies on of an ordered map. \<open>Json\<close>: \<open>serde_json::Value\<close>.
  \<^item> \<open>SecretPolicy\<close> (\<open>commands/secret_policy.rs\<close>): what counts as a secret, and redaction.
  \<^item> \<open>SpecCoverage\<close> (\<open>commands/spec_coverage.rs\<close>), \<open>CrossReview\<close> (\<open>commands/cross_review.rs\<close>) and
    \<open>LocalCheck\<close> (\<open>commands/local_check.rs\<close>): the local check from its request to its receipt.
  \<^item> \<open>FixAttempt\<close> (\<open>commands/fix_attempt.rs\<close>) and \<open>FixPacket\<close> (\<open>commands/fix_packet.rs\<close>): the packet
    built from a stored receipt, and the attempt that consumes it. The files an attempt keeps its
    receipt in are a state that is written, renamed and read back.
  \<^item> \<open>DeterministicReview\<close> and \<open>ReviewStore\<close> (\<open>commands/deterministic_review.rs\<close>: targets, units,
    qualification; its tables), \<open>ReviewMerge\<close> and \<open>ReviewRun\<close> (\<open>commands/review.rs\<close>: merging, the
    cancellation registry, and \<open>run_cli_review_core\<close> as one function of the outside answers);
    \<open>ReviewRunProps\<close> follows a run stage by stage.
  \<^item> \<open>ArchInvalidation\<close>, \<open>ArchLifecycle\<close>, \<open>ArchIdentity\<close>
    (\<open>commands/business_rule_archaeology/\<close>\<open>invalidation.rs\<close>, \<open>lifecycle.rs\<close>, \<open>identity.rs\<close>): what a
    change invalidates, the review log of a rule, the hashed identities.
  \<^item> \<open>ArchJobs\<close> (\<open>jobs.rs\<close> of the same directory): jobs, generations and the ready pointer as
    transactions over three tables, with the coverage that the inventory and a clone of unaffected
    facts (\<open>invalidation_store.rs\<close>) record. \<open>ArchJobsSafety\<close> states the contract of an operation as the
    locale \<open>job_operation\<close>, interpreted by each of them; \<open>ArchJobsSystem\<close> lets requests arrive in any
    order; \<open>ArchJobsRun\<close> is a concrete run of two publications and a cleanup; \<open>ArchJobsProps\<close>, \<open>ArchPublication\<close> and \<open>ArchLiveness\<close>
    hold the properties.
  \<^item> \<open>GraphQuery\<close> and \<open>GraphImpact\<close> (\<open>commands/structural_graph/query\<close>): the queries and their byte
    limits, and what an impact query means.
  \<^item> \<open>McpBoundary\<close> (\<open>mcp\<close>, \<open>commands/invocation_events.rs\<close>): resource identifiers, cursors, paging,
    sanitizing, the answer envelope.
  \<^item> \<open>WorkBoard\<close> (\<open>commands/work_items.rs\<close>), \<open>ManagedWork\<close> (\<open>commands/managed_work.rs\<close> with the
    constraints of \<open>db/verification_workbench_schema.rs\<close>) and \<open>ManagedRuns\<close>: work items, managed
    runs with ports, hooks and closures, and all of them as one system whose requests are instances
    of the locale \<open>managed_request\<close>.

  \<^bold>\<open>Correspondence.\<close> A Rust struct is a record and an enumeration a datatype with the same members;
  a function keeps its name, with a suffix or a longer name where the name is taken. A member that no
  modelled function reads is left out. A table is a sorted map from its key to its row; a statement
  with \<open>WHERE\<close> is a function on rows and the number of rows changed; unique indexes, checks and
  foreign keys are the errors they raise; a transaction that fails leaves the tables as they were,
  statements outside one keep what they have written. Machine integers are words where they can wrap
  and natural numbers with their bound written out where they cannot. What lies outside (Git, the
  file system, processes, sockets, model answers, the clock, fresh identities, SHA-256, Base64, JSON
  text, time parsing) is a record of functions that the models take as an argument; where a property
  needs documented behaviour of it (a decoder reads what its encoder wrote, hashing is injective on
  the values compared), this is a hypothesis of the property, and its witness shows a function that
  has it.

  \<^bold>\<open>What the lemmas show.\<close>

  \<^item> Verdicts are earned: a check that passed has executed a target and verified the selected
    requirements, a verified fix passed its gate, its correctness check and its review, a finding of
    a review is grounded in the source, a completed review is complete, a verified work item had a
    passed verification.
  \<^item> Handoffs are exact: a fix packet holds the selected findings and nothing else, a composite is the
    source-qualified union of its passes, outputs that are reused match their unit.
  \<^item> The job engine keeps one active job and one ready generation per repository; a recovered job is
    fenced from its old owner; only publication moves the pointer and cleaning spares what is still
    needed; a stale job can always be released.
  \<^item> Managed runs: one live run per item, ports of one run only, checkpoints that say what their
    evidence says, under every interleaving of requests and of the stages of hooks.
  \<^item> Equivalences with plain specifications: the invalidation closure is the set of paths reachable
    over dependencies, an impact query is bounded reachability, the alias check accepts exactly the
    sets in which every alias leads directly to a rule, a difference of snapshots is exact, appending
    to a review log extends its projection.
  \<^item> The boundary: an answer envelope shows what may be shown and no more, by a specification that is
    independent of the sanitizer; parsed identifiers are canonical.
  \<^item> Round trips: the receipt of an attempt is what a later inspection or discard reads.
  \<^item> Lemmas that show where the code does not do what it means to stand in the theory of the part:
    a review that fails early blocks its retry, findings without an identity cannot be fixed, a hook
    that cannot start strands its run, a verified completion may lapse, long anchors are lost, a file
    path in the graph is ambiguous, an oversized page loses edges, a cut excerpt is not checked again.

  \<^bold>\<open>Bounds and termination.\<close> Loops over a queue recurse on a measure or on fuel that is proved to be
  enough: the closure of \<open>ArchInvalidation\<close> on the paths not yet discovered, the impact loop on the
  nodes not yet seen, the paging of manifests on the rows left. The limits of the code (packet sizes,
  16 ports, 64 hook arguments, timeouts of a hook between one second and fifteen minutes, byte limits
  of answers, page sizes) are constants with the values of the source.

  \<^bold>\<open>Not modelled.\<close>

  \<^item> The processes of the models and of hooks, and the tools that prompt them
    (\<open>commands/review.rs\<close> in part, \<open>agent_terminal.rs\<close>): output of other programs; their answers are
    arguments.
  \<^item> Scope discovery and Git change resolution (\<open>evidence_scope.rs\<close>, \<open>trex_preview.rs\<close>): walks over
    the file system; the discovered plan is an argument of the local check.
  \<^item> The database schema, its migrations and the row access of \<open>db/queries.rs\<close>, except for the
    constraints above: text of SQL statements.
  \<^item> The archaeology stages (\<open>graph.rs\<close>, \<open>deterministic_rules.rs\<close>, \<open>lifecycle_store.rs\<close>,
    \<open>synthesis_runtime.rs\<close>, what \<open>invalidation_store.rs\<close> clones, and others): large SQL over facts,
    rules and evidence; a parameter of the job engine.
  \<^item> Building, storing and analysing graphs, the ranked search and the weighted shortest path, which
    compute with floating point numbers; the history graph (\<open>commands/history.rs\<close>,
    \<open>commands/history_graph\<close>).
  \<^item> The validation of tool arguments, the dispatch to queries, the asynchronous runtime and the
    access audit of the MCP server.
  \<^item> The command line (\<open>bin/codevetter.rs\<close>), the terminal user interface and the desktop shell: input
    and output around the functions modelled here.
\<close>

end
